(* ===== verification/Prelude.thy ===== *)
theory Prelude
  imports Main "HOL-Library.Word"
begin

text \<open>
  The vocabulary every component of the development shares: bytes and Go strings, the outcome
  of a Go call (a value, a returned \<open>error\<close>, or a run-time panic), computations that thread a
  state and keep it even when they fail, and the decimal and hexadecimal formatting that
  \<open>fmt.Sprintf\<close> and \<open>strconv.Atoi\<close> do for the code.
\<close>

named_theorems go_simps \<open>unfolding rules of the computation combinators\<close>
named_theorems keeps_intros \<open>rules that an operation keeps a state predicate\<close>

section \<open>Bytes and strings\<close>

type_synonym byte = "8 word"
type_synonym bytes = "byte list"

text \<open>
  A Go string is a sequence of bytes; it is a HOL \<open>string\<close>, whose characters are bytes too, and
  the two conversions \<open>string(b)\<close> and \<open>[]byte(s)\<close> are inverse to each other.
\<close>

definition byte_of_char :: "char \<Rightarrow> byte" where
  "byte_of_char c = word_of_nat (of_char c)"

definition char_of_byte :: "byte \<Rightarrow> char" where
  "char_of_byte b = char_of (unat b)"

definition bytes_of_string :: "string \<Rightarrow> bytes" where
  "bytes_of_string s = map byte_of_char s"

definition string_of_bytes :: "bytes \<Rightarrow> string" where
  "string_of_bytes bs = map char_of_byte bs"

lemma char_of_byte_of_char [simp]: "char_of_byte (byte_of_char c) = c"
proof -
  have "of_char c < (256::nat)"
    using range_nat_of_char by (metis lessThan_iff atLeastLessThan_iff rangeI)
  then show ?thesis
    by (simp add: char_of_byte_def byte_of_char_def unsigned_of_nat take_bit_eq_mod)
qed

lemma byte_of_char_of_byte [simp]: "byte_of_char (char_of_byte b) = b"
proof -
  have "unat b < 256" using unsigned_less [of b] by simp
  then have "of_char (char_of (unat b) :: char) = unat b"
    by (simp add: of_char_of take_bit_eq_mod)
  then show ?thesis by (simp add: char_of_byte_def byte_of_char_def)
qed

lemma string_of_bytes_of_string [simp]: "string_of_bytes (bytes_of_string s) = s"
  by (simp add: string_of_bytes_def bytes_of_string_def map_idI)

lemma bytes_of_string_of_bytes [simp]: "bytes_of_string (string_of_bytes bs) = bs"
  by (simp add: string_of_bytes_def bytes_of_string_def map_idI)

lemma length_bytes_of_string [simp]: "length (bytes_of_string s) = length s"
  by (simp add: bytes_of_string_def)

lemma length_string_of_bytes [simp]: "length (string_of_bytes bs) = length bs"
  by (simp add: string_of_bytes_def)

lemma bytes_of_string_append [simp]:
  "bytes_of_string (s @ t) = bytes_of_string s @ bytes_of_string t"
  by (simp add: bytes_of_string_def)

lemma bytes_of_string_Nil [simp]: "bytes_of_string [] = []"
  by (simp add: bytes_of_string_def)

lemma string_of_bytes_Nil [simp]: "string_of_bytes [] = []"
  by (simp add: string_of_bytes_def)

lemma bytes_of_string_eq_iff [simp]: "bytes_of_string s = bytes_of_string t \<longleftrightarrow> s = t"
  by (metis string_of_bytes_of_string)

text \<open>A C string on the wire has no zero byte inside; its terminator is one.\<close>

definition no_nul :: "string \<Rightarrow> bool" where
  "no_nul s \<longleftrightarrow> 0 \<notin> set (bytes_of_string s)"

lemma no_nul_Nil [simp]: "no_nul []"
  by (simp add: no_nul_def)

section \<open>Outcomes of a Go call\<close>

text \<open>
  A call returns a value, returns a non-nil \<open>error\<close>, or panics. A panic is not recovered
  anywhere in the repository, so it ends the whole process; the last constructor is the
  \<open>sync\<close> package's fatal error, which cannot be recovered at all.
\<close>

datatype go_panic =
    IndexOutOfRange
  | SliceBoundsOutOfRange
  | MakeSliceLenOutOfRange
  | NilPointerDereference
  | UnlockOfUnlockedMutex

datatype ('e, 'a) res = Ok 'a | Err 'e | Panic go_panic

definition is_panic :: "('e, 'a) res \<Rightarrow> bool" where
  "is_panic x = (case x of Panic _ \<Rightarrow> True | _ \<Rightarrow> False)"

lemma is_panic_simps [simp]:
  "\<not> is_panic (Ok a)" "\<not> is_panic (Err e)" "is_panic (Panic p)"
  by (simp_all add: is_panic_def)

section \<open>Computations with a state\<close>

text \<open>
  A Go function that works on a pointer receiver is a function from the state to its outcome
  and the state it leaves behind. The state is kept on the error path too: bytes consumed by a
  parser that fails stay consumed, and the callers go on from there.
\<close>

type_synonym ('s, 'e, 'a) gom = "'s \<Rightarrow> ('e, 'a) res \<times> 's"

definition ret :: "'a \<Rightarrow> ('s, 'e, 'a) gom" where
  "ret a s = (Ok a, s)"

definition fail :: "'e \<Rightarrow> ('s, 'e, 'a) gom" where
  "fail e s = (Err e, s)"

definition panic :: "go_panic \<Rightarrow> ('s, 'e, 'a) gom" where
  "panic p s = (Panic p, s)"

text \<open>\<open>x, err := m(); if err != nil { return nil, err }; ...\<close>\<close>

definition goseq :: "('s, 'e, 'a) gom \<Rightarrow> ('a \<Rightarrow> ('s, 'e, 'b) gom) \<Rightarrow> ('s, 'e, 'b) gom" where
  "goseq m f s = (case m s of (r, s') \<Rightarrow>
     (case r of Ok a \<Rightarrow> f a s' | Err e \<Rightarrow> (Err e, s') | Panic p \<Rightarrow> (Panic p, s')))"

text \<open>\<open>x, err := m()\<close> where the code looks at \<open>err\<close> itself.\<close>

definition gotry :: "('s, 'e, 'a) gom \<Rightarrow> ('s, 'e, 'e + 'a) gom" where
  "gotry m s = (case m s of (r, s') \<Rightarrow>
     (case r of Ok a \<Rightarrow> (Ok (Inr a), s') | Err e \<Rightarrow> (Ok (Inl e), s') | Panic p \<Rightarrow> (Panic p, s')))"

definition gets :: "('s \<Rightarrow> 'a) \<Rightarrow> ('s, 'e, 'a) gom" where
  "gets f s = (Ok (f s), s)"

definition modify :: "('s \<Rightarrow> 's) \<Rightarrow> ('s, 'e, unit) gom" where
  "modify f s = (Ok (), f s)"

definition lift_res :: "('e, 'a) res \<Rightarrow> ('s, 'e, 'a) gom" where
  "lift_res r s = (r, s)"

text \<open>A computation on a component of the state.\<close>

definition on_part ::
    "('s \<Rightarrow> 't) \<Rightarrow> ('t \<Rightarrow> 's \<Rightarrow> 's) \<Rightarrow> ('t, 'e, 'a) gom \<Rightarrow> ('s, 'e, 'a) gom" where
  "on_part get_part put_part m s = (case m (get_part s) of (r, t) \<Rightarrow> (r, put_part t s))"

text \<open>\<open>for range n\<close> that collects one value a round, and \<open>for _, x := range xs\<close>.\<close>

fun repeat_n :: "nat \<Rightarrow> ('s, 'e, 'a) gom \<Rightarrow> ('s, 'e, 'a list) gom" where
  "repeat_n 0 m = ret []"
| "repeat_n (Suc n) m = goseq m (\<lambda>a. goseq (repeat_n n m) (\<lambda>as. ret (a # as)))"

fun for_each :: "('a \<Rightarrow> ('s, 'e, unit) gom) \<Rightarrow> 'a list \<Rightarrow> ('s, 'e, unit) gom" where
  "for_each f [] = ret ()"
| "for_each f (x # xs) = goseq (f x) (\<lambda>_. for_each f xs)"

declare ret_def [go_simps] fail_def [go_simps] panic_def [go_simps] goseq_def [go_simps]
  gotry_def [go_simps] gets_def [go_simps] modify_def [go_simps] lift_res_def [go_simps]
  on_part_def [go_simps]

lemma goseq_Ok: "m s = (Ok a, s') \<Longrightarrow> goseq m f s = f a s'"
  by (simp add: goseq_def)

lemma goseq_Err: "m s = (Err e, s') \<Longrightarrow> goseq m f s = (Err e, s')"
  by (simp add: goseq_def)

lemma goseq_Panic: "m s = (Panic p, s') \<Longrightarrow> goseq m f s = (Panic p, s')"
  by (simp add: goseq_def)

lemma goseq_assoc: "goseq (goseq m f) g = goseq m (\<lambda>a. goseq (f a) g)"
  by (rule ext) (simp add: goseq_def split: prod.splits res.splits)

lemma goseq_ret_left [simp]: "goseq (ret a) f = f a"
  by (rule ext) (simp add: goseq_def ret_def)

lemma goseq_ret_right [simp]: "goseq m ret = m"
  by (rule ext) (simp add: goseq_def ret_def split: prod.splits res.splits)

lemma goseq_OkD:
  assumes "goseq m f s = (Ok b, s'')"
  obtains a s' where "m s = (Ok a, s')" and "f a s' = (Ok b, s'')"
  using assms by (auto simp: goseq_def split: prod.splits res.splits)

section \<open>State predicates that computations keep\<close>

definition keeps :: "('s \<Rightarrow> bool) \<Rightarrow> ('s, 'e, 'a) gom \<Rightarrow> bool" where
  "keeps I m \<longleftrightarrow> (\<forall>s. I s \<longrightarrow> I (snd (m s)))"

lemma keepsI: "(\<And>s. I s \<Longrightarrow> I (snd (m s))) \<Longrightarrow> keeps I m"
  by (simp add: keeps_def)

lemma keepsD: "keeps I m \<Longrightarrow> I s \<Longrightarrow> m s = (r, s') \<Longrightarrow> I s'"
  by (metis keeps_def snd_conv)

lemma keeps_ret [keeps_intros]: "keeps I (ret a)"
  by (simp add: keeps_def ret_def)

lemma keeps_fail [keeps_intros]: "keeps I (fail e)"
  by (simp add: keeps_def fail_def)

lemma keeps_panic [keeps_intros]: "keeps I (panic p)"
  by (simp add: keeps_def panic_def)

lemma keeps_gets [keeps_intros]: "keeps I (gets f)"
  by (simp add: keeps_def gets_def)

lemma keeps_lift_res [keeps_intros]: "keeps I (lift_res r)"
  by (simp add: keeps_def lift_res_def)

lemma keeps_goseq [keeps_intros]:
  assumes m: "keeps I m" and f: "\<And>a. keeps I (f a)"
  shows "keeps I (goseq m f)"
proof (rule keepsI)
  fix s assume "I s"
  obtain r s' where ms: "m s = (r, s')" by fastforce
  with m \<open>I s\<close> have "I s'" by (rule keepsD)
  then show "I (snd (goseq m f s))"
    using f by (cases r) (simp_all add: goseq_def ms keeps_def)
qed

lemma keeps_gotry [keeps_intros]:
  assumes m: "keeps I m"
  shows "keeps I (gotry m)"
proof (rule keepsI)
  fix s assume "I s"
  obtain r s' where ms: "m s = (r, s')" by fastforce
  with m \<open>I s\<close> have "I s'" by (rule keepsD)
  then show "I (snd (gotry m s))" by (cases r) (simp_all add: gotry_def ms)
qed

lemma keeps_if [keeps_intros]: "keeps I m \<Longrightarrow> keeps I n \<Longrightarrow> keeps I (if b then m else n)"
  by simp

lemma keeps_repeat_n [keeps_intros]: "keeps I m \<Longrightarrow> keeps I (repeat_n n m)"
  by (induction n) (auto intro!: keeps_intros)

lemma keeps_for_each [keeps_intros]: "(\<And>x. keeps I (f x)) \<Longrightarrow> keeps I (for_each f xs)"
  by (induction xs) (auto intro!: keeps_intros)

section \<open>Formatting of integers\<close>

definition digit_char :: "nat \<Rightarrow> char" where
  "digit_char d = char_of (48 + d)"

fun show_nat :: "nat \<Rightarrow> string" where
  "show_nat n = (if n < 10 then [digit_char n] else show_nat (n div 10) @ [digit_char (n mod 10)])"

declare show_nat.simps [simp del]

text \<open>\<open>%d\<close>\<close>

definition show_int :: "int \<Rightarrow> string" where
  "show_int i = (if i < 0 then ''-'' @ show_nat (nat (- i)) else show_nat (nat i))"

text \<open>\<open>%02X\<close> of a byte\<close>

definition hex_digit :: "nat \<Rightarrow> char" where
  "hex_digit d = (if d < 10 then char_of (48 + d) else char_of (55 + d))"

definition show_hex2 :: "byte \<Rightarrow> string" where
  "show_hex2 b = [hex_digit (unat b div 16), hex_digit (unat b mod 16)]"

text \<open>
  \<open>strconv.Atoi\<close>: an optional sign, then at least one digit and nothing else, and the value in
  the range of \<open>int\<close>, which has 64 bits on the platforms the code is built for.
\<close>

definition is_digit :: "char \<Rightarrow> bool" where
  "is_digit c \<longleftrightarrow> 48 \<le> (of_char c :: nat) \<and> (of_char c :: nat) \<le> 57"

definition digit_val :: "char \<Rightarrow> nat" where
  "digit_val c = of_char c - 48"

definition read_nat :: "string \<Rightarrow> nat option" where
  "read_nat s = (if s \<noteq> [] \<and> list_all is_digit s
                 then Some (foldl (\<lambda>n c. 10 * n + digit_val c) 0 s) else None)"

definition read_int :: "string \<Rightarrow> int option" where
  "read_int s = (case s of
       [] \<Rightarrow> None
     | c # cs \<Rightarrow>
         if c = CHR ''-'' then map_option (\<lambda>n. - int n) (read_nat cs)
         else if c = CHR ''+'' then map_option int (read_nat cs)
         else map_option int (read_nat s))"

definition Atoi :: "string \<Rightarrow> int option" where
  "Atoi s = (case read_int s of
       None \<Rightarrow> None
     | Some i \<Rightarrow> if - (2 ^ 63) \<le> i \<and> i < 2 ^ 63 then Some i else None)"

lemma of_char_digit_char [simp]: "d < 10 \<Longrightarrow> (of_char (digit_char d) :: nat) = 48 + d"
  by (simp add: digit_char_def of_char_of take_bit_eq_mod)

lemma is_digit_digit_char [simp]: "d < 10 \<Longrightarrow> is_digit (digit_char d)"
  by (simp add: is_digit_def)

lemma digit_val_digit_char [simp]: "d < 10 \<Longrightarrow> digit_val (digit_char d) = d"
  by (simp add: digit_val_def)

lemma show_nat_nonempty [simp]: "show_nat n \<noteq> []"
  by (subst show_nat.simps) simp

lemma list_all_is_digit_show_nat [simp]: "list_all is_digit (show_nat n)"
  by (induction n rule: show_nat.induct) (subst show_nat.simps, simp)

lemma foldl_show_nat [simp]: "foldl (\<lambda>n c. 10 * n + digit_val c) 0 (show_nat n) = n"
  by (induction n rule: show_nat.induct) (subst show_nat.simps, simp)

lemma read_nat_show_nat [simp]: "read_nat (show_nat n) = Some n"
  by (simp add: read_nat_def)

lemma is_digit_no_sign [simp]: "is_digit c \<Longrightarrow> c \<noteq> CHR ''-'' \<and> c \<noteq> CHR ''+''"
  by (auto simp: is_digit_def)

lemma read_int_show_int [simp]: "read_int (show_int i) = Some i"
proof (cases "i < 0")
  case True
  then show ?thesis by (simp add: read_int_def show_int_def)
next
  case False
  obtain c cs where c: "show_nat (nat i) = c # cs"
    by (cases "show_nat (nat i)") simp_all
  then have "is_digit c" using list_all_is_digit_show_nat [of "nat i"] by simp
  then have "read_int (c # cs) = map_option int (read_nat (c # cs))"
    using is_digit_no_sign by (simp add: read_int_def)
  with False c show ?thesis
    using read_nat_show_nat [of "nat i"] by (simp add: show_int_def)
qed

lemma Atoi_show_int: "- (2 ^ 63) \<le> i \<Longrightarrow> i < 2 ^ 63 \<Longrightarrow> Atoi (show_int i) = Some i"
  by (simp add: Atoi_def)

end
