(* ===== verification/Go_Errors.thy ===== *)
theory Go_Errors
  imports Prelude
begin

text \<open>
  The error values of \<open>postgresql/errors/errors.go\<close>, \<open>postgresql/errors/query.go\<close>,
  \<open>postgresql/protocol/errors.go\<close> and \<open>postgresql/system/errors.go\<close>, and the few errors of
  Go's standard library that reach the code. What the program can observe of an error is its
  text (\<open>Error()\<close>, sent to the client) and which sentinels it wraps (\<open>errors.Is\<close>); an error
  value holds both.
\<close>

datatype sentinel =
    IoEOF
  | IoUnexpectedEOF
  | OsErrDeadlineExceeded
  | NetClosed
  | ProtocolErrInvalid
  | ProtocolErrNotSupported
  | ProtocolErrNotExist
  | ProtocolErrExist
  | ProtocolErrTransactionBlocked
  | ErrNotImplemented
  | ErrNotSupported
  | ErrNotExist
  | ErrExist
  | ErrNotEqual
  | ErrInvalid
  | ErrNotFound
  | SystemErrNotFound
  | AuthErrAuthrizationFailed
  | SqlParserErrEmptyQuery
  | ForeignSentinel string

datatype gerr = GoError (err_text: string) (err_chain: "sentinel list")

type_synonym 'a go = "(gerr, 'a) res"

text \<open>\<open>errors.Is(err, target)\<close>\<close>

definition errors_Is :: "gerr \<Rightarrow> sentinel \<Rightarrow> bool" where
  "errors_Is e t \<longleftrightarrow> t \<in> set (err_chain e)"

section \<open>Errors of the standard library\<close>

definition EOF :: gerr where
  "EOF = GoError ''EOF'' [IoEOF]"

definition UnexpectedEOF :: gerr where
  "UnexpectedEOF = GoError ''unexpected EOF'' [IoUnexpectedEOF]"

definition DeadlineExceeded :: gerr where
  "DeadlineExceeded = GoError ''i/o timeout'' [OsErrDeadlineExceeded]"

definition UseOfClosedConn :: gerr where
  "UseOfClosedConn = GoError ''use of closed network connection'' [NetClosed]"

section \<open>Errors of the protocol package\<close>

definition protocol_ErrInvalid_text :: string where
  "protocol_ErrInvalid_text = ''invalid''"

definition protocol_ErrNotSupported :: gerr where
  "protocol_ErrNotSupported = GoError ''not supported'' [ProtocolErrNotSupported]"

definition protocol_ErrTransactionBlocked :: gerr where
  "protocol_ErrTransactionBlocked = GoError ''transaction blocked'' [ProtocolErrTransactionBlocked]"

definition newShortMessageError :: "int \<Rightarrow> int \<Rightarrow> gerr" where
  "newShortMessageError expected actual =
     GoError (protocol_ErrInvalid_text @ '' short message : '' @ show_int actual @ '' < '' @ show_int expected)
       [ProtocolErrInvalid]"

definition newColumnTypeNotSuppotedError :: "string \<Rightarrow> gerr" where
  "newColumnTypeNotSuppotedError type_name =
     GoError (''column value type: '' @ type_name @ '' is not supported'') [ProtocolErrNotSupported]"

definition newInvalidLengthError :: "int \<Rightarrow> gerr" where
  "newInvalidLengthError v =
     GoError (show_int v @ '' is '' @ protocol_ErrInvalid_text @ '' length'') [ProtocolErrInvalid]"

definition newErrInvalidSSLRequestCode :: "32 word \<Rightarrow> gerr" where
  "newErrInvalidSSLRequestCode v =
     GoError (''SSL request code ('' @ show_int (sint v) @ '') is '' @ protocol_ErrInvalid_text)
       [ProtocolErrInvalid]"

text \<open>\<open>%c\<close> of a byte below 128 is that byte; above, it is the two-byte UTF-8 code of the rune.\<close>

definition utf8_of_byte :: "byte \<Rightarrow> string" where
  "utf8_of_byte b = (if unat b < 128 then [char_of_byte b]
     else [char_of (192 + unat b div 64), char_of (128 + unat b mod 64)])"

definition NewErrMessageNotSuppoted :: "byte \<Rightarrow> gerr" where
  "NewErrMessageNotSuppoted t =
     GoError (''message type ('' @ utf8_of_byte t @ '':'' @ show_hex2 t @ '') is not supported'')
       [ProtocolErrNotSupported]"

definition NewErrInvalidMessage :: "byte \<Rightarrow> gerr" where
  "NewErrInvalidMessage t =
     GoError (''message type ('' @ utf8_of_byte t @ '':'' @ show_hex2 t @ '') is '' @ protocol_ErrInvalid_text)
       [ProtocolErrInvalid]"

definition protocol_NewErrExist :: "string \<Rightarrow> gerr" where
  "protocol_NewErrExist v = GoError (v @ '' is exist'') [ProtocolErrExist]"

definition protocol_NewErrNotExist :: "string \<Rightarrow> gerr" where
  "protocol_NewErrNotExist v = GoError (v @ '' is not exist'') [ProtocolErrNotExist]"

definition newErrInvalidPreparedType :: "byte \<Rightarrow> gerr" where
  "newErrInvalidPreparedType bt =
     GoError (protocol_ErrInvalid_text @ '' prepared type ('' @ show_int (uint bt) @ '')'')
       [ProtocolErrInvalid]"

section \<open>Errors of the errors package\<close>

definition NewErrNotImplemented :: "string \<Rightarrow> gerr" where
  "NewErrNotImplemented msg = GoError (msg @ '' is not implemented'') [ErrNotImplemented]"

definition NewErrNotSupported :: "string \<Rightarrow> gerr" where
  "NewErrNotSupported msg = GoError (msg @ '' is not supported'') [ErrNotSupported]"

definition NewErrExist :: "string \<Rightarrow> gerr" where
  "NewErrExist v = GoError (v @ '' is exist'') [ErrExist]"

definition NewErrNotExist :: "string \<Rightarrow> gerr" where
  "NewErrNotExist v = GoError (v @ '' is not exist'') [ErrNotExist]"

definition NewErrInvalid :: "string \<Rightarrow> gerr" where
  "NewErrInvalid v = GoError (v @ '' is invalid'') [ErrInvalid]"

definition NewErrNotEqual :: "string \<Rightarrow> string \<Rightarrow> gerr" where
  "NewErrNotEqual v1 v2 = GoError (''not equal ('' @ v1 @ '' != '' @ v2 @ '') '') [ErrNotEqual]"

definition NewErrDatabaseNotExist :: "string \<Rightarrow> gerr" where
  "NewErrDatabaseNotExist v = GoError (''database ('' @ v @ '') is not exist'') [ErrNotExist]"

definition NewErrTableNotExist :: "string \<Rightarrow> gerr" where
  "NewErrTableNotExist v = GoError (''table ('' @ v @ '') is not exist'') [ErrNotExist]"

definition NewErrDatabaseExist :: "string \<Rightarrow> gerr" where
  "NewErrDatabaseExist v = GoError (''database ('' @ v @ '') is exist'') [ErrExist]"

definition NewErrTableExist :: "string \<Rightarrow> gerr" where
  "NewErrTableExist v = GoError (''table ('' @ v @ '') is exist'') [ErrExist]"

definition NewErrColumnNotExist :: "string \<Rightarrow> gerr" where
  "NewErrColumnNotExist v = GoError (''column ('' @ v @ '') is not exist'') [ErrNotExist]"

definition NewErrColumnValueNotExist :: "string \<Rightarrow> gerr" where
  "NewErrColumnValueNotExist v = GoError (''column ('' @ v @ '') value is not exist'') [ErrNotExist]"

definition NewErrGroupByColumnValueNotFound :: "string \<Rightarrow> gerr" where
  "NewErrGroupByColumnValueNotFound v =
     GoError (''group by column ('' @ v @ '') value is not found'') [ErrNotFound]"

definition NewErrColumnsNotEqual :: "int \<Rightarrow> int \<Rightarrow> gerr" where
  "NewErrColumnsNotEqual v1 v2 =
     GoError (''the number of columns ('' @ show_int v1 @ '') is not equal to the number of schema columns (''
       @ show_int v2 @ '')'') [ErrNotEqual]"

definition NewErrPreparedStatementNotExist :: "string \<Rightarrow> gerr" where
  "NewErrPreparedStatementNotExist name =
     GoError (''prepared statement ('' @ name @ '') is not exist'') [ErrNotExist]"

definition NewErrPreparedPortalNotExist :: "string \<Rightarrow> gerr" where
  "NewErrPreparedPortalNotExist name =
     GoError (''prepared portal ('' @ name @ '') is not exist'') [ErrNotExist]"

definition NewErrMultiplePreparedStatementNotSupported :: "string \<Rightarrow> gerr" where
  "NewErrMultiplePreparedStatementNotSupported query =
     GoError (''multiple prepared statement ('' @ query @ '') is not supported'') [ErrNotSupported]"

definition NewErrMultipleTableNotSupported :: "string \<Rightarrow> gerr" where
  "NewErrMultipleTableNotSupported query =
     GoError (''multiple table ('' @ query @ '') is not supported'') [ErrNotSupported]"

section \<open>Errors of the system package\<close>

definition newDataTypeNotFound :: "32 word \<Rightarrow> gerr" where
  "newDataTypeNotFound oid =
     GoError (''data type ('' @ show_int (sint oid) @ '') is not found'') [SystemErrNotFound]"

end
