(* ===== verification/Encoding.thy ===== *)
theory Encoding
  imports Go_Errors
begin

unbundle bit_operations_syntax

text \<open>
  \<open>postgresql/encoding/bytes\<close>: big-endian encodings of the fixed-width integers and floats.
  A Go \<open>intN\<close> or \<open>uintN\<close> is an N-bit word; \<open>>>\<close> is the arithmetic shift on the signed types
  (\<open>int.go\<close>) and the logical one on the unsigned types (\<open>uint.go\<close>), and a conversion to \<open>byte\<close>
  keeps the low eight bits. The decoders index the slice, so a slice that is too short panics;
  a longer one is read from its front.
\<close>

section \<open>Signed integers\<close>

definition BytesToInt64 :: "bytes \<Rightarrow> 64 word go" where
  "BytesToInt64 b = (if length b < 8 then Panic IndexOutOfRange else
     Ok (push_bit 56 (ucast (b ! 0)) OR push_bit 48 (ucast (b ! 1)) OR
         push_bit 40 (ucast (b ! 2)) OR push_bit 32 (ucast (b ! 3)) OR
         push_bit 24 (ucast (b ! 4)) OR push_bit 16 (ucast (b ! 5)) OR
         push_bit 8 (ucast (b ! 6)) OR ucast (b ! 7)))"

definition Int64ToBytes :: "64 word \<Rightarrow> bytes" where
  "Int64ToBytes v =
     [ucast (signed_drop_bit 56 v), ucast (signed_drop_bit 48 v),
      ucast (signed_drop_bit 40 v), ucast (signed_drop_bit 32 v),
      ucast (signed_drop_bit 24 v), ucast (signed_drop_bit 16 v),
      ucast (signed_drop_bit 8 v), ucast v]"

definition BytesToInt32 :: "bytes \<Rightarrow> 32 word go" where
  "BytesToInt32 b = (if length b < 4 then Panic IndexOutOfRange else
     Ok (push_bit 24 (ucast (b ! 0)) OR push_bit 16 (ucast (b ! 1)) OR
         push_bit 8 (ucast (b ! 2)) OR ucast (b ! 3)))"

definition Int32ToBytes :: "32 word \<Rightarrow> bytes" where
  "Int32ToBytes v =
     [ucast (signed_drop_bit 24 v), ucast (signed_drop_bit 16 v),
      ucast (signed_drop_bit 8 v), ucast v]"

definition BytesToInt16 :: "bytes \<Rightarrow> 16 word go" where
  "BytesToInt16 b = (if length b < 2 then Panic IndexOutOfRange else
     Ok (push_bit 8 (ucast (b ! 0)) OR ucast (b ! 1)))"

definition Int16ToBytes :: "16 word \<Rightarrow> bytes" where
  "Int16ToBytes v = [ucast (signed_drop_bit 8 v), ucast v]"

definition BytesToInt8 :: "bytes \<Rightarrow> 8 word go" where
  "BytesToInt8 b = (if length b < 1 then Panic IndexOutOfRange else Ok (b ! 0))"

definition Int8ToBytes :: "8 word \<Rightarrow> bytes" where
  "Int8ToBytes v = [v]"

section \<open>Unsigned integers\<close>

definition BytesToUint64 :: "bytes \<Rightarrow> 64 word go" where
  "BytesToUint64 b = (if length b < 8 then Panic IndexOutOfRange else
     Ok (push_bit 56 (ucast (b ! 0)) OR push_bit 48 (ucast (b ! 1)) OR
         push_bit 40 (ucast (b ! 2)) OR push_bit 32 (ucast (b ! 3)) OR
         push_bit 24 (ucast (b ! 4)) OR push_bit 16 (ucast (b ! 5)) OR
         push_bit 8 (ucast (b ! 6)) OR ucast (b ! 7)))"

definition Uint64ToBytes :: "64 word \<Rightarrow> bytes" where
  "Uint64ToBytes v =
     [ucast (drop_bit 56 v), ucast (drop_bit 48 v), ucast (drop_bit 40 v), ucast (drop_bit 32 v),
      ucast (drop_bit 24 v), ucast (drop_bit 16 v), ucast (drop_bit 8 v), ucast v]"

definition BytesToUint32 :: "bytes \<Rightarrow> 32 word go" where
  "BytesToUint32 b = (if length b < 4 then Panic IndexOutOfRange else
     Ok (push_bit 24 (ucast (b ! 0)) OR push_bit 16 (ucast (b ! 1)) OR
         push_bit 8 (ucast (b ! 2)) OR ucast (b ! 3)))"

definition Uint32ToBytes :: "32 word \<Rightarrow> bytes" where
  "Uint32ToBytes v =
     [ucast (drop_bit 24 v), ucast (drop_bit 16 v), ucast (drop_bit 8 v), ucast v]"

definition BytesToUint16 :: "bytes \<Rightarrow> 16 word go" where
  "BytesToUint16 b = (if length b < 2 then Panic IndexOutOfRange else
     Ok (push_bit 8 (ucast (b ! 0)) OR ucast (b ! 1)))"

definition Uint16ToBytes :: "16 word \<Rightarrow> bytes" where
  "Uint16ToBytes v = [ucast (drop_bit 8 v), ucast v]"

definition BytesToUint8 :: "bytes \<Rightarrow> 8 word go" where
  "BytesToUint8 b = (if length b < 1 then Panic IndexOutOfRange else Ok (b ! 0))"

definition Uint8ToBytes :: "8 word \<Rightarrow> bytes" where
  "Uint8ToBytes v = [v]"

section \<open>Floats\<close>

text \<open>
  A Go float is modelled by its IEEE-754 bit pattern, which is what \<open>math.Float32bits\<close> and
  \<open>math.Float32frombits\<close> give and take.
\<close>

datatype float32 = Float32frombits (Float32bits: "32 word")
datatype float64 = Float64frombits (Float64bits: "64 word")

definition Float32ToBytes :: "float32 \<Rightarrow> bytes" where
  "Float32ToBytes v = Uint32ToBytes (Float32bits v)"

definition Float64ToBytes :: "float64 \<Rightarrow> bytes" where
  "Float64ToBytes v = Uint64ToBytes (Float64bits v)"

definition BytesToFloat32 :: "bytes \<Rightarrow> float32 go" where
  "BytesToFloat32 b = (case BytesToUint32 b of
     Ok u \<Rightarrow> Ok (Float32frombits u) | Err e \<Rightarrow> Err e | Panic p \<Rightarrow> Panic p)"

definition BytesToFloat64 :: "bytes \<Rightarrow> float64 go" where
  "BytesToFloat64 b = (case BytesToUint64 b of
     Ok u \<Rightarrow> Ok (Float64frombits u) | Err e \<Rightarrow> Err e | Panic p \<Rightarrow> Panic p)"

section \<open>Encoded lengths\<close>

lemma length_Int64ToBytes [simp]: "length (Int64ToBytes v) = 8"
  by (simp add: Int64ToBytes_def)

lemma length_Int32ToBytes [simp]: "length (Int32ToBytes v) = 4"
  by (simp add: Int32ToBytes_def)

lemma length_Int16ToBytes [simp]: "length (Int16ToBytes v) = 2"
  by (simp add: Int16ToBytes_def)

lemma length_Int8ToBytes [simp]: "length (Int8ToBytes v) = 1"
  by (simp add: Int8ToBytes_def)

section \<open>Round trips\<close>

text \<open>
  The arithmetic and the logical shift agree on the byte that is kept: the bits they differ in
  are above the eighth.
\<close>

lemma ucast_signed_drop_bit:
  fixes v :: "'a::len word"
  assumes "k + 8 \<le> LENGTH('a)"
  shows "(ucast (signed_drop_bit k v) :: byte) = ucast (drop_bit k v)"
  by (rule bit_word_eqI) (use assms in \<open>auto simp: bit_ucast_iff bit_signed_drop_bit_iff bit_drop_bit_eq\<close>)

lemma Int64ToBytes_eq_Uint64ToBytes: "Int64ToBytes v = Uint64ToBytes v"
  by (simp add: Int64ToBytes_def Uint64ToBytes_def ucast_signed_drop_bit)

lemma Int32ToBytes_eq_Uint32ToBytes: "Int32ToBytes v = Uint32ToBytes v"
  by (simp add: Int32ToBytes_def Uint32ToBytes_def ucast_signed_drop_bit)

lemma Int16ToBytes_eq_Uint16ToBytes: "Int16ToBytes v = Uint16ToBytes v"
  by (simp add: Int16ToBytes_def Uint16ToBytes_def ucast_signed_drop_bit)

text \<open>
  One byte of a word, shifted back to its place, completes the bits below it: the step that puts
  a big-endian encoding together again.
\<close>

lemma byte_step:
  fixes v :: "'a::len word"
  assumes "k + 8 \<le> LENGTH('a)"
  shows "push_bit k (ucast (ucast (drop_bit k v) :: byte)) OR take_bit k v = take_bit (k + 8) v"
proof (rule bit_word_eqI)
  fix n assume n: "n < LENGTH('a)"
  show "bit (push_bit k (ucast (ucast (drop_bit k v) :: byte)) OR take_bit k v) n
      = bit (take_bit (k + 8) v) n"
  proof (cases "k \<le> n")
    case True
    with n show ?thesis by (auto simp: bit_simps bit_ucast_iff)
  next
    case False
    with n show ?thesis by (simp add: bit_simps)
  qed
qed

lemma byte_low: "ucast (ucast v :: byte) = take_bit 8 v"
  by (rule bit_word_eqI) (auto simp: bit_simps bit_ucast_iff)

lemma take_bit_full: "take_bit LENGTH('a) (v :: 'a::len word) = v"
  by (rule bit_word_eqI) (simp add: bit_simps)

text \<open>The other direction: the byte at a place of a decoded word is the byte that was put there.\<close>

lemma byte_part_same:
  fixes a :: byte
  assumes "k + 8 \<le> LENGTH('a::len)"
  shows "(ucast (drop_bit k (push_bit k (ucast a) :: 'a word)) :: byte) = a"
  by (rule bit_word_eqI) (use assms in \<open>auto simp: bit_simps bit_ucast_iff\<close>)

lemma byte_part_other:
  fixes a :: byte
  assumes "k + 8 \<le> LENGTH('a::len)" "j + 8 \<le> k \<or> k + 8 \<le> j"
  shows "(ucast (drop_bit k (push_bit j (ucast a) :: 'a word)) :: byte) = 0"
  by (rule bit_word_eqI)
     (use assms in \<open>auto simp: bit_simps bit_ucast_iff dest: bit_imp_le_length\<close>)

lemma ucast_or: "ucast (x OR y :: 'a::len word) = (ucast x OR ucast y :: 'b::len word)"
  by (rule bit_word_eqI) (auto simp: bit_simps bit_ucast_iff)

lemmas byte_parts = drop_bit_or ucast_or byte_part_same byte_part_other
  byte_part_other [where j = 0, simplified] byte_part_other [where k = 0, simplified]
  byte_part_same [where k = 0, simplified]

subsection \<open>Decoding what was encoded, whatever follows it\<close>

lemma BytesToUint16_Uint16ToBytes [simp]: "BytesToUint16 (Uint16ToBytes v @ bs) = Ok v"
  using take_bit_full [of v] byte_step [of 8 v]
  by (simp add: BytesToUint16_def Uint16ToBytes_def byte_low or.assoc)

lemma BytesToUint32_Uint32ToBytes [simp]: "BytesToUint32 (Uint32ToBytes v @ bs) = Ok v"
  using take_bit_full [of v] byte_step [of 8 v] byte_step [of 16 v] byte_step [of 24 v]
  by (simp add: BytesToUint32_def Uint32ToBytes_def byte_low or.assoc)

lemma BytesToUint64_Uint64ToBytes [simp]: "BytesToUint64 (Uint64ToBytes v @ bs) = Ok v"
  using take_bit_full [of v] byte_step [of 8 v] byte_step [of 16 v] byte_step [of 24 v]
    byte_step [of 32 v] byte_step [of 40 v] byte_step [of 48 v] byte_step [of 56 v]
  by (simp add: BytesToUint64_def Uint64ToBytes_def byte_low or.assoc)

lemma BytesToInt16_Int16ToBytes [simp]: "BytesToInt16 (Int16ToBytes v @ bs) = Ok v"
  using BytesToUint16_Uint16ToBytes [of v bs]
  by (simp add: Int16ToBytes_eq_Uint16ToBytes BytesToInt16_def BytesToUint16_def)

lemma BytesToInt32_Int32ToBytes [simp]: "BytesToInt32 (Int32ToBytes v @ bs) = Ok v"
  using BytesToUint32_Uint32ToBytes [of v bs]
  by (simp add: Int32ToBytes_eq_Uint32ToBytes BytesToInt32_def BytesToUint32_def)

lemma BytesToInt64_Int64ToBytes [simp]: "BytesToInt64 (Int64ToBytes v @ bs) = Ok v"
  using BytesToUint64_Uint64ToBytes [of v bs]
  by (simp add: Int64ToBytes_eq_Uint64ToBytes BytesToInt64_def BytesToUint64_def)

lemmas decode_encoded [simp] =
  BytesToInt16_Int16ToBytes [where bs = "[]", simplified]
  BytesToInt32_Int32ToBytes [where bs = "[]", simplified]
  BytesToInt64_Int64ToBytes [where bs = "[]", simplified]
  BytesToUint16_Uint16ToBytes [where bs = "[]", simplified]
  BytesToUint32_Uint32ToBytes [where bs = "[]", simplified]
  BytesToUint64_Uint64ToBytes [where bs = "[]", simplified]

lemma BytesToInt8_Int8ToBytes [simp]: "BytesToInt8 (Int8ToBytes v @ bs) = Ok v"
  by (simp add: BytesToInt8_def Int8ToBytes_def)

lemma BytesToUint8_Uint8ToBytes [simp]: "BytesToUint8 (Uint8ToBytes v @ bs) = Ok v"
  by (simp add: BytesToUint8_def Uint8ToBytes_def)

text \<open>
  encoding a fixed-width integer or float and decoding the bytes gives the value back, for
  every value of every width and signedness; in particular the arithmetic shifts of the signed
  encoders lose nothing on negative values.
\<close>

theorem encode_decode_round_trip:
  "BytesToInt64 (Int64ToBytes i64) = Ok i64 \<and> BytesToInt32 (Int32ToBytes i32) = Ok i32 \<and>
   BytesToInt16 (Int16ToBytes i16) = Ok i16 \<and> BytesToInt8 (Int8ToBytes i8) = Ok i8 \<and>
   BytesToUint64 (Uint64ToBytes u64) = Ok u64 \<and> BytesToUint32 (Uint32ToBytes u32) = Ok u32 \<and>
   BytesToUint16 (Uint16ToBytes u16) = Ok u16 \<and> BytesToUint8 (Uint8ToBytes u8) = Ok u8 \<and>
   BytesToFloat32 (Float32ToBytes f32) = Ok f32 \<and> BytesToFloat64 (Float64ToBytes f64) = Ok f64"
  using BytesToInt8_Int8ToBytes [of i8 "[]"] BytesToUint8_Uint8ToBytes [of u8 "[]"]
  by (simp add: BytesToFloat32_def BytesToFloat64_def Float32ToBytes_def Float64ToBytes_def)

subsection \<open>Encoding what was decoded\<close>

lemma Uint16ToBytes_decoded:
  assumes "length b = 2" shows "\<exists>v. BytesToUint16 b = Ok v \<and> Uint16ToBytes v = b"
proof -
  obtain x0 x1 where "b = [x0, x1]"
    using assms by (auto simp: length_Suc_conv numeral_eq_Suc)
  then show ?thesis by (simp add: BytesToUint16_def Uint16ToBytes_def byte_parts)
qed

lemma Uint32ToBytes_decoded:
  assumes "length b = 4" shows "\<exists>v. BytesToUint32 b = Ok v \<and> Uint32ToBytes v = b"
proof -
  obtain x0 x1 x2 x3 where "b = [x0, x1, x2, x3]"
    using assms by (auto simp: length_Suc_conv numeral_eq_Suc)
  then show ?thesis by (simp add: BytesToUint32_def Uint32ToBytes_def byte_parts)
qed

lemma Uint64ToBytes_decoded:
  assumes "length b = 8" shows "\<exists>v. BytesToUint64 b = Ok v \<and> Uint64ToBytes v = b"
proof -
  obtain x0 x1 x2 x3 x4 x5 x6 x7 where "b = [x0, x1, x2, x3, x4, x5, x6, x7]"
    using assms by (auto simp: length_Suc_conv numeral_eq_Suc)
  then show ?thesis by (simp add: BytesToUint64_def Uint64ToBytes_def byte_parts)
qed

lemma short_slice_panics:
  "length b < 8 \<Longrightarrow> BytesToInt64 b = Panic IndexOutOfRange"
  "length b < 4 \<Longrightarrow> BytesToInt32 b = Panic IndexOutOfRange"
  "length b < 2 \<Longrightarrow> BytesToInt16 b = Panic IndexOutOfRange"
  by (simp_all add: BytesToInt64_def BytesToInt32_def BytesToInt16_def)

lemma exact_slice_decodes:
  "length b = 8 \<Longrightarrow> \<exists>v. BytesToInt64 b = Ok v \<and> Int64ToBytes v = b"
  "length b = 4 \<Longrightarrow> \<exists>v. BytesToInt32 b = Ok v \<and> Int32ToBytes v = b"
  "length b = 2 \<Longrightarrow> \<exists>v. BytesToInt16 b = Ok v \<and> Int16ToBytes v = b"
  using Uint64ToBytes_decoded [of b] Uint32ToBytes_decoded [of b] Uint16ToBytes_decoded [of b]
  by (simp_all add: BytesToInt64_def BytesToUint64_def BytesToInt32_def BytesToUint32_def
      BytesToInt16_def BytesToUint16_def Int64ToBytes_eq_Uint64ToBytes
      Int32ToBytes_eq_Uint32ToBytes Int16ToBytes_eq_Uint16ToBytes)

text \<open>
  the decoders are onto and lossless: every slice of the exact width decodes to a value whose
  encoding is that slice, and a shorter slice panics instead of yielding a value.
\<close>

theorem decode_encode_round_trip:
  "(if length b < 8 then BytesToInt64 b = Panic IndexOutOfRange
    else \<exists>v. BytesToInt64 b = Ok v \<and> Int64ToBytes v = take 8 b) \<and>
   (if length b < 4 then BytesToInt32 b = Panic IndexOutOfRange
    else \<exists>v. BytesToInt32 b = Ok v \<and> Int32ToBytes v = take 4 b) \<and>
   (if length b < 2 then BytesToInt16 b = Panic IndexOutOfRange
    else \<exists>v. BytesToInt16 b = Ok v \<and> Int16ToBytes v = take 2 b)"
proof (intro conjI)
  show "if length b < 8 then BytesToInt64 b = Panic IndexOutOfRange
    else \<exists>v. BytesToInt64 b = Ok v \<and> Int64ToBytes v = take 8 b"
    using exact_slice_decodes(1) [of "take 8 b"]
    by (cases "length b < 8") (simp_all add: BytesToInt64_def)
  show "if length b < 4 then BytesToInt32 b = Panic IndexOutOfRange
    else \<exists>v. BytesToInt32 b = Ok v \<and> Int32ToBytes v = take 4 b"
    using exact_slice_decodes(2) [of "take 4 b"]
    by (cases "length b < 4") (simp_all add: BytesToInt32_def)
  show "if length b < 2 then BytesToInt16 b = Panic IndexOutOfRange
    else \<exists>v. BytesToInt16 b = Ok v \<and> Int16ToBytes v = take 2 b"
    using exact_slice_decodes(3) [of "take 2 b"]
    by (cases "length b < 2") (simp_all add: BytesToInt16_def)
qed

end
