(* ===== verification/Go_Values.thy ===== *)
theory Go_Values
  imports Encoding
begin

text \<open>
  The dynamic values (\<open>any\<close>) that pass through bind parameters, data rows and the executors: one
  constructor for every Go type the code distinguishes in a type switch, and one for the rest.
  A byte slice may be nil, which is not the empty slice. \<open>time.Time\<close> is its civil date and time.
\<close>

record gotime =
  t_year :: nat
  t_month :: nat
  t_day :: nat
  t_hour :: nat
  t_minute :: nat
  t_second :: nat

datatype go_value =
    VNil
  | VBool bool
  | VInt8 "8 word"
  | VInt16 "16 word"
  | VInt32 "32 word"
  | VInt64 "64 word"
  | VInt "64 word"
  | VFloat32 float32
  | VFloat64 float64
  | VString string
  | VBytes "bytes option"
  | VTime gotime
  | VOther string string \<comment> \<open>a value of another type: the type's name and its text\<close>

text \<open>\<open>len\<close> and the contents of a byte slice that may be nil\<close>

definition slice_bytes :: "bytes option \<Rightarrow> bytes" where
  "slice_bytes b = (case b of None \<Rightarrow> [] | Some bs \<Rightarrow> bs)"

text \<open>\<open>%T\<close>\<close>

definition go_type_name :: "go_value \<Rightarrow> string" where
  "go_type_name v = (case v of
       VNil \<Rightarrow> ''<nil>'' | VBool _ \<Rightarrow> ''bool'' | VInt8 _ \<Rightarrow> ''int8'' | VInt16 _ \<Rightarrow> ''int16''
     | VInt32 _ \<Rightarrow> ''int32'' | VInt64 _ \<Rightarrow> ''int64'' | VInt _ \<Rightarrow> ''int'' | VFloat32 _ \<Rightarrow> ''float32''
     | VFloat64 _ \<Rightarrow> ''float64'' | VString _ \<Rightarrow> ''string'' | VBytes _ \<Rightarrow> ''[]uint8''
     | VTime _ \<Rightarrow> ''time.Time'' | VOther t _ \<Rightarrow> t)"

section \<open>Format codes\<close>

type_synonym format_code = "16 word"

definition TextFormat :: format_code where "TextFormat = 0"
definition BinaryFormat :: format_code where "BinaryFormat = 1"

lemma format_codes_distinct [simp]: "TextFormat \<noteq> BinaryFormat"
  by (simp add: TextFormat_def BinaryFormat_def)

text \<open>
  \<open>time.Format("2006-01-02 15:04:05")\<close>: the year in at least four digits, the other fields in two.
\<close>

definition pad :: "nat \<Rightarrow> nat \<Rightarrow> string" where
  "pad w n = replicate (w - length (show_nat n)) (CHR ''0'') @ show_nat n"

definition Format_Timestamp :: "gotime \<Rightarrow> string" where
  "Format_Timestamp t = pad 4 (t_year t) @ ''-'' @ pad 2 (t_month t) @ ''-'' @ pad 2 (t_day t) @
     '' '' @ pad 2 (t_hour t) @ '':'' @ pad 2 (t_minute t) @ '':'' @ pad 2 (t_second t)"

end
