(* ===== verification/System_Types.thy ===== *)
theory System_Types
  imports Go_Values
begin

text \<open>
  The type system: \<open>system/oid.go\<close> and \<open>system/data_type.go\<close> (the object ids and the table of data
  types), \<open>system/format.go\<close>, and \<open>query/data_type.go\<close>, which maps the data types of the SQL parser
  package to them. The tables are transcribed entry by entry.
\<close>

named_theorems object_ids \<open>the object ids the code names\<close>

section \<open>Object ids\<close>

type_synonym ObjectID = "32 word"

definition oid_Int8 :: ObjectID where [object_ids]: "oid_Int8 = 20"
definition oid_Bytea :: ObjectID where [object_ids]: "oid_Bytea = 17"
definition oid_Bit :: ObjectID where [object_ids]: "oid_Bit = 1560"
definition oid_Bool :: ObjectID where [object_ids]: "oid_Bool = 16"
definition oid_Char :: ObjectID where [object_ids]: "oid_Char = 18"
definition oid_Varchar :: ObjectID where [object_ids]: "oid_Varchar = 1043"
definition oid_Date :: ObjectID where [object_ids]: "oid_Date = 1082"
definition oid_Float8 :: ObjectID where [object_ids]: "oid_Float8 = 701"
definition oid_Float4 :: ObjectID where [object_ids]: "oid_Float4 = 700"
definition oid_Int4 :: ObjectID where [object_ids]: "oid_Int4 = 23"
definition oid_Text :: ObjectID where [object_ids]: "oid_Text = 25"
definition oid_Int2 :: ObjectID where [object_ids]: "oid_Int2 = 21"
definition oid_Time :: ObjectID where [object_ids]: "oid_Time = 1083"
definition oid_Timestamp :: ObjectID where [object_ids]: "oid_Timestamp = 1114"

text \<open>All object ids of \<open>oid.go\<close>, with the names of their constants.\<close>

definition objectIDs_1 :: "(string \<times> ObjectID) list" where
  "objectIDs_1 = [
     (''Bool'', 16), (''Bytea'', 17), (''Char'', 18),
     (''Name'', 19), (''Int8'', 20), (''Int2'', 21),
     (''Int2vector'', 22), (''Int4'', 23), (''Regproc'', 24),
     (''Text'', 25), (''Oid'', 26), (''Tid'', 27),
     (''Xid'', 28), (''Cid'', 29), (''Oidvector'', 30),
     (''PgType'', 71), (''PgAttribute'', 75), (''PgProc'', 81),
     (''PgClass'', 83), (''JSON'', 114), (''XML'', 142),
     (''PgNodeTree'', 194), (''PgNdistinct'', 3361), (''PgDependencies'', 3402),
     (''PgMcvList'', 5017), (''PgDdlCommand'', 32), (''Xid8'', 5069),
     (''Point'', 600), (''Lseg'', 601), (''Path'', 602),
     (''Box'', 603), (''Polygon'', 604), (''Line'', 628),
     (''Float4'', 700), (''Float8'', 701), (''Unknown'', 705),
     (''Circle'', 718), (''Money'', 790), (''Macaddr'', 829),
     (''Inet'', 869), (''Cidr'', 650), (''Macaddr8'', 774),
     (''ACLitem'', 1033), (''Bpchar'', 1042), (''Varchar'', 1043),
     (''Date'', 1082), (''Time'', 1083), (''Timestamp'', 1114),
     (''Timestamptz'', 1184), (''Interval'', 1186), (''Timetz'', 1266),
     (''Bit'', 1560), (''Varbit'', 1562), (''Numeric'', 1700),
     (''Refcursor'', 1790), (''Regprocedure'', 2202), (''Regoper'', 2203),
     (''Regoperator'', 2204), (''Regclass'', 2205), (''Regcollation'', 4191),
     (''Regtype'', 2206), (''Regrole'', 4096), (''Regnamespace'', 4089),
     (''UUID'', 2950), (''PgLsn'', 3220), (''TSvector'', 3614),
     (''Gtsvector'', 3642), (''TSquery'', 3615), (''Regconfig'', 3734),
     (''Regdictionary'', 3769), (''JSONb'', 3802), (''JSONpath'', 4072),
     (''TxidSnapshot'', 2970), (''PgSnapshot'', 5038), (''Int4range'', 3904),
     (''Numrange'', 3906), (''TSrange'', 3908), (''TStzrange'', 3910),
     (''Daterange'', 3912), (''Int8range'', 3926), (''Int4multirange'', 4451),
     (''Nummultirange'', 4532), (''TSmultirange'', 4533), (''TStzmultirange'', 4534),
     (''Datemultirange'', 4535), (''Int8multirange'', 4536), (''Record'', 2249),
     (''Cstring'', 2275), (''Any'', 2276), (''Anyarray'', 2277),
     (''Void'', 2278), (''Trigger'', 2279), (''EventTrigger'', 3838),
     (''LanguageHandler'', 2280), (''Internal'', 2281), (''Anyelement'', 2283),
     (''Anynonarray'', 2776), (''Anyenum'', 3500), (''FdwHandler'', 3115),
     (''IndexAmHandler'', 325), (''TSmHandler'', 3310), (''TableAmHandler'', 269),
     (''Anyrange'', 3831), (''Anycompatible'', 5077)]"

definition objectIDs_2 :: "(string \<times> ObjectID) list" where
  "objectIDs_2 = [
     (''Anycompatiblearray'', 5078), (''Anycompatiblenonarray'', 5079), (''Anycompatiblerange'', 5080),
     (''Anymultirange'', 4537), (''Anycompatiblemultirange'', 4538), (''PgBrinBloomSummary'', 4600),
     (''PgBrinMinmaxMultiSummary'', 4601), (''PgAttrdef'', 12001), (''PgConstraint'', 12003),
     (''PgInherits'', 12005), (''PgIndex'', 12007), (''PgOperator'', 12009),
     (''PgOpfamily'', 12011), (''PgOpclass'', 12013), (''PgAm'', 12015),
     (''PgAmop'', 12017), (''PgAmproc'', 12019), (''PgLanguage'', 12021),
     (''PgLargeobjectMetadata'', 12023), (''PgLargeobject'', 12025), (''PgAggregate'', 12027),
     (''PgStatistic'', 12029), (''PgStatisticExt'', 12031), (''PgStatisticExtData'', 12033),
     (''PgRewrite'', 12035), (''PgTrigger'', 12037), (''PgEventTrigger'', 12039),
     (''PgDescription'', 12041), (''PgCast'', 12043), (''PgEnum'', 12045),
     (''PgNamespace'', 12047), (''PgConversion'', 12049), (''PgDepend'', 12051),
     (''PgDatabase'', 1248), (''PgDBRoleSetting'', 12054), (''PgTablespace'', 12056),
     (''PgAuthid'', 2842), (''PgAuthMembers'', 2843), (''PgShdepend'', 12060),
     (''PgShdescription'', 12062), (''PgTSConfig'', 12064), (''PgTSConfigMap'', 12066),
     (''PgTSDict'', 12068), (''PgTSParser'', 12070), (''PgTSTemplate'', 12072),
     (''PgExtension'', 12074), (''PgForeignDataWrapper'', 12076), (''PgForeignServer'', 12078),
     (''PgUserMapping'', 12080), (''PgForeignTable'', 12082), (''PgPolicy'', 12084),
     (''PgReplicationOrigin'', 12086), (''PgDefaultACL'', 12088), (''PgInitPrivs'', 12090),
     (''PgSeclabel'', 12092), (''PgShseclabel'', 4066), (''PgCollation'', 12095),
     (''PgPartitionedTable'', 12097), (''PgRange'', 12099), (''PgTransform'', 12101),
     (''PgSequence'', 12103), (''PgPublication'', 12105), (''PgPublicationRel'', 12107),
     (''PgSubscription'', 6101), (''PgSubscriptionRel'', 12110), (''PgRoles'', 12219),
     (''PgShadow'', 12224), (''PgGroup'', 12229), (''PgUser'', 12233),
     (''PgPolicies'', 12237), (''PgRules'', 12242), (''PgViews'', 12247),
     (''PgTables'', 12252), (''PgMatviews'', 12257), (''PgIndexes'', 12262),
     (''PgSequences'', 12267), (''PgStats'', 12272), (''PgStatsExt'', 12277),
     (''PgStatsExtExprs'', 12282), (''PgPublicationTables'', 12287), (''PgLocks'', 12292),
     (''PgCursors'', 12296), (''PgAvailableExtensions'', 12300), (''PgAvailableExtensionVersions'', 12304),
     (''PgPreparedXacts'', 12309), (''PgPreparedStatements'', 12314), (''PgSeclabels'', 12318),
     (''PgSettings'', 12323), (''PgFileSettings'', 12329), (''PgHbaFileRules'', 12333),
     (''PgTimezoneAbbrevs'', 12337), (''PgTimezoneNames'', 12341), (''PgConfig'', 12345),
     (''PgShmemAllocations'', 12349), (''PgBackendMemoryContexts'', 12353), (''PgStatAllTables'', 12357),
     (''PgStatXactAllTables'', 12362), (''PgStatSysTables'', 12367), (''PgStatXactSysTables'', 12372),
     (''PgStatUserTables'', 12376), (''PgStatXactUserTables'', 12381), (''PgStatioAllTables'', 12385),
     (''PgStatioSysTables'', 12390), (''PgStatioUserTables'', 12394)]"

definition objectIDs_3 :: "(string \<times> ObjectID) list" where
  "objectIDs_3 = [
     (''PgStatAllIndexes'', 12398), (''PgStatSysIndexes'', 12403), (''PgStatUserIndexes'', 12407),
     (''PgStatioAllIndexes'', 12411), (''PgStatioSysIndexes'', 12416), (''PgStatioUserIndexes'', 12420),
     (''PgStatioAllSequences'', 12424), (''PgStatioSysSequences'', 12429), (''PgStatioUserSequences'', 12433),
     (''PgStatActivity'', 12437), (''PgStatReplication'', 12442), (''PgStatSlru'', 12447),
     (''PgStatWalReceiver'', 12451), (''PgStatSubscription'', 12455), (''PgStatSsl'', 12460),
     (''PgStatGssapi'', 12464), (''PgReplicationSlots'', 12468), (''PgStatReplicationSlots'', 12473),
     (''PgStatDatabase'', 12477), (''PgStatDatabaseConflicts'', 12482), (''PgStatUserFunctions'', 12486),
     (''PgStatXactUserFunctions'', 12491), (''PgStatArchiver'', 12496), (''PgStatBgwriter'', 12500),
     (''PgStatWal'', 12504), (''PgStatProgressAnalyze'', 12508), (''PgStatProgressVacuum'', 12513),
     (''PgStatProgressCluster'', 12518), (''PgStatProgressCreateIndex'', 12523), (''PgStatProgressBasebackup'', 12528),
     (''PgStatProgressCopy'', 12533), (''PgUserMappings'', 12538), (''PgReplicationOriginStatus'', 12543),
     (''CardinalNumber'', 13690), (''CharacterData'', 13693), (''SQLIdentifier'', 13695),
     (''InformationSchemaCatalogName'', 13698), (''TimeStamp'', 13701), (''YesOrNo'', 13703),
     (''ApplicableRoles'', 13707), (''AdministrableRoleAuthorizations'', 13712), (''Attributes'', 13716),
     (''CharacterSets'', 13721), (''CheckConstraintRoutineUsage'', 13726), (''CheckConstraints'', 13731),
     (''Collations'', 13736), (''CollationCharacterSetApplicability'', 13741), (''ColumnColumnUsage'', 13746),
     (''ColumnDomainUsage'', 13751), (''ColumnPrivileges'', 13756), (''ColumnUdtUsage'', 13761),
     (''Columns'', 13766), (''ConstraintColumnUsage'', 13771), (''ConstraintTableUsage'', 13776),
     (''DomainConstraints'', 13781), (''DomainUdtUsage'', 13786), (''Domains'', 13791),
     (''EnabledRoles'', 13796), (''KeyColumnUsage'', 13800), (''Parameters'', 13805),
     (''ReferentialConstraints'', 13810), (''RoleColumnGrants'', 13815), (''RoutineColumnUsage'', 13819),
     (''RoutinePrivileges'', 13824), (''RoleRoutineGrants'', 13829), (''RoutineRoutineUsage'', 13833),
     (''RoutineSequenceUsage'', 13838), (''RoutineTableUsage'', 13843), (''Routines'', 13848),
     (''Schemata'', 13853), (''Sequences'', 13857), (''SQLFeatures'', 13862),
     (''SQLImplementationInfo'', 13867), (''SQLParts'', 13872), (''SQLSizing'', 13877),
     (''TableConstraints'', 13882), (''TablePrivileges'', 13887), (''RoleTableGrants'', 13892),
     (''Tables'', 13896), (''Transforms'', 13901), (''TriggeredUpdateColumns'', 13906),
     (''Triggers'', 13911), (''UdtPrivileges'', 13916), (''RoleUdtGrants'', 13921),
     (''UsagePrivileges'', 13925), (''RoleUsageGrants'', 13930), (''UserDefinedTypes'', 13934),
     (''ViewColumnUsage'', 13939), (''ViewRoutineUsage'', 13944), (''ViewTableUsage'', 13949),
     (''Views'', 13954), (''DataTypePrivileges'', 13959), (''ElementTypes'', 13964),
     (''ColumnOptions'', 13974), (''ForeignDataWrapperOptions'', 13982), (''ForeignDataWrappers'', 13986),
     (''ForeignServerOptions'', 13995), (''ForeignServers'', 13999), (''ForeignTableOptions'', 14008),
     (''ForeignTables'', 14012), (''UserMappingOptions'', 14021), (''UserMappings'', 14026)]"

definition objectIDs :: "(string \<times> ObjectID) list" where
  "objectIDs = objectIDs_1 @ objectIDs_2 @ objectIDs_3"

section \<open>Data types\<close>

record DataType =
  dt_name :: string
  dt_oid :: ObjectID
  dt_size :: int

definition newDataType :: "string \<Rightarrow> ObjectID \<Rightarrow> int \<Rightarrow> DataType" where
  "newDataType name oid sz = \<lparr>dt_name = name, dt_oid = oid, dt_size = sz\<rparr>"

text \<open>The assignments of \<open>init\<close>, in their order; a later one to the same key would win.\<close>

definition init_dataTypes_1 :: "(ObjectID \<times> DataType) list" where
  "init_dataTypes_1 = [
     (16, newDataType ''Bool'' 16 1), (17, newDataType ''Bytea'' 17 (- 1)),
     (18, newDataType ''Char'' 18 1), (19, newDataType ''Name'' 19 64),
     (20, newDataType ''Int8'' 20 8), (21, newDataType ''Int2'' 21 2),
     (22, newDataType ''Int2vector'' 22 (- 1)), (23, newDataType ''Int4'' 23 4),
     (24, newDataType ''Regproc'' 24 4), (25, newDataType ''Text'' 25 (- 1)),
     (26, newDataType ''Oid'' 26 4), (27, newDataType ''Tid'' 27 6),
     (28, newDataType ''Xid'' 28 4), (29, newDataType ''Cid'' 29 4),
     (30, newDataType ''Oidvector'' 30 (- 1)), (71, newDataType ''PgType'' 71 (- 1)),
     (75, newDataType ''PgAttribute'' 75 (- 1)), (81, newDataType ''PgProc'' 81 (- 1)),
     (83, newDataType ''PgClass'' 83 (- 1)), (114, newDataType ''JSON'' 114 (- 1)),
     (142, newDataType ''XML'' 142 (- 1)), (194, newDataType ''PgNodeTree'' 194 (- 1)),
     (3361, newDataType ''PgNdistinct'' 3361 (- 1)), (3402, newDataType ''PgDependencies'' 3402 (- 1)),
     (5017, newDataType ''PgMcvList'' 5017 (- 1)), (32, newDataType ''PgDdlCommand'' 32 8),
     (5069, newDataType ''Xid8'' 5069 8), (600, newDataType ''Point'' 600 16),
     (601, newDataType ''Lseg'' 601 32), (602, newDataType ''Path'' 602 (- 1)),
     (603, newDataType ''Box'' 603 32), (604, newDataType ''Polygon'' 604 (- 1)),
     (628, newDataType ''Line'' 628 24), (700, newDataType ''Float4'' 700 4),
     (701, newDataType ''Float8'' 701 8), (705, newDataType ''Unknown'' 705 (- 2)),
     (718, newDataType ''Circle'' 718 24), (790, newDataType ''Money'' 790 8),
     (829, newDataType ''Macaddr'' 829 6), (869, newDataType ''Inet'' 869 (- 1)),
     (650, newDataType ''Cidr'' 650 (- 1)), (774, newDataType ''Macaddr8'' 774 8),
     (1033, newDataType ''ACLitem'' 1033 12), (1042, newDataType ''Bpchar'' 1042 (- 1)),
     (1043, newDataType ''Varchar'' 1043 (- 1)), (1082, newDataType ''Date'' 1082 4),
     (1083, newDataType ''Time'' 1083 8), (1114, newDataType ''Timestamp'' 1114 8),
     (1184, newDataType ''Timestamptz'' 1184 8), (1186, newDataType ''Interval'' 1186 16),
     (1266, newDataType ''Timetz'' 1266 12), (1560, newDataType ''Bit'' 1560 (- 1)),
     (1562, newDataType ''Varbit'' 1562 (- 1)), (1700, newDataType ''Numeric'' 1700 (- 1)),
     (1790, newDataType ''Refcursor'' 1790 (- 1)), (2202, newDataType ''Regprocedure'' 2202 4),
     (2203, newDataType ''Regoper'' 2203 4), (2204, newDataType ''Regoperator'' 2204 4),
     (2205, newDataType ''Regclass'' 2205 4), (4191, newDataType ''Regcollation'' 4191 4),
     (2206, newDataType ''Regtype'' 2206 4), (4096, newDataType ''Regrole'' 4096 4),
     (4089, newDataType ''Regnamespace'' 4089 4), (2950, newDataType ''UUID'' 2950 16),
     (3220, newDataType ''PgLsn'' 3220 8), (3614, newDataType ''TSvector'' 3614 (- 1)),
     (3642, newDataType ''Gtsvector'' 3642 (- 1)), (3615, newDataType ''TSquery'' 3615 (- 1)),
     (3734, newDataType ''Regconfig'' 3734 4), (3769, newDataType ''Regdictionary'' 3769 4),
     (3802, newDataType ''JSONb'' 3802 (- 1)), (4072, newDataType ''JSONpath'' 4072 (- 1)),
     (2970, newDataType ''TxidSnapshot'' 2970 (- 1)), (5038, newDataType ''PgSnapshot'' 5038 (- 1)),
     (3904, newDataType ''Int4range'' 3904 (- 1)), (3906, newDataType ''Numrange'' 3906 (- 1)),
     (3908, newDataType ''TSrange'' 3908 (- 1)), (3910, newDataType ''TStzrange'' 3910 (- 1)),
     (3912, newDataType ''Daterange'' 3912 (- 1)), (3926, newDataType ''Int8range'' 3926 (- 1)),
     (4451, newDataType ''Int4multirange'' 4451 (- 1)), (4532, newDataType ''Nummultirange'' 4532 (- 1)),
     (4533, newDataType ''TSmultirange'' 4533 (- 1)), (4534, newDataType ''TStzmultirange'' 4534 (- 1)),
     (4535, newDataType ''Datemultirange'' 4535 (- 1)), (4536, newDataType ''Int8multirange'' 4536 (- 1)),
     (2249, newDataType ''Record'' 2249 (- 1)), (2275, newDataType ''Cstring'' 2275 (- 2)),
     (2276, newDataType ''Any'' 2276 4), (2277, newDataType ''Anyarray'' 2277 (- 1)),
     (2278, newDataType ''Void'' 2278 4), (2279, newDataType ''Trigger'' 2279 4),
     (3838, newDataType ''EventTrigger'' 3838 4), (2280, newDataType ''LanguageHandler'' 2280 4),
     (2281, newDataType ''Internal'' 2281 8), (2283, newDataType ''Anyelement'' 2283 4),
     (2776, newDataType ''Anynonarray'' 2776 4), (3500, newDataType ''Anyenum'' 3500 4),
     (3115, newDataType ''FdwHandler'' 3115 4), (325, newDataType ''IndexAmHandler'' 325 4),
     (3310, newDataType ''TSmHandler'' 3310 4), (269, newDataType ''TableAmHandler'' 269 4),
     (3831, newDataType ''Anyrange'' 3831 (- 1)), (5077, newDataType ''Anycompatible'' 5077 4)]"

definition init_dataTypes_2 :: "(ObjectID \<times> DataType) list" where
  "init_dataTypes_2 = [
     (5078, newDataType ''Anycompatiblearray'' 5078 (- 1)), (5079, newDataType ''Anycompatiblenonarray'' 5079 4),
     (5080, newDataType ''Anycompatiblerange'' 5080 (- 1)), (4537, newDataType ''Anymultirange'' 4537 (- 1)),
     (4538, newDataType ''Anycompatiblemultirange'' 4538 (- 1)), (4600, newDataType ''PgBrinBloomSummary'' 4600 (- 1)),
     (4601, newDataType ''PgBrinMinmaxMultiSummary'' 4601 (- 1)), (12001, newDataType ''PgAttrdef'' 12001 (- 1)),
     (12003, newDataType ''PgConstraint'' 12003 (- 1)), (12005, newDataType ''PgInherits'' 12005 (- 1)),
     (12007, newDataType ''PgIndex'' 12007 (- 1)), (12009, newDataType ''PgOperator'' 12009 (- 1)),
     (12011, newDataType ''PgOpfamily'' 12011 (- 1)), (12013, newDataType ''PgOpclass'' 12013 (- 1)),
     (12015, newDataType ''PgAm'' 12015 (- 1)), (12017, newDataType ''PgAmop'' 12017 (- 1)),
     (12019, newDataType ''PgAmproc'' 12019 (- 1)), (12021, newDataType ''PgLanguage'' 12021 (- 1)),
     (12023, newDataType ''PgLargeobjectMetadata'' 12023 (- 1)), (12025, newDataType ''PgLargeobject'' 12025 (- 1)),
     (12027, newDataType ''PgAggregate'' 12027 (- 1)), (12029, newDataType ''PgStatistic'' 12029 (- 1)),
     (12031, newDataType ''PgStatisticExt'' 12031 (- 1)), (12033, newDataType ''PgStatisticExtData'' 12033 (- 1)),
     (12035, newDataType ''PgRewrite'' 12035 (- 1)), (12037, newDataType ''PgTrigger'' 12037 (- 1)),
     (12039, newDataType ''PgEventTrigger'' 12039 (- 1)), (12041, newDataType ''PgDescription'' 12041 (- 1)),
     (12043, newDataType ''PgCast'' 12043 (- 1)), (12045, newDataType ''PgEnum'' 12045 (- 1)),
     (12047, newDataType ''PgNamespace'' 12047 (- 1)), (12049, newDataType ''PgConversion'' 12049 (- 1)),
     (12051, newDataType ''PgDepend'' 12051 (- 1)), (1248, newDataType ''PgDatabase'' 1248 (- 1)),
     (12054, newDataType ''PgDBRoleSetting'' 12054 (- 1)), (12056, newDataType ''PgTablespace'' 12056 (- 1)),
     (2842, newDataType ''PgAuthid'' 2842 (- 1)), (2843, newDataType ''PgAuthMembers'' 2843 (- 1)),
     (12060, newDataType ''PgShdepend'' 12060 (- 1)), (12062, newDataType ''PgShdescription'' 12062 (- 1)),
     (12064, newDataType ''PgTSConfig'' 12064 (- 1)), (12066, newDataType ''PgTSConfigMap'' 12066 (- 1)),
     (12068, newDataType ''PgTSDict'' 12068 (- 1)), (12070, newDataType ''PgTSParser'' 12070 (- 1)),
     (12072, newDataType ''PgTSTemplate'' 12072 (- 1)), (12074, newDataType ''PgExtension'' 12074 (- 1)),
     (12076, newDataType ''PgForeignDataWrapper'' 12076 (- 1)), (12078, newDataType ''PgForeignServer'' 12078 (- 1)),
     (12080, newDataType ''PgUserMapping'' 12080 (- 1)), (12082, newDataType ''PgForeignTable'' 12082 (- 1)),
     (12084, newDataType ''PgPolicy'' 12084 (- 1)), (12086, newDataType ''PgReplicationOrigin'' 12086 (- 1)),
     (12088, newDataType ''PgDefaultACL'' 12088 (- 1)), (12090, newDataType ''PgInitPrivs'' 12090 (- 1)),
     (12092, newDataType ''PgSeclabel'' 12092 (- 1)), (4066, newDataType ''PgShseclabel'' 4066 (- 1)),
     (12095, newDataType ''PgCollation'' 12095 (- 1)), (12097, newDataType ''PgPartitionedTable'' 12097 (- 1)),
     (12099, newDataType ''PgRange'' 12099 (- 1)), (12101, newDataType ''PgTransform'' 12101 (- 1)),
     (12103, newDataType ''PgSequence'' 12103 (- 1)), (12105, newDataType ''PgPublication'' 12105 (- 1)),
     (12107, newDataType ''PgPublicationRel'' 12107 (- 1)), (6101, newDataType ''PgSubscription'' 6101 (- 1)),
     (12110, newDataType ''PgSubscriptionRel'' 12110 (- 1)), (12219, newDataType ''PgRoles'' 12219 (- 1)),
     (12224, newDataType ''PgShadow'' 12224 (- 1)), (12229, newDataType ''PgGroup'' 12229 (- 1)),
     (12233, newDataType ''PgUser'' 12233 (- 1)), (12237, newDataType ''PgPolicies'' 12237 (- 1)),
     (12242, newDataType ''PgRules'' 12242 (- 1)), (12247, newDataType ''PgViews'' 12247 (- 1)),
     (12252, newDataType ''PgTables'' 12252 (- 1)), (12257, newDataType ''PgMatviews'' 12257 (- 1)),
     (12262, newDataType ''PgIndexes'' 12262 (- 1)), (12267, newDataType ''PgSequences'' 12267 (- 1)),
     (12272, newDataType ''PgStats'' 12272 (- 1)), (12277, newDataType ''PgStatsExt'' 12277 (- 1)),
     (12282, newDataType ''PgStatsExtExprs'' 12282 (- 1)), (12287, newDataType ''PgPublicationTables'' 12287 (- 1)),
     (12292, newDataType ''PgLocks'' 12292 (- 1)), (12296, newDataType ''PgCursors'' 12296 (- 1)),
     (12300, newDataType ''PgAvailableExtensions'' 12300 (- 1)), (12304, newDataType ''PgAvailableExtensionVersions'' 12304 (- 1)),
     (12309, newDataType ''PgPreparedXacts'' 12309 (- 1)), (12314, newDataType ''PgPreparedStatements'' 12314 (- 1)),
     (12318, newDataType ''PgSeclabels'' 12318 (- 1)), (12323, newDataType ''PgSettings'' 12323 (- 1)),
     (12329, newDataType ''PgFileSettings'' 12329 (- 1)), (12333, newDataType ''PgHbaFileRules'' 12333 (- 1)),
     (12337, newDataType ''PgTimezoneAbbrevs'' 12337 (- 1)), (12341, newDataType ''PgTimezoneNames'' 12341 (- 1)),
     (12345, newDataType ''PgConfig'' 12345 (- 1)), (12349, newDataType ''PgShmemAllocations'' 12349 (- 1)),
     (12353, newDataType ''PgBackendMemoryContexts'' 12353 (- 1)), (12357, newDataType ''PgStatAllTables'' 12357 (- 1)),
     (12362, newDataType ''PgStatXactAllTables'' 12362 (- 1)), (12367, newDataType ''PgStatSysTables'' 12367 (- 1)),
     (12372, newDataType ''PgStatXactSysTables'' 12372 (- 1)), (12376, newDataType ''PgStatUserTables'' 12376 (- 1)),
     (12381, newDataType ''PgStatXactUserTables'' 12381 (- 1)), (12385, newDataType ''PgStatioAllTables'' 12385 (- 1)),
     (12390, newDataType ''PgStatioSysTables'' 12390 (- 1)), (12394, newDataType ''PgStatioUserTables'' 12394 (- 1))]"

definition init_dataTypes_3 :: "(ObjectID \<times> DataType) list" where
  "init_dataTypes_3 = [
     (12398, newDataType ''PgStatAllIndexes'' 12398 (- 1)), (12403, newDataType ''PgStatSysIndexes'' 12403 (- 1)),
     (12407, newDataType ''PgStatUserIndexes'' 12407 (- 1)), (12411, newDataType ''PgStatioAllIndexes'' 12411 (- 1)),
     (12416, newDataType ''PgStatioSysIndexes'' 12416 (- 1)), (12420, newDataType ''PgStatioUserIndexes'' 12420 (- 1)),
     (12424, newDataType ''PgStatioAllSequences'' 12424 (- 1)), (12429, newDataType ''PgStatioSysSequences'' 12429 (- 1)),
     (12433, newDataType ''PgStatioUserSequences'' 12433 (- 1)), (12437, newDataType ''PgStatActivity'' 12437 (- 1)),
     (12442, newDataType ''PgStatReplication'' 12442 (- 1)), (12447, newDataType ''PgStatSlru'' 12447 (- 1)),
     (12451, newDataType ''PgStatWalReceiver'' 12451 (- 1)), (12455, newDataType ''PgStatSubscription'' 12455 (- 1)),
     (12460, newDataType ''PgStatSsl'' 12460 (- 1)), (12464, newDataType ''PgStatGssapi'' 12464 (- 1)),
     (12468, newDataType ''PgReplicationSlots'' 12468 (- 1)), (12473, newDataType ''PgStatReplicationSlots'' 12473 (- 1)),
     (12477, newDataType ''PgStatDatabase'' 12477 (- 1)), (12482, newDataType ''PgStatDatabaseConflicts'' 12482 (- 1)),
     (12486, newDataType ''PgStatUserFunctions'' 12486 (- 1)), (12491, newDataType ''PgStatXactUserFunctions'' 12491 (- 1)),
     (12496, newDataType ''PgStatArchiver'' 12496 (- 1)), (12500, newDataType ''PgStatBgwriter'' 12500 (- 1)),
     (12504, newDataType ''PgStatWal'' 12504 (- 1)), (12508, newDataType ''PgStatProgressAnalyze'' 12508 (- 1)),
     (12513, newDataType ''PgStatProgressVacuum'' 12513 (- 1)), (12518, newDataType ''PgStatProgressCluster'' 12518 (- 1)),
     (12523, newDataType ''PgStatProgressCreateIndex'' 12523 (- 1)), (12528, newDataType ''PgStatProgressBasebackup'' 12528 (- 1)),
     (12533, newDataType ''PgStatProgressCopy'' 12533 (- 1)), (12538, newDataType ''PgUserMappings'' 12538 (- 1)),
     (12543, newDataType ''PgReplicationOriginStatus'' 12543 (- 1)), (13690, newDataType ''CardinalNumber'' 13690 4),
     (13693, newDataType ''CharacterData'' 13693 (- 1)), (13695, newDataType ''SQLIdentifier'' 13695 64),
     (13698, newDataType ''InformationSchemaCatalogName'' 13698 (- 1)), (13701, newDataType ''TimeStamp'' 13701 8),
     (13703, newDataType ''YesOrNo'' 13703 (- 1)), (13707, newDataType ''ApplicableRoles'' 13707 (- 1)),
     (13712, newDataType ''AdministrableRoleAuthorizations'' 13712 (- 1)), (13716, newDataType ''Attributes'' 13716 (- 1)),
     (13721, newDataType ''CharacterSets'' 13721 (- 1)), (13726, newDataType ''CheckConstraintRoutineUsage'' 13726 (- 1)),
     (13731, newDataType ''CheckConstraints'' 13731 (- 1)), (13736, newDataType ''Collations'' 13736 (- 1)),
     (13741, newDataType ''CollationCharacterSetApplicability'' 13741 (- 1)), (13746, newDataType ''ColumnColumnUsage'' 13746 (- 1)),
     (13751, newDataType ''ColumnDomainUsage'' 13751 (- 1)), (13756, newDataType ''ColumnPrivileges'' 13756 (- 1)),
     (13761, newDataType ''ColumnUdtUsage'' 13761 (- 1)), (13766, newDataType ''Columns'' 13766 (- 1)),
     (13771, newDataType ''ConstraintColumnUsage'' 13771 (- 1)), (13776, newDataType ''ConstraintTableUsage'' 13776 (- 1)),
     (13781, newDataType ''DomainConstraints'' 13781 (- 1)), (13786, newDataType ''DomainUdtUsage'' 13786 (- 1)),
     (13791, newDataType ''Domains'' 13791 (- 1)), (13796, newDataType ''EnabledRoles'' 13796 (- 1)),
     (13800, newDataType ''KeyColumnUsage'' 13800 (- 1)), (13805, newDataType ''Parameters'' 13805 (- 1)),
     (13810, newDataType ''ReferentialConstraints'' 13810 (- 1)), (13815, newDataType ''RoleColumnGrants'' 13815 (- 1)),
     (13819, newDataType ''RoutineColumnUsage'' 13819 (- 1)), (13824, newDataType ''RoutinePrivileges'' 13824 (- 1)),
     (13829, newDataType ''RoleRoutineGrants'' 13829 (- 1)), (13833, newDataType ''RoutineRoutineUsage'' 13833 (- 1)),
     (13838, newDataType ''RoutineSequenceUsage'' 13838 (- 1)), (13843, newDataType ''RoutineTableUsage'' 13843 (- 1)),
     (13848, newDataType ''Routines'' 13848 (- 1)), (13853, newDataType ''Schemata'' 13853 (- 1)),
     (13857, newDataType ''Sequences'' 13857 (- 1)), (13862, newDataType ''SQLFeatures'' 13862 (- 1)),
     (13867, newDataType ''SQLImplementationInfo'' 13867 (- 1)), (13872, newDataType ''SQLParts'' 13872 (- 1)),
     (13877, newDataType ''SQLSizing'' 13877 (- 1)), (13882, newDataType ''TableConstraints'' 13882 (- 1)),
     (13887, newDataType ''TablePrivileges'' 13887 (- 1)), (13892, newDataType ''RoleTableGrants'' 13892 (- 1)),
     (13896, newDataType ''Tables'' 13896 (- 1)), (13901, newDataType ''Transforms'' 13901 (- 1)),
     (13906, newDataType ''TriggeredUpdateColumns'' 13906 (- 1)), (13911, newDataType ''Triggers'' 13911 (- 1)),
     (13916, newDataType ''UdtPrivileges'' 13916 (- 1)), (13921, newDataType ''RoleUdtGrants'' 13921 (- 1)),
     (13925, newDataType ''UsagePrivileges'' 13925 (- 1)), (13930, newDataType ''RoleUsageGrants'' 13930 (- 1)),
     (13934, newDataType ''UserDefinedTypes'' 13934 (- 1)), (13939, newDataType ''ViewColumnUsage'' 13939 (- 1)),
     (13944, newDataType ''ViewRoutineUsage'' 13944 (- 1)), (13949, newDataType ''ViewTableUsage'' 13949 (- 1)),
     (13954, newDataType ''Views'' 13954 (- 1)), (13959, newDataType ''DataTypePrivileges'' 13959 (- 1)),
     (13964, newDataType ''ElementTypes'' 13964 (- 1)), (13974, newDataType ''ColumnOptions'' 13974 (- 1)),
     (13982, newDataType ''ForeignDataWrapperOptions'' 13982 (- 1)), (13986, newDataType ''ForeignDataWrappers'' 13986 (- 1)),
     (13995, newDataType ''ForeignServerOptions'' 13995 (- 1)), (13999, newDataType ''ForeignServers'' 13999 (- 1)),
     (14008, newDataType ''ForeignTableOptions'' 14008 (- 1)), (14012, newDataType ''ForeignTables'' 14012 (- 1)),
     (14021, newDataType ''UserMappingOptions'' 14021 (- 1)), (14026, newDataType ''UserMappings'' 14026 (- 1))]"

definition init_dataTypes :: "(ObjectID \<times> DataType) list" where
  "init_dataTypes = init_dataTypes_1 @ init_dataTypes_2 @ init_dataTypes_3"

definition dataTypes :: "ObjectID \<rightharpoonup> DataType" where
  "dataTypes = map_of (rev init_dataTypes)"

definition system_NewDataTypeFrom :: "ObjectID \<Rightarrow> DataType go" where
  "system_NewDataTypeFrom oid =
     (case dataTypes oid of None \<Rightarrow> Err (newDataTypeNotFound oid) | Some dt \<Rightarrow> Ok dt)"

definition DataType_FormatCode :: "DataType \<Rightarrow> format_code" where
  "DataType_FormatCode dt = (if dt_oid dt = oid_Bytea then BinaryFormat else TextFormat)"

section \<open>Data types of the SQL parser package\<close>

text \<open>The constants of \<open>query.DataType\<close> the code distinguishes; the others are known by their name.\<close>

datatype sql_type =
    BigIntType
  | BinaryType
  | BitType
  | BlobType
  | BooleanType
  | CharType
  | CharacterType
  | DateType
  | DoubleType
  | FloatType
  | IntType
  | IntegerType
  | LongBlobType
  | LongTextType
  | MediumBlobType
  | MediumTextType
  | SmallIntType
  | TextType
  | TimeType
  | TimeStampType
  | DateTimeType
  | TinyBlobType
  | TinyTextType
  | VarBinaryType
  | VarCharType
  | VarCharacterType
  | OtherType string

definition NewObjectIDFrom :: "sql_type \<Rightarrow> ObjectID go" where
  "NewObjectIDFrom t = (case t of
       BigIntType \<Rightarrow> Ok oid_Int8
     | BinaryType \<Rightarrow> Ok oid_Bytea
     | BitType \<Rightarrow> Ok oid_Bit
     | BlobType \<Rightarrow> Ok oid_Bytea
     | BooleanType \<Rightarrow> Ok oid_Bool
     | CharType \<Rightarrow> Ok oid_Char
     | CharacterType \<Rightarrow> Ok oid_Varchar
     | DateType \<Rightarrow> Ok oid_Date
     | DoubleType \<Rightarrow> Ok oid_Float8
     | FloatType \<Rightarrow> Ok oid_Float4
     | IntType \<Rightarrow> Ok oid_Int4
     | IntegerType \<Rightarrow> Ok oid_Int4
     | LongBlobType \<Rightarrow> Ok oid_Bytea
     | LongTextType \<Rightarrow> Ok oid_Text
     | MediumBlobType \<Rightarrow> Ok oid_Bytea
     | MediumTextType \<Rightarrow> Ok oid_Text
     | SmallIntType \<Rightarrow> Ok oid_Int2
     | TextType \<Rightarrow> Ok oid_Text
     | TimeType \<Rightarrow> Ok oid_Time
     | TimeStampType \<Rightarrow> Ok oid_Timestamp
     | DateTimeType \<Rightarrow> Ok oid_Timestamp
     | TinyBlobType \<Rightarrow> Ok oid_Bytea
     | TinyTextType \<Rightarrow> Ok oid_Text
     | VarBinaryType \<Rightarrow> Ok oid_Bytea
     | VarCharType \<Rightarrow> Ok oid_Varchar
     | VarCharacterType \<Rightarrow> Ok oid_Varchar
     | OtherType name \<Rightarrow>
         Err (GoError (''data type ('' @ name @ '') not supported'') [ErrNotSupported]))"

definition NewDataTypeFrom :: "sql_type \<Rightarrow> DataType go" where
  "NewDataTypeFrom t = (case NewObjectIDFrom t of
       Ok objectID \<Rightarrow> system_NewDataTypeFrom objectID | Err e \<Rightarrow> Err e | Panic p \<Rightarrow> Panic p)"

end
