(* ===== verification/System_Tables.thy ===== *)
theory System_Tables
  imports System_Types
begin

text \<open>
  The tables of the type system checked against each other: the data types of \<open>data_type.go\<close> are
  those of the constants of \<open>oid.go\<close>, and every column type the server supports has one.
\<close>

section \<open>The tables agree\<close>

lemmas oid_tables = objectIDs_def objectIDs_1_def objectIDs_2_def objectIDs_3_def
  init_dataTypes_def init_dataTypes_1_def init_dataTypes_2_def init_dataTypes_3_def

fun ascending :: "int list \<Rightarrow> bool" where
  "ascending (x # y # zs) \<longleftrightarrow> x < y \<and> ascending (y # zs)"
| "ascending [x] \<longleftrightarrow> True"
| "ascending [] \<longleftrightarrow> True"

lemma ascending_sorted_wrt: "ascending xs \<Longrightarrow> sorted_wrt (<) xs"
  by (induction xs rule: ascending.induct) force+

lemma ascending_sort_distinct: "ascending (sort xs) \<Longrightarrow> distinct xs"
  using ascending_sorted_wrt [of "sort xs"] by (simp only: strict_sorted_iff distinct_sort)

lemma init_keys_ascend: "ascending (sort (map (uint \<circ> fst) init_dataTypes))"
  by code_simp

lemma init_keys_distinct: "distinct (map fst init_dataTypes)"
  using ascending_sort_distinct [OF init_keys_ascend]
  by (simp only: map_map [symmetric] distinct_map)

lemma init_names: "objectIDs = map (\<lambda>(k, dt). (dt_name dt, k)) init_dataTypes"
  unfolding oid_tables newDataType_def by simp

lemma init_oids: "list_all (\<lambda>(k, dt). dt_oid dt = k) init_dataTypes"
  unfolding oid_tables newDataType_def by simp

lemma dataTypes_entry:
  assumes "(k, dt) \<in> set init_dataTypes"
  shows "dataTypes k = Some dt"
  unfolding dataTypes_def
  by (rule map_of_is_SomeI) (use assms init_keys_distinct in \<open>simp_all add: rev_map [symmetric]\<close>)

text \<open>
  the two tables agree. Every object id of \<open>oid.go\<close> has a data type, which carries the constant's
  name and the id it is found under, so a lookup of a declared id never fails; and the table holds
  no other data type.
\<close>

theorem data_type_table:
  "list_all (\<lambda>(name, oid). case system_NewDataTypeFrom oid of
       Ok dt \<Rightarrow> dt_name dt = name \<and> dt_oid dt = oid | _ \<Rightarrow> False) objectIDs \<and>
   dom dataTypes = snd ` set objectIDs"
proof
  have "case system_NewDataTypeFrom k of Ok d \<Rightarrow> dt_name d = dt_name dt \<and> dt_oid d = k | _ \<Rightarrow> False"
    if "(k, dt) \<in> set init_dataTypes" for k dt
    using dataTypes_entry [OF that] init_oids that
    by (auto simp: system_NewDataTypeFrom_def list_all_iff)
  then show "list_all (\<lambda>(name, oid). case system_NewDataTypeFrom oid of
       Ok dt \<Rightarrow> dt_name dt = name \<and> dt_oid dt = oid | _ \<Rightarrow> False) objectIDs"
    unfolding init_names by (auto simp: list_all_iff)
  show "dom dataTypes = snd ` set objectIDs"
    unfolding init_names dataTypes_def by (force simp: dom_map_of_conv_image_fst)
qed

lemma used_ids:
  "(''Int8'', oid_Int8) \<in> set objectIDs"
  "(''Bytea'', oid_Bytea) \<in> set objectIDs"
  "(''Bit'', oid_Bit) \<in> set objectIDs"
  "(''Bool'', oid_Bool) \<in> set objectIDs"
  "(''Char'', oid_Char) \<in> set objectIDs"
  "(''Varchar'', oid_Varchar) \<in> set objectIDs"
  "(''Date'', oid_Date) \<in> set objectIDs"
  "(''Float8'', oid_Float8) \<in> set objectIDs"
  "(''Float4'', oid_Float4) \<in> set objectIDs"
  "(''Int4'', oid_Int4) \<in> set objectIDs"
  "(''Text'', oid_Text) \<in> set objectIDs"
  "(''Int2'', oid_Int2) \<in> set objectIDs"
  "(''Time'', oid_Time) \<in> set objectIDs"
  "(''Timestamp'', oid_Timestamp) \<in> set objectIDs"
  unfolding objectIDs_def object_ids set_append by (rule UnI1, simp add: objectIDs_1_def)+

lemma named_oid_lookup:
  assumes "(name, oid) \<in> set objectIDs"
  shows "\<exists>dt. system_NewDataTypeFrom oid = Ok dt \<and> dt_oid dt = oid"
proof -
  obtain dt where "(oid, dt) \<in> set init_dataTypes"
    using assms unfolding init_names by auto
  with init_oids dataTypes_entry show ?thesis
    by (fastforce simp: system_NewDataTypeFrom_def list_all_iff)
qed

text \<open>
  a supported column type always has a data type: \<open>NewDataTypeFrom\<close> fails exactly where
  \<open>NewObjectIDFrom\<close> does, with the same error, and otherwise returns the type of that object id.
\<close>

theorem supported_types_have_data_types:
  "(case NewObjectIDFrom t of
      Ok oid \<Rightarrow> (case NewDataTypeFrom t of Ok dt \<Rightarrow> dt_oid dt = oid | _ \<Rightarrow> False)
    | Err e \<Rightarrow> NewDataTypeFrom t = Err e \<and> errors_Is e ErrNotSupported
    | Panic p \<Rightarrow> False)"
proof -
  have ok: "\<exists>dt. system_NewDataTypeFrom oid = Ok dt \<and> dt_oid dt = oid"
    if "oid \<in> {oid_Int8, oid_Bytea, oid_Bit, oid_Bool, oid_Char, oid_Varchar,
      oid_Date, oid_Float8, oid_Float4, oid_Int4, oid_Text, oid_Int2, oid_Time, oid_Timestamp}" for oid
    using that named_oid_lookup [OF used_ids(1)] named_oid_lookup [OF used_ids(2)]
      named_oid_lookup [OF used_ids(3)] named_oid_lookup [OF used_ids(4)]
      named_oid_lookup [OF used_ids(5)] named_oid_lookup [OF used_ids(6)]
      named_oid_lookup [OF used_ids(7)] named_oid_lookup [OF used_ids(8)]
      named_oid_lookup [OF used_ids(9)] named_oid_lookup [OF used_ids(10)]
      named_oid_lookup [OF used_ids(11)] named_oid_lookup [OF used_ids(12)]
      named_oid_lookup [OF used_ids(13)] named_oid_lookup [OF used_ids(14)] by blast
  show ?thesis
  proof (cases "NewObjectIDFrom t")
    case (Ok oid)
    then have "oid \<in> {oid_Int8, oid_Bytea, oid_Bit, oid_Bool, oid_Char, oid_Varchar,
      oid_Date, oid_Float8, oid_Float4, oid_Int4, oid_Text, oid_Int2, oid_Time, oid_Timestamp}"
      by (auto simp: NewObjectIDFrom_def split: sql_type.splits)
    with ok Ok show ?thesis by (force simp: NewDataTypeFrom_def)
  next
    case (Err e)
    then show ?thesis
      by (auto simp: NewObjectIDFrom_def NewDataTypeFrom_def errors_Is_def split: sql_type.splits)
  next
    case (Panic p)
    then show ?thesis by (auto simp: NewObjectIDFrom_def split: sql_type.splits)
  qed
qed

end
