(* ===== verification/Go_Io.thy ===== *)
theory Go_Io
  imports Encoding
begin

text \<open>
  The byte sources the code reads from. \<open>protocol.Reader\<close> holds an \<open>io.Reader\<close>, which is either
  the accepted \<open>net.Conn\<close> or a \<open>bytes.Reader\<close>; it reads through \<open>io.ReadAtLeast\<close>. The contract
  of \<open>io.Reader\<close> is a locale, the facts about \<open>io.ReadAtLeast\<close> are proved once inside it, and
  both sources (and their union, which is what the interface value dispatches on) interpret it.
\<close>

section \<open>A network connection\<close>

text \<open>
  What the peer sends is a list of events: a segment of bytes that arrives together, or a silence
  of at least the ten milliseconds that \<open>PeekTypeNonBlocking\<close> waits for. After the last event the
  peer has closed its side. What the server writes is kept slice by slice in \<open>outbox\<close>; the list
  \<open>write_fails\<close> says which of the next writes fail, and once it is used up all writes succeed.
\<close>

datatype net_event = Arrive bytes | Silence

record net_conn =
  inbox :: "net_event list"
  read_deadline :: bool
  outbox :: "bytes list"
  write_fails :: "bool list"
  conn_closed :: bool

type_synonym io_result = "bytes \<times> gerr option"

definition new_net_conn :: "net_event list \<Rightarrow> net_conn" where
  "new_net_conn es =
     \<lparr>inbox = es, read_deadline = False, outbox = [], write_fails = [], conn_closed = False\<rparr>"

text \<open>
  One \<open>Read\<close> returns bytes of a single segment, at most as many as fit. A silence ends a read
  that has a deadline with a time-out, and only delays one that has none.
\<close>

fun recv :: "bool \<Rightarrow> nat \<Rightarrow> net_event list \<Rightarrow> io_result \<times> net_event list" where
  "recv dl n [] = (([], Some EOF), [])"
| "recv dl n (Silence # es) =
     (if dl then (([], Some DeadlineExceeded), es) else recv dl n es)"
| "recv dl n (Arrive bs # es) =
     (if bs = [] then recv dl n es
      else ((take n bs, None), if length bs \<le> n then es else Arrive (drop n bs) # es))"

definition conn_Read :: "nat \<Rightarrow> net_conn \<Rightarrow> io_result \<times> net_conn" where
  "conn_Read n c =
     (if conn_closed c then (([], Some UseOfClosedConn), c)
      else if n = 0 then (([], None), c)
      else case recv (read_deadline c) n (inbox c) of (r, es) \<Rightarrow> (r, c\<lparr>inbox := es\<rparr>))"

definition conn_Write :: "bytes \<Rightarrow> (net_conn, gerr, unit) gom" where
  "conn_Write p c =
     (if conn_closed c then (Err UseOfClosedConn, c)
      else case write_fails c of
        [] \<Rightarrow> (Ok (), c\<lparr>outbox := outbox c @ [p]\<rparr>)
      | True # fs \<Rightarrow> (Err (GoError ''write: broken pipe'' [ForeignSentinel ''EPIPE'']), c\<lparr>write_fails := fs\<rparr>)
      | False # fs \<Rightarrow> (Ok (), c\<lparr>outbox := outbox c @ [p], write_fails := fs\<rparr>))"

definition conn_Close :: "(net_conn, gerr, unit) gom" where
  "conn_Close c =
     (if conn_closed c then (Err UseOfClosedConn, c) else (Ok (), c\<lparr>conn_closed := True\<rparr>))"

definition conn_SetReadDeadline :: "bool \<Rightarrow> (net_conn, gerr, unit) gom" where
  "conn_SetReadDeadline b c =
     (if conn_closed c then (Err UseOfClosedConn, c) else (Ok (), c\<lparr>read_deadline := b\<rparr>))"

fun event_bytes :: "net_event list \<Rightarrow> bytes" where
  "event_bytes [] = []"
| "event_bytes (Silence # es) = event_bytes es"
| "event_bytes (Arrive bs # es) = bs @ event_bytes es"

definition conn_pending :: "net_conn \<Rightarrow> bytes" where
  "conn_pending c = event_bytes (inbox c)"

definition conn_patient :: "net_conn \<Rightarrow> bool" where
  "conn_patient c \<longleftrightarrow> \<not> conn_closed c \<and> \<not> read_deadline c"

section \<open>A slice of bytes as a reader\<close>

definition slice_Read :: "nat \<Rightarrow> bytes \<Rightarrow> io_result \<times> bytes" where
  "slice_Read n s = (if s = [] then (([], Some EOF), s) else ((take n s, None), drop n s))"

section \<open>The interface value\<close>

datatype io_source = NetConn net_conn | BytesReader bytes

definition src_Read :: "nat \<Rightarrow> io_source \<Rightarrow> io_result \<times> io_source" where
  "src_Read n src = (case src of
       NetConn c \<Rightarrow> (case conn_Read n c of (r, c') \<Rightarrow> (r, NetConn c'))
     | BytesReader s \<Rightarrow> (case slice_Read n s of (r, s') \<Rightarrow> (r, BytesReader s')))"

definition src_pending :: "io_source \<Rightarrow> bytes" where
  "src_pending src = (case src of NetConn c \<Rightarrow> conn_pending c | BytesReader s \<Rightarrow> s)"

definition src_patient :: "io_source \<Rightarrow> bool" where
  "src_patient src = (case src of NetConn c \<Rightarrow> conn_patient c | BytesReader s \<Rightarrow> True)"

section \<open>io.ReadAtLeast\<close>

text \<open>
  The library's loop, for a buffer of exactly the length that is asked for: it reads until the
  buffer is full or a read fails. The fuel is the number of bytes that are missing, and it is
  enough because every read that succeeds makes progress (\<open>io_reader.enough_fuel\<close> below).
\<close>

fun read_loop ::
    "(nat \<Rightarrow> 's \<Rightarrow> io_result \<times> 's) \<Rightarrow> nat \<Rightarrow> nat \<Rightarrow> 's \<Rightarrow> (io_result \<times> 's) option" where
  "read_loop rd 0 need s = (if need = 0 then Some (([], None), s) else None)"
| "read_loop rd (Suc fuel) need s =
     (if need = 0 then Some (([], None), s)
      else case rd need s of
        ((bs, Some e), s') \<Rightarrow> Some ((bs, Some e), s')
      | ((bs, None), s') \<Rightarrow>
          (case read_loop rd fuel (need - length bs) s' of
             None \<Rightarrow> None
           | Some ((cs, e), s'') \<Rightarrow> Some ((bs @ cs, e), s'')))"

definition ErrNoProgress :: gerr where
  "ErrNoProgress = GoError ''multiple Read calls return no data or error'' []"

definition ReadAtLeast :: "(nat \<Rightarrow> 's \<Rightarrow> io_result \<times> 's) \<Rightarrow> nat \<Rightarrow> 's \<Rightarrow> io_result \<times> 's" where
  "ReadAtLeast rd n s = (case read_loop rd n n s of
       None \<Rightarrow> (([], Some ErrNoProgress), s)
     | Some ((bs, e), s') \<Rightarrow>
         (if n \<le> length bs then ((bs, None), s')
          else if 0 < length bs \<and> e = Some EOF then ((bs, Some UnexpectedEOF), s')
          else ((bs, e), s')))"

section \<open>The contract of io.Reader\<close>

text \<open>
  A read into a non-empty buffer either returns at least one byte, the next ones of the stream,
  or an error and no byte. A patient source (no deadline, not closed) with bytes to come does not
  fail, and at the end of the stream says so.
\<close>

locale io_reader =
  fixes rd :: "nat \<Rightarrow> 's \<Rightarrow> io_result \<times> 's"
    and pending :: "'s \<Rightarrow> bytes"
    and patient :: "'s \<Rightarrow> bool"
  assumes read_some: "rd n s = ((bs, None), s') \<Longrightarrow> 0 < n \<Longrightarrow>
        bs \<noteq> [] \<and> length bs \<le> n \<and> pending s = bs @ pending s' \<and> (patient s \<longrightarrow> patient s')"
    and read_error: "rd n s = ((bs, Some e), s') \<Longrightarrow> 0 < n \<Longrightarrow> bs = [] \<and> pending s' = pending s"
    and read_patient: "patient s \<Longrightarrow> pending s \<noteq> [] \<Longrightarrow> 0 < n \<Longrightarrow> \<exists>bs s'. rd n s = ((bs, None), s')"
    and read_end: "patient s \<Longrightarrow> pending s = [] \<Longrightarrow> 0 < n \<Longrightarrow>
        \<exists>s'. rd n s = (([], Some EOF), s') \<and> patient s'"
begin

lemma enough_fuel: "need \<le> fuel \<Longrightarrow> read_loop rd fuel need s \<noteq> None"
proof (induction fuel arbitrary: need s)
  case 0
  then show ?case by simp
next
  case (Suc fuel)
  show ?case
  proof (cases "need = 0")
    case False
    obtain bs e s' where r: "rd need s = ((bs, e), s')" by (metis surj_pair)
    show ?thesis
    proof (cases e)
      case None
      with r False have "bs \<noteq> []" using read_some by blast
      then have "need - length bs \<le> fuel" using Suc.prems by (cases bs) auto
      then have "read_loop rd fuel (need - length bs) s' \<noteq> None" by (rule Suc.IH)
      with r None False show ?thesis by auto
    qed (use r False in simp)
  qed simp
qed

lemma loop_conserves:
  "read_loop rd fuel need s = Some ((bs, e), s') \<Longrightarrow>
   pending s = bs @ pending s' \<and> length bs \<le> need \<and> (e = None \<longrightarrow> length bs = need)"
proof (induction fuel arbitrary: need s bs e s')
  case 0
  then show ?case by (simp split: if_splits)
next
  case (Suc fuel)
  show ?case
  proof (cases "need = 0")
    case False
    obtain as d s1 where r: "rd need s = ((as, d), s1)" by (metis surj_pair)
    show ?thesis
    proof (cases d)
      case None
      from r None False have as: "length as \<le> need" "pending s = as @ pending s1"
        using read_some by blast+
      from Suc.prems r None False obtain cs where
        rest: "read_loop rd fuel (need - length as) s1 = Some ((cs, e), s')" and "bs = as @ cs"
        by (auto split: option.splits)
      from Suc.IH [OF rest] \<open>bs = as @ cs\<close> as show ?thesis by auto
    next
      case (Some e')
      with Suc.prems r False have "bs = as" "e = Some e'" "s' = s1" by auto
      with r Some False show ?thesis using read_error by fastforce
    qed
  qed (use Suc.prems in simp)
qed

lemma loop_patient:
  "patient s \<Longrightarrow> need \<le> length (pending s) \<Longrightarrow> need \<le> fuel \<Longrightarrow>
   \<exists>s'. read_loop rd fuel need s = Some ((take need (pending s), None), s') \<and>
        pending s' = drop need (pending s) \<and> patient s'"
proof (induction fuel arbitrary: need s)
  case 0
  then show ?case by simp
next
  case (Suc fuel)
  show ?case
  proof (cases "need = 0")
    case False
    with Suc.prems obtain bs s1 where r: "rd need s = ((bs, None), s1)"
      using read_patient [of s need] by fastforce
    with False Suc.prems(1) have bs: "bs \<noteq> []" "length bs \<le> need" "pending s = bs @ pending s1"
      "patient s1" using read_some by blast+
    then have "need - length bs \<le> length (pending s1)" "need - length bs \<le> fuel"
      using Suc.prems by (cases bs; auto)+
    from Suc.IH [OF \<open>patient s1\<close> this] r False bs show ?thesis by auto
  qed (use Suc.prems in simp)
qed

lemma loop_short:
  "patient s \<Longrightarrow> length (pending s) < need \<Longrightarrow> need \<le> fuel \<Longrightarrow>
   \<exists>s'. read_loop rd fuel need s = Some ((pending s, Some EOF), s') \<and> pending s' = [] \<and> patient s'"
proof (induction fuel arbitrary: need s)
  case 0
  then show ?case by simp
next
  case (Suc fuel)
  then have "need \<noteq> 0" by simp
  show ?case
  proof (cases "pending s = []")
    case True
    with Suc.prems(1) \<open>need \<noteq> 0\<close> obtain s' where r: "rd need s = (([], Some EOF), s')" "patient s'"
      using read_end by blast
    with \<open>need \<noteq> 0\<close> True show ?thesis using read_error by fastforce
  next
    case False
    with Suc.prems \<open>need \<noteq> 0\<close> obtain bs s1 where r: "rd need s = ((bs, None), s1)"
      using read_patient by blast
    with \<open>need \<noteq> 0\<close> Suc.prems(1) have bs: "bs \<noteq> []" "length bs \<le> need"
      "pending s = bs @ pending s1" "patient s1" using read_some by blast+
    then have "length (pending s1) < need - length bs" "need - length bs \<le> fuel"
      using Suc.prems by (cases bs; auto)+
    from Suc.IH [OF \<open>patient s1\<close> this] r \<open>need \<noteq> 0\<close> bs show ?thesis by auto
  qed
qed

lemma read_full:
  assumes "patient s" "n \<le> length (pending s)"
  shows "\<exists>s'. ReadAtLeast rd n s = ((take n (pending s), None), s') \<and>
      pending s' = drop n (pending s) \<and> patient s'"
  using loop_patient [OF assms order_refl] assms by (auto simp: ReadAtLeast_def)

lemma read_short:
  assumes "patient s" "length (pending s) < n"
  shows "\<exists>s'. ReadAtLeast rd n s =
      ((pending s, Some (if pending s = [] then EOF else UnexpectedEOF)), s') \<and>
      pending s' = [] \<and> patient s'"
  using loop_short [OF assms order_refl] assms by (auto simp: ReadAtLeast_def)

lemma read_conserves:
  assumes "ReadAtLeast rd n s = ((bs, e), s')"
  shows "pending s = bs @ pending s'" and "length bs \<le> n" and "e = None \<Longrightarrow> length bs = n"
proof -
  obtain cs d s1 where loop: "read_loop rd n n s = Some ((cs, d), s1)"
    using enough_fuel [of n n s] by auto
  with assms have "bs = cs" "s' = s1" "e = None \<Longrightarrow> n \<le> length cs \<or> d = None"
    by (auto simp: ReadAtLeast_def split: if_splits)
  with loop_conserves [OF loop] show "pending s = bs @ pending s'" "length bs \<le> n"
    "e = None \<Longrightarrow> length bs = n" by auto
qed

end

section \<open>The sources keep the contract\<close>

lemma recv_some:
  "recv dl n es = ((bs, None), es') \<Longrightarrow> 0 < n \<Longrightarrow>
   bs \<noteq> [] \<and> length bs \<le> n \<and> event_bytes es = bs @ event_bytes es'"
  by (induction dl n es rule: recv.induct) (auto split: if_splits)

lemma recv_error: "recv dl n es = ((bs, Some e), es') \<Longrightarrow> bs = [] \<and> event_bytes es' = event_bytes es"
  by (induction dl n es rule: recv.induct) (auto split: if_splits)

lemma recv_patient: "event_bytes es \<noteq> [] \<Longrightarrow> \<exists>bs es'. recv False n es = ((bs, None), es')"
  by (induction "False" n es rule: recv.induct) auto

lemma recv_end: "event_bytes es = [] \<Longrightarrow> recv False n es = (([], Some EOF), [])"
  by (induction "False" n es rule: recv.induct) auto

interpretation conn_io: io_reader conn_Read conn_pending conn_patient
proof unfold_locales
  fix n c bs c'
  assume "conn_Read n c = ((bs, None), c')" "0 < n"
  then show "bs \<noteq> [] \<and> length bs \<le> n \<and> conn_pending c = bs @ conn_pending c' \<and>
      (conn_patient c \<longrightarrow> conn_patient c')"
    by (auto simp: conn_Read_def conn_pending_def conn_patient_def
        split: if_splits prod.splits dest: recv_some)
next
  fix n c bs e c'
  assume "conn_Read n c = ((bs, Some e), c')" "0 < n"
  then show "bs = [] \<and> conn_pending c' = conn_pending c"
    by (auto simp: conn_Read_def conn_pending_def split: if_splits prod.splits dest: recv_error)
next
  fix c and n :: nat
  assume "conn_patient c" "conn_pending c \<noteq> []" "0 < n"
  then show "\<exists>bs c'. conn_Read n c = ((bs, None), c')"
    using recv_patient [of "inbox c" n]
    by (auto simp: conn_Read_def conn_pending_def conn_patient_def)
next
  fix c and n :: nat
  assume "conn_patient c" "conn_pending c = []" "0 < n"
  then show "\<exists>c'. conn_Read n c = (([], Some EOF), c') \<and> conn_patient c'"
    by (simp add: conn_Read_def conn_pending_def conn_patient_def recv_end)
qed

interpretation slice_io: io_reader slice_Read "\<lambda>s. s" "\<lambda>_. True"
  by unfold_locales (auto simp: slice_Read_def split: if_splits)

interpretation src_io: io_reader src_Read src_pending src_patient
proof unfold_locales
  fix n s bs s'
  assume "src_Read n s = ((bs, None), s')" "0 < n"
  then show "bs \<noteq> [] \<and> length bs \<le> n \<and> src_pending s = bs @ src_pending s' \<and>
      (src_patient s \<longrightarrow> src_patient s')"
    by (cases s) (auto simp: src_Read_def src_pending_def src_patient_def split: prod.splits
        dest: conn_io.read_some slice_io.read_some)
next
  fix n s bs e s'
  assume "src_Read n s = ((bs, Some e), s')" "0 < n"
  then show "bs = [] \<and> src_pending s' = src_pending s"
    by (cases s) (auto simp: src_Read_def src_pending_def split: prod.splits
        dest: conn_io.read_error slice_io.read_error)
next
  fix s and n :: nat
  assume s: "src_patient s" "src_pending s \<noteq> []" "0 < n"
  show "\<exists>bs s'. src_Read n s = ((bs, None), s')"
  proof (cases s)
    case (NetConn c)
    with s conn_io.read_patient [of c n] show ?thesis
      by (auto simp: src_Read_def src_pending_def src_patient_def)
  next
    case (BytesReader b)
    with s slice_io.read_patient [of b n] show ?thesis
      by (auto simp: src_Read_def src_pending_def)
  qed
next
  fix s and n :: nat
  assume s: "src_patient s" "src_pending s = []" "0 < n"
  show "\<exists>s'. src_Read n s = (([], Some EOF), s') \<and> src_patient s'"
  proof (cases s)
    case (NetConn c)
    with s conn_io.read_end [of c n] show ?thesis
      by (auto simp: src_Read_def src_pending_def src_patient_def)
  next
    case (BytesReader b)
    with s slice_io.read_end [of b n] show ?thesis
      by (auto simp: src_Read_def src_pending_def src_patient_def)
  qed
qed

end
