(* ===== verification/Reader.thy ===== *)
theory Reader
  imports Go_Io
begin

text \<open>
  \<open>postgresql/protocol/reader.go\<close> and \<open>message_reader.go\<close>: the buffered reader with a peek buffer
  in front of a byte source. \<open>MessageReader\<close> embeds \<open>*Reader\<close>; its own fields \<open>Type\<close> and
  \<open>Length\<close> are never written after construction, so its state is the reader's. In the Go struct
  the connection is held twice (as \<open>conn\<close> and as the embedded \<open>io.Reader\<close>), both times the same
  value; here it is held once, in \<open>rsrc\<close>, and \<open>conn\<close> is nil exactly for a \<open>BytesReader\<close>.
\<close>

record reader =
  rsrc :: io_source
  peekBuf :: bytes

type_synonym 'a rd = "(reader, gerr, 'a) gom"

definition NewReaderWithConn :: "net_conn \<Rightarrow> reader" where
  "NewReaderWithConn c = \<lparr>rsrc = NetConn c, peekBuf = []\<rparr>"

definition NewReaderWithBytes :: "bytes \<Rightarrow> reader" where
  "NewReaderWithBytes b = \<lparr>rsrc = BytesReader b, peekBuf = []\<rparr>"

section \<open>Operations of Reader\<close>

definition SetReadDeadline :: "bool \<Rightarrow> unit rd" where
  "SetReadDeadline t r = (case rsrc r of
       BytesReader _ \<Rightarrow> (Err protocol_ErrNotSupported, r)
     | NetConn c \<Rightarrow>
         (case conn_SetReadDeadline t c of (x, c') \<Rightarrow> (x, r\<lparr>rsrc := NetConn c'\<rparr>)))"

text \<open>
  \<open>ReadBytes(buf)\<close> with \<open>len(buf) = n\<close>: first from the peek buffer, the rest from the source.
  The result is the filled buffer; on an error the bytes already copied are lost.
\<close>

definition ReadBytes :: "nat \<Rightarrow> bytes rd" where
  "ReadBytes n r =
     (let nCopy = min n (length (peekBuf r));
          got = take nCopy (peekBuf r);
          r1 = r\<lparr>peekBuf := drop nCopy (peekBuf r)\<rparr>
      in if n \<le> nCopy then (Ok got, r1)
         else case ReadAtLeast src_Read (n - nCopy) (rsrc r1) of ((bs, e), src') \<Rightarrow>
           (case e of Some err \<Rightarrow> (Err err, r1\<lparr>rsrc := src'\<rparr>)
                    | None \<Rightarrow> (Ok (got @ bs), r1\<lparr>rsrc := src'\<rparr>)))"

definition ReadByte :: "byte rd" where
  "ReadByte = goseq (ReadBytes 1)
     (\<lambda>b. if length b < 1 then panic IndexOutOfRange else ret (b ! 0))"

definition PeekBytes :: "nat \<Rightarrow> bytes rd" where
  "PeekBytes n = goseq (ReadBytes n) (\<lambda>buf.
     if length buf \<noteq> n then fail (newShortMessageError (int n) (int (length buf)))
     else goseq (modify (\<lambda>r. r\<lparr>peekBuf := peekBuf r @ buf\<rparr>)) (\<lambda>_. ret buf))"

definition PeekInt32 :: "32 word rd" where
  "PeekInt32 = goseq (PeekBytes 4) (\<lambda>int32Bytes. lift_res (BytesToInt32 int32Bytes))"

definition ReadInt32 :: "32 word rd" where
  "ReadInt32 = goseq (ReadBytes 4) (\<lambda>int32Bytes.
     if length int32Bytes \<noteq> 4 then fail (newShortMessageError 4 (int (length int32Bytes)))
     else lift_res (BytesToInt32 int32Bytes))"

definition ReadInt16 :: "16 word rd" where
  "ReadInt16 = goseq (ReadBytes 2) (\<lambda>int16Bytes.
     if length int16Bytes \<noteq> 2 then fail (newShortMessageError 2 (int (length int16Bytes)))
     else lift_res (BytesToInt16 int16Bytes))"

subsection \<open>What a read does to the bytes still to come\<close>

definition reader_pending :: "reader \<Rightarrow> bytes" where
  "reader_pending r = peekBuf r @ src_pending (rsrc r)"

definition reader_patient :: "reader \<Rightarrow> bool" where
  "reader_patient r \<longleftrightarrow> src_patient (rsrc r)"

lemma ReadBytes_Ok:
  assumes "ReadBytes n r = (Ok bs, r')"
  shows "reader_pending r = bs @ reader_pending r'" and "length bs = n"
    and "peekBuf r' = drop n (peekBuf r)"
proof -
  show "reader_pending r = bs @ reader_pending r'"
    using assms src_io.read_conserves(1)
    by (fastforce simp: ReadBytes_def Let_def reader_pending_def min_def
        split: if_splits prod.splits option.splits)
  show "length bs = n"
    using assms src_io.read_conserves(3)
    by (fastforce simp: ReadBytes_def Let_def min_def split: if_splits prod.splits option.splits)
  show "peekBuf r' = drop n (peekBuf r)"
    using assms
    by (auto simp: ReadBytes_def Let_def min_def split: if_splits prod.splits option.splits)
qed

lemma ReadBytes_Err:
  assumes "ReadBytes n r = (Err e, r')"
  shows "\<exists>lost. reader_pending r = lost @ reader_pending r'" and "peekBuf r' = []"
proof -
  from assms obtain bs src' where
    rd: "ReadAtLeast src_Read (n - length (peekBuf r)) (rsrc r) = ((bs, Some e), src')"
    and r': "r' = r\<lparr>peekBuf := [], rsrc := src'\<rparr>"
    by (auto simp: ReadBytes_def Let_def min_def split: if_splits prod.splits option.splits)
  from src_io.read_conserves(1) [OF rd] r' have
    "reader_pending r = (peekBuf r @ bs) @ reader_pending r'"
    by (simp add: reader_pending_def)
  then show "\<exists>lost. reader_pending r = lost @ reader_pending r'" by blast
  from r' show "peekBuf r' = []" by simp
qed

lemma ReadBytes_no_panic: "ReadBytes n r \<noteq> (Panic p, r')"
  by (auto simp: ReadBytes_def Let_def split: if_splits prod.splits option.splits)

lemma ReadBytes_full:
  assumes "reader_patient r" "n \<le> length (reader_pending r)"
  shows "\<exists>r'. ReadBytes n r = (Ok (take n (reader_pending r)), r') \<and>
      reader_pending r' = drop n (reader_pending r) \<and> reader_patient r' \<and>
      peekBuf r' = drop n (peekBuf r)"
proof (cases "n \<le> length (peekBuf r)")
  case True
  then show ?thesis
    using assms by (simp add: ReadBytes_def reader_pending_def reader_patient_def min_def)
next
  case False
  then have "n - length (peekBuf r) \<le> length (src_pending (rsrc r))"
    using assms(2) by (simp add: reader_pending_def)
  from src_io.read_full [OF assms(1) [unfolded reader_patient_def] this] False show ?thesis
    by (auto simp: ReadBytes_def Let_def reader_pending_def reader_patient_def min_def)
qed

lemma ReadBytes_short:
  assumes "reader_patient r" "length (reader_pending r) < n"
  shows "\<exists>r'. ReadBytes n r =
      (Err (if src_pending (rsrc r) = [] then EOF else UnexpectedEOF), r') \<and>
      reader_pending r' = [] \<and> reader_patient r'"
proof -
  from assms have "src_patient (rsrc r)" "length (src_pending (rsrc r)) < n - length (peekBuf r)"
    by (auto simp: reader_pending_def reader_patient_def)
  from src_io.read_short [OF this] assms show ?thesis
    by (auto simp: ReadBytes_def Let_def reader_pending_def reader_patient_def min_def)
qed

lemma length_1_nth: "length bs = 1 \<Longrightarrow> bs = [bs ! 0]"
  by (cases bs) auto

lemma ReadByte_Ok:
  assumes "ReadByte r = (Ok b, r')"
  shows "reader_pending r = b # reader_pending r'" and "peekBuf r' = drop 1 (peekBuf r)"
proof -
  from assms obtain bs r1 where rb: "ReadBytes 1 r = (Ok bs, r1)"
    and tail: "(if length bs < 1 then panic IndexOutOfRange else ret (bs ! 0)) r1 = (Ok b :: byte go, r')"
    unfolding ReadByte_def by (elim goseq_OkD) blast
  have "bs = [bs ! 0]" using ReadBytes_Ok(2) [OF rb] by (rule length_1_nth)
  with tail have "bs = [b]" "r1 = r'" by (auto simp: ret_def panic_def split: if_splits)
  then show "reader_pending r = b # reader_pending r'" "peekBuf r' = drop 1 (peekBuf r)"
    using ReadBytes_Ok [OF rb] by simp_all
qed

subsection \<open>Reading up to a delimiter\<close>

text \<open>The loop of \<open>ReadBytesUntil\<close>: it stops at the delimiter or at the first failed read.\<close>

function ReadBytesUntil_loop :: "byte \<Rightarrow> bytes \<Rightarrow> bytes rd" where
  "ReadBytesUntil_loop delim buf r =
     (case ReadByte r of
        (Ok b, r1) \<Rightarrow>
          if b = delim then (Ok (buf @ [b]), r1) else ReadBytesUntil_loop delim (buf @ [b]) r1
      | (Err e, r1) \<Rightarrow> (Err e, r1)
      | (Panic p, r1) \<Rightarrow> (Panic p, r1))"
  by pat_completeness auto
termination
  by (relation "measure (\<lambda>(delim, buf, r). length (reader_pending r))")
     (auto dest!: ReadByte_Ok(1) [OF sym])

declare ReadBytesUntil_loop.simps [simp del]

definition ReadBytesUntil :: "byte \<Rightarrow> bytes rd" where
  "ReadBytesUntil delim = ReadBytesUntil_loop delim []"

definition ReadString :: "string rd" where
  "ReadString = goseq (ReadBytesUntil 0) (\<lambda>strBytes. ret (string_of_bytes (butlast strBytes)))"

section \<open>Operations of MessageReader\<close>

type_synonym msg_type = byte

definition PeekType :: "msg_type rd" where
  "PeekType = goseq (PeekBytes 1)
     (\<lambda>bs. if length bs < 1 then panic IndexOutOfRange else ret (bs ! 0))"

text \<open>
  The read deadline is set ten milliseconds ahead, and the deferred call takes it away again
  however the peek ended.
\<close>

definition PeekTypeNonBlocking :: "msg_type rd" where
  "PeekTypeNonBlocking = goseq (SetReadDeadline True)
     (\<lambda>_ r. case PeekType r of (x, r1) \<Rightarrow> (x, snd (SetReadDeadline False r1)))"

definition IsPeekType :: "msg_type \<Rightarrow> bool rd" where
  "IsPeekType t = goseq PeekType (\<lambda>pt. ret (pt = t))"

definition ReadType :: "msg_type rd" where
  "ReadType = goseq ReadByte ret"

definition ReadLength :: "32 word rd" where
  "ReadLength = goseq ReadInt32 ret"

text \<open>The constructor and its options; without one the embedded reader is nil.\<close>

definition WithMessageReadeConn :: "net_conn \<Rightarrow> reader option \<Rightarrow> reader option" where
  "WithMessageReadeConn c r = Some (NewReaderWithConn c)"

definition WithMessageReadeBytes :: "bytes \<Rightarrow> reader option \<Rightarrow> reader option" where
  "WithMessageReadeBytes b r = Some (NewReaderWithBytes b)"

definition NewMessageReaderWith :: "(reader option \<Rightarrow> reader option) list \<Rightarrow> reader option" where
  "NewMessageReaderWith opts = fold (\<lambda>opt. opt) opts None"

lemma NewMessageReaderWith_simps [simp]:
  "NewMessageReaderWith [] = None"
  "NewMessageReaderWith [WithMessageReadeConn c] = Some (NewReaderWithConn c)"
  "NewMessageReaderWith [WithMessageReadeBytes b] = Some (NewReaderWithBytes b)"
  by (simp_all add: NewMessageReaderWith_def WithMessageReadeConn_def WithMessageReadeBytes_def)

end
