(* ===== verification/Wire.thy ===== *)
theory Wire
  imports Reader
begin

text \<open>
  Reasoning principles for the parsers of the wire protocol. \<open>parses P m bs x\<close> says that on any
  reader of the class \<open>P\<close> that has the bytes \<open>bs\<close> to come, \<open>m\<close> returns \<open>x\<close> and has consumed
  exactly \<open>bs\<close>; it composes along \<open>goseq\<close>. The classes of readers are a locale: what a class owes
  is the law for \<open>ReadBytes\<close>, and the fields of a message follow from it. \<open>agrees m\<close> says that the
  result of \<open>m\<close> depends on the bytes of the stream and not on how they were cut into segments.
\<close>

named_theorems agrees_intros \<open>parsers that do not depend on the segmentation of the stream\<close>

section \<open>Exact parsing\<close>

definition parses :: "(reader \<Rightarrow> bool) \<Rightarrow> 'a rd \<Rightarrow> bytes \<Rightarrow> 'a \<Rightarrow> bool" where
  "parses P m bs x \<longleftrightarrow> (\<forall>r rest. P r \<and> reader_patient r \<and> reader_pending r = bs @ rest \<longrightarrow>
     (\<exists>r'. m r = (Ok x, r') \<and> P r' \<and> reader_patient r' \<and> reader_pending r' = rest))"

lemma parsesI:
  "(\<And>r rest. P r \<Longrightarrow> reader_patient r \<Longrightarrow> reader_pending r = bs @ rest \<Longrightarrow>
     \<exists>r'. m r = (Ok x, r') \<and> P r' \<and> reader_patient r' \<and> reader_pending r' = rest) \<Longrightarrow>
   parses P m bs x"
  by (simp add: parses_def)

lemma parsesE:
  assumes "parses P m bs x" "P r" "reader_patient r" "reader_pending r = bs @ rest"
  obtains r' where "m r = (Ok x, r')" "P r'" "reader_patient r'" "reader_pending r' = rest"
  using assms unfolding parses_def by blast

lemma parses_ret [intro]: "parses P (ret x) [] x"
  by (simp add: parses_def ret_def)

lemma parses_goseq:
  assumes m: "parses P m bs x" and f: "parses P (f x) cs y"
  shows "parses P (goseq m f) (bs @ cs) y"
proof (rule parsesI)
  fix r rest
  assume r: "P r" "reader_patient r" "reader_pending r = (bs @ cs) @ rest"
  obtain r1 where r1: "m r = (Ok x, r1)" "P r1" "reader_patient r1" "reader_pending r1 = cs @ rest"
    using parsesE [OF m r(1,2), of "cs @ rest"] r(3) by auto
  obtain r2 where "f x r1 = (Ok y, r2)" "P r2" "reader_patient r2" "reader_pending r2 = rest"
    using parsesE [OF f r1(2-4)] .
  then show "\<exists>r'. goseq m f r = (Ok y, r') \<and> P r' \<and> reader_patient r' \<and> reader_pending r' = rest"
    using r1(1) by (auto simp: goseq_Ok)
qed

lemma parses_goseq_ret:
  assumes "parses P m bs x" and "f x = ret y"
  shows "parses P (goseq m f) bs y"
  using parses_goseq [OF assms(1), of f "[]" y] assms(2) by (simp add: parses_ret)

lemma parses_last:
  assumes "parses P m bs x" and "\<And>r. f x r = (Ok y, r)"
  shows "parses P (goseq m f) bs y"
  by (rule parses_goseq_ret [OF assms(1)]) (simp add: fun_eq_iff assms(2) ret_def)

lemma parses_repeat_n:
  assumes "\<And>x. x \<in> set xs \<Longrightarrow> parses P m (enc x) x"
  shows "parses P (repeat_n (length xs) m) (concat (map enc xs)) xs"
  using assms
proof (induction xs)
  case Nil
  then show ?case by (simp add: parses_ret)
next
  case (Cons x xs)
  then have "parses P (repeat_n (length xs) m) (concat (map enc xs)) xs" by simp
  then have "parses P (goseq (repeat_n (length xs) m) (\<lambda>as. ret (x # as))) (concat (map enc xs)) (x # xs)"
    by (rule parses_goseq_ret) simp
  then show ?case using Cons.prems by (auto intro: parses_goseq)
qed

section \<open>Classes of readers\<close>

locale reader_class =
  fixes P :: "reader \<Rightarrow> bool"
  assumes parses_ReadBytes: "parses P (ReadBytes (length bs)) bs bs"
begin

lemma parses_ReadByte: "parses P ReadByte [b] b"
  unfolding ReadByte_def using parses_ReadBytes [of "[b]"]
  by (auto intro: parses_goseq_ret)

lemma parses_ReadInt32: "parses P ReadInt32 (Int32ToBytes v) v"
  unfolding ReadInt32_def using parses_ReadBytes [of "Int32ToBytes v"]
  by (auto intro: parses_last simp: lift_res_def)

lemma parses_ReadInt16: "parses P ReadInt16 (Int16ToBytes v) v"
  unfolding ReadInt16_def using parses_ReadBytes [of "Int16ToBytes v"]
  by (auto intro: parses_last simp: lift_res_def)

lemma parses_ReadType: "parses P ReadType [t] t"
  unfolding ReadType_def by (simp add: parses_ReadByte)

lemma parses_ReadLength: "parses P ReadLength (Int32ToBytes v) v"
  unfolding ReadLength_def by (simp add: parses_ReadInt32)

lemma parses_ReadBytesUntil_loop:
  "delim \<notin> set bs \<Longrightarrow> parses P (ReadBytesUntil_loop delim buf) (bs @ [delim]) (buf @ bs @ [delim])"
proof (induction bs arbitrary: buf)
  case Nil
  show ?case
  proof (rule parsesI)
    fix r rest assume "P r" "reader_patient r" "reader_pending r = ([] @ [delim]) @ rest"
    then show "\<exists>r'. ReadBytesUntil_loop delim buf r = (Ok (buf @ [] @ [delim]), r') \<and> P r' \<and>
        reader_patient r' \<and> reader_pending r' = rest"
      using parsesE [OF parses_ReadByte [of delim], of r rest]
      by (fastforce simp: ReadBytesUntil_loop.simps [of delim buf r])
  qed
next
  case (Cons b bs)
  show ?case
  proof (rule parsesI)
    fix r rest assume r: "P r" "reader_patient r" "reader_pending r = ((b # bs) @ [delim]) @ rest"
    obtain r1 where r1: "ReadByte r = (Ok b, r1)" "P r1" "reader_patient r1"
        "reader_pending r1 = (bs @ [delim]) @ rest"
      using parsesE [OF parses_ReadByte [of b] r(1,2), of "(bs @ [delim]) @ rest"] r(3) by auto
    have "parses P (ReadBytesUntil_loop delim (buf @ [b])) (bs @ [delim]) ((buf @ [b]) @ bs @ [delim])"
      using Cons.IH [of "buf @ [b]"] Cons.prems by simp
    then obtain r2 where "ReadBytesUntil_loop delim (buf @ [b]) r1 = (Ok ((buf @ [b]) @ bs @ [delim]), r2)"
        "P r2" "reader_patient r2" "reader_pending r2 = rest"
      using r1(2-4) by (rule parsesE)
    then show "\<exists>r'. ReadBytesUntil_loop delim buf r = (Ok (buf @ (b # bs) @ [delim]), r') \<and> P r' \<and>
        reader_patient r' \<and> reader_pending r' = rest"
      using r1(1) Cons.prems by (auto simp: ReadBytesUntil_loop.simps [of delim buf r])
  qed
qed

lemma parses_ReadString:
  assumes "no_nul s"
  shows "parses P ReadString (bytes_of_string s @ [0]) s"
proof -
  have "parses P (ReadBytesUntil 0) (bytes_of_string s @ [0]) (bytes_of_string s @ [0])"
    using parses_ReadBytesUntil_loop [of 0 "bytes_of_string s" "[]"] assms
    by (simp add: ReadBytesUntil_def no_nul_def)
  then show ?thesis unfolding ReadString_def by (rule parses_goseq_ret) simp
qed

end

text \<open>Every patient reader, however its stream is segmented, is a class.\<close>

interpretation any_reader: reader_class "\<lambda>_. True"
proof unfold_locales
  fix bs
  show "parses (\<lambda>_. True) (ReadBytes (length bs)) bs bs"
    by (rule parsesI) (auto dest: ReadBytes_full [of _ "length bs"])
qed

text \<open>
  The readers with nothing peeked whose source hands out all it has in one \<open>Read\<close>: a byte slice,
  or a connection whose remaining bytes arrived in one segment.
\<close>

definition whole_source :: "io_source \<Rightarrow> bool" where
  "whole_source src = (case src of
       BytesReader _ \<Rightarrow> True
     | NetConn c \<Rightarrow> (case inbox c of [] \<Rightarrow> True | [Arrive bs] \<Rightarrow> True | _ \<Rightarrow> False))"

definition whole_reader :: "reader \<Rightarrow> bool" where
  "whole_reader r \<longleftrightarrow> peekBuf r = [] \<and> whole_source (rsrc r)"

lemma src_Read_whole:
  assumes "whole_source src" "src_patient src" "0 < n" "n \<le> length (src_pending src)"
  shows "\<exists>src'. src_Read n src = ((take n (src_pending src), None), src') \<and>
      whole_source src' \<and> src_patient src' \<and> src_pending src' = drop n (src_pending src)"
proof (cases src)
  case (NetConn c)
  then show ?thesis
    using assms
    by (auto simp: src_Read_def whole_source_def src_patient_def src_pending_def conn_Read_def
        conn_patient_def conn_pending_def split: list.splits net_event.splits)
next
  case (BytesReader b)
  then show ?thesis
    using assms
    by (auto simp: src_Read_def slice_Read_def whole_source_def src_patient_def src_pending_def)
qed

lemma read_loop_done: "read_loop rd fuel 0 s = Some (([], None), s)"
  by (cases fuel) simp_all

lemma ReadAtLeast_whole:
  assumes "whole_source src" "src_patient src" "n \<le> length (src_pending src)"
  shows "\<exists>src'. ReadAtLeast src_Read n src = ((take n (src_pending src), None), src') \<and>
      whole_source src' \<and> src_patient src' \<and> src_pending src' = drop n (src_pending src)"
proof (cases n)
  case 0
  then show ?thesis using assms by (simp add: ReadAtLeast_def)
next
  case (Suc m)
  with src_Read_whole [OF assms(1,2), of n] assms(3) obtain src' where
    "src_Read n src = ((take n (src_pending src), None), src')" "whole_source src'"
    "src_patient src'" "src_pending src' = drop n (src_pending src)" by auto
  with Suc assms(3) show ?thesis by (auto simp: ReadAtLeast_def read_loop_done)
qed

interpretation whole: reader_class whole_reader
proof unfold_locales
  fix bs
  show "parses whole_reader (ReadBytes (length bs)) bs bs"
  proof (rule parsesI)
    fix r rest
    assume r: "whole_reader r" "reader_patient r" "reader_pending r = bs @ rest"
    then show "\<exists>r'. ReadBytes (length bs) r = (Ok bs, r') \<and> whole_reader r' \<and> reader_patient r' \<and>
        reader_pending r' = rest"
      using ReadAtLeast_whole [of "rsrc r" "length bs"]
      by (auto simp: ReadBytes_def Let_def whole_reader_def reader_patient_def reader_pending_def)
  qed
qed

section \<open>Peeking\<close>

lemma PeekBytes_Ok:
  assumes "PeekBytes n r = (Ok bs, r')"
  shows "length bs = n"
    and "\<exists>r1. ReadBytes n r = (Ok bs, r1) \<and> r' = r1\<lparr>peekBuf := drop n (peekBuf r) @ bs\<rparr>"
proof -
  from assms obtain buf r1 where rb: "ReadBytes n r = (Ok buf, r1)"
    and tail: "(if length buf \<noteq> n then fail (newShortMessageError (int n) (int (length buf)))
      else goseq (modify (\<lambda>r. r\<lparr>peekBuf := peekBuf r @ buf\<rparr>)) (\<lambda>_. ret buf)) r1 = (Ok bs, r')"
    unfolding PeekBytes_def by (elim goseq_OkD) blast
  from tail have "bs = buf" "length buf = n" "r' = r1\<lparr>peekBuf := peekBuf r1 @ buf\<rparr>"
    by (auto simp: go_simps split: if_splits)
  with rb ReadBytes_Ok(3) [OF rb] show "length bs = n"
    "\<exists>r1. ReadBytes n r = (Ok bs, r1) \<and> r' = r1\<lparr>peekBuf := drop n (peekBuf r) @ bs\<rparr>" by auto
qed

lemma PeekBytes_full:
  assumes "reader_patient r" "length (peekBuf r) \<le> n" "n \<le> length (reader_pending r)"
  shows "\<exists>r'. PeekBytes n r = (Ok (take n (reader_pending r)), r') \<and>
      reader_pending r' = reader_pending r \<and> reader_patient r' \<and> length (peekBuf r') = n"
proof -
  obtain r1 where r1: "ReadBytes n r = (Ok (take n (reader_pending r)), r1)"
      "reader_pending r1 = drop n (reader_pending r)" "reader_patient r1" "peekBuf r1 = []"
    using ReadBytes_full [OF assms(1,3)] assms(2) by auto
  have "reader_pending r1 = src_pending (rsrc r1)" using r1(4) by (simp add: reader_pending_def)
  then have "reader_pending (r1\<lparr>peekBuf := take n (reader_pending r)\<rparr>) = reader_pending r"
    using r1(2) append_take_drop_id [of n "reader_pending r"]
    by (simp add: reader_pending_def [of "r1\<lparr>peekBuf := take n (reader_pending r)\<rparr>"])
  then show ?thesis
    using r1 assms(3) by (simp add: PeekBytes_def go_simps reader_patient_def)
qed

lemma PeekType_full:
  assumes "reader_patient r" "length (peekBuf r) \<le> 1" "reader_pending r = t # rest"
  shows "\<exists>r'. PeekType r = (Ok t, r') \<and> reader_pending r' = t # rest \<and> reader_patient r' \<and>
      length (peekBuf r') = 1"
  using PeekBytes_full [OF assms(1,2)] assms(3) by (auto simp: PeekType_def go_simps)

lemma PeekInt32_full:
  assumes "reader_patient r" "peekBuf r = []" "reader_pending r = Int32ToBytes v @ rest"
  shows "\<exists>r'. PeekInt32 r = (Ok v, r') \<and> reader_pending r' = Int32ToBytes v @ rest \<and>
      reader_patient r' \<and> length (peekBuf r') = 4"
  using PeekBytes_full [OF assms(1), of 4] assms(2,3) by (auto simp: PeekInt32_def go_simps)

text \<open>
  peeking is pure. With no more peeked than is asked for, \<open>PeekBytes\<close> returns the next bytes
  of the stream and leaves them to be read: the read that follows returns the same bytes, and the
  stream goes on behind them.
\<close>

theorem peek_then_read:
  assumes "reader_patient r" and "length (peekBuf r) \<le> n" and "n \<le> length (reader_pending r)"
  shows "\<exists>r1. PeekBytes n r = (Ok (take n (reader_pending r)), r1) \<and>
      reader_pending r1 = reader_pending r \<and>
      (\<exists>r2. ReadBytes n r1 = (Ok (take n (reader_pending r)), r2) \<and>
            reader_pending r2 = drop n (reader_pending r))"
proof -
  obtain r1 where r1: "PeekBytes n r = (Ok (take n (reader_pending r)), r1)"
      "reader_pending r1 = reader_pending r" "reader_patient r1"
    using PeekBytes_full [OF assms] by auto
  then show ?thesis using ReadBytes_full [of r1 n] assms(3) by auto
qed

theorem peek_then_read_witness:
  "\<exists>r1. PeekBytes 2 (NewReaderWithBytes [7, 8, 9]) = (Ok [7, 8], r1) \<and>
     reader_pending r1 = [7, 8, 9]"
proof -
  let ?r = "NewReaderWithBytes [7, 8, 9]"
  have h: "reader_patient ?r" "length (peekBuf ?r) \<le> 2" "2 \<le> length (reader_pending ?r)"
    by (simp_all add: NewReaderWithBytes_def reader_patient_def reader_pending_def
        src_patient_def src_pending_def)
  from peek_then_read [OF h] show ?thesis
    by (auto simp: NewReaderWithBytes_def reader_pending_def src_pending_def)
qed

text \<open>
  peeking fewer bytes than are already peeked is not pure. \<open>PeekBytes\<close> takes the bytes from
  the front of the peek buffer and puts them back at its end, so the buffer is rotated and every
  later read sees the bytes out of order.
\<close>

theorem short_peek_rotates:
  assumes "n \<le> length (peekBuf r)"
  shows "PeekBytes n r = (Ok (take n (peekBuf r)),
      r\<lparr>peekBuf := drop n (peekBuf r) @ take n (peekBuf r)\<rparr>)"
  using assms by (simp add: PeekBytes_def ReadBytes_def go_simps min_def)

theorem short_peek_rotates_witness:
  "PeekBytes 1 \<lparr>rsrc = BytesReader [5], peekBuf = [1, 2, 3, 4]\<rparr> =
     (Ok [1], \<lparr>rsrc = BytesReader [5], peekBuf = [2, 3, 4, 1]\<rparr>)"
  using short_peek_rotates [of 1 "\<lparr>rsrc = BytesReader [5], peekBuf = [1, 2, 3, 4]\<rparr>"] by simp

section \<open>Independence of the segmentation\<close>

definition same_stream :: "reader \<Rightarrow> reader \<Rightarrow> bool" where
  "same_stream r r' \<longleftrightarrow> reader_patient r \<and> reader_patient r' \<and> peekBuf r = peekBuf r' \<and>
     src_pending (rsrc r) = src_pending (rsrc r')"

definition agrees :: "'a rd \<Rightarrow> bool" where
  "agrees m \<longleftrightarrow> (\<forall>r r'. same_stream r r' \<longrightarrow>
     fst (m r) = fst (m r') \<and> same_stream (snd (m r)) (snd (m r')))"

lemma agreesD:
  assumes "agrees m" "same_stream r r'"
  obtains x s s' where "m r = (x, s)" "m r' = (x, s')" "same_stream s s'"
  using assms unfolding agrees_def by (metis prod.collapse)

lemma agrees_ret [agrees_intros]: "agrees (ret x)"
  by (simp add: agrees_def ret_def)

lemma agrees_fail [agrees_intros]: "agrees (fail e)"
  by (simp add: agrees_def fail_def)

lemma agrees_panic [agrees_intros]: "agrees (panic p)"
  by (simp add: agrees_def panic_def)

lemma agrees_lift_res [agrees_intros]: "agrees (lift_res x)"
  by (simp add: agrees_def lift_res_def)

lemma agrees_goseq [agrees_intros]:
  assumes m: "agrees m" and f: "\<And>a. agrees (f a)"
  shows "agrees (goseq m f)"
  unfolding agrees_def
proof (intro allI impI)
  fix r r' assume "same_stream r r'"
  with m obtain x s s' where "m r = (x, s)" "m r' = (x, s')" "same_stream s s'"
    by (rule agreesD)
  then show "fst (goseq m f r) = fst (goseq m f r') \<and>
      same_stream (snd (goseq m f r)) (snd (goseq m f r'))"
    using f by (cases x) (auto simp: goseq_def agrees_def)
qed

lemma agrees_if [agrees_intros]: "agrees m \<Longrightarrow> agrees n \<Longrightarrow> agrees (if b then m else n)"
  by simp

lemma agrees_repeat_n [agrees_intros]: "agrees m \<Longrightarrow> agrees (repeat_n n m)"
  by (induction n) (auto intro!: agrees_intros)

lemma agrees_ReadBytes [agrees_intros]: "agrees (ReadBytes n)"
  unfolding agrees_def
proof (intro allI impI)
  fix r r' assume s: "same_stream r r'"
  then have pend: "reader_pending r = reader_pending r'" "reader_patient r" "reader_patient r'"
    by (auto simp: same_stream_def reader_pending_def)
  show "fst (ReadBytes n r) = fst (ReadBytes n r') \<and>
      same_stream (snd (ReadBytes n r)) (snd (ReadBytes n r'))"
  proof (cases "n \<le> length (reader_pending r)")
    case True
    obtain q where q: "ReadBytes n r = (Ok (take n (reader_pending r)), q)" "reader_patient q"
      "reader_pending q = drop n (reader_pending r)" "peekBuf q = drop n (peekBuf r)"
      using ReadBytes_full [OF pend(2) True] by auto
    obtain q' where q': "ReadBytes n r' = (Ok (take n (reader_pending r)), q')" "reader_patient q'"
      "reader_pending q' = drop n (reader_pending r)" "peekBuf q' = drop n (peekBuf r)"
      using ReadBytes_full [OF pend(3), of n] True pend(1) s by (auto simp: same_stream_def)
    from q q' show ?thesis by (auto simp: same_stream_def reader_pending_def)
  next
    case False
    then have "length (reader_pending r) < n" "length (reader_pending r') < n"
      using pend(1) by simp_all
    then obtain q q' where
      "ReadBytes n r = (Err (if src_pending (rsrc r) = [] then EOF else UnexpectedEOF), q)"
      "ReadBytes n r' = (Err (if src_pending (rsrc r') = [] then EOF else UnexpectedEOF), q')"
      "reader_pending q = []" "reader_pending q' = []" "reader_patient q" "reader_patient q'"
      using ReadBytes_short [OF pend(2)] ReadBytes_short [OF pend(3)] by blast
    with s show ?thesis by (auto simp: same_stream_def reader_pending_def)
  qed
qed

lemma agrees_ReadByte [agrees_intros]: "agrees ReadByte"
  unfolding ReadByte_def by (intro agrees_intros)

lemma agrees_ReadInt32 [agrees_intros]: "agrees ReadInt32"
  unfolding ReadInt32_def by (intro agrees_intros)

lemma agrees_ReadInt16 [agrees_intros]: "agrees ReadInt16"
  unfolding ReadInt16_def by (intro agrees_intros)

lemma agrees_ReadType [agrees_intros]: "agrees ReadType"
  unfolding ReadType_def by (intro agrees_intros)

lemma agrees_ReadLength [agrees_intros]: "agrees ReadLength"
  unfolding ReadLength_def by (intro agrees_intros)

lemma ReadBytesUntil_loop_agrees:
  "same_stream r r' \<Longrightarrow>
   fst (ReadBytesUntil_loop delim buf r) = fst (ReadBytesUntil_loop delim buf r') \<and>
   same_stream (snd (ReadBytesUntil_loop delim buf r)) (snd (ReadBytesUntil_loop delim buf r'))"
proof (induction delim buf r arbitrary: r' rule: ReadBytesUntil_loop.induct)
  case (1 delim buf r)
  from agrees_ReadByte 1(2) obtain x s s' where
    "ReadByte r = (x, s)" "ReadByte r' = (x, s')" "same_stream s s'" by (rule agreesD)
  then show ?case
    using 1(1) by (cases x) (simp_all add: ReadBytesUntil_loop.simps [of delim buf r]
        ReadBytesUntil_loop.simps [of delim buf r'])
qed

lemma agrees_ReadBytesUntil [agrees_intros]: "agrees (ReadBytesUntil delim)"
  unfolding ReadBytesUntil_def agrees_def using ReadBytesUntil_loop_agrees by blast

lemma agrees_ReadString [agrees_intros]: "agrees ReadString"
  unfolding ReadString_def by (intro agrees_intros)

end
