(* ===== verification/Msg_Types.thy ===== *)
theory Msg_Types
  imports Reader
begin

text \<open>
  \<open>postgresql/protocol/type.go\<close>: the message types of the wire protocol, one byte each, and the
  names the server gives them in its traces. A frontend and a backend message may share a byte.
\<close>

named_theorems msg_types \<open>the byte of every message type\<close>

definition NoneMessage :: msg_type where [msg_types]: "NoneMessage = 0"

section \<open>Frontend messages\<close>

definition BindMessage :: msg_type where [msg_types]: "BindMessage = 66" \<comment> \<open>'B'\<close>
definition CancelRequestMessage :: msg_type where [msg_types]: "CancelRequestMessage = 32" \<comment> \<open>' '\<close>
definition CloseMessage :: msg_type where [msg_types]: "CloseMessage = 67" \<comment> \<open>'C'\<close>
definition CopyFailMessage :: msg_type where [msg_types]: "CopyFailMessage = 102" \<comment> \<open>'f'\<close>
definition DescribeMessage :: msg_type where [msg_types]: "DescribeMessage = 68" \<comment> \<open>'D'\<close>
definition ExecuteMessage :: msg_type where [msg_types]: "ExecuteMessage = 69" \<comment> \<open>'E'\<close>
definition FlushMessage :: msg_type where [msg_types]: "FlushMessage = 72" \<comment> \<open>'H'\<close>
definition FunctionCallMessage :: msg_type where [msg_types]: "FunctionCallMessage = 70" \<comment> \<open>'F'\<close>
definition GSSENCRequestMessage :: msg_type where [msg_types]: "GSSENCRequestMessage = 32" \<comment> \<open>' '\<close>
definition GSSResponseMessage :: msg_type where [msg_types]: "GSSResponseMessage = 112" \<comment> \<open>'p'\<close>
definition ParseMessage :: msg_type where [msg_types]: "ParseMessage = 80" \<comment> \<open>'P'\<close>
definition PasswordMessage :: msg_type where [msg_types]: "PasswordMessage = 112" \<comment> \<open>'p'\<close>
definition QueryMessage :: msg_type where [msg_types]: "QueryMessage = 81" \<comment> \<open>'Q'\<close>
definition SASLInitialResponseMessage :: msg_type where [msg_types]: "SASLInitialResponseMessage = 112" \<comment> \<open>'p'\<close>
definition SASLResponseMessage :: msg_type where [msg_types]: "SASLResponseMessage = 112" \<comment> \<open>'p'\<close>
definition SSLRequestMessage :: msg_type where [msg_types]: "SSLRequestMessage = 32" \<comment> \<open>' '\<close>
definition SSLResponseMessage :: msg_type where [msg_types]: "SSLResponseMessage = 32" \<comment> \<open>' '\<close>
definition StartupMessage :: msg_type where [msg_types]: "StartupMessage = 32" \<comment> \<open>' '\<close>
definition SyncMessage :: msg_type where [msg_types]: "SyncMessage = 83" \<comment> \<open>'S'\<close>
definition TerminateMessage :: msg_type where [msg_types]: "TerminateMessage = 88" \<comment> \<open>'X'\<close>

section \<open>Backend messages\<close>

definition AuthenticationOkMessage :: msg_type where [msg_types]: "AuthenticationOkMessage = 82" \<comment> \<open>'R'\<close>
definition AuthenticationKerberosV5Message :: msg_type where [msg_types]: "AuthenticationKerberosV5Message = 82" \<comment> \<open>'R'\<close>
definition AuthenticationCleartextPasswordMessage :: msg_type where [msg_types]: "AuthenticationCleartextPasswordMessage = 82" \<comment> \<open>'R'\<close>
definition AuthenticationMD5PasswordMessage :: msg_type where [msg_types]: "AuthenticationMD5PasswordMessage = 82" \<comment> \<open>'R'\<close>
definition AuthenticationGSSMessage :: msg_type where [msg_types]: "AuthenticationGSSMessage = 82" \<comment> \<open>'R'\<close>
definition AuthenticationSSPIMessage :: msg_type where [msg_types]: "AuthenticationSSPIMessage = 82" \<comment> \<open>'R'\<close>
definition AuthenticationSASLMessage :: msg_type where [msg_types]: "AuthenticationSASLMessage = 82" \<comment> \<open>'R'\<close>
definition AuthenticationSASLContinueMessage :: msg_type where [msg_types]: "AuthenticationSASLContinueMessage = 82" \<comment> \<open>'R'\<close>
definition AuthenticationSASLFinalMessage :: msg_type where [msg_types]: "AuthenticationSASLFinalMessage = 82" \<comment> \<open>'R'\<close>
definition BackendKeyDataMessage :: msg_type where [msg_types]: "BackendKeyDataMessage = 75" \<comment> \<open>'K'\<close>
definition BindCompleteMessage :: msg_type where [msg_types]: "BindCompleteMessage = 50" \<comment> \<open>'2'\<close>
definition CloseCompleteMessage :: msg_type where [msg_types]: "CloseCompleteMessage = 51" \<comment> \<open>'3'\<close>
definition CommandCompleteMessage :: msg_type where [msg_types]: "CommandCompleteMessage = 67" \<comment> \<open>'C'\<close>
definition CopyInResponseMessage :: msg_type where [msg_types]: "CopyInResponseMessage = 71" \<comment> \<open>'G'\<close>
definition CopyOutResponseMessage :: msg_type where [msg_types]: "CopyOutResponseMessage = 72" \<comment> \<open>'H'\<close>
definition CopyBothResponseMessage :: msg_type where [msg_types]: "CopyBothResponseMessage = 87" \<comment> \<open>'W'\<close>
definition DataRowMessage :: msg_type where [msg_types]: "DataRowMessage = 68" \<comment> \<open>'D'\<close>
definition EmptyQueryResponseMessage :: msg_type where [msg_types]: "EmptyQueryResponseMessage = 73" \<comment> \<open>'I'\<close>
definition ErrorResponseMessage :: msg_type where [msg_types]: "ErrorResponseMessage = 69" \<comment> \<open>'E'\<close>
definition FunctionCallResponseMessage :: msg_type where [msg_types]: "FunctionCallResponseMessage = 86" \<comment> \<open>'V'\<close>
definition NegotiateProtocolVersionMessage :: msg_type where [msg_types]: "NegotiateProtocolVersionMessage = 118" \<comment> \<open>'v'\<close>
definition NoDataMessage :: msg_type where [msg_types]: "NoDataMessage = 110" \<comment> \<open>'n'\<close>
definition NoticeResponseMessage :: msg_type where [msg_types]: "NoticeResponseMessage = 78" \<comment> \<open>'N'\<close>
definition NotificationResponseMessage :: msg_type where [msg_types]: "NotificationResponseMessage = 65" \<comment> \<open>'A'\<close>
definition ParameterDescriptionMessage :: msg_type where [msg_types]: "ParameterDescriptionMessage = 116" \<comment> \<open>'t'\<close>
definition ParameterStatusMessage :: msg_type where [msg_types]: "ParameterStatusMessage = 83" \<comment> \<open>'S'\<close>
definition ParseCompleteMessage :: msg_type where [msg_types]: "ParseCompleteMessage = 49" \<comment> \<open>'1'\<close>
definition PortalSuspendedMessage :: msg_type where [msg_types]: "PortalSuspendedMessage = 115" \<comment> \<open>'s'\<close>
definition ReadyForQueryMessage :: msg_type where [msg_types]: "ReadyForQueryMessage = 90" \<comment> \<open>'Z'\<close>
definition RowDescriptionMessage :: msg_type where [msg_types]: "RowDescriptionMessage = 84" \<comment> \<open>'T'\<close>

section \<open>Messages of both sides\<close>

definition CopyDataMessage :: msg_type where [msg_types]: "CopyDataMessage = 100" \<comment> \<open>'d'\<close>
definition CopyDoneMessage :: msg_type where [msg_types]: "CopyDoneMessage = 99" \<comment> \<open>'c'\<close>

section \<open>Names\<close>

text \<open>The switch of \<open>Type.String\<close>, in its order; the first case that matches wins.\<close>

definition Type_String :: "msg_type \<Rightarrow> string" where
  "Type_String t =
    (if t = BindMessage then ''Bind''
    else if t = CopyFailMessage then ''CopyFail''
    else if t = ExecuteMessage then ''Execute''
    else if t = FunctionCallMessage then ''FunctionCall''
    else if t = ParseMessage then ''Parse''
    else if t = QueryMessage then ''Query''
    else if t = SyncMessage then ''Sync''
    else if t = TerminateMessage then ''Terminate''
    else if t = BackendKeyDataMessage then ''BackendKeyData''
    else if t = BindCompleteMessage then ''BindComplete''
    else if t = CloseCompleteMessage then ''CloseComplete''
    else if t = CommandCompleteMessage then ''CommandComplete''
    else if t = CopyInResponseMessage then ''CopyInResponse''
    else if t = CopyOutResponseMessage then ''CopyOutResponse''
    else if t = CopyBothResponseMessage then ''CopyBothResponse''
    else if t = DataRowMessage then ''DataRow''
    else if t = EmptyQueryResponseMessage then ''EmptyQueryResponse''
    else if t = FunctionCallResponseMessage then ''FunctionCallResponse''
    else if t = NegotiateProtocolVersionMessage then ''NegotiateProtocolVersion''
    else if t = NoDataMessage then ''NoData''
    else if t = NoticeResponseMessage then ''NoticeResponse''
    else if t = NotificationResponseMessage then ''NotificationResponse''
    else if t = ParameterDescriptionMessage then ''ParameterDescription''
    else if t = ParseCompleteMessage then ''ParseComplete''
    else if t = PortalSuspendedMessage then ''PortalSuspended''
    else if t = ReadyForQueryMessage then ''ReadyForQuery''
    else if t = RowDescriptionMessage then ''RowDescription''
    else if t = CopyDataMessage then ''CopyData''
    else if t = CopyDoneMessage then ''CopyDone''
    else ''Unknown'')"

text \<open>
  the trace names of the request types the server dispatches on. \<open>Parse\<close>, \<open>Bind\<close>, \<open>Query\<close>,
  \<open>Execute\<close>, \<open>Sync\<close> and \<open>Terminate\<close> are named as themselves; \<open>Describe\<close>, \<open>Close\<close> and \<open>Flush\<close>
  are named after the backend message with the same byte.
\<close>

theorem request_type_names:
  "Type_String ParseMessage = ''Parse'' \<and> Type_String BindMessage = ''Bind'' \<and>
   Type_String QueryMessage = ''Query'' \<and> Type_String ExecuteMessage = ''Execute'' \<and>
   Type_String SyncMessage = ''Sync'' \<and> Type_String TerminateMessage = ''Terminate'' \<and>
   Type_String DescribeMessage = ''DataRow'' \<and> Type_String CloseMessage = ''CommandComplete'' \<and>
   Type_String FlushMessage = ''CopyOutResponse''"
  by (simp add: Type_String_def msg_types)

text \<open>The request types of the server's switch are pairwise distinct, so no case hides another.\<close>

lemma request_types_distinct:
  "distinct [ParseMessage, BindMessage, DescribeMessage, QueryMessage, ExecuteMessage,
     CloseMessage, SyncMessage, FlushMessage, TerminateMessage]"
  by (simp add: msg_types)

end
