(* ===== verification/Messages.thy ===== *)
theory Messages
  imports Wire Msg_Types
begin

text \<open>
  \<open>postgresql/protocol/message.go\<close> and \<open>request_message.go\<close>: the header of a message, its type
  byte and its length, which counts itself but not the type. The embedded \<open>*MessageReader\<close> is the
  reader the computations thread.
\<close>

record message =
  msg_Type :: msg_type
  msg_Length :: "32 word"

definition MessageTypeSize :: nat where "MessageTypeSize = 1"
definition MessageLengthSize :: nat where "MessageLengthSize = 4"
definition MessageHeaderSize :: nat where "MessageHeaderSize = MessageTypeSize + MessageLengthSize"

definition NewMessageWithReader :: "message rd" where
  "NewMessageWithReader = goseq ReadType (\<lambda>t. goseq ReadLength (\<lambda>l.
     ret \<lparr>msg_Type = t, msg_Length = l\<rparr>))"

text \<open>\<open>int32\<close> arithmetic: the subtraction wraps around.\<close>

definition MessageDataLength :: "message \<Rightarrow> 32 word" where
  "MessageDataLength msg = msg_Length msg - of_nat MessageLengthSize"

definition ReadMessageData :: "message \<Rightarrow> bytes rd" where
  "ReadMessageData msg =
     (let dataLen = sint (MessageDataLength msg)
      in if dataLen < 0 then fail (newInvalidLengthError dataLen)
         else goseq (ReadBytes (nat dataLen)) ret)"

definition NewRequestMessageWithReader :: "message rd" where
  "NewRequestMessageWithReader = goseq NewMessageWithReader ret"

section \<open>A message as the peer sends it\<close>

text \<open>The specification side: a type, the length the sender declares, and the payload.\<close>

definition header :: "msg_type \<Rightarrow> 32 word \<Rightarrow> bytes" where
  "header t len = t # Int32ToBytes len"

definition frame :: "msg_type \<Rightarrow> bytes \<Rightarrow> bytes" where
  "frame t payload = header t (of_nat (length payload + 4)) @ payload"

definition cstring :: "string \<Rightarrow> bytes" where
  "cstring s = bytes_of_string s @ [0]"

lemma length_frame: "length (frame t payload) = MessageHeaderSize + length payload"
  by (simp add: frame_def header_def MessageHeaderSize_def MessageTypeSize_def MessageLengthSize_def)

lemma sint_of_nat_small: "n < 2 ^ 31 \<Longrightarrow> sint (of_nat n :: 32 word) = int n"
  by (simp add: signed_of_nat signed_take_bit_int_eq_self)

lemma MessageDataLength_frame:
  assumes "msg_Length msg = of_nat (n + 4)" "n < 2 ^ 31"
  shows "sint (MessageDataLength msg) = int n"
proof -
  have "MessageDataLength msg = of_nat n"
    using assms(1) by (simp add: MessageDataLength_def MessageLengthSize_def)
  then show ?thesis using assms(2) by (simp only: sint_of_nat_small)
qed

context reader_class
begin

lemma parses_NewMessageWithReader:
  "parses P NewMessageWithReader (header t len) \<lparr>msg_Type = t, msg_Length = len\<rparr>"
proof -
  have "parses P NewMessageWithReader ([t] @ Int32ToBytes len) \<lparr>msg_Type = t, msg_Length = len\<rparr>"
    unfolding NewMessageWithReader_def
    by (rule parses_goseq [OF parses_ReadType], rule parses_goseq_ret [OF parses_ReadLength]) simp
  then show ?thesis by (simp add: header_def)
qed

lemma parses_NewRequestMessageWithReader:
  "parses P NewRequestMessageWithReader (header t len) \<lparr>msg_Type = t, msg_Length = len\<rparr>"
  unfolding NewRequestMessageWithReader_def by (simp add: parses_NewMessageWithReader)

lemma parses_ReadMessageData:
  assumes "msg_Length msg = of_nat (length payload + 4)" "length payload < 2 ^ 31"
  shows "parses P (ReadMessageData msg) payload payload"
  using parses_ReadBytes [of payload] MessageDataLength_frame [OF assms]
  by (simp add: ReadMessageData_def)

lemma parses_cstring: "no_nul s \<Longrightarrow> parses P ReadString (cstring s) s"
  unfolding cstring_def by (rule parses_ReadString)

end

lemma agrees_NewMessageWithReader [agrees_intros]: "agrees NewMessageWithReader"
  unfolding NewMessageWithReader_def by (intro agrees_intros)

lemma agrees_NewRequestMessageWithReader [agrees_intros]: "agrees NewRequestMessageWithReader"
  unfolding NewRequestMessageWithReader_def by (intro agrees_intros)

lemma agrees_ReadMessageData [agrees_intros]: "agrees (ReadMessageData msg)"
  unfolding ReadMessageData_def Let_def by (intro agrees_intros)

text \<open>
  a message whose declared length is the length of its payload plus four is read back exactly:
  the header gives its type and length, the data is the payload, and the next message begins right
  behind it, on any reader and however the stream is segmented.
\<close>

theorem message_data_round_trip:
  assumes "length payload < 2 ^ 31"
    and "reader_patient r" and "reader_pending r = frame t payload @ rest"
  shows "\<exists>r'. goseq NewMessageWithReader ReadMessageData r = (Ok payload, r') \<and>
      reader_pending r' = rest"
proof -
  have "parses (\<lambda>_. True) (goseq NewMessageWithReader ReadMessageData) (frame t payload) payload"
    unfolding frame_def
    by (rule parses_goseq [OF any_reader.parses_NewMessageWithReader
          any_reader.parses_ReadMessageData]) (use assms(1) in simp_all)
  from parsesE [OF this _ assms(2,3)] show ?thesis by auto
qed

theorem message_data_round_trip_witness:
  "\<exists>r'. goseq NewMessageWithReader ReadMessageData
      (NewReaderWithConn (new_net_conn [Arrive [67, 0, 0], Silence, Arrive [0, 6, 1, 2, 9]])) =
      (Ok [1, 2], r') \<and> reader_pending r' = [9]"
proof -
  let ?r = "NewReaderWithConn (new_net_conn [Arrive [67, 0, 0], Silence, Arrive [0, 6, 1, 2, 9]])"
  have "reader_patient ?r" and "reader_pending ?r = frame 67 [1, 2] @ [9]"
    by (simp_all add: NewReaderWithConn_def new_net_conn_def reader_patient_def src_patient_def
        conn_patient_def reader_pending_def src_pending_def conn_pending_def frame_def header_def
        Int32ToBytes_eq_Uint32ToBytes Uint32ToBytes_def)
  from message_data_round_trip [OF _ this] show ?thesis by simp
qed

text \<open>
  a declared length below four is refused. The header is consumed, nothing else is, and the
  error names the negative data length.
\<close>

theorem short_length_refused:
  assumes "- (2 ^ 31) + 4 \<le> sint len" and "sint len < 4"
    and "reader_patient r" and "reader_pending r = header t len @ rest"
  shows "\<exists>r'. goseq NewMessageWithReader ReadMessageData r =
      (Err (newInvalidLengthError (sint len - 4)), r') \<and> reader_pending r' = rest"
proof -
  obtain r' where "NewMessageWithReader r = (Ok \<lparr>msg_Type = t, msg_Length = len\<rparr>, r')"
      "reader_pending r' = rest"
    using parsesE [OF any_reader.parses_NewMessageWithReader _ assms(3,4)] by auto
  moreover have "sint (MessageDataLength \<lparr>msg_Type = t, msg_Length = len\<rparr>) = sint len - 4"
    using assms(1,2)
    by (simp add: MessageDataLength_def MessageLengthSize_def sint_word_ariths
        signed_take_bit_int_eq_self)
  ultimately show ?thesis
    using assms(2) by (simp add: ReadMessageData_def Let_def goseq_Ok fail_def)
qed

theorem short_length_refused_witness:
  "\<exists>r'. goseq NewMessageWithReader ReadMessageData
      (NewReaderWithBytes [67, 0, 0, 0, 3, 1]) = (Err (newInvalidLengthError (- 1)), r') \<and>
      reader_pending r' = [1]"
proof -
  let ?r = "NewReaderWithBytes [67, 0, 0, 0, 3, 1]"
  have "reader_patient ?r" and "reader_pending ?r = header 67 3 @ [1]"
    by (simp_all add: NewReaderWithBytes_def reader_patient_def src_patient_def
        reader_pending_def src_pending_def header_def
        Int32ToBytes_eq_Uint32ToBytes Uint32ToBytes_def)
  from short_length_refused [OF _ _ this] show ?thesis by simp
qed

end
