(* ===== verification/Requests.thy ===== *)
theory Requests
  imports Messages Go_Values
begin

text \<open>
  The request messages of the protocol package: \<open>parse.go\<close>, \<open>bind.go\<close>, \<open>describe.go\<close>,
  \<open>execute.go\<close>, \<open>close.go\<close>, \<open>query.go\<close>, \<open>sync.go\<close>, \<open>flush.go\<close>, \<open>terminate.go\<close>,
  \<open>password.go\<close> and \<open>prepared.go\<close>. Each constructor reads one message off the reader. The
  declared length of the header is kept, and none of these parsers looks at it.
\<close>

section \<open>Prepared types\<close>

datatype PreparedType = PreparedStatementType | PreparedPortalType

definition PreparedStatementByte :: byte where "PreparedStatementByte = 83" \<comment> \<open>'S'\<close>
definition PreparedPortalByte :: byte where "PreparedPortalByte = 80" \<comment> \<open>'P'\<close>

definition NewPreparedTypeWithByte :: "byte \<Rightarrow> (gerr, PreparedType) res" where
  "NewPreparedTypeWithByte bt =
     (if bt = PreparedStatementByte then Ok PreparedStatementType
      else if bt = PreparedPortalByte then Ok PreparedPortalType
      else Err (newErrInvalidPreparedType bt))"

section \<open>Slices of a length read off the wire\<close>

text \<open>
  \<open>make([]T, n)\<close> for a signed \<open>n\<close>: a negative length panics. \<open>for range n\<close> then runs \<open>n\<close> times.
\<close>

definition make_slice :: "16 word \<Rightarrow> unit rd" where
  "make_slice n = (if sint n < 0 then panic MakeSliceLenOutOfRange else ret ())"

definition read_slice :: "16 word \<Rightarrow> 'a rd \<Rightarrow> 'a list rd" where
  "read_slice n m = goseq (make_slice n) (\<lambda>_. repeat_n (nat (sint n)) m)"

section \<open>Parse\<close>

record Parse_msg =
  parse_header :: message
  parse_Name :: string
  parse_Query :: string
  parse_NumDataTypes :: "16 word"
  parse_DataTypes :: "32 word list"

definition NewParseWithReader :: "Parse_msg rd" where
  "NewParseWithReader =
     goseq NewRequestMessageWithReader (\<lambda>msg.
     goseq ReadString (\<lambda>name.
     goseq ReadString (\<lambda>query.
     goseq ReadInt16 (\<lambda>num.
     goseq (read_slice num ReadInt32) (\<lambda>types.
     ret \<lparr>parse_header = msg, parse_Name = name, parse_Query = query,
          parse_NumDataTypes = num, parse_DataTypes = types\<rparr>)))))"

section \<open>Bind\<close>

definition bindParamPrefix :: char where "bindParamPrefix = CHR ''$''"

record BindParam =
  bind_FormatCode :: format_code
  bind_Value :: go_value

text \<open>The names \<open>$1\<close>, \<open>$2\<close>, \<open>\<dots>\<close> of the parameters; an index below one reads out of range.\<close>

definition FindBindParam :: "BindParam list \<Rightarrow> string \<Rightarrow> (gerr, BindParam) res" where
  "FindBindParam params pid =
     (case pid of
        [] \<Rightarrow> Err (protocol_NewErrNotExist pid)
      | c # digits \<Rightarrow>
          if c \<noteq> bindParamPrefix then Err (protocol_NewErrNotExist pid)
          else case Atoi digits of
            None \<Rightarrow> Err (protocol_NewErrNotExist pid)
          | Some idx \<Rightarrow>
              if int (length params) < idx then Err (protocol_NewErrNotExist pid)
              else if idx < 1 then Panic IndexOutOfRange
              else Ok (params ! nat (idx - 1)))"

record Bind_msg =
  bind_header :: message
  bind_PortalName :: string
  bind_StatementName :: string
  bind_Params :: "BindParam list"

text \<open>
  \<open>reader.Read(buf)\<close>: the method is promoted from the embedded \<open>io.Reader\<close>, so it goes to the
  byte source directly, past the peek buffer, and it is a single read that may be short.
\<close>

definition Read_direct :: "nat \<Rightarrow> bytes rd" where
  "Read_direct n r = (case src_Read n (rsrc r) of ((bs, e), src') \<Rightarrow>
     (case e of Some err \<Rightarrow> (Err err, r\<lparr>rsrc := src'\<rparr>)
              | None \<Rightarrow> (Ok bs, r\<lparr>rsrc := src'\<rparr>)))"

text \<open>One parameter value: its length, then its bytes; length \<open>-1\<close> is NULL, a nil slice.\<close>

definition read_param_bytes :: "bytes option rd" where
  "read_param_bytes = goseq ReadInt32 (\<lambda>nBytes.
     if nBytes = 0 then ret (Some [])
     else if nBytes = - 1 then ret None
     else if sint nBytes \<le> 0 then fail (newInvalidLengthError (sint nBytes))
     else goseq (Read_direct (nat (sint nBytes))) (\<lambda>bs.
       if length bs \<noteq> nat (sint nBytes)
       then fail (newShortMessageError (sint nBytes) (int (length bs)))
       else ret (Some bs)))"

definition param_value :: "format_code \<Rightarrow> bytes option \<Rightarrow> go_value" where
  "param_value paramFmt paramValBytes =
     (if paramFmt = TextFormat then VString (string_of_bytes (slice_bytes paramValBytes))
      else if paramFmt = BinaryFormat then VBytes paramValBytes
      else VNil)"

definition param_format :: "format_code list \<Rightarrow> nat \<Rightarrow> format_code" where
  "param_format paramFmts n = (if n < length paramFmts then paramFmts ! n else TextFormat)"

definition bind_params :: "format_code list \<Rightarrow> bytes option list \<Rightarrow> BindParam list" where
  "bind_params paramFmts paramBytes =
     map (\<lambda>n. let paramFmt = param_format paramFmts n
              in \<lparr>bind_FormatCode = paramFmt,
                  bind_Value = param_value paramFmt (paramBytes ! n)\<rparr>)
       [0..<length paramBytes]"

definition NewBindWithReader :: "Bind_msg rd" where
  "NewBindWithReader =
     goseq NewRequestMessageWithReader (\<lambda>msg.
     goseq ReadString (\<lambda>portal.
     goseq ReadString (\<lambda>stmt.
     goseq ReadInt16 (\<lambda>paramFmtNum.
     goseq (read_slice paramFmtNum ReadInt16) (\<lambda>paramFmts.
     goseq ReadInt16 (\<lambda>paramValNum.
     goseq (read_slice paramValNum read_param_bytes) (\<lambda>paramBytes.
     goseq ReadInt16 (\<lambda>resFmtNum.
     goseq (read_slice resFmtNum ReadInt16) (\<lambda>resFmts.
     ret \<lparr>bind_header = msg, bind_PortalName = portal, bind_StatementName = stmt,
          bind_Params = bind_params paramFmts paramBytes\<rparr>)))))))))"

section \<open>Describe, Execute, Close\<close>

record Describe_msg =
  describe_header :: message
  describe_typ :: PreparedType
  describe_name :: string

definition NewDescribeWithReader :: "Describe_msg rd" where
  "NewDescribeWithReader =
     goseq NewRequestMessageWithReader (\<lambda>msg.
     goseq ReadByte (\<lambda>bt.
     goseq ReadString (\<lambda>name.
     goseq (lift_res (NewPreparedTypeWithByte bt)) (\<lambda>dt.
     ret \<lparr>describe_header = msg, describe_typ = dt, describe_name = name\<rparr>))))"

record Execute_msg =
  execute_header :: message
  execute_PortalName :: string
  execute_MaxRows :: "32 word"

definition NewExecuteWithReader :: "Execute_msg rd" where
  "NewExecuteWithReader =
     goseq NewRequestMessageWithReader (\<lambda>msg.
     goseq ReadString (\<lambda>portal.
     goseq ReadInt32 (\<lambda>maxRows.
     ret \<lparr>execute_header = msg, execute_PortalName = portal, execute_MaxRows = maxRows\<rparr>)))"

record Close_msg =
  close_header :: message
  close_Type :: PreparedType
  close_Name :: string

definition NewCloseWithReader :: "Close_msg rd" where
  "NewCloseWithReader =
     goseq NewRequestMessageWithReader (\<lambda>msg.
     goseq ReadByte (\<lambda>bt.
     goseq ReadString (\<lambda>name.
     goseq (lift_res (NewPreparedTypeWithByte bt)) (\<lambda>dt.
     ret \<lparr>close_header = msg, close_Type = dt, close_Name = name\<rparr>))))"

section \<open>Query\<close>

text \<open>
  The embedded \<open>stmt.BindStatement\<close> of the SQL parser package is built from the query text and
  the parameter values and holds nothing else, so a query is its text and its parameters; the
  parser itself is a parameter of the query handler. A query built from a portal has no header.
\<close>

record Query_msg =
  query_header :: "message option"
  query_Query :: string
  query_BindParams :: "BindParam list"

definition NewQueryWithReader :: "Query_msg rd" where
  "NewQueryWithReader =
     goseq NewRequestMessageWithReader (\<lambda>msg.
     goseq ReadString (\<lambda>query.
     ret \<lparr>query_header = Some msg, query_Query = query, query_BindParams = []\<rparr>))"

definition NewQueryWith :: "Parse_msg \<Rightarrow> Bind_msg \<Rightarrow> Query_msg" where
  "NewQueryWith parseMsg bindMsg =
     \<lparr>query_header = None, query_Query = parse_Query parseMsg,
      query_BindParams = bind_Params bindMsg\<rparr>"

section \<open>Messages that are only a header, and the password\<close>

definition NewSyncWithReader :: "message rd" where
  "NewSyncWithReader = goseq NewRequestMessageWithReader ret"

definition NewFlushWithReader :: "message rd" where
  "NewFlushWithReader = goseq NewRequestMessageWithReader ret"

definition NewTerminateWithReader :: "message rd" where
  "NewTerminateWithReader = goseq NewRequestMessageWithReader ret"

definition NewCopyDoneWithReader :: "message rd" where
  "NewCopyDoneWithReader = goseq NewRequestMessageWithReader ret"

record Password_msg =
  password_header :: message
  password_Password :: string

definition NewPasswordWithReader :: "Password_msg rd" where
  "NewPasswordWithReader =
     goseq NewRequestMessageWithReader (\<lambda>msg.
     goseq ReadString (\<lambda>password.
     ret \<lparr>password_header = msg, password_Password = password\<rparr>))"

record CopyFail_msg =
  copyfail_MessageLength :: "32 word"
  copyfail_Message :: string

definition NewCopyFailWithReader :: "CopyFail_msg rd" where
  "NewCopyFailWithReader =
     goseq ReadInt32 (\<lambda>msgLen.
     goseq ReadString (\<lambda>msg.
     ret \<lparr>copyfail_MessageLength = msgLen, copyfail_Message = msg\<rparr>))"

end
