(* ===== verification/Request_Proofs.thy ===== *)
theory Request_Proofs
  imports Requests
begin

text \<open>
  Correctness of the request parsers. The specification side is what a frontend sends, written
  down as encoders. The round trips are proved inside \<open>reader_class\<close> and hold for every declared
  length, because none of the parsers checks it; \<open>Bind\<close> alone needs its stream in one piece.
\<close>

section \<open>Encoders of the frontend\<close>

definition enc_int16 :: "nat \<Rightarrow> bytes" where
  "enc_int16 n = Int16ToBytes (of_nat n)"

definition enc_parse :: "string \<Rightarrow> string \<Rightarrow> 32 word list \<Rightarrow> bytes" where
  "enc_parse name query types =
     cstring name @ cstring query @ enc_int16 (length types) @ concat (map Int32ToBytes types)"

definition enc_param :: "bytes option \<Rightarrow> bytes" where
  "enc_param p = (case p of
       None \<Rightarrow> Int32ToBytes (- 1)
     | Some bs \<Rightarrow> Int32ToBytes (of_nat (length bs)) @ bs)"

definition enc_bind ::
    "string \<Rightarrow> string \<Rightarrow> format_code list \<Rightarrow> bytes option list \<Rightarrow> format_code list \<Rightarrow> bytes" where
  "enc_bind portal stmt fmts vals resFmts =
     cstring portal @ cstring stmt @
     enc_int16 (length fmts) @ concat (map Int16ToBytes fmts) @
     enc_int16 (length vals) @ concat (map enc_param vals) @
     enc_int16 (length resFmts) @ concat (map Int16ToBytes resFmts)"

definition enc_prepared_type :: "PreparedType \<Rightarrow> byte" where
  "enc_prepared_type t = (case t of
     PreparedStatementType \<Rightarrow> PreparedStatementByte | PreparedPortalType \<Rightarrow> PreparedPortalByte)"

lemma NewPreparedTypeWithByte_enc [simp]:
  "NewPreparedTypeWithByte (enc_prepared_type t) = Ok t"
  by (cases t) (simp_all add: NewPreparedTypeWithByte_def enc_prepared_type_def
      PreparedStatementByte_def PreparedPortalByte_def)

lemma sint_of_nat_small16: "n < 2 ^ 15 \<Longrightarrow> sint (of_nat n :: 16 word) = int n"
  by (simp add: signed_of_nat signed_take_bit_int_eq_self)

context reader_class
begin

lemma parses_make_slice: "0 \<le> sint n \<Longrightarrow> parses P (make_slice n) [] ()"
  by (simp add: make_slice_def parses_ret)

lemma parses_read_slice:
  assumes "\<And>x. x \<in> set xs \<Longrightarrow> parses P m (enc x) x" and "length xs < 2 ^ 15"
  shows "parses P (read_slice (of_nat (length xs)) m) (concat (map enc xs)) xs"
proof -
  have len: "sint (of_nat (length xs) :: 16 word) = int (length xs)"
    using assms(2) by (rule sint_of_nat_small16)
  have "parses P (repeat_n (nat (sint (of_nat (length xs) :: 16 word))) m) (concat (map enc xs)) xs"
    using parses_repeat_n [of xs P m enc] assms(1) by (simp add: len)
  from parses_goseq [OF parses_make_slice this] show ?thesis
    by (simp add: read_slice_def len)
qed

lemma parses_Parse:
  assumes "no_nul name" "no_nul query" "length types < 2 ^ 15"
  shows "parses P NewParseWithReader (header t len @ enc_parse name query types)
    \<lparr>parse_header = \<lparr>msg_Type = t, msg_Length = len\<rparr>, parse_Name = name, parse_Query = query,
     parse_NumDataTypes = of_nat (length types), parse_DataTypes = types\<rparr>"
  unfolding NewParseWithReader_def enc_parse_def enc_int16_def
  by (rule parses_goseq [OF parses_NewRequestMessageWithReader],
      rule parses_goseq [OF parses_cstring [OF assms(1)]],
      rule parses_goseq [OF parses_cstring [OF assms(2)]],
      rule parses_goseq [OF parses_ReadInt16],
      rule parses_goseq_ret [OF parses_read_slice [OF parses_ReadInt32 assms(3)]]) simp

lemma parses_Describe:
  assumes "no_nul name"
  shows "parses P NewDescribeWithReader (header t len @ enc_prepared_type dt # cstring name)
    \<lparr>describe_header = \<lparr>msg_Type = t, msg_Length = len\<rparr>, describe_typ = dt, describe_name = name\<rparr>"
proof -
  have "parses P NewDescribeWithReader (header t len @ [enc_prepared_type dt] @ cstring name)
    \<lparr>describe_header = \<lparr>msg_Type = t, msg_Length = len\<rparr>, describe_typ = dt, describe_name = name\<rparr>"
    unfolding NewDescribeWithReader_def
    by (rule parses_goseq [OF parses_NewRequestMessageWithReader], rule parses_goseq [OF parses_ReadByte],
        rule parses_last [OF parses_cstring [OF assms]]) (simp add: goseq_def lift_res_def ret_def)
  then show ?thesis by simp
qed

lemma parses_Close:
  assumes "no_nul name"
  shows "parses P NewCloseWithReader (header t len @ enc_prepared_type dt # cstring name)
    \<lparr>close_header = \<lparr>msg_Type = t, msg_Length = len\<rparr>, close_Type = dt, close_Name = name\<rparr>"
proof -
  have "parses P NewCloseWithReader (header t len @ [enc_prepared_type dt] @ cstring name)
    \<lparr>close_header = \<lparr>msg_Type = t, msg_Length = len\<rparr>, close_Type = dt, close_Name = name\<rparr>"
    unfolding NewCloseWithReader_def
    by (rule parses_goseq [OF parses_NewRequestMessageWithReader], rule parses_goseq [OF parses_ReadByte],
        rule parses_last [OF parses_cstring [OF assms]]) (simp add: goseq_def lift_res_def ret_def)
  then show ?thesis by simp
qed

lemma parses_Execute:
  assumes "no_nul portal"
  shows "parses P NewExecuteWithReader (header t len @ cstring portal @ Int32ToBytes maxRows)
    \<lparr>execute_header = \<lparr>msg_Type = t, msg_Length = len\<rparr>, execute_PortalName = portal,
     execute_MaxRows = maxRows\<rparr>"
  unfolding NewExecuteWithReader_def
  by (rule parses_goseq [OF parses_NewRequestMessageWithReader],
      rule parses_goseq [OF parses_cstring [OF assms]],
      rule parses_goseq_ret [OF parses_ReadInt32]) simp

lemma parses_Query:
  assumes "no_nul query"
  shows "parses P NewQueryWithReader (header t len @ cstring query)
    \<lparr>query_header = Some \<lparr>msg_Type = t, msg_Length = len\<rparr>, query_Query = query,
     query_BindParams = []\<rparr>"
  unfolding NewQueryWithReader_def
  by (rule parses_goseq [OF parses_NewRequestMessageWithReader],
      rule parses_goseq_ret [OF parses_cstring [OF assms]]) simp

lemma parses_Password:
  assumes "no_nul password"
  shows "parses P NewPasswordWithReader (header t len @ cstring password)
    \<lparr>password_header = \<lparr>msg_Type = t, msg_Length = len\<rparr>, password_Password = password\<rparr>"
  unfolding NewPasswordWithReader_def
  by (rule parses_goseq [OF parses_NewRequestMessageWithReader],
      rule parses_goseq_ret [OF parses_cstring [OF assms]]) simp

lemma parses_header_only:
  "parses P NewSyncWithReader (header t len) \<lparr>msg_Type = t, msg_Length = len\<rparr>"
  "parses P NewFlushWithReader (header t len) \<lparr>msg_Type = t, msg_Length = len\<rparr>"
  "parses P NewTerminateWithReader (header t len) \<lparr>msg_Type = t, msg_Length = len\<rparr>"
  "parses P NewCopyDoneWithReader (header t len) \<lparr>msg_Type = t, msg_Length = len\<rparr>"
  by (simp_all add: NewSyncWithReader_def NewFlushWithReader_def NewTerminateWithReader_def
      NewCopyDoneWithReader_def parses_NewRequestMessageWithReader)

end

section \<open>Segmentation\<close>

lemma agrees_make_slice [agrees_intros]: "agrees (make_slice n)"
  unfolding make_slice_def by (intro agrees_intros)

lemma agrees_read_slice [agrees_intros]: "agrees m \<Longrightarrow> agrees (read_slice n m)"
  unfolding read_slice_def by (intro agrees_intros)

lemmas request_parser_defs = NewParseWithReader_def NewDescribeWithReader_def
  NewExecuteWithReader_def NewCloseWithReader_def NewQueryWithReader_def NewSyncWithReader_def
  NewFlushWithReader_def NewTerminateWithReader_def NewPasswordWithReader_def

text \<open>
  the outcome of parsing a request depends on the bytes of the stream only. For every request
  but \<open>Bind\<close>, two readers with the same bytes to come give the same message or the same error, and
  leave the same bytes behind, however the network cut the bytes into segments.
\<close>

theorem requests_ignore_segmentation:
  "agrees NewParseWithReader \<and> agrees NewDescribeWithReader \<and> agrees NewExecuteWithReader \<and>
   agrees NewCloseWithReader \<and> agrees NewQueryWithReader \<and> agrees NewSyncWithReader \<and>
   agrees NewFlushWithReader \<and> agrees NewTerminateWithReader \<and> agrees NewPasswordWithReader"
  unfolding request_parser_defs by (intro conjI agrees_intros)

section \<open>Round trips\<close>

text \<open>
  what a frontend sends as a Parse message is what the server's parser returns: name, query,
  number and object ids of the parameter types, for fewer than \<open>2 ^ 15\<close> types; the stream goes on
  right behind the message, and the declared length plays no role.
\<close>

theorem parse_round_trip:
  assumes "no_nul name" and "no_nul query" and "length types < 2 ^ 15"
    and "reader_patient r"
    and "reader_pending r = header ParseMessage len @ enc_parse name query types @ rest"
  shows "\<exists>r'. NewParseWithReader r =
      (Ok \<lparr>parse_header = \<lparr>msg_Type = ParseMessage, msg_Length = len\<rparr>, parse_Name = name,
           parse_Query = query, parse_NumDataTypes = of_nat (length types),
           parse_DataTypes = types\<rparr>, r') \<and> reader_pending r' = rest"
  using parsesE [OF any_reader.parses_Parse [OF assms(1-3)] _ assms(4), of ParseMessage len rest]
    assms(5) by auto

theorem parse_round_trip_witness:
  "\<exists>r'. NewParseWithReader (NewReaderWithBytes
       (header ParseMessage 22 @ enc_parse ''s1'' ''SELECT $1'' [23] @ [83])) =
     (Ok \<lparr>parse_header = \<lparr>msg_Type = ParseMessage, msg_Length = 22\<rparr>, parse_Name = ''s1'',
          parse_Query = ''SELECT $1'', parse_NumDataTypes = 1, parse_DataTypes = [23]\<rparr>, r') \<and>
     reader_pending r' = [83]"
proof -
  let ?r = "NewReaderWithBytes (header ParseMessage 22 @ enc_parse ''s1'' ''SELECT $1'' [23] @ [83])"
  have "reader_patient ?r"
    and "reader_pending ?r = header ParseMessage 22 @ enc_parse ''s1'' ''SELECT $1'' [23] @ [83]"
    by (simp_all add: NewReaderWithBytes_def reader_patient_def src_patient_def
        reader_pending_def src_pending_def)
  moreover have "no_nul ''s1''" "no_nul ''SELECT $1''"
    by (simp_all add: no_nul_def bytes_of_string_def byte_of_char_def)
  ultimately show ?thesis using parse_round_trip [of "''s1''" "''SELECT $1''" "[23]"] by simp
qed

text \<open>
  the remaining requests with a body. Query, Password, Execute, Describe and Close are
  returned as they were sent, on every reader, and the declared length plays no role.
\<close>

theorem simple_requests_round_trip:
  assumes "no_nul s"
  shows "parses (\<lambda>_. True) NewQueryWithReader (header t len @ cstring s)
      \<lparr>query_header = Some \<lparr>msg_Type = t, msg_Length = len\<rparr>, query_Query = s,
       query_BindParams = []\<rparr> \<and>
    parses (\<lambda>_. True) NewPasswordWithReader (header t len @ cstring s)
      \<lparr>password_header = \<lparr>msg_Type = t, msg_Length = len\<rparr>, password_Password = s\<rparr> \<and>
    parses (\<lambda>_. True) NewExecuteWithReader (header t len @ cstring s @ Int32ToBytes n)
      \<lparr>execute_header = \<lparr>msg_Type = t, msg_Length = len\<rparr>, execute_PortalName = s,
       execute_MaxRows = n\<rparr> \<and>
    parses (\<lambda>_. True) NewDescribeWithReader (header t len @ enc_prepared_type dt # cstring s)
      \<lparr>describe_header = \<lparr>msg_Type = t, msg_Length = len\<rparr>, describe_typ = dt,
       describe_name = s\<rparr> \<and>
    parses (\<lambda>_. True) NewCloseWithReader (header t len @ enc_prepared_type dt # cstring s)
      \<lparr>close_header = \<lparr>msg_Type = t, msg_Length = len\<rparr>, close_Type = dt, close_Name = s\<rparr>"
  using assms by (intro conjI any_reader.parses_Query any_reader.parses_Password
      any_reader.parses_Execute any_reader.parses_Describe any_reader.parses_Close)

theorem simple_requests_round_trip_witness:
  "parses (\<lambda>_. True) NewQueryWithReader (header QueryMessage 10 @ cstring ''BEGIN'')
     \<lparr>query_header = Some \<lparr>msg_Type = QueryMessage, msg_Length = 10\<rparr>, query_Query = ''BEGIN'',
      query_BindParams = []\<rparr>"
proof -
  have "no_nul ''BEGIN''" by (simp add: no_nul_def bytes_of_string_def byte_of_char_def)
  then show ?thesis using simple_requests_round_trip [of "''BEGIN''" QueryMessage 10] by blast
qed

end
