(* ===== verification/Startup.thy ===== *)
theory Startup
  imports Request_Proofs
begin

text \<open>
  The messages before the session proper, which have no type byte: \<open>ssl_request.go\<close>,
  \<open>ssl_response.go\<close> and \<open>startup.go\<close> of the protocol package. The startup parser is the only one
  that looks at the declared length of its message.
\<close>

section \<open>SSL negotiation\<close>

definition SSLRequestCode :: "32 word" where "SSLRequestCode = 80877103"
definition SSLEnabled :: byte where "SSLEnabled = 83" \<comment> \<open>'S'\<close>
definition SSLDisabled :: byte where "SSLDisabled = 78" \<comment> \<open>'N'\<close>

text \<open>The only field of an \<open>SSLRequest\<close> is its code.\<close>

definition NewSSLRequestWithReader :: "(32 word) rd" where
  "NewSSLRequestWithReader =
     goseq ReadInt32 (\<lambda>_. goseq ReadInt32 (\<lambda>code.
     if code \<noteq> SSLRequestCode then fail (newErrInvalidSSLRequestCode code) else ret code))"

record SSLResponse = ssl_Enabled :: byte

definition NewSSLResponseWith :: "byte \<Rightarrow> SSLResponse" where
  "NewSSLResponseWith enabled = \<lparr>ssl_Enabled = enabled\<rparr>"

definition SSLResponse_Type :: "SSLResponse \<Rightarrow> msg_type" where
  "SSLResponse_Type msg = SSLResponseMessage"

definition SSLResponse_Bytes :: "SSLResponse \<Rightarrow> bytes" where
  "SSLResponse_Bytes msg = [ssl_Enabled msg]"

section \<open>The startup message\<close>

record startup =
  su_MajorVersion :: int
  su_MinorVersion :: int
  su_MessageLength :: "32 word"
  su_Parameters :: "string \<rightharpoonup> string"

definition StartUpUser :: string where "StartUpUser = ''user''"
definition StartUpPassword :: string where "StartUpPassword = ''password''"
definition StartUpDatabase :: string where "StartUpDatabase = ''database''"
definition StartUpApplicationName :: string where "StartUpApplicationName = ''application_name''"
definition StartUpClientEncoding :: string where "StartUpClientEncoding = ''client_encoding''"

text \<open>
  The loop over the parameters: it stops at an empty key, or when as many bytes have been read as
  the message declares. Every round reads at least two bytes, so it ends.
\<close>

function startup_loop :: "int \<Rightarrow> int \<Rightarrow> (string \<rightharpoonup> string) \<Rightarrow> (string \<rightharpoonup> string) rd" where
  "startup_loop msgLen readLen params =
     (if readLen < msgLen then
        goseq ReadString (\<lambda>k.
        if length k = 0 then ret params
        else goseq ReadString (\<lambda>v.
          startup_loop msgLen (readLen + (int (length k) + 1) + (int (length v) + 1)) (params(k \<mapsto> v))))
      else ret params)"
  by pat_completeness auto
termination by (relation "measure (\<lambda>(msgLen, readLen, _). nat (msgLen - readLen))") auto

declare startup_loop.simps [simp del]

definition NewStartupWithReader :: "startup rd" where
  "NewStartupWithReader =
     goseq ReadInt32 (\<lambda>msgLen.
     goseq ReadInt32 (\<lambda>ver.
     let majorVer = signed_drop_bit 16 ver; minorVer = ver AND 0xFFFF in
     goseq (startup_loop (sint msgLen) 8 Map.empty) (\<lambda>params.
     ret \<lparr>su_MajorVersion = sint majorVer, su_MinorVersion = sint minorVer,
          su_MessageLength = msgLen, su_Parameters = params\<rparr>)))"

definition Startup_User :: "startup \<Rightarrow> string option" where
  "Startup_User msg = su_Parameters msg StartUpUser"

definition Startup_Password :: "startup \<Rightarrow> string option" where
  "Startup_Password msg = su_Parameters msg StartUpPassword"

definition Startup_Database :: "startup \<Rightarrow> string option" where
  "Startup_Database msg = su_Parameters msg StartUpDatabase"

definition Startup_ApplicationName :: "startup \<Rightarrow> string option" where
  "Startup_ApplicationName msg = su_Parameters msg StartUpApplicationName"

definition Startup_ClientEncoding :: "startup \<Rightarrow> string option" where
  "Startup_ClientEncoding msg = su_Parameters msg StartUpClientEncoding"

section \<open>What a frontend sends\<close>

definition enc_params :: "(string \<times> string) list \<Rightarrow> bytes" where
  "enc_params ps = concat (map (\<lambda>(k, v). cstring k @ cstring v) ps)"

definition protocol_3_0 :: "32 word" where "protocol_3_0 = 196608"

definition enc_startup :: "(string \<times> string) list \<Rightarrow> bytes" where
  "enc_startup ps =
     Int32ToBytes (of_nat (length (enc_params ps) + 9)) @ Int32ToBytes protocol_3_0 @ enc_params ps @ [0]"

definition startup_ok :: "(string \<times> string) list \<Rightarrow> bool" where
  "startup_ok ps \<longleftrightarrow> list_all (\<lambda>(k, v). k \<noteq> [] \<and> no_nul k \<and> no_nul v) ps"

lemma length_cstring [simp]: "length (cstring s) = length s + 1"
  by (simp add: cstring_def)

context reader_class
begin

lemma parses_startup_loop:
  assumes "startup_ok ps" "readLen + int (length (enc_params ps)) < msgLen"
  shows "parses P (startup_loop msgLen readLen params) (enc_params ps @ [0]) (params ++ map_of (rev ps))"
  using assms
proof (induction ps arbitrary: readLen params)
  case Nil
  then have "parses P (startup_loop msgLen readLen params) (cstring []) params"
    using parses_cstring [of "[]"]
    by (subst startup_loop.simps) (simp add: parses_goseq_ret)
  then show ?case by (simp add: enc_params_def cstring_def)
next
  case (Cons p ps)
  obtain k v where p: "p = (k, v)" by fastforce
  let ?n = "readLen + (int (length k) + 1) + (int (length v) + 1)"
  have kv: "k \<noteq> []" "no_nul k" "no_nul v" "startup_ok ps"
    using Cons.prems(1) by (auto simp: startup_ok_def p)
  have len: "readLen < msgLen" "?n + int (length (enc_params ps)) < msgLen"
    using Cons.prems(2) by (simp_all add: enc_params_def p)
  have "parses P (startup_loop msgLen readLen params) (cstring k @ cstring v @ enc_params ps @ [0])
      (params(k \<mapsto> v) ++ map_of (rev ps))"
    using len(1) kv(1)
    by (subst startup_loop.simps, simp only: if_True length_0_conv)
      (rule parses_goseq [OF parses_cstring [OF kv(2)]],
       simp only: length_0_conv if_False kv(1),
       rule parses_goseq [OF parses_cstring [OF kv(3)]],
       rule Cons.IH [OF kv(4) len(2)])
  then show ?case by (simp add: enc_params_def p map_add_assoc [symmetric])
qed

lemma parses_Startup:
  assumes "startup_ok ps" "length (enc_params ps) + 9 < 2 ^ 31"
  shows "parses P NewStartupWithReader (enc_startup ps)
    \<lparr>su_MajorVersion = 3, su_MinorVersion = 0,
     su_MessageLength = of_nat (length (enc_params ps) + 9), su_Parameters = map_of (rev ps)\<rparr>"
proof -
  let ?len = "of_nat (length (enc_params ps) + 9) :: 32 word"
  have len: "sint ?len = int (length (enc_params ps) + 9)"
    using assms(2) by (rule sint_of_nat_small)
  have ver: "sint (signed_drop_bit 16 protocol_3_0) = 3" "sint (protocol_3_0 AND 0xFFFF) = 0"
    unfolding protocol_3_0_def by (code_simp, code_simp)
  have loop: "parses P (startup_loop (sint ?len) 8 Map.empty) (enc_params ps @ [0]) (map_of (rev ps))"
    using parses_startup_loop [OF assms(1), of 8 "sint ?len" Map.empty] len by simp
  show ?thesis
    unfolding NewStartupWithReader_def enc_startup_def Let_def
    by (rule parses_goseq [OF parses_ReadInt32], rule parses_goseq [OF parses_ReadInt32],
        rule parses_goseq_ret [OF loop]) (simp add: ver)
qed

end

section \<open>Properties\<close>

text \<open>
  a startup message is returned as it was sent: version 3.0 and every parameter, where the
  last of two entries with the same key wins; the stream goes on right behind the terminator,
  on any reader.
\<close>

theorem startup_round_trip:
  assumes "startup_ok ps" and "length (enc_params ps) + 9 < 2 ^ 31"
    and "reader_patient r" and "reader_pending r = enc_startup ps @ rest"
  shows "\<exists>r'. NewStartupWithReader r =
      (Ok \<lparr>su_MajorVersion = 3, su_MinorVersion = 0,
           su_MessageLength = of_nat (length (enc_params ps) + 9),
           su_Parameters = map_of (rev ps)\<rparr>, r') \<and> reader_pending r' = rest"
  using parsesE [OF any_reader.parses_Startup [OF assms(1,2)] TrueI assms(3,4)] by auto

theorem startup_round_trip_witness:
  "\<exists>msg r'. NewStartupWithReader
      (NewReaderWithBytes (enc_startup [(''user'', ''alice''), (''database'', ''db'')] @ [81])) = (Ok msg, r') \<and>
    Startup_User msg = Some ''alice'' \<and> Startup_Database msg = Some ''db'' \<and>
    Startup_Password msg = None \<and> reader_pending r' = [81]"
proof -
  let ?ps = "[(''user'', ''alice''), (''database'', ''db'')]"
  let ?r = "NewReaderWithBytes (enc_startup ?ps @ [81])"
  have "reader_patient ?r" "reader_pending ?r = enc_startup ?ps @ [81]"
    by (simp_all add: NewReaderWithBytes_def reader_patient_def src_patient_def
        reader_pending_def src_pending_def)
  moreover have "startup_ok ?ps"
    by (simp add: startup_ok_def no_nul_def bytes_of_string_def byte_of_char_def)
  moreover have "length (enc_params ?ps) + 9 < 2 ^ 31" by (simp add: enc_params_def)
  ultimately show ?thesis
    using startup_round_trip [of ?ps ?r "[81]"]
    by (auto simp: Startup_User_def StartUpUser_def Startup_Database_def StartUpDatabase_def
        Startup_Password_def StartUpPassword_def)
qed

lemma parses_SSLRequest:
  "parses (\<lambda>_. True) NewSSLRequestWithReader (Int32ToBytes len @ Int32ToBytes SSLRequestCode) SSLRequestCode"
  unfolding NewSSLRequestWithReader_def
  by (rule parses_goseq [OF any_reader.parses_ReadInt32], rule parses_goseq_ret [OF any_reader.parses_ReadInt32]) simp

lemma agrees_startup_loop [agrees_intros]: "agrees (startup_loop msgLen readLen params)"
proof (induction msgLen readLen params rule: startup_loop.induct)
  case (1 msgLen readLen params)
  show ?case
  proof (cases "readLen < msgLen")
    case True
    have "agrees (goseq ReadString (\<lambda>k. if length k = 0 then ret params
        else goseq ReadString (\<lambda>v. startup_loop msgLen
          (readLen + (int (length k) + 1) + (int (length v) + 1)) (params(k \<mapsto> v)))))"
    proof (rule agrees_goseq [OF agrees_ReadString])
      fix k
      show "agrees (if length k = 0 then ret params
        else goseq ReadString (\<lambda>v. startup_loop msgLen
          (readLen + (int (length k) + 1) + (int (length v) + 1)) (params(k \<mapsto> v))))"
      proof (cases "length k = 0")
        case False
        then show ?thesis
          by (simp only: if_False) (rule agrees_goseq [OF agrees_ReadString], rule 1 [OF True False])
      qed (simp add: agrees_ret)
    qed
    with True show ?thesis by (simp add: startup_loop.simps [of msgLen])
  next
    case False
    then show ?thesis by (simp add: startup_loop.simps [of msgLen] agrees_ret)
  qed
qed

lemma agrees_NewStartupWithReader [agrees_intros]: "agrees NewStartupWithReader"
  unfolding NewStartupWithReader_def Let_def by (intro agrees_intros)

end
