(* ===== verification/Responses.thy ===== *)
theory Responses
  imports Messages Startup System_Types
begin

text \<open>
  The backend messages: \<open>protocol/writer.go\<close>, \<open>response_message.go\<close>, \<open>responses.go\<close> and one file
  for each kind of response. A response is appended to a buffered writer and framed by \<open>Bytes\<close>,
  which some kinds extend by a body of their own; \<open>Bytes\<close> changes the response, so it is a
  computation on it.
\<close>

section \<open>Writer\<close>

text \<open>
  A \<open>bufio.Writer\<close> in front of a \<open>bytes.Buffer\<close>: what is appended is pending until \<open>Flush\<close> moves it
  to the buffer (a full \<open>bufio.Writer\<close> moves it earlier, which no caller can see). Both are
  documented never to fail on a buffer in memory, so the appends have no error to return.
\<close>

record writer =
  wbuffer :: bytes
  wpending :: bytes

definition NewWriter :: writer where
  "NewWriter = \<lparr>wbuffer = [], wpending = []\<rparr>"

definition AppendBytes :: "bytes \<Rightarrow> writer \<Rightarrow> writer" where
  "AppendBytes p w = w\<lparr>wpending := wpending w @ p\<rparr>"

definition AppendByte :: "byte \<Rightarrow> writer \<Rightarrow> writer" where
  "AppendByte c w = w\<lparr>wpending := wpending w @ [c]\<rparr>"

definition AppendInt8 :: "8 word \<Rightarrow> writer \<Rightarrow> writer" where
  "AppendInt8 v = AppendBytes (Int8ToBytes v)"

definition AppendInt16 :: "16 word \<Rightarrow> writer \<Rightarrow> writer" where
  "AppendInt16 v = AppendBytes (Int16ToBytes v)"

definition AppendInt32 :: "32 word \<Rightarrow> writer \<Rightarrow> writer" where
  "AppendInt32 v = AppendBytes (Int32ToBytes v)"

definition AppendInt64 :: "64 word \<Rightarrow> writer \<Rightarrow> writer" where
  "AppendInt64 v = AppendBytes (Int64ToBytes v)"

definition AppendFloat32 :: "float32 \<Rightarrow> writer \<Rightarrow> writer" where
  "AppendFloat32 v = AppendBytes (Float32ToBytes v)"

definition AppendFloat64 :: "float64 \<Rightarrow> writer \<Rightarrow> writer" where
  "AppendFloat64 v = AppendBytes (Float64ToBytes v)"

definition AppendTerminator :: "writer \<Rightarrow> writer" where
  "AppendTerminator = AppendByte 0"

definition AppendString :: "string \<Rightarrow> writer \<Rightarrow> writer" where
  "AppendString s w =
     AppendTerminator (if 0 < length s then AppendBytes (bytes_of_string s) w else w)"

definition Flush :: "writer \<Rightarrow> writer" where
  "Flush w = \<lparr>wbuffer = wbuffer w @ wpending w, wpending = []\<rparr>"

definition Writer_Bytes :: "writer \<Rightarrow> bytes \<times> writer" where
  "Writer_Bytes w = (let w' = Flush w in (wbuffer w', w'))"

text \<open>Everything appended so far, flushed or not\<close>

definition content :: "writer \<Rightarrow> bytes" where
  "content w = wbuffer w @ wpending w"

lemma content_simps [simp]:
  "content NewWriter = []"
  "content (AppendBytes p w) = content w @ p"
  "content (AppendByte c w) = content w @ [c]"
  "content (AppendInt8 i8 w) = content w @ Int8ToBytes i8"
  "content (AppendInt16 i16 w) = content w @ Int16ToBytes i16"
  "content (AppendInt32 i32 w) = content w @ Int32ToBytes i32"
  "content (AppendInt64 i64 w) = content w @ Int64ToBytes i64"
  "content (AppendFloat32 f32 w) = content w @ Float32ToBytes f32"
  "content (AppendFloat64 f64 w) = content w @ Float64ToBytes f64"
  "content (AppendTerminator w) = content w @ [0]"
  "content (AppendString s w) = content w @ cstring s"
  "content (Flush w) = content w"
  "fst (Writer_Bytes w) = content w"
  "content (snd (Writer_Bytes w)) = content w"
  by (simp_all add: content_def NewWriter_def AppendBytes_def AppendByte_def AppendInt8_def
      AppendInt16_def AppendInt32_def AppendInt64_def AppendFloat32_def AppendFloat64_def
      AppendTerminator_def AppendString_def Flush_def Writer_Bytes_def Let_def cstring_def)

section \<open>ResponseMessage\<close>

record response_message =
  rm_typ :: msg_type
  rm_writer :: writer

definition NewResponseMessageWith :: "msg_type \<Rightarrow> response_message" where
  "NewResponseMessageWith t = \<lparr>rm_typ = t, rm_writer = NewWriter\<rparr>"

definition NewResponseMessage :: response_message where
  "NewResponseMessage = NewResponseMessageWith NoneMessage"

definition SetType :: "msg_type \<Rightarrow> response_message \<Rightarrow> response_message" where
  "SetType t msg = msg\<lparr>rm_typ := t\<rparr>"

definition appending :: "(writer \<Rightarrow> writer) \<Rightarrow> response_message \<Rightarrow> response_message" where
  "appending f msg = msg\<lparr>rm_writer := f (rm_writer msg)\<rparr>"

definition ResponseMessage_Bytes :: "response_message \<Rightarrow> bytes \<times> response_message" where
  "ResponseMessage_Bytes msg =
     (case Writer_Bytes (rm_writer msg) of (msgBytes, w) \<Rightarrow>
        (let l = length msgBytes;
             b = (if rm_typ msg \<noteq> NoneMessage then [rm_typ msg] else [])
         in (b @ Int32ToBytes (of_nat (l + 4)) @ msgBytes, msg\<lparr>rm_writer := w\<rparr>)))"

lemma appending_simps [simp]:
  "rm_typ (appending f msg) = rm_typ msg"
  "rm_writer (appending f msg) = f (rm_writer msg)"
  by (simp_all add: appending_def)

lemma NewResponseMessageWith_simps [simp]:
  "rm_typ (NewResponseMessageWith t) = t"
  "content (rm_writer (NewResponseMessageWith t)) = []"
  by (simp_all add: NewResponseMessageWith_def)

lemma ResponseMessage_Bytes_frame:
  "rm_typ msg \<noteq> NoneMessage \<Longrightarrow>
   fst (ResponseMessage_Bytes msg) = frame (rm_typ msg) (content (rm_writer msg))"
  by (simp add: ResponseMessage_Bytes_def Let_def frame_def header_def case_prod_beta)

lemma ResponseMessage_Bytes_keeps [simp]:
  "rm_typ (snd (ResponseMessage_Bytes msg)) = rm_typ msg"
  "content (rm_writer (snd (ResponseMessage_Bytes msg))) = content (rm_writer msg)"
  by (simp_all add: ResponseMessage_Bytes_def Let_def case_prod_beta)

section \<open>Responses without a body of their own\<close>

definition NewParseComplete :: response_message where
  "NewParseComplete = NewResponseMessageWith ParseCompleteMessage"

definition NewBindComplete :: response_message where
  "NewBindComplete = NewResponseMessageWith BindCompleteMessage"

definition NewCloseComplete :: response_message where
  "NewCloseComplete = NewResponseMessageWith CloseCompleteMessage"

definition NewNoData :: response_message where
  "NewNoData = NewResponseMessageWith NoDataMessage"

definition NewEmptyQueryResponse :: response_message where
  "NewEmptyQueryResponse = NewResponseMessageWith EmptyQueryResponseMessage"

definition AuthenticationOk :: "32 word" where "AuthenticationOk = 0"
definition AuthenticationCleartextPasswordRequired :: "32 word" where
  "AuthenticationCleartextPasswordRequired = 3"
definition AuthenticationMD5PasswordRequired :: "32 word" where
  "AuthenticationMD5PasswordRequired = 5"

definition NewAuthenticationOk :: response_message where
  "NewAuthenticationOk =
     appending (AppendInt32 AuthenticationOk) (NewResponseMessageWith AuthenticationOkMessage)"

definition NewAuthenticationCleartextPassword :: response_message where
  "NewAuthenticationCleartextPassword =
     appending (AppendInt32 AuthenticationCleartextPasswordRequired)
       (NewResponseMessageWith AuthenticationCleartextPasswordMessage)"

definition NewAuthenticationMD5Password :: "bytes \<Rightarrow> response_message" where
  "NewAuthenticationMD5Password salt =
     appending (AppendBytes salt) (appending (AppendInt32 AuthenticationMD5PasswordRequired)
       (NewResponseMessageWith AuthenticationMD5PasswordMessage))"

definition NewBackendKeyData :: response_message where
  "NewBackendKeyData = NewResponseMessageWith BackendKeyDataMessage"

definition NewBackendKeyDataWith :: "32 word \<Rightarrow> 32 word \<Rightarrow> response_message" where
  "NewBackendKeyDataWith processID secretKey =
     appending (AppendInt32 secretKey) (appending (AppendInt32 processID) NewBackendKeyData)"

definition NewReadyForQuery :: response_message where
  "NewReadyForQuery = NewResponseMessageWith ReadyForQueryMessage"

type_synonym transaction_status = byte

definition TransactionIdle :: transaction_status where "TransactionIdle = 73" \<comment> \<open>'I'\<close>
definition TransactionBlock :: transaction_status where "TransactionBlock = 84" \<comment> \<open>'T'\<close>
definition TransactionFailed :: transaction_status where "TransactionFailed = 69" \<comment> \<open>'E'\<close>

definition NewReadyForQueryWith :: "transaction_status \<Rightarrow> response_message" where
  "NewReadyForQueryWith s = appending (AppendByte s) NewReadyForQuery"

definition NewParameterDescription :: response_message where
  "NewParameterDescription = NewResponseMessageWith ParameterDescriptionMessage"

definition NewParameterDescriptionWith :: "ObjectID list \<Rightarrow> response_message" where
  "NewParameterDescriptionWith oids =
     fold (\<lambda>objectID. appending (AppendInt32 objectID)) oids
       (appending (AppendInt16 (of_nat (length oids))) NewParameterDescription)"

section \<open>Parameter status\<close>

definition ApplicationName :: string where "ApplicationName = ''application_name''"
definition ClientEncoding :: string where "ClientEncoding = ''client_encoding''"
definition ServerEncoding :: string where "ServerEncoding = ''server_ encoding''"
definition DateStyle :: string where "DateStyle = ''DateStyle''"
definition TimeZone :: string where "TimeZone = ''TimeZone''"
definition EncodingUTF8 :: string where "EncodingUTF8 = ''UTF8''"

definition NewParameterStatus :: response_message where
  "NewParameterStatus = NewResponseMessageWith ParameterStatusMessage"

definition AppendParameters :: "string list \<Rightarrow> response_message \<Rightarrow> response_message" where
  "AppendParameters ss = fold (\<lambda>v. appending (AppendString v)) ss"

definition NewParameterStatusWith :: "string \<Rightarrow> string \<Rightarrow> response_message" where
  "NewParameterStatusWith name v = AppendParameters [name, v] NewParameterStatus"

section \<open>Command complete\<close>

definition NewCommandComplete :: response_message where
  "NewCommandComplete = NewResponseMessageWith CommandCompleteMessage"

definition NewCommandCompleteWith :: "string \<Rightarrow> response_message" where
  "NewCommandCompleteWith tag = appending (AppendString tag) NewCommandComplete"

definition NewInsertCompleteWith :: "int \<Rightarrow> response_message" where
  "NewInsertCompleteWith n = appending (AppendString (''INSERT 0 '' @ show_int n)) NewCommandComplete"

definition NewUpdateCompleteWith :: "int \<Rightarrow> response_message" where
  "NewUpdateCompleteWith n = appending (AppendString (''UPDATE '' @ show_int n)) NewCommandComplete"

definition NewSelectCompleteWith :: "int \<Rightarrow> response_message" where
  "NewSelectCompleteWith n = appending (AppendString (''SELECT '' @ show_int n)) NewCommandComplete"

definition NewDeleteCompleteWith :: "int \<Rightarrow> response_message" where
  "NewDeleteCompleteWith n = appending (AppendString (''DELETE '' @ show_int n)) NewCommandComplete"

definition NewCopyCompleteWith :: "int \<Rightarrow> response_message" where
  "NewCopyCompleteWith n = appending (AppendString (''COPY '' @ show_int n)) NewCommandComplete"

definition NewCommitComplete :: response_message where
  "NewCommitComplete = appending (AppendString ''COMMIT'') NewCommandComplete"

definition NewEmptyComplete :: response_message where
  "NewEmptyComplete = appending (AppendString ''EMPTY'') NewCommandComplete"

section \<open>Error response\<close>

type_synonym ErrorType = byte

definition SeverityError :: ErrorType where "SeverityError = 83" \<comment> \<open>'S'\<close>
definition CodeError :: ErrorType where "CodeError = 67" \<comment> \<open>'C'\<close>
definition MessageError :: ErrorType where "MessageError = 77" \<comment> \<open>'M'\<close>

definition NewErrorResponse :: response_message where
  "NewErrorResponse = NewResponseMessageWith ErrorResponseMessage"

definition ErrorResponse_AppendField :: "ErrorType \<Rightarrow> string \<Rightarrow> response_message \<Rightarrow> response_message" where
  "ErrorResponse_AppendField t v msg = appending (AppendString v) (appending (AppendByte t) msg)"

definition AddCode :: "32 word \<Rightarrow> response_message \<Rightarrow> response_message" where
  "AddCode code msg = appending (AppendInt32 code) (appending (AppendByte CodeError) msg)"

definition AddError :: "gerr \<Rightarrow> response_message \<Rightarrow> response_message" where
  "AddError err msg = appending (AppendString (err_text err)) (appending (AppendByte MessageError) msg)"

definition NewErrorResponseWith :: "gerr \<Rightarrow> response_message" where
  "NewErrorResponseWith err = AddError err NewErrorResponse"

section \<open>Row description\<close>

record RowField =
  rf_Name :: string
  rf_TableID :: "32 word"
  rf_Number :: "16 word"
  rf_ObjectID :: "32 word"
  rf_DataTypeSize :: "16 word"
  rf_TypeModifier :: "32 word"
  rf_FormatCode :: "16 word"

text \<open>The functional options are functions on the field, applied in order.\<close>

definition NewRowFieldWith :: "string \<Rightarrow> (RowField \<Rightarrow> RowField) list \<Rightarrow> RowField" where
  "NewRowFieldWith name opts = fold (\<lambda>opt. opt) opts
     \<lparr>rf_Name = name, rf_TableID = 0, rf_Number = 0, rf_ObjectID = 0, rf_DataTypeSize = 0,
      rf_TypeModifier = 0, rf_FormatCode = 0\<rparr>"

definition WithRowFieldNumber :: "16 word \<Rightarrow> RowField \<Rightarrow> RowField" where
  "WithRowFieldNumber number field = field\<lparr>rf_Number := number\<rparr>"

definition WithRowFieldTableID :: "32 word \<Rightarrow> RowField \<Rightarrow> RowField" where
  "WithRowFieldTableID tableID field = field\<lparr>rf_TableID := tableID\<rparr>"

definition WithRowFieldObjectID :: "32 word \<Rightarrow> RowField \<Rightarrow> RowField" where
  "WithRowFieldObjectID dataTypeID field = field\<lparr>rf_ObjectID := dataTypeID\<rparr>"

definition WithRowFieldSize :: "16 word \<Rightarrow> RowField \<Rightarrow> RowField" where
  "WithRowFieldSize dataTypeSize field = field\<lparr>rf_DataTypeSize := dataTypeSize\<rparr>"

definition WithRowFieldModifier :: "32 word \<Rightarrow> RowField \<Rightarrow> RowField" where
  "WithRowFieldModifier typeModifier field = field\<lparr>rf_TypeModifier := typeModifier\<rparr>"

definition WithRowFieldFormatCode :: "16 word \<Rightarrow> RowField \<Rightarrow> RowField" where
  "WithRowFieldFormatCode formatCode field = field\<lparr>rf_FormatCode := formatCode\<rparr>"

definition WithRowFieldDataType :: "DataType \<Rightarrow> RowField \<Rightarrow> RowField" where
  "WithRowFieldDataType dt field =
     field\<lparr>rf_ObjectID := dt_oid dt, rf_DataTypeSize := word_of_int (dt_size dt),
           rf_FormatCode := DataType_FormatCode dt\<rparr>"

definition WirteBytes :: "RowField \<Rightarrow> writer \<Rightarrow> writer" where
  "WirteBytes field w =
     AppendInt16 (rf_FormatCode field) (AppendInt32 (rf_TypeModifier field)
     (AppendInt16 (rf_DataTypeSize field) (AppendInt32 (rf_ObjectID field)
     (AppendInt16 (rf_Number field) (AppendInt32 (rf_TableID field)
     (AppendString (rf_Name field) w))))))"

record RowDescription =
  rd_message :: response_message
  rd_fileds :: "RowField list"

definition NewRowDescription :: RowDescription where
  "NewRowDescription =
     \<lparr>rd_message = NewResponseMessageWith RowDescriptionMessage, rd_fileds = []\<rparr>"

definition RowDescription_AppendField :: "RowField \<Rightarrow> RowDescription \<Rightarrow> RowDescription" where
  "RowDescription_AppendField field msg = msg\<lparr>rd_fileds := rd_fileds msg @ [field]\<rparr>"

definition RowDescription_Field :: "RowDescription \<Rightarrow> nat \<Rightarrow> RowField go" where
  "RowDescription_Field msg n =
     (if n < length (rd_fileds msg) then Ok (rd_fileds msg ! n) else Panic IndexOutOfRange)"

definition RowDescription_Bytes :: "RowDescription \<Rightarrow> bytes \<times> RowDescription" where
  "RowDescription_Bytes msg =
     (let m1 = appending (AppendInt16 (of_nat (length (rd_fileds msg)))) (rd_message msg);
          m2 = fold (\<lambda>field. appending (WirteBytes field)) (rd_fileds msg) m1
      in case ResponseMessage_Bytes m2 of (b, m3) \<Rightarrow> (b, msg\<lparr>rd_message := m3\<rparr>))"

section \<open>Copy in response\<close>

type_synonym CopyFormat = "8 word"

definition TextCopy :: CopyFormat where "TextCopy = 0"
definition BinaryCopy :: CopyFormat where "BinaryCopy = 1"

record CopyInResponse =
  ci_message :: response_message
  ci_formatCodes :: "16 word list"

definition NewCopyInResponseWith :: "CopyFormat \<Rightarrow> CopyInResponse" where
  "NewCopyInResponseWith cfmt =
     \<lparr>ci_message = appending (AppendInt8 cfmt) (NewResponseMessageWith CopyInResponseMessage),
      ci_formatCodes = []\<rparr>"

definition AppendFormatCode :: "16 word \<Rightarrow> CopyInResponse \<Rightarrow> CopyInResponse" where
  "AppendFormatCode formatCode msg = msg\<lparr>ci_formatCodes := ci_formatCodes msg @ [formatCode]\<rparr>"

definition CopyInResponse_Bytes :: "CopyInResponse \<Rightarrow> bytes \<times> CopyInResponse" where
  "CopyInResponse_Bytes msg =
     (let m1 = appending (AppendInt16 (of_nat (length (ci_formatCodes msg)))) (ci_message msg);
          m2 = fold (\<lambda>field. appending (AppendInt16 field)) (ci_formatCodes msg) m1
      in case ResponseMessage_Bytes m2 of (b, m3) \<Rightarrow> (b, msg\<lparr>ci_message := m3\<rparr>))"

end
