(* ===== verification/Data_Rows.thy ===== *)
theory Data_Rows
  imports Responses
begin

text \<open>
  Data rows (\<open>protocol/data_row.go\<close>), the \<open>Response\<close> interface (\<open>response.go\<close>) with its dynamic
  types, and lists of responses (\<open>responses.go\<close>). The casts of the \<open>safecast\<close> package are a
  parameter: one function for each target type.
\<close>

section \<open>Casts\<close>

record safecast =
  ToBool :: "go_value \<Rightarrow> bool go"
  ToInt16 :: "go_value \<Rightarrow> (16 word) go"
  ToInt32 :: "go_value \<Rightarrow> (32 word) go"
  ToInt64 :: "go_value \<Rightarrow> (64 word) go"
  ToFloat32 :: "go_value \<Rightarrow> float32 go"
  ToFloat64 :: "go_value \<Rightarrow> float64 go"
  ToString :: "go_value \<Rightarrow> string go"
  ToTime :: "go_value \<Rightarrow> gotime go"

definition map_res :: "('a \<Rightarrow> 'b) \<Rightarrow> ('e, 'a) res \<Rightarrow> ('e, 'b) res" where
  "map_res f x = (case x of Ok a \<Rightarrow> Ok (f a) | Err e \<Rightarrow> Err e | Panic p \<Rightarrow> Panic p)"

lemma map_res_simps [simp]:
  "map_res f (Ok a) = Ok (f a)" "map_res f (Err e) = Err e" "map_res f (Panic p) = Panic p"
  by (simp_all add: map_res_def)

section \<open>DataRow\<close>

record DataRow =
  dr_message :: response_message
  dr_Data :: "go_value list"

definition NewDataRow :: DataRow where
  "NewDataRow = \<lparr>dr_message = NewResponseMessageWith DataRowMessage, dr_Data = []\<rparr>"

text \<open>The first switch of \<open>AppendData\<close>: the value is cast to the type of the column.\<close>

definition cast_column :: "safecast \<Rightarrow> ObjectID \<Rightarrow> go_value \<Rightarrow> go_value go" where
  "cast_column sc oid v =
     (if oid = oid_Bool then
        (case v of VBool _ \<Rightarrow> Ok v | _ \<Rightarrow> map_res VBool (ToBool sc v))
      else if oid = oid_Int2 then
        (case v of VInt16 _ \<Rightarrow> Ok v | _ \<Rightarrow> map_res VInt16 (ToInt16 sc v))
      else if oid = oid_Int4 then
        (case v of VInt32 _ \<Rightarrow> Ok v | _ \<Rightarrow> map_res VInt32 (ToInt32 sc v))
      else if oid = oid_Int8 then
        (case v of VInt64 _ \<Rightarrow> Ok v | _ \<Rightarrow> map_res VInt64 (ToInt64 sc v))
      else if oid = oid_Float4 then
        (case v of VFloat32 _ \<Rightarrow> Ok v | _ \<Rightarrow> map_res VFloat32 (ToFloat32 sc v))
      else if oid = oid_Float8 then
        (case v of VFloat64 _ \<Rightarrow> Ok v | _ \<Rightarrow> map_res VFloat64 (ToFloat64 sc v))
      else if oid = oid_Text \<or> oid = oid_Varchar then
        (case v of VString _ \<Rightarrow> Ok v | _ \<Rightarrow> map_res VString (ToString sc v))
      else if oid = oid_Timestamp then
        (case v of VTime _ \<Rightarrow> Ok v | _ \<Rightarrow> map_res VTime (ToTime sc v))
      else Ok v)"

text \<open>The second switch: the value in the format of the column.\<close>

definition format_column :: "safecast \<Rightarrow> format_code \<Rightarrow> go_value \<Rightarrow> go_value go" where
  "format_column sc fmt v =
     (if fmt = TextFormat then
        (case v of
           VString _ \<Rightarrow> Ok v
         | VTime sv \<Rightarrow> Ok (VString (Format_Timestamp sv))
         | VNil \<Rightarrow> Ok VNil
         | _ \<Rightarrow> map_res VString (ToString sc v))
      else if fmt = BinaryFormat then
        (case v of VString sv \<Rightarrow> Ok (VBytes (Some (bytes_of_string sv))) | _ \<Rightarrow> Ok v)
      else Ok v)"

definition AppendData :: "safecast \<Rightarrow> RowField \<Rightarrow> go_value \<Rightarrow> (DataRow, gerr, unit) gom" where
  "AppendData sc rowField v =
     goseq (lift_res (cast_column sc (rf_ObjectID rowField) v)) (\<lambda>v1.
     goseq (lift_res (format_column sc (rf_FormatCode rowField) v1)) (\<lambda>v2.
     modify (\<lambda>msg. msg\<lparr>dr_Data := dr_Data msg @ [v2]\<rparr>)))"

text \<open>One value of \<open>Bytes\<close>: its length and its bytes, or an error for a type without a case.\<close>

definition append_value :: "go_value \<Rightarrow> (response_message, gerr, unit) gom" where
  "append_value v = (case v of
       VBytes b \<Rightarrow> modify (appending (AppendBytes (slice_bytes b) \<circ>
                     AppendInt32 (of_nat (length (slice_bytes b)))))
     | VString s \<Rightarrow> modify (appending (AppendBytes (bytes_of_string s) \<circ>
                     AppendInt32 (of_nat (length s))))
     | VInt8 i \<Rightarrow> modify (appending (AppendInt8 i \<circ> AppendInt32 1))
     | VInt16 i \<Rightarrow> modify (appending (AppendInt16 i \<circ> AppendInt32 2))
     | VInt32 i \<Rightarrow> modify (appending (AppendInt32 i \<circ> AppendInt32 4))
     | VInt64 i \<Rightarrow> modify (appending (AppendInt64 i \<circ> AppendInt32 8))
     | VInt i \<Rightarrow> modify (appending (AppendInt64 i \<circ> AppendInt32 8))
     | VFloat32 x \<Rightarrow> modify (appending (AppendFloat32 x \<circ> AppendInt32 4))
     | VFloat64 x \<Rightarrow> modify (appending (AppendFloat64 x \<circ> AppendInt32 8))
     | VNil \<Rightarrow> modify (appending (AppendInt32 (- 1)))
     | _ \<Rightarrow> fail (newColumnTypeNotSuppotedError (go_type_name v)))"

definition DataRow_body :: "go_value list \<Rightarrow> (response_message, gerr, bytes) gom" where
  "DataRow_body vs =
     goseq (modify (appending (AppendInt16 (of_nat (length vs))))) (\<lambda>_.
     goseq (for_each append_value vs) (\<lambda>_ m.
     case ResponseMessage_Bytes m of (b, m') \<Rightarrow> (Ok b, m')))"

definition DataRow_Bytes :: "(DataRow, gerr, bytes) gom" where
  "DataRow_Bytes msg =
     on_part dr_message (\<lambda>m msg. msg\<lparr>dr_message := m\<rparr>) (DataRow_body (dr_Data msg)) msg"

section \<open>The Response interface\<close>

datatype response =
    MessageResponse response_message \<comment> \<open>the kinds that only embed \<open>*ResponseMessage\<close>\<close>
  | ErrorResponse response_message
  | RowDescriptionResponse RowDescription
  | DataRowResponse DataRow
  | CopyInResponse CopyInResponse
  | SSLResponseResponse SSLResponse

definition Response_Type :: "response \<Rightarrow> msg_type" where
  "Response_Type res = (case res of
       MessageResponse m \<Rightarrow> rm_typ m
     | ErrorResponse m \<Rightarrow> rm_typ m
     | RowDescriptionResponse rd \<Rightarrow> rm_typ (rd_message rd)
     | DataRowResponse dr \<Rightarrow> rm_typ (dr_message dr)
     | CopyInResponse ci \<Rightarrow> rm_typ (ci_message ci)
     | SSLResponseResponse s \<Rightarrow> SSLResponse_Type s)"

definition ErrorResponse_Bytes :: "response_message \<Rightarrow> bytes \<times> response_message" where
  "ErrorResponse_Bytes msg = ResponseMessage_Bytes (appending AppendTerminator msg)"

definition Response_Bytes :: "(response, gerr, bytes) gom" where
  "Response_Bytes res = (case res of
       MessageResponse m \<Rightarrow> (case ResponseMessage_Bytes m of (b, m') \<Rightarrow> (Ok b, MessageResponse m'))
     | ErrorResponse m \<Rightarrow> (case ErrorResponse_Bytes m of (b, m') \<Rightarrow> (Ok b, ErrorResponse m'))
     | RowDescriptionResponse rd \<Rightarrow>
         (case RowDescription_Bytes rd of (b, rd') \<Rightarrow> (Ok b, RowDescriptionResponse rd'))
     | DataRowResponse dr \<Rightarrow> (case DataRow_Bytes dr of (x, dr') \<Rightarrow> (x, DataRowResponse dr'))
     | CopyInResponse ci \<Rightarrow>
         (case CopyInResponse_Bytes ci of (b, ci') \<Rightarrow> (Ok b, CopyInResponse ci'))
     | SSLResponseResponse s \<Rightarrow> (Ok (SSLResponse_Bytes s), res))"

section \<open>Lists of responses\<close>

type_synonym responses = "response list"

definition Responses_Append :: "responses \<Rightarrow> response \<Rightarrow> responses" where
  "Responses_Append rs res = rs @ [res]"

definition HasErrorResponse :: "responses \<Rightarrow> bool" where
  "HasErrorResponse rs = list_ex (\<lambda>res. Response_Type res = ErrorResponseMessage) rs"

definition NewCommandCompleteResponsesWith :: "string \<Rightarrow> responses" where
  "NewCommandCompleteResponsesWith msg = [MessageResponse (NewCommandCompleteWith msg)]"

definition NewInsertCompleteResponsesWith :: "int \<Rightarrow> responses" where
  "NewInsertCompleteResponsesWith n = [MessageResponse (NewInsertCompleteWith n)]"

definition NewUpdateCompleteResponsesWith :: "int \<Rightarrow> responses" where
  "NewUpdateCompleteResponsesWith n = [MessageResponse (NewUpdateCompleteWith n)]"

definition NewSelectCompleteResponsesWith :: "int \<Rightarrow> responses" where
  "NewSelectCompleteResponsesWith n = [MessageResponse (NewSelectCompleteWith n)]"

definition NewDeleteCompleteResponsesWith :: "int \<Rightarrow> responses" where
  "NewDeleteCompleteResponsesWith n = [MessageResponse (NewDeleteCompleteWith n)]"

definition NewCopyCompleteResponsesWith :: "int \<Rightarrow> responses" where
  "NewCopyCompleteResponsesWith n = [MessageResponse (NewCopyCompleteWith n)]"

definition NewEmptyCompleteResponses :: responses where
  "NewEmptyCompleteResponses = [MessageResponse NewEmptyComplete]"

text \<open>
  One parameter status for each entry of the map. Go visits the entries in an unspecified order,
  which is the order of the list here.
\<close>

definition NewParameterStatusesWith :: "(string \<times> string) list \<Rightarrow> responses" where
  "NewParameterStatusesWith entries =
     map (\<lambda>(k, v). MessageResponse (NewParameterStatusWith k v)) entries"

end
