(* ===== verification/Bind_Proofs.thy ===== *)
theory Bind_Proofs
  imports Request_Proofs
begin

text \<open>
  Correctness and limits of the \<open>Bind\<close> parser. Its parameter values are read with the promoted
  \<open>Read\<close> of the embedded source, so the round trip holds on streams that arrive in one piece, and
  fails when a value is cut in two; a negative count panics; the declared formats are matched to
  the values one by one.
\<close>

section \<open>Parameter values\<close>

definition param_ok :: "bytes option \<Rightarrow> bool" where
  "param_ok p = (case p of None \<Rightarrow> True | Some bs \<Rightarrow> length bs < 2 ^ 31)"

lemma parses_Read_direct:
  assumes "bs \<noteq> []"
  shows "parses whole_reader (Read_direct (length bs)) bs bs"
proof (rule parsesI)
  fix r rest
  assume r: "whole_reader r" "reader_patient r" "reader_pending r = bs @ rest"
  then have "src_pending (rsrc r) = bs @ rest" "whole_source (rsrc r)" "src_patient (rsrc r)"
    "peekBuf r = []"
    by (simp_all add: whole_reader_def reader_pending_def reader_patient_def)
  with src_Read_whole [of "rsrc r" "length bs"] assms
  show "\<exists>r'. Read_direct (length bs) r = (Ok bs, r') \<and> whole_reader r' \<and> reader_patient r' \<and>
      reader_pending r' = rest"
    by (auto simp: Read_direct_def whole_reader_def reader_patient_def reader_pending_def)
qed

lemma parses_read_param_bytes:
  assumes "param_ok p"
  shows "parses whole_reader read_param_bytes (enc_param p) p"
proof -
  define n :: "32 word" where
    "n = (case p of None \<Rightarrow> - 1 | Some bs \<Rightarrow> of_nat (length bs))"
  define payload where "payload = (case p of None \<Rightarrow> [] | Some bs \<Rightarrow> bs)"
  have "enc_param p = Int32ToBytes n @ payload"
    by (cases p) (simp_all add: enc_param_def n_def payload_def)
  moreover have "parses whole_reader read_param_bytes (Int32ToBytes n @ payload) p"
    unfolding read_param_bytes_def
  proof (rule parses_goseq [OF whole.parses_ReadInt32])
    show "parses whole_reader
        (if n = 0 then ret (Some [])
         else if n = - 1 then ret None
         else if sint n \<le> 0 then fail (newInvalidLengthError (sint n))
         else goseq (Read_direct (nat (sint n))) (\<lambda>bs.
           if length bs \<noteq> nat (sint n)
           then fail (newShortMessageError (sint n) (int (length bs)))
           else ret (Some bs))) payload p"
    proof (cases p)
      case None
      then show ?thesis by (simp add: n_def payload_def parses_ret)
    next
      case (Some bs)
      then have len: "sint n = int (length bs)"
        using assms by (simp add: n_def param_ok_def sint_of_nat_small)
      show ?thesis
      proof (cases "bs = []")
        case True
        with Some show ?thesis by (simp add: n_def payload_def parses_ret)
      next
        case False
        with len have "n \<noteq> 0" "n \<noteq> - 1" "\<not> sint n \<le> 0" "nat (sint n) = length bs" by auto
        moreover from False have "parses whole_reader (goseq (Read_direct (length bs)) (\<lambda>bs'.
           if length bs' \<noteq> length bs
           then fail (newShortMessageError (sint n) (int (length bs')))
           else ret (Some bs'))) bs (Some bs)"
          by (intro parses_goseq_ret [OF parses_Read_direct]) simp_all
        ultimately show ?thesis using Some by (simp add: payload_def)
      qed
    qed
  qed
  ultimately show ?thesis by simp
qed

lemma parses_Bind:
  assumes "no_nul portal" "no_nul stmt" "length fmts < 2 ^ 15" "length vals < 2 ^ 15"
    "length resFmts < 2 ^ 15" "\<And>p. p \<in> set vals \<Longrightarrow> param_ok p"
  shows "parses whole_reader NewBindWithReader (header t len @ enc_bind portal stmt fmts vals resFmts)
    \<lparr>bind_header = \<lparr>msg_Type = t, msg_Length = len\<rparr>, bind_PortalName = portal,
     bind_StatementName = stmt, bind_Params = bind_params fmts vals\<rparr>"
  unfolding NewBindWithReader_def enc_bind_def enc_int16_def
  by (rule parses_goseq [OF whole.parses_NewRequestMessageWithReader],
      rule parses_goseq [OF whole.parses_cstring [OF assms(1)]],
      rule parses_goseq [OF whole.parses_cstring [OF assms(2)]],
      rule parses_goseq [OF whole.parses_ReadInt16],
      rule parses_goseq [OF whole.parses_read_slice [OF whole.parses_ReadInt16 assms(3)]],
      rule parses_goseq [OF whole.parses_ReadInt16],
      rule parses_goseq [OF whole.parses_read_slice [OF parses_read_param_bytes [OF assms(6)] assms(4)]],
      assumption,
      rule parses_goseq [OF whole.parses_ReadInt16],
      rule parses_goseq_ret [OF whole.parses_read_slice [OF whole.parses_ReadInt16 assms(5)]]) simp

section \<open>The round trip\<close>

lemma length_bind_params [simp]: "length (bind_params fmts vals) = length vals"
  by (simp add: bind_params_def)

lemma bind_params_nth:
  "i < length vals \<Longrightarrow> bind_params fmts vals ! i =
     \<lparr>bind_FormatCode = param_format fmts i,
      bind_Value = param_value (param_format fmts i) (vals ! i)\<rparr>"
  by (simp add: bind_params_def Let_def)

text \<open>
  C36: a Bind message that arrives in one piece is read to its end: portal and statement name, and one parameter for
  each value, in order, the format codes matched to the values by position. A value at whose position
  there is a code 1 is passed on byte for byte, NULL apart from the empty value; one with the code 0, or
  past the last code, becomes a string, and there NULL is the empty string; any other code leaves no value. A
  single code is not applied to all the values, as the comment of the parser has it. The result formats
  are consumed and dropped, and the next message begins right behind.
\<close>

theorem bind_round_trip:
  assumes "no_nul portal" and "no_nul stmt" and "length fmts < 2 ^ 15" and "length vals < 2 ^ 15"
    and "length resFmts < 2 ^ 15" and "\<forall>p \<in> set vals. param_ok p"
    and "reader_patient r" and "whole_reader r"
    and "reader_pending r = header BindMessage len @ enc_bind portal stmt fmts vals resFmts @ rest"
  shows "\<exists>msg r'. NewBindWithReader r = (Ok msg, r') \<and>
      bind_header msg = \<lparr>msg_Type = BindMessage, msg_Length = len\<rparr> \<and>
      bind_PortalName msg = portal \<and> bind_StatementName msg = stmt \<and>
      length (bind_Params msg) = length vals \<and>
      (\<forall>i < length vals.
         bind_FormatCode (bind_Params msg ! i) = (if i < length fmts then fmts ! i else 0) \<and>
         bind_Value (bind_Params msg ! i) =
           (if length fmts \<le> i \<or> fmts ! i = 0
            then VString (case vals ! i of None \<Rightarrow> [] | Some bs \<Rightarrow> string_of_bytes bs)
            else if fmts ! i = 1 then VBytes (vals ! i) else VNil)) \<and>
      reader_pending r' = rest"
proof -
  obtain r' where r': "NewBindWithReader r = (Ok \<lparr>bind_header = \<lparr>msg_Type = BindMessage, msg_Length = len\<rparr>,
      bind_PortalName = portal, bind_StatementName = stmt, bind_Params = bind_params fmts vals\<rparr>, r')"
    "reader_pending r' = rest"
    using parsesE [OF parses_Bind [OF assms(1-5)] assms(8,7), of BindMessage len rest] assms(6,9) by auto
  moreover have "bind_Value (bind_params fmts vals ! i) = (if length fmts \<le> i \<or> fmts ! i = 0
            then VString (case vals ! i of None \<Rightarrow> [] | Some bs \<Rightarrow> string_of_bytes bs)
            else if fmts ! i = 1 then VBytes (vals ! i) else VNil)" if "i < length vals" for i
    using that
    by (auto simp: bind_params_nth param_format_def param_value_def slice_bytes_def string_of_bytes_def TextFormat_def
        BinaryFormat_def split: option.split)
  ultimately show ?thesis by (auto simp: bind_params_nth param_format_def TextFormat_def)
qed

text \<open>Three values with one format code: the first is binary, NULL and a text follow\<close>

theorem bind_round_trip_witness:
  "\<exists>msg r'. NewBindWithReader (NewReaderWithBytes
       (header BindMessage 40 @ enc_bind ''p'' ''s'' [BinaryFormat] [Some [1], None, Some [65, 66]] [] @ [69])) = (Ok msg, r') \<and>
     bind_Params msg = [\<lparr>bind_FormatCode = BinaryFormat, bind_Value = VBytes (Some [1])\<rparr>,
                        \<lparr>bind_FormatCode = TextFormat, bind_Value = VString []\<rparr>,
                        \<lparr>bind_FormatCode = TextFormat, bind_Value = VString ''AB''\<rparr>] \<and>
     reader_pending r' = [69]"
proof -
  let ?r = "NewReaderWithBytes
       (header BindMessage 40 @ enc_bind ''p'' ''s'' [BinaryFormat] [Some [1], None, Some [65, 66]] [] @ [69])"
  have r: "reader_patient ?r" "whole_reader ?r"
    by (simp_all add: NewReaderWithBytes_def reader_patient_def src_patient_def whole_reader_def
        whole_source_def)
  have p: "reader_pending ?r = header BindMessage 40 @
        enc_bind ''p'' ''s'' [BinaryFormat] [Some [1], None, Some [65, 66]] [] @ [69]"
    by (simp add: NewReaderWithBytes_def reader_pending_def src_pending_def)
  have n: "no_nul ''p''" "no_nul ''s''"
    by (simp_all add: no_nul_def bytes_of_string_def byte_of_char_def)
  have ab: "string_of_bytes [65, 66] = ''AB''" by code_simp
  obtain msg r' where msg: "NewBindWithReader ?r = (Ok msg, r')" "length (bind_Params msg) = Suc (Suc (Suc 0))"
    "\<And>i. i < 3 \<Longrightarrow> bind_FormatCode (bind_Params msg ! i) = (if i < 1 then [BinaryFormat] ! i else 0)"
    "\<And>i. i < 3 \<Longrightarrow> bind_Value (bind_Params msg ! i) = (if 1 \<le> i \<or> [BinaryFormat] ! i = 0
        then VString (case [Some [1], None, Some [65, 66]] ! i of None \<Rightarrow> [] | Some bs \<Rightarrow> string_of_bytes bs)
        else if [BinaryFormat] ! i = 1 then VBytes ([Some [1], None, Some [65, 66]] ! i) else VNil)"
    "reader_pending r' = [69]"
    using bind_round_trip [OF n _ _ _ _ r p] by (auto simp: param_ok_def)
  then obtain a b c where ps: "bind_Params msg = [a, b, c]"
    by (auto simp: length_Suc_conv)
  have "a = \<lparr>bind_FormatCode = BinaryFormat, bind_Value = VBytes (Some [1])\<rparr>"
    "b = \<lparr>bind_FormatCode = TextFormat, bind_Value = VString []\<rparr>"
    "c = \<lparr>bind_FormatCode = TextFormat, bind_Value = VString ''AB''\<rparr>"
    using msg(3,4) [of 0] msg(3,4) [of 1] msg(3,4) [of 2]
    by (simp_all add: ps ab TextFormat_def BinaryFormat_def)
  with msg(1,5) show ?thesis by (simp add: ps)
qed

section \<open>Formats and NULL\<close>

text \<open>
  one format code for all parameters is applied to the first one only. PostgreSQL's protocol,
  which the comment of the code quotes, applies a single code to every parameter; here all
  parameters but the first are taken as text. Where all are text a NULL is not told from the empty string.
\<close>

theorem single_format_code_first_only:
  "bind_params [BinaryFormat] (v # vs) =
     \<lparr>bind_FormatCode = BinaryFormat, bind_Value = VBytes v\<rparr> #
     map (\<lambda>w. \<lparr>bind_FormatCode = TextFormat, bind_Value = VString (string_of_bytes (slice_bytes w))\<rparr>) vs \<and>
   bind_params [] ws = bind_params [] (map (\<lambda>w. Some (slice_bytes w)) ws)"
proof
  show "bind_params [BinaryFormat] (v # vs) =
     \<lparr>bind_FormatCode = BinaryFormat, bind_Value = VBytes v\<rparr> #
     map (\<lambda>w. \<lparr>bind_FormatCode = TextFormat, bind_Value = VString (string_of_bytes (slice_bytes w))\<rparr>) vs"
  proof (rule nth_equalityI)
    fix i assume "i < length (bind_params [BinaryFormat] (v # vs))"
    then have "i < length (v # vs)" by simp
    then show "bind_params [BinaryFormat] (v # vs) ! i =
      (\<lparr>bind_FormatCode = BinaryFormat, bind_Value = VBytes v\<rparr> #
       map (\<lambda>w. \<lparr>bind_FormatCode = TextFormat,
         bind_Value = VString (string_of_bytes (slice_bytes w))\<rparr>) vs) ! i"
      using format_codes_distinct [symmetric]
      by (cases i) (simp_all add: bind_params_nth param_format_def param_value_def)
  qed simp
  show "bind_params [] ws = bind_params [] (map (\<lambda>w. Some (slice_bytes w)) ws)"
    by (rule nth_equalityI)
      (simp_all add: bind_params_nth param_format_def param_value_def slice_bytes_def)
qed

section \<open>Hostile counts\<close>

lemma parses_prefix_panic:
  assumes "parses P m bs x" "P r" "reader_patient r" "reader_pending r = bs @ rest"
    and "\<And>r'. P r' \<Longrightarrow> reader_patient r' \<Longrightarrow> reader_pending r' = rest \<Longrightarrow> fst (f x r') = Panic p"
  shows "fst (goseq m f r) = Panic p"
  using parsesE [OF assms(1-4)] assms(5) by (metis goseq_Ok)

lemma read_slice_negative: "sint n < 0 \<Longrightarrow> fst (read_slice n m r) = Panic MakeSliceLenOutOfRange"
  by (simp add: read_slice_def make_slice_def go_simps)

lemma goseq_panic_fst: "fst (m r) = Panic p \<Longrightarrow> fst (goseq m f r) = Panic p"
  by (cases "m r") (simp add: goseq_Panic)

text \<open>
  C37: a negative count stops the process. A Parse message that declares a negative number of
  parameter types, or a Bind message with a negative number of formats, makes the parser panic in
  \<open>make\<close>, whatever follows on the stream; nothing in the server recovers.
\<close>

theorem negative_count_panics:
  assumes "no_nul name" and "no_nul query" and "sint num < 0" and "reader_patient r"
    and "reader_pending r = header t len @ cstring name @ cstring query @ Int16ToBytes num @ rest"
  shows "fst (NewParseWithReader r) = Panic MakeSliceLenOutOfRange \<and>
    fst (NewBindWithReader r) = Panic MakeSliceLenOutOfRange"
proof
  note steps = parses_prefix_panic [OF any_reader.parses_NewRequestMessageWithReader TrueI assms(4,5)]
    parses_prefix_panic [OF any_reader.parses_cstring [OF assms(1)] TrueI]
    parses_prefix_panic [OF any_reader.parses_cstring [OF assms(2)] TrueI]
    parses_prefix_panic [OF any_reader.parses_ReadInt16 TrueI]
  show "fst (NewParseWithReader r) = Panic MakeSliceLenOutOfRange"
    unfolding NewParseWithReader_def
    by (rule steps(1), rule steps(2), assumption, assumption, rule steps(3), assumption,
        assumption, rule steps(4), assumption, assumption, rule goseq_panic_fst,
        rule read_slice_negative [OF assms(3)])
  show "fst (NewBindWithReader r) = Panic MakeSliceLenOutOfRange"
    unfolding NewBindWithReader_def
    by (rule steps(1), rule steps(2), assumption, assumption, rule steps(3), assumption,
        assumption, rule steps(4), assumption, assumption, rule goseq_panic_fst,
        rule read_slice_negative [OF assms(3)])
qed

theorem negative_count_panics_witness:
  "fst (NewParseWithReader (NewReaderWithBytes
      (header ParseMessage 8 @ cstring [] @ cstring [] @ Int16ToBytes (- 1)))) =
     Panic MakeSliceLenOutOfRange"
proof -
  let ?r = "NewReaderWithBytes
      (header ParseMessage 8 @ cstring [] @ cstring [] @ Int16ToBytes (- 1))"
  have "reader_patient ?r"
    "reader_pending ?r = header ParseMessage 8 @ cstring [] @ cstring [] @ Int16ToBytes (- 1) @ []"
    by (simp_all add: NewReaderWithBytes_def reader_patient_def src_patient_def
        reader_pending_def src_pending_def)
  from negative_count_panics [OF _ _ _ this] show ?thesis by simp
qed

section \<open>Values cut in two\<close>

lemma ReadAtLeast_once:
  assumes "rd n s = ((bs, None), s')" "length bs = n" "0 < n"
  shows "ReadAtLeast rd n s = ((bs, None), s')"
  using assms by (cases n) (auto simp: ReadAtLeast_def read_loop_done)

lemma conn_ReadInt32:
  assumes "inbox c = Arrive (Int32ToBytes n @ extra) # es" "conn_patient c"
  shows "ReadInt32 \<lparr>rsrc = NetConn c, peekBuf = []\<rparr> =
    (Ok n, \<lparr>rsrc = NetConn (c\<lparr>inbox := if extra = [] then es else Arrive extra # es\<rparr>), peekBuf = []\<rparr>)"
proof -
  have "Int32ToBytes n \<noteq> []" using length_Int32ToBytes [of n] by fastforce
  then have "src_Read 4 (NetConn c) = ((Int32ToBytes n, None),
      NetConn (c\<lparr>inbox := if extra = [] then es else Arrive extra # es\<rparr>))"
    using assms by (simp add: src_Read_def conn_Read_def conn_patient_def)
  then have "ReadAtLeast src_Read 4 (NetConn c) = ((Int32ToBytes n, None),
      NetConn (c\<lparr>inbox := if extra = [] then es else Arrive extra # es\<rparr>))"
    by (rule ReadAtLeast_once) simp_all
  then show ?thesis
    using BytesToInt32_Int32ToBytes [of n "[]"]
    by (simp add: ReadInt32_def ReadBytes_def goseq_def lift_res_def)
qed

text \<open>
  a Bind message is refused when the network cuts a parameter value in two. The parser reads
  a value with a single \<open>Read\<close>: with the length and only the first part of the value in the segment
  at hand it reports a short message, although the rest of the value is the next thing to arrive.
\<close>

theorem split_param_value_refused:
  assumes "part \<noteq> []" and "0 < sint n" and "int (length part) < sint n" and "conn_patient c"
    and "inbox c = Arrive (Int32ToBytes n @ part) # es"
  shows "fst (read_param_bytes (NewReaderWithConn c)) =
    Err (newShortMessageError (sint n) (int (length part)))"
proof -
  let ?c = "c\<lparr>inbox := Arrive part # es\<rparr>"
  have rd: "Read_direct (nat (sint n)) \<lparr>rsrc = NetConn ?c, peekBuf = []\<rparr> =
      (Ok part, \<lparr>rsrc = NetConn (c\<lparr>inbox := es\<rparr>), peekBuf = []\<rparr>)"
    using assms by (simp add: Read_direct_def src_Read_def conn_Read_def conn_patient_def)
  have "n \<noteq> 0" "n \<noteq> - 1" "\<not> sint n \<le> 0" "length part \<noteq> nat (sint n)"
    using assms(2,3) by auto
  then show ?thesis
    using conn_ReadInt32 [OF assms(5,4)] rd assms(1)
    by (simp add: NewReaderWithConn_def read_param_bytes_def goseq_Ok fail_def)
qed

theorem split_param_value_refused_witness:
  "fst (read_param_bytes (NewReaderWithConn (new_net_conn [Arrive [0, 0, 0, 2, 65], Arrive [66]]))) =
     Err (newShortMessageError 2 1)"
proof -
  have "inbox (new_net_conn [Arrive [0, 0, 0, 2, 65], Arrive [66]]) =
      Arrive (Int32ToBytes 2 @ [65]) # [Arrive [66]]"
    by (simp add: new_net_conn_def Int32ToBytes_eq_Uint32ToBytes Uint32ToBytes_def)
  moreover have "conn_patient (new_net_conn [Arrive [0, 0, 0, 2, 65], Arrive [66]])"
    by (simp add: new_net_conn_def conn_patient_def)
  ultimately show ?thesis using split_param_value_refused [of "[65]" 2] by simp
qed

section \<open>Looking a parameter up\<close>

text \<open>
  \<open>FindBindParam\<close> on a well-formed name: the parameters are numbered from one, a number past
  the last one does not exist, and a number below one is not refused but read out of range.
\<close>

theorem find_bind_param:
  assumes "- (2 ^ 63) \<le> i" and "i < 2 ^ 63"
  shows "FindBindParam params (bindParamPrefix # show_int i) =
    (if int (length params) < i then Err (protocol_NewErrNotExist (bindParamPrefix # show_int i))
     else if 1 \<le> i then Ok (params ! nat (i - 1))
     else Panic IndexOutOfRange)"
  using Atoi_show_int [OF assms] by (simp add: FindBindParam_def)

theorem find_bind_param_witness:
  "FindBindParam [\<lparr>bind_FormatCode = TextFormat, bind_Value = VString ''x''\<rparr>] ''$1'' =
     Ok \<lparr>bind_FormatCode = TextFormat, bind_Value = VString ''x''\<rparr> \<and>
   FindBindParam [] ''$0'' = Panic IndexOutOfRange"
proof -
  have "show_int 1 = ''1''" "show_int 0 = ''0''"
    by code_simp+
  then show ?thesis
    using find_bind_param [of 1 "[\<lparr>bind_FormatCode = TextFormat, bind_Value = VString ''x''\<rparr>]"]
      find_bind_param [of 0 "[]"] by (simp add: bindParamPrefix_def)
qed

end
