(* ===== verification/Response_Proofs.thy ===== *)
theory Response_Proofs
  imports Data_Rows Bind_Proofs
begin

text \<open>
  Correctness of the responses: every one is framed so that a client finds its end, and what a
  client reads out of a data row, a row description, an error or a parameter status is what the
  server put in. The client's side is written down as parsers over the same reader.
\<close>

section \<open>Framing\<close>

lemma rm_typ_fold [simp]: "rm_typ (fold (\<lambda>x. appending (f x)) xs m) = rm_typ m"
  by (induction xs arbitrary: m) simp_all

lemma content_fold:
  assumes "\<And>x w. content (f x w) = content w @ g x"
  shows "content (rm_writer (fold (\<lambda>x. appending (f x)) xs m)) = content (rm_writer m) @ concat (map g xs)"
  by (induction xs arbitrary: m) (simp_all add: assms)

lemma append_value_typ: "append_value v m = (x, m') \<Longrightarrow> rm_typ m' = rm_typ m"
  by (auto simp: append_value_def modify_def fail_def split: go_value.splits)

lemma for_each_append_value_typ: "for_each append_value vs m = (x, m') \<Longrightarrow> rm_typ m' = rm_typ m"
proof (induction vs arbitrary: m)
  case (Cons v vs)
  obtain y m1 where "append_value v m = (y, m1)" by fastforce
  with Cons append_value_typ show ?case by (cases y) (auto simp: goseq_def)
qed (simp add: ret_def)

lemma for_each_append_value_no_panic: "for_each append_value vs m \<noteq> (Panic p, m')"
  by (induction vs arbitrary: m)
    (auto simp: ret_def goseq_def append_value_def modify_def fail_def
      split: prod.splits res.splits go_value.splits)

definition framed :: "response \<Rightarrow> bool" where
  "framed res \<longleftrightarrow> Response_Type res \<noteq> NoneMessage \<and> (case res of SSLResponseResponse _ \<Rightarrow> False | _ \<Rightarrow> True)"

text \<open>
  every response is a well-formed message. Whatever was appended to it, \<open>Bytes\<close> of a response
  with a type is the type byte, a length that counts itself and the payload, and the payload; so
  a client that trusts the length finds the next message. Only a data row can fail instead.
\<close>

theorem response_framing:
  assumes "framed res"
  shows "(\<exists>payload res'. Response_Bytes res = (Ok (frame (Response_Type res) payload), res')) \<or>
    (\<exists>dr e dr'. res = DataRowResponse dr \<and> DataRow_Bytes dr = (Err e, dr'))"
proof (cases res)
  case (MessageResponse m)
  with assms ResponseMessage_Bytes_frame [of m] show ?thesis
    by (auto simp: framed_def Response_Bytes_def Response_Type_def case_prod_beta)
next
  case (ErrorResponse m)
  with assms ResponseMessage_Bytes_frame [of "appending AppendTerminator m"] show ?thesis
    by (auto simp: framed_def Response_Bytes_def Response_Type_def ErrorResponse_Bytes_def case_prod_beta)
next
  case (RowDescriptionResponse rd)
  with assms show ?thesis
    by (auto simp: framed_def Response_Bytes_def Response_Type_def RowDescription_Bytes_def Let_def
        case_prod_beta ResponseMessage_Bytes_frame)
next
  case (CopyInResponse ci)
  with assms show ?thesis
    by (auto simp: framed_def Response_Bytes_def Response_Type_def CopyInResponse_Bytes_def Let_def
        case_prod_beta ResponseMessage_Bytes_frame)
next
  case (SSLResponseResponse s)
  with assms show ?thesis by (simp add: framed_def)
next
  case (DataRowResponse dr)
  let ?m = "appending (AppendInt16 (of_nat (length (dr_Data dr)))) (dr_message dr)"
  obtain x m' where fe: "for_each append_value (dr_Data dr) ?m = (x, m')" by fastforce
  have ty: "rm_typ m' = rm_typ (dr_message dr)" using for_each_append_value_typ [OF fe] by simp
  have "x \<noteq> Panic p" for p using fe for_each_append_value_no_panic by metis
  with fe ty assms DataRowResponse show ?thesis
    by (cases x) (auto simp: DataRow_Bytes_def DataRow_body_def framed_def Response_Type_def
        Response_Bytes_def ResponseMessage_Bytes_frame on_part_def goseq_def modify_def case_prod_beta)
qed

theorem response_framing_witness:
  "\<exists>payload res'. Response_Bytes (MessageResponse (NewSelectCompleteWith 3)) =
     (Ok (frame CommandCompleteMessage payload), res')"
proof -
  have "framed (MessageResponse (NewSelectCompleteWith 3))"
    "Response_Type (MessageResponse (NewSelectCompleteWith 3)) = CommandCompleteMessage"
    by (simp_all add: framed_def Response_Type_def NewSelectCompleteWith_def NewCommandComplete_def
        msg_types)
  with response_framing [of "MessageResponse (NewSelectCompleteWith 3)"] show ?thesis by simp
qed

section \<open>Data rows\<close>

text \<open>What a value is on the wire; \<open>None\<close> where \<open>Bytes\<close> has no case for its type\<close>

definition value_bytes :: "go_value \<Rightarrow> bytes option option" where
  "value_bytes v = (case v of
       VBytes b \<Rightarrow> Some (Some (slice_bytes b))
     | VString s \<Rightarrow> Some (Some (bytes_of_string s))
     | VInt8 i \<Rightarrow> Some (Some (Int8ToBytes i))
     | VInt16 i \<Rightarrow> Some (Some (Int16ToBytes i))
     | VInt32 i \<Rightarrow> Some (Some (Int32ToBytes i))
     | VInt64 i \<Rightarrow> Some (Some (Int64ToBytes i))
     | VInt i \<Rightarrow> Some (Some (Int64ToBytes i))
     | VFloat32 x \<Rightarrow> Some (Some (Float32ToBytes x))
     | VFloat64 x \<Rightarrow> Some (Some (Float64ToBytes x))
     | VNil \<Rightarrow> Some None
     | _ \<Rightarrow> None)"

lemma length_FloatToBytes [simp]:
  "length (Float32ToBytes x) = 4" "length (Float64ToBytes y) = 8"
  by (simp_all add: Float32ToBytes_def Float64ToBytes_def Uint32ToBytes_def Uint64ToBytes_def)

lemma append_value_ok:
  assumes "value_bytes v = Some p"
  shows "\<exists>m'. append_value v m = (Ok (), m') \<and>
      content (rm_writer m') = content (rm_writer m) @ enc_param p"
  using assms
  by (cases v) (auto simp: value_bytes_def append_value_def modify_def enc_param_def)

lemma append_value_fails: "value_bytes v = None \<Longrightarrow> \<exists>e. append_value v m = (Err e, m)"
  by (cases v) (auto simp: value_bytes_def append_value_def fail_def)

lemma for_each_append_value_ok:
  assumes "map value_bytes vs = map Some ps"
  shows "\<exists>m'. for_each append_value vs m = (Ok (), m') \<and>
      content (rm_writer m') = content (rm_writer m) @ concat (map enc_param ps)"
  using assms
proof (induction vs arbitrary: m ps)
  case (Cons v vs)
  then obtain p ps' where ps: "ps = p # ps'" "value_bytes v = Some p" "map value_bytes vs = map Some ps'"
    by auto
  obtain m1 where m1: "append_value v m = (Ok (), m1)"
      "content (rm_writer m1) = content (rm_writer m) @ enc_param p"
    using append_value_ok [OF ps(2)] by blast
  from Cons.IH [OF ps(3), of m1] m1 ps(1) show ?case by (auto simp: goseq_Ok)
qed (simp add: ret_def)

lemma DataRow_Bytes_ok:
  assumes "map value_bytes vs = map Some ps"
  shows "\<exists>dr'. DataRow_Bytes \<lparr>dr_message = NewResponseMessageWith DataRowMessage, dr_Data = vs\<rparr> =
      (Ok (frame DataRowMessage (enc_int16 (length ps) @ concat (map enc_param ps))), dr')"
proof -
  have len: "length vs = length ps" using assms by (metis length_map)
  let ?m = "appending (AppendInt16 (of_nat (length vs))) (NewResponseMessageWith DataRowMessage)"
  obtain m' where m': "for_each append_value vs ?m = (Ok (), m')"
      "content (rm_writer m') = content (rm_writer ?m) @ concat (map enc_param ps)"
    using for_each_append_value_ok [OF assms] by blast
  moreover have "rm_typ m' = DataRowMessage" using for_each_append_value_typ [OF m'(1)] by simp
  ultimately have "fst (ResponseMessage_Bytes m') =
      frame DataRowMessage (enc_int16 (length ps) @ concat (map enc_param ps))"
    using ResponseMessage_Bytes_frame [of m'] by (simp add: msg_types enc_int16_def len)
  with m'(1) show ?thesis
    by (auto simp: DataRow_Bytes_def DataRow_body_def on_part_def goseq_def modify_def case_prod_beta)
qed

text \<open>The client's side\<close>

definition client_value :: "bytes option rd" where
  "client_value = goseq ReadInt32 (\<lambda>n.
     if n = - 1 then ret None else goseq (ReadBytes (nat (sint n))) (\<lambda>bs. ret (Some bs)))"

definition client_DataRow :: "bytes option list rd" where
  "client_DataRow = goseq NewMessageWithReader (\<lambda>_. goseq ReadInt16 (\<lambda>n.
     repeat_n (nat (sint n)) client_value))"

lemma parses_client_value:
  assumes "param_ok p"
  shows "parses (\<lambda>_. True) client_value (enc_param p) p"
proof (cases p)
  case None
  have "parses (\<lambda>_. True) client_value (Int32ToBytes (- 1)) None"
    unfolding client_value_def by (rule parses_goseq_ret [OF any_reader.parses_ReadInt32]) simp
  with None show ?thesis by (simp add: enc_param_def)
next
  case (Some bs)
  then have len: "sint (of_nat (length bs) :: 32 word) = int (length bs)"
    using assms by (simp add: param_ok_def sint_of_nat_small)
  then have "(of_nat (length bs) :: 32 word) \<noteq> - 1" by (metis of_nat_less_0_iff sint_n1 zero_less_one neg_less_0_iff_less)
  then have "parses (\<lambda>_. True) client_value (Int32ToBytes (of_nat (length bs)) @ bs) (Some bs)"
    unfolding client_value_def
    by (intro parses_goseq [OF any_reader.parses_ReadInt32])
      (simp add: len parses_goseq_ret [OF any_reader.parses_ReadBytes])
  with Some show ?thesis by (simp add: enc_param_def)
qed

text \<open>
  C15: a data row reaches the client value by value. A row of values that have a case in \<open>Bytes\<close> is
  sent, and the client reads as many columns as there are values: NULL for nil, and otherwise the
  text or the big-endian bytes of the value.
\<close>

theorem data_row_round_trip:
  assumes "map value_bytes vs = map Some ps" and "length vs < 2 ^ 15" and "\<forall>p \<in> set ps. param_ok p"
  shows "\<exists>b dr'. DataRow_Bytes \<lparr>dr_message = NewResponseMessageWith DataRowMessage, dr_Data = vs\<rparr> =
      (Ok b, dr') \<and> parses (\<lambda>_. True) client_DataRow b ps"
proof -
  have len: "length ps < 2 ^ 15" using assms(1,2) by (metis length_map)
  have "parses (\<lambda>_. True) client_DataRow
      (frame DataRowMessage (enc_int16 (length ps) @ concat (map enc_param ps))) ps"
    unfolding client_DataRow_def frame_def enc_int16_def
    by (rule parses_goseq [OF any_reader.parses_NewMessageWithReader],
        rule parses_goseq [OF any_reader.parses_ReadInt16],
        simp only: sint_of_nat_small16 [OF len] nat_int,
        rule parses_repeat_n, rule parses_client_value) (use assms(3) in blast)
  with DataRow_Bytes_ok [OF assms(1)] show ?thesis by blast
qed

theorem data_row_round_trip_witness:
  "\<exists>b dr'. DataRow_Bytes \<lparr>dr_message = NewResponseMessageWith DataRowMessage,
       dr_Data = [VString ''ab'', VNil, VInt32 7]\<rparr> = (Ok b, dr') \<and>
     parses (\<lambda>_. True) client_DataRow b [Some (bytes_of_string ''ab''), None, Some (Int32ToBytes 7)]"
  by (rule data_row_round_trip) (simp_all add: value_bytes_def param_ok_def)

definition sendable :: "DataRow \<Rightarrow> bool" where
  "sendable dr \<longleftrightarrow> (\<exists>b dr'. DataRow_Bytes dr = (Ok b, dr'))"

lemma format_column_text:
  assumes "format_column sc TextFormat v = Ok w"
  shows "value_bytes w \<noteq> None"
  using assms by (cases v) (auto simp: format_column_def value_bytes_def map_res_def split: res.splits)

lemma AppendData_text:
  assumes "rf_FormatCode f = TextFormat" "AppendData sc f v dr = (x, dr')"
    "dr_message dr = NewResponseMessageWith DataRowMessage" "\<forall>w \<in> set (dr_Data dr). value_bytes w \<noteq> None"
  shows "dr_message dr' = NewResponseMessageWith DataRowMessage \<and> (\<forall>w \<in> set (dr_Data dr'). value_bytes w \<noteq> None)"
  using assms format_column_text
  by (auto simp: AppendData_def go_simps split: res.splits)

text \<open>
  text columns can always be sent. Where every column has the text format, whatever values
  \<open>AppendData\<close> accepted, \<open>Bytes\<close> of the row does not fail.
\<close>

theorem text_columns_are_sendable:
  assumes "\<forall>(f, v) \<in> set cols. rf_FormatCode f = TextFormat"
  shows "sendable (fold (\<lambda>(f, v) dr. snd (AppendData sc f v dr)) cols NewDataRow)"
proof -
  let ?ok = "\<lambda>dr. dr_message dr = NewResponseMessageWith DataRowMessage \<and>
    (\<forall>w \<in> set (dr_Data dr). value_bytes w \<noteq> None)"
  have "?ok dr \<Longrightarrow> ?ok (fold (\<lambda>(f, v) dr. snd (AppendData sc f v dr)) cols dr)" for dr
    using assms
  proof (induction cols arbitrary: dr)
    case (Cons c cols)
    obtain f v where c: "c = (f, v)" by fastforce
    have "?ok (snd (AppendData sc f v dr))"
      using AppendData_text [of f sc v dr "fst (AppendData sc f v dr)" "snd (AppendData sc f v dr)"]
        Cons.prems c by auto
    with Cons c show ?case by auto
  qed simp
  from this [of NewDataRow] have ok: "?ok (fold (\<lambda>(f, v) dr. snd (AppendData sc f v dr)) cols NewDataRow)"
    by (simp add: NewDataRow_def)
  define dr where "dr = fold (\<lambda>(f, v) dr. snd (AppendData sc f v dr)) cols NewDataRow"
  from ok have "map value_bytes (dr_Data dr) = map Some (map (the \<circ> value_bytes) (dr_Data dr))"
    by (auto simp: dr_def)
  from DataRow_Bytes_ok [OF this] ok show ?thesis
    unfolding sendable_def dr_def [symmetric] by (metis DataRow.surjective old.unit.exhaust)
qed

theorem text_columns_are_sendable_witness:
  "\<forall>sc. sendable (fold (\<lambda>(f, v) dr. snd (AppendData sc f v dr))
     [(NewRowFieldWith ''a'' [], VString ''x''), (NewRowFieldWith ''b'' [], VNil)] NewDataRow)"
  by (rule allI, rule text_columns_are_sendable) (simp add: NewRowFieldWith_def TextFormat_def)

section \<open>Row descriptions\<close>

definition client_RowField :: "RowField rd" where
  "client_RowField =
     goseq ReadString (\<lambda>name. goseq ReadInt32 (\<lambda>table. goseq ReadInt16 (\<lambda>num.
     goseq ReadInt32 (\<lambda>oid. goseq ReadInt16 (\<lambda>sz. goseq ReadInt32 (\<lambda>modifier.
     goseq ReadInt16 (\<lambda>fmt.
     ret \<lparr>rf_Name = name, rf_TableID = table, rf_Number = num, rf_ObjectID = oid,
          rf_DataTypeSize = sz, rf_TypeModifier = modifier, rf_FormatCode = fmt\<rparr>)))))))"

definition client_RowDescription :: "RowField list rd" where
  "client_RowDescription = goseq NewMessageWithReader (\<lambda>_. goseq ReadInt16 (\<lambda>n.
     repeat_n (nat (sint n)) client_RowField))"

definition field_bytes :: "RowField \<Rightarrow> bytes" where
  "field_bytes f = cstring (rf_Name f) @ Int32ToBytes (rf_TableID f) @ Int16ToBytes (rf_Number f) @
     Int32ToBytes (rf_ObjectID f) @ Int16ToBytes (rf_DataTypeSize f) @
     Int32ToBytes (rf_TypeModifier f) @ Int16ToBytes (rf_FormatCode f)"

lemma content_WirteBytes: "content (WirteBytes f w) = content w @ field_bytes f"
  by (simp add: WirteBytes_def field_bytes_def)

lemma parses_client_RowField:
  assumes "no_nul (rf_Name f)"
  shows "parses (\<lambda>_. True) client_RowField (field_bytes f) f"
  unfolding client_RowField_def field_bytes_def
  by (rule parses_goseq [OF any_reader.parses_cstring [OF assms]],
      rule parses_goseq [OF any_reader.parses_ReadInt32],
      rule parses_goseq [OF any_reader.parses_ReadInt16],
      rule parses_goseq [OF any_reader.parses_ReadInt32],
      rule parses_goseq [OF any_reader.parses_ReadInt16],
      rule parses_goseq [OF any_reader.parses_ReadInt32],
      rule parses_goseq_ret [OF any_reader.parses_ReadInt16]) (cases f, simp)

lemma RowDescription_Bytes_payload:
  "rm_typ (rd_message rd) = RowDescriptionMessage \<Longrightarrow>
   fst (RowDescription_Bytes rd) = frame RowDescriptionMessage (content (rm_writer (rd_message rd)) @
     enc_int16 (length (rd_fileds rd)) @ concat (map field_bytes (rd_fileds rd)))"
  by (simp add: RowDescription_Bytes_def Let_def case_prod_beta ResponseMessage_Bytes_frame msg_types
      content_fold [of WirteBytes field_bytes, OF content_WirteBytes] enc_int16_def)

text \<open>
  a row description reaches the client field by field: a client reads the fields that were
  appended, in order, with all seven attributes.
\<close>

theorem row_description_round_trip:
  assumes "list_all (\<lambda>f. no_nul (rf_Name f)) fs" and "length fs < 2 ^ 15"
  shows "parses (\<lambda>_. True) client_RowDescription
    (fst (RowDescription_Bytes (fold RowDescription_AppendField fs NewRowDescription))) fs"
proof -
  have app: "fold RowDescription_AppendField gs rd = rd\<lparr>rd_fileds := rd_fileds rd @ gs\<rparr>" for gs rd
    by (induction gs arbitrary: rd) (simp_all add: RowDescription_AppendField_def)
  have fs: "fst (RowDescription_Bytes (fold RowDescription_AppendField fs NewRowDescription)) =
      frame RowDescriptionMessage (enc_int16 (length fs) @ concat (map field_bytes fs))"
    unfolding app by (subst RowDescription_Bytes_payload) (simp_all add: NewRowDescription_def)
  show ?thesis
    unfolding fs client_RowDescription_def frame_def enc_int16_def
    by (rule parses_goseq [OF any_reader.parses_NewMessageWithReader],
        rule parses_goseq [OF any_reader.parses_ReadInt16],
        simp only: sint_of_nat_small16 [OF assms(2)] nat_int,
        rule parses_repeat_n, rule parses_client_RowField)
      (use assms(1) in \<open>simp add: list_all_iff\<close>)
qed

theorem row_description_round_trip_witness:
  "parses (\<lambda>_. True) client_RowDescription
    (fst (RowDescription_Bytes (RowDescription_AppendField (NewRowFieldWith ''id'' [WithRowFieldNumber 1])
      NewRowDescription)))
    [NewRowFieldWith ''id'' [WithRowFieldNumber 1]]"
  using row_description_round_trip [of "[NewRowFieldWith ''id'' [WithRowFieldNumber 1]]"]
  by (simp add: NewRowFieldWith_def WithRowFieldNumber_def no_nul_def bytes_of_string_def byte_of_char_def)

section \<open>Errors and parameters\<close>

definition client_ErrorField :: "(byte \<times> string) rd" where
  "client_ErrorField = goseq ReadByte (\<lambda>t. goseq ReadString (\<lambda>v. ret (t, v)))"

definition client_Error :: "((byte \<times> string) \<times> byte) rd" where
  "client_Error = goseq NewMessageWithReader (\<lambda>_. goseq client_ErrorField (\<lambda>f.
     goseq ReadByte (\<lambda>terminator. ret (f, terminator))))"

text \<open>
  an error reaches the client with its text. The response made of an error holds the message
  field with the error's text and then the terminator; it has no severity and no code, which
  PostgreSQL always sends.
\<close>

theorem error_response_round_trip:
  assumes "no_nul (err_text e)"
  shows "parses (\<lambda>_. True) client_Error (fst (ErrorResponse_Bytes (NewErrorResponseWith e)))
    ((MessageError, err_text e), 0)"
proof -
  have "fst (ErrorResponse_Bytes (NewErrorResponseWith e)) =
      frame ErrorResponseMessage ([MessageError] @ cstring (err_text e) @ [0])"
    by (simp add: ErrorResponse_Bytes_def NewErrorResponseWith_def AddError_def NewErrorResponse_def
        ResponseMessage_Bytes_frame msg_types)
  moreover have "parses (\<lambda>_. True) client_ErrorField ([MessageError] @ cstring (err_text e))
      (MessageError, err_text e)"
    unfolding client_ErrorField_def
    by (rule parses_goseq [OF any_reader.parses_ReadByte],
        rule parses_goseq_ret [OF any_reader.parses_cstring [OF assms]]) simp
  ultimately show ?thesis
    unfolding client_Error_def frame_def append_assoc [symmetric]
    by (simp only: append_assoc [of "header _ _"])
      (rule parses_goseq [OF any_reader.parses_NewMessageWithReader],
       rule parses_goseq, assumption, rule parses_goseq_ret [OF any_reader.parses_ReadByte], simp)
qed

theorem error_response_round_trip_witness:
  "parses (\<lambda>_. True) client_Error (fst (ErrorResponse_Bytes (NewErrorResponseWith protocol_ErrNotSupported)))
    ((MessageError, ''not supported''), 0)"
  using error_response_round_trip [of protocol_ErrNotSupported]
  by (simp add: protocol_ErrNotSupported_def no_nul_def bytes_of_string_def byte_of_char_def)

text \<open>
  \<open>Bytes\<close> is not repeatable. The responses with a body of their own append it at every call, so
  the second call of a row description sends its fields twice, and that of an error response ends
  in two terminators.
\<close>

theorem bytes_twice_repeats_body:
  "fst (RowDescription_Bytes (snd (RowDescription_Bytes (RowDescription_AppendField f NewRowDescription)))) =
     frame RowDescriptionMessage
       (enc_int16 1 @ field_bytes f @ enc_int16 1 @ field_bytes f) \<and>
   fst (ErrorResponse_Bytes (snd (ErrorResponse_Bytes (NewErrorResponseWith e)))) =
     frame ErrorResponseMessage (MessageError # cstring (err_text e) @ [0, 0])"
proof
  have keep: "rm_typ (rd_message (snd (RowDescription_Bytes rd))) = rm_typ (rd_message rd)"
    "rd_fileds (snd (RowDescription_Bytes rd)) = rd_fileds rd"
    "content (rm_writer (rd_message (snd (RowDescription_Bytes rd)))) =
      content (rm_writer (rd_message rd)) @ enc_int16 (length (rd_fileds rd)) @
      concat (map field_bytes (rd_fileds rd))" for rd
    by (simp_all add: RowDescription_Bytes_def Let_def case_prod_beta enc_int16_def
        content_fold [of WirteBytes field_bytes, OF content_WirteBytes])
  show "fst (RowDescription_Bytes (snd (RowDescription_Bytes
      (RowDescription_AppendField f NewRowDescription)))) = frame RowDescriptionMessage
       (enc_int16 1 @ field_bytes f @ enc_int16 1 @ field_bytes f)"
    by (subst RowDescription_Bytes_payload)
      (simp_all add: keep RowDescription_AppendField_def NewRowDescription_def)
  show "fst (ErrorResponse_Bytes (snd (ErrorResponse_Bytes (NewErrorResponseWith e)))) =
     frame ErrorResponseMessage (MessageError # cstring (err_text e) @ [0, 0])"
    by (simp add: ErrorResponse_Bytes_def NewErrorResponseWith_def AddError_def NewErrorResponse_def
        ResponseMessage_Bytes_frame msg_types)
qed

end
