(* ===== verification/Conn.thy ===== *)
theory Conn
  imports Response_Proofs
begin

text \<open>
  A connection (\<open>protocol/conn_impl.go\<close>): the message reader, the database name, and the mutex that
  marks an open transaction. The network connection is the one the reader reads from, so its state
  is held there once. Time stamps are left out; the tracer context and its spans are in \<open>Tracing\<close>, which
  proves that they have no effect on what is sent and stored.
\<close>

record conn =
  c_isClosed :: bool
  c_reader :: reader
  c_db :: string
  c_uuid :: nat
  c_tls :: "io_source option"
  c_txLocked :: bool

type_synonym 'a cm = "(conn, gerr, 'a) gom"

text \<open>\<open>uuid.New\<close> is the caller's number; the options set the fields they are named after.\<close>

definition NewConnWith :: "net_conn \<Rightarrow> nat \<Rightarrow> (conn \<Rightarrow> conn) list \<Rightarrow> conn" where
  "NewConnWith netConn uuid opts = fold (\<lambda>opt. opt) opts
     \<lparr>c_isClosed = False, c_reader = NewReaderWithConn netConn, c_db = [], c_uuid = uuid,
      c_tls = None, c_txLocked = False\<rparr>"

definition WithConnDatabase :: "string \<Rightarrow> conn \<Rightarrow> conn" where
  "WithConnDatabase name c = c\<lparr>c_db := name\<rparr>"

text \<open>
  A \<open>*tls.Conn\<close> is a tunnel over the connection it was made on. The tunnel is what the reader of the new
  connection reads from, and the option keeps the network below it: \<open>None\<close> is the nil field.
\<close>

definition WithConnTLSConn :: "io_source \<Rightarrow> conn \<Rightarrow> conn" where
  "WithConnTLSConn below c = c\<lparr>c_tls := Some below\<rparr>"

definition SetDatabase :: "string \<Rightarrow> unit cm" where
  "SetDatabase db = modify (\<lambda>c. c\<lparr>c_db := db\<rparr>)"

definition Database :: "conn \<Rightarrow> string" where
  "Database c = c_db c"

definition IsTLSConnection :: "conn \<Rightarrow> bool" where
  "IsTLSConnection c \<longleftrightarrow> c_tls c \<noteq> None"

text \<open>An operation on the reader, and one on the network connection below it\<close>

definition on_reader :: "'a rd \<Rightarrow> 'a cm" where
  "on_reader = on_part c_reader (\<lambda>r c. c\<lparr>c_reader := r\<rparr>)"

definition on_net :: "(net_conn, gerr, 'a) gom \<Rightarrow> 'a cm" where
  "on_net m c = (case rsrc (c_reader c) of
       NetConn nc \<Rightarrow> (case m nc of (x, nc') \<Rightarrow>
         (x, c\<lparr>c_reader := (c_reader c)\<lparr>rsrc := NetConn nc'\<rparr>\<rparr>))
     | BytesReader _ \<Rightarrow> (Panic NilPointerDereference, c))"

definition conn_impl_Close :: "unit cm" where
  "conn_impl_Close c =
     (if c_isClosed c then (Ok (), c)
      else goseq (on_net conn_Close) (\<lambda>_. modify (\<lambda>c. c\<lparr>c_isClosed := True\<rparr>)) c)"

text \<open>The network connection that was accepted: the one below the tunnel, if there is one\<close>

definition accepted_source :: "conn \<Rightarrow> io_source" where
  "accepted_source c = (case c_tls c of None \<Rightarrow> rsrc (c_reader c) | Some below \<Rightarrow> below)"

definition closed_source :: "io_source \<Rightarrow> io_source" where
  "closed_source src = (case src of NetConn nc \<Rightarrow> NetConn (snd (conn_Close nc)) | BytesReader bs \<Rightarrow> BytesReader bs)"

text \<open>\<open>netConn.Close()\<close>, whose error is dropped\<close>

definition close_accepted :: "conn \<Rightarrow> conn" where
  "close_accepted c = (case c_tls c of
       None \<Rightarrow> c\<lparr>c_reader := (c_reader c)\<lparr>rsrc := closed_source (rsrc (c_reader c))\<rparr>\<rparr>
     | Some below \<Rightarrow> c\<lparr>c_tls := Some (closed_source below)\<rparr>)"

text \<open>A connection is always made on a network connection, so a source that is a byte slice is none of its.\<close>

definition hung_up :: "conn \<Rightarrow> bool" where
  "hung_up c \<longleftrightarrow> (case accepted_source c of NetConn nc \<Rightarrow> conn_closed nc | BytesReader _ \<Rightarrow> True)"

lemma close_accepted_hangs_up [simp]: "hung_up (close_accepted c)"
  by (auto simp: hung_up_def close_accepted_def accepted_source_def closed_source_def conn_Close_def
      split: option.split io_source.split)

lemma close_accepted_rest [simp]:
  "c_uuid (close_accepted c) = c_uuid c" "c_db (close_accepted c) = c_db c" "c_txLocked (close_accepted c) = c_txLocked c"
  "c_isClosed (close_accepted c) = c_isClosed c"
  by (simp_all add: close_accepted_def split: option.split)

section \<open>Transactions\<close>

text \<open>
  \<open>TryLock\<close> never waits. Unlocking a mutex that is not locked is a fatal error of the run-time
  system, which ends the process and cannot be recovered.
\<close>

definition LockTransaction :: "unit cm" where
  "LockTransaction c =
     (if c_txLocked c then (Err protocol_ErrTransactionBlocked, c) else (Ok (), c\<lparr>c_txLocked := True\<rparr>))"

definition UnlockTransaction :: "unit cm" where
  "UnlockTransaction c =
     (if c_txLocked c then (Ok (), c\<lparr>c_txLocked := False\<rparr>) else (Panic UnlockOfUnlockedMutex, c))"

definition TransactionStatus :: "conn \<Rightarrow> transaction_status" where
  "TransactionStatus c = (if c_txLocked c then TransactionBlock else TransactionIdle)"

section \<open>Messages\<close>

text \<open>
  A response is written with one \<open>Write\<close>. The message's own buffers are not used again, so what
  \<open>Bytes\<close> does to them is dropped; \<open>None\<close> is the nil response.
\<close>

definition ResponseMessage :: "response option \<Rightarrow> unit cm" where
  "ResponseMessage resMsg = (case resMsg of
       None \<Rightarrow> ret ()
     | Some res \<Rightarrow> goseq (lift_res (fst (Response_Bytes res))) (\<lambda>resBytes. on_net (conn_Write resBytes)))"

definition ResponseMessages :: "responses \<Rightarrow> unit cm" where
  "ResponseMessages resMsgs =
     (if length resMsgs = 0 then ret () else for_each (\<lambda>res. ResponseMessage (Some res)) resMsgs)"

definition ResponseError :: "gerr option \<Rightarrow> unit cm" where
  "ResponseError err = (case err of
       None \<Rightarrow> ret ()
     | Some e \<Rightarrow> on_net (conn_Write (fst (ErrorResponse_Bytes (NewErrorResponseWith e)))))"

definition SkipMessage :: "unit cm" where
  "SkipMessage = goseq (on_reader NewMessageWithReader) (\<lambda>msg.
     goseq (on_reader (ReadMessageData msg)) (\<lambda>_. ret ()))"

definition ReadyForMessage :: "unit cm" where
  "ReadyForMessage = goseq (gets TransactionStatus) (\<lambda>status.
     ResponseMessage (Some (MessageResponse (NewReadyForQueryWith status))))"

section \<open>What is on the wire\<close>

definition sent :: "conn \<Rightarrow> bytes list" where
  "sent c = (case rsrc (c_reader c) of NetConn nc \<Rightarrow> outbox nc | BytesReader _ \<Rightarrow> [])"

text \<open>What went over a source, and what went over the network below a tunnel\<close>

definition source_sent :: "io_source \<Rightarrow> bytes list" where
  "source_sent src = (case src of NetConn nc \<Rightarrow> outbox nc | BytesReader _ \<Rightarrow> [])"

definition sent_below :: "conn \<Rightarrow> bytes list" where
  "sent_below c = (case c_tls c of None \<Rightarrow> [] | Some below \<Rightarrow> source_sent below)"

lemma sent_source: "sent c = source_sent (rsrc (c_reader c))"
  by (simp add: sent_def source_sent_def)

lemma close_accepted_sent [simp]: "sent (close_accepted c) = sent c" "sent_below (close_accepted c) = sent_below c"
  by (auto simp: sent_source sent_below_def source_sent_def close_accepted_def closed_source_def conn_Close_def
      split: option.split io_source.split)

text \<open>A connection whose writes succeed\<close>

definition writable :: "conn \<Rightarrow> bool" where
  "writable c \<longleftrightarrow> (case rsrc (c_reader c) of
     NetConn nc \<Rightarrow> \<not> conn_closed nc \<and> write_fails nc = [] | BytesReader _ \<Rightarrow> False)"

definition put_out :: "bytes \<Rightarrow> conn \<Rightarrow> conn" where
  "put_out b c = (case rsrc (c_reader c) of
     NetConn nc \<Rightarrow> c\<lparr>c_reader := (c_reader c)\<lparr>rsrc := NetConn (nc\<lparr>outbox := outbox nc @ [b]\<rparr>)\<rparr>\<rparr>
   | BytesReader _ \<Rightarrow> c)"

lemma put_out_simps [simp]:
  "writable c \<Longrightarrow> writable (put_out b c)"
  "writable c \<Longrightarrow> sent (put_out b c) = sent c @ [b]"
  "c_db (put_out b c) = c_db c" "c_uuid (put_out b c) = c_uuid c" "c_tls (put_out b c) = c_tls c"
  "c_txLocked (put_out b c) = c_txLocked c" "c_isClosed (put_out b c) = c_isClosed c"
  "reader_pending (c_reader (put_out b c)) = reader_pending (c_reader c)"
  "peekBuf (c_reader (put_out b c)) = peekBuf (c_reader c)"
  "reader_patient (c_reader (put_out b c)) = reader_patient (c_reader c)"
  by (simp_all add: put_out_def writable_def sent_def reader_pending_def reader_patient_def
      src_pending_def src_patient_def conn_pending_def conn_patient_def split: io_source.splits)

lemma on_net_Write: "writable c \<Longrightarrow> on_net (conn_Write b) c = (Ok (), put_out b c)"
  by (auto simp: on_net_def conn_Write_def writable_def put_out_def split: io_source.splits)

lemma ResponseMessage_Ok:
  "fst (Response_Bytes res) = Ok b \<Longrightarrow> writable c \<Longrightarrow>
   ResponseMessage (Some res) c = (Ok (), put_out b c)"
  by (simp add: ResponseMessage_def goseq_def lift_res_def on_net_Write)

lemma ResponseError_Ok:
  "writable c \<Longrightarrow> ResponseError (Some e) c =
     (Ok (), put_out (fst (ErrorResponse_Bytes (NewErrorResponseWith e))) c)"
  by (simp add: ResponseError_def on_net_Write)

lemma ResponseMessages_Ok:
  assumes "list_all2 (\<lambda>res b. fst (Response_Bytes res) = Ok b) rs bs" "writable c"
  shows "ResponseMessages rs c = (Ok (), fold put_out bs c)"
proof -
  have "for_each (\<lambda>res. ResponseMessage (Some res)) rs c = (Ok (), fold put_out bs c)"
    using assms
    by (induction arbitrary: c rule: list_all2_induct) (simp_all add: ret_def goseq_def ResponseMessage_Ok)
  then show ?thesis using assms(1) by (cases rs) (simp_all add: ResponseMessages_def ret_def)
qed

lemma fold_put_out [simp]:
  "writable c \<Longrightarrow> writable (fold put_out bs c)"
  "writable c \<Longrightarrow> sent (fold put_out bs c) = sent c @ bs"
  "c_txLocked (fold put_out bs c) = c_txLocked c"
  "c_uuid (fold put_out bs c) = c_uuid c"
  "c_db (fold put_out bs c) = c_db c"
  "c_tls (fold put_out bs c) = c_tls c"
  "reader_pending (c_reader (fold put_out bs c)) = reader_pending (c_reader c)"
  "reader_patient (c_reader (fold put_out bs c)) = reader_patient (c_reader c)"
  "peekBuf (c_reader (fold put_out bs c)) = peekBuf (c_reader c)"
  by (induction bs arbitrary: c) simp_all

section \<open>The transaction lock as an interface\<close>

text \<open>
  What the query handler relies on: the lock is taken at most once, the status tells whether it is
  held, and it is only safe to release while it is held.
\<close>

locale tx_lock =
  fixes lock unlock :: "'s \<Rightarrow> (gerr, unit) res \<times> 's"
    and held :: "'s \<Rightarrow> bool"
  assumes lock_free: "\<not> held s \<Longrightarrow> \<exists>s'. lock s = (Ok (), s') \<and> held s'"
    and lock_held: "held s \<Longrightarrow> \<exists>e. lock s = (Err e, s)"
    and unlock_held: "held s \<Longrightarrow> \<exists>s'. unlock s = (Ok (), s') \<and> \<not> held s'"
    and unlock_free: "\<not> held s \<Longrightarrow> \<exists>p. unlock s = (Panic p, s)"
begin

lemma lock_then_unlock: "\<not> held s \<Longrightarrow> \<exists>s'. goseq lock (\<lambda>_. unlock) s = (Ok (), s') \<and> \<not> held s'"
  using lock_free [of s] unlock_held by (metis goseq_Ok)

lemma lock_twice: "\<not> held s \<Longrightarrow> \<exists>e s'. goseq lock (\<lambda>_. lock) s = (Err e, s') \<and> held s'"
  using lock_free [of s] lock_held by (metis goseq_Ok)

lemma unlock_twice: "held s \<Longrightarrow> \<exists>p s'. goseq unlock (\<lambda>_. unlock) s = (Panic p, s')"
  using unlock_held [of s] unlock_free by (metis goseq_Ok)

lemma unlock_safe_iff: "is_panic (fst (unlock s)) \<longleftrightarrow> \<not> held s"
  using unlock_held [of s] unlock_free [of s] by auto

end

interpretation tx: tx_lock LockTransaction UnlockTransaction c_txLocked
  by unfold_locales (simp_all add: LockTransaction_def UnlockTransaction_def)

text \<open>
  the transaction lock. Taking it opens a block exactly when none is open, a second BEGIN is
  refused with the block still open, and releasing a lock that is not held is the fatal error of
  an unlocked mutex, after which there is no server.
\<close>

theorem transaction_lock:
  "(is_panic (fst (UnlockTransaction c)) \<longleftrightarrow> TransactionStatus c = TransactionIdle) \<and>
   (fst (LockTransaction c) = Ok () \<longleftrightarrow> TransactionStatus c = TransactionIdle) \<and>
   TransactionStatus (snd (LockTransaction c)) = TransactionBlock \<and>
   fst (goseq LockTransaction (\<lambda>_. LockTransaction) c) = Err protocol_ErrTransactionBlocked"
  using tx.unlock_safe_iff [of c]
  by (auto simp: TransactionStatus_def TransactionIdle_def TransactionBlock_def LockTransaction_def
      goseq_def)

section \<open>Properties\<close>

text \<open>
  responses go out whole and in order. Each response that has bytes is written with one write,
  nothing in between, and neither the bytes to be read nor the transaction are touched.
\<close>

theorem responses_in_order:
  assumes "list_all2 (\<lambda>res b. fst (Response_Bytes res) = Ok b) rs bs" and "writable c"
  shows "\<exists>c'. ResponseMessages rs c = (Ok (), c') \<and> sent c' = sent c @ bs \<and>
    reader_pending (c_reader c') = reader_pending (c_reader c) \<and> c_txLocked c' = c_txLocked c"
  using ResponseMessages_Ok [OF assms] assms(2) by simp

theorem responses_in_order_witness:
  "\<exists>c'. ResponseMessages [MessageResponse NewParseComplete, MessageResponse NewBindComplete]
      (NewConnWith (new_net_conn []) 1 []) = (Ok (), c') \<and>
     sent c' = [[49, 0, 0, 0, 4], [50, 0, 0, 0, 4]]"
proof -
  have "list_all2 (\<lambda>res b. fst (Response_Bytes res) = Ok b)
      [MessageResponse NewParseComplete, MessageResponse NewBindComplete]
      [[49, 0, 0, 0, 4], [50, 0, 0, 0, 4]]"
    by (simp add: Response_Bytes_def ResponseMessage_Bytes_def Writer_Bytes_def NewParseComplete_def
        NewBindComplete_def NewResponseMessageWith_def NewWriter_def Flush_def msg_types
        Int32ToBytes_eq_Uint32ToBytes Uint32ToBytes_def)
  from responses_in_order [OF this, of "NewConnWith (new_net_conn []) 1 []"] show ?thesis
    by (auto simp: NewConnWith_def NewReaderWithConn_def new_net_conn_def writable_def sent_def)
qed

text \<open>The ready message carries the status byte of the lock: an open block is told, a failed one never.\<close>

lemma ready_message:
  assumes "writable c"
  shows "ReadyForMessage c = (Ok (), put_out (frame ReadyForQueryMessage
      [if c_txLocked c then TransactionBlock else TransactionIdle]) c)"
  using assms
  by (simp add: ReadyForMessage_def goseq_def gets_def ResponseMessage_def lift_res_def Response_Bytes_def
      NewReadyForQueryWith_def NewReadyForQuery_def TransactionStatus_def on_net_Write case_prod_beta
      ResponseMessage_Bytes_frame msg_types)

lemma on_reader_parses:
  assumes "parses (\<lambda>_. True) m bs x" "reader_patient (c_reader c)"
    "reader_pending (c_reader c) = bs @ rest"
  shows "\<exists>r'. on_reader m c = (Ok x, c\<lparr>c_reader := r'\<rparr>) \<and> reader_patient r' \<and> reader_pending r' = rest"
  by (rule parsesE [OF assms(1) TrueI assms(2,3)])
    (intro exI conjI, simp add: on_part_def on_reader_def, assumption+)

text \<open>
  a message the server does not know is skipped as a whole. Whatever its type and payload, the
  next message begins right behind it.
\<close>

theorem skip_message:
  assumes "length payload < 2 ^ 31" and "reader_patient (c_reader c)"
    and "reader_pending (c_reader c) = frame t payload @ rest"
  shows "\<exists>r'. SkipMessage c = (Ok (), c\<lparr>c_reader := r'\<rparr>) \<and> reader_patient r' \<and> reader_pending r' = rest"
proof -
  let ?msg = "\<lparr>msg_Type = t, msg_Length = of_nat (length payload + 4)\<rparr> :: message"
  from assms(3) have "reader_pending (c_reader c) = header t (of_nat (length payload + 4)) @ payload @ rest"
    by (simp add: frame_def)
  with on_reader_parses [OF any_reader.parses_NewMessageWithReader assms(2)] obtain r1 where
    r1: "on_reader NewMessageWithReader c = (Ok ?msg, c\<lparr>c_reader := r1\<rparr>)" "reader_patient r1"
      "reader_pending r1 = payload @ rest" by metis
  have "parses (\<lambda>_. True) (ReadMessageData ?msg) payload payload"
    by (rule any_reader.parses_ReadMessageData) (use assms(1) in simp_all)
  from on_reader_parses [OF this, of "c\<lparr>c_reader := r1\<rparr>" rest] r1(2,3) obtain r2 where
    "on_reader (ReadMessageData ?msg) (c\<lparr>c_reader := r1\<rparr>) = (Ok payload, c\<lparr>c_reader := r2\<rparr>)"
    "reader_patient r2" "reader_pending r2 = rest" by auto
  with r1(1) have "SkipMessage c = (Ok (), c\<lparr>c_reader := r2\<rparr>)"
    by (simp add: SkipMessage_def goseq_def ret_def)
  with \<open>reader_patient r2\<close> \<open>reader_pending r2 = rest\<close> show ?thesis by blast
qed

theorem skip_message_witness:
  "\<exists>r'. SkipMessage (NewConnWith (new_net_conn [Arrive [70, 0, 0, 0, 5, 1, 83]]) 1 []) =
     (Ok (), (NewConnWith (new_net_conn [Arrive [70, 0, 0, 0, 5, 1, 83]]) 1 [])\<lparr>c_reader := r'\<rparr>) \<and>
     reader_pending r' = [83]"
proof -
  let ?c = "NewConnWith (new_net_conn [Arrive [70, 0, 0, 0, 5, 1, 83]]) 1 []"
  have "reader_patient (c_reader ?c)" "reader_pending (c_reader ?c) = frame 70 [1] @ [83]"
    by (simp_all add: NewConnWith_def NewReaderWithConn_def new_net_conn_def reader_patient_def
        src_patient_def conn_patient_def reader_pending_def src_pending_def conn_pending_def
        frame_def header_def Int32ToBytes_eq_Uint32ToBytes Uint32ToBytes_def)
  from skip_message [OF _ this] show ?thesis by auto
qed

end
