(* ===== verification/Rows.thy ===== *)
theory Rows
  imports Data_Rows Requests
begin

text \<open>
  The query package: \<open>row_field.go\<close>, \<open>data_row.go\<close>, \<open>resultset.go\<close> and \<open>statement.go\<close>. What the SQL
  parser package provides is a parameter: the schema and the rows of a result set, the columns of
  a statement, the aggregators of a selector list.
\<close>

section \<open>Result sets\<close>

type_synonym row = "string \<rightharpoonup> go_value"

text \<open>
  A result set as the code sees it: \<open>LookupColumn\<close> of its schema (with the type of the column it
  finds), the selectors by their \<open>String()\<close>, and the outcome of \<open>Row()\<close> for each \<open>Next()\<close>.
\<close>

record resultset =
  rs_LookupColumn :: "string \<Rightarrow> sql_type go"
  rs_Selectors :: "string list"
  rs_Rows :: "row go list"

definition NewRowFieldFrom :: "(string \<Rightarrow> sql_type go) \<Rightarrow> string \<Rightarrow> nat \<Rightarrow> RowField go" where
  "NewRowFieldFrom LookupColumn columnName idx =
     (case LookupColumn columnName of
        Err e \<Rightarrow> Err e | Panic p \<Rightarrow> Panic p
      | Ok columnType \<Rightarrow>
          map_res (\<lambda>dt. NewRowFieldWith columnName
              [WithRowFieldNumber (of_nat (idx + 1)), WithRowFieldDataType dt])
            (NewDataTypeFrom columnType))"

text \<open>
  The loop of \<open>NewDataRowForSelectors\<close>: a column the row does not have is appended as nil, and the
  error of \<open>AppendData\<close> is not looked at.
\<close>

fun append_selectors ::
    "safecast \<Rightarrow> RowDescription \<Rightarrow> row \<Rightarrow> nat \<Rightarrow> string list \<Rightarrow> (DataRow, gerr, unit) gom" where
  "append_selectors sc rowDesc row n [] = ret ()"
| "append_selectors sc rowDesc row n (name # names) =
     goseq (lift_res (RowDescription_Field rowDesc n)) (\<lambda>field.
     goseq (gotry (AppendData sc field (case row name of None \<Rightarrow> VNil | Some v \<Rightarrow> v))) (\<lambda>_.
     append_selectors sc rowDesc row (Suc n) names))"

definition NewDataRowForSelectors ::
    "safecast \<Rightarrow> RowDescription \<Rightarrow> string list \<Rightarrow> row \<Rightarrow> DataRow go" where
  "NewDataRowForSelectors sc rowDesc selectors row =
     (case append_selectors sc rowDesc row 0 selectors NewDataRow of
        (Ok _, dataRow) \<Rightarrow> Ok dataRow | (Err e, _) \<Rightarrow> Err e | (Panic p, _) \<Rightarrow> Panic p)"

definition sequence_res :: "('e, 'a) res \<Rightarrow> ('a \<Rightarrow> ('e, 'b) res) \<Rightarrow> ('e, 'b) res" where
  "sequence_res x f = (case x of Ok a \<Rightarrow> f a | Err e \<Rightarrow> Err e | Panic p \<Rightarrow> Panic p)"

lemma sequence_res_simps [simp]:
  "sequence_res (Ok a) f = f a" "sequence_res (Err e) f = Err e" "sequence_res (Panic p) f = Panic p"
  by (simp_all add: sequence_res_def)

fun map_go :: "('a \<Rightarrow> ('e, 'b) res) \<Rightarrow> 'a list \<Rightarrow> ('e, 'b list) res" where
  "map_go f [] = Ok []"
| "map_go f (x # xs) = sequence_res (f x) (\<lambda>y. map_res ((#) y) (map_go f xs))"

definition row_description :: "resultset \<Rightarrow> RowDescription go" where
  "row_description rs =
     map_res (\<lambda>fs. fold RowDescription_AppendField fs NewRowDescription)
       (map_go (\<lambda>(n, selector). NewRowFieldFrom (rs_LookupColumn rs) selector n)
         (enumerate 0 (rs_Selectors rs)))"

definition result_row :: "safecast \<Rightarrow> RowDescription \<Rightarrow> string list \<Rightarrow> row go \<Rightarrow> DataRow go" where
  "result_row sc rowDesc selectors r =
     sequence_res r (NewDataRowForSelectors sc rowDesc selectors)"

definition NewResponseFromResultSet :: "safecast \<Rightarrow> resultset \<Rightarrow> responses go" where
  "NewResponseFromResultSet sc rs =
     sequence_res (row_description rs) (\<lambda>rowDesc.
     sequence_res (map_go (result_row sc rowDesc (rs_Selectors rs)) (rs_Rows rs)) (\<lambda>dataRows.
     Ok (RowDescriptionResponse rowDesc # map DataRowResponse dataRows @
         [MessageResponse (NewSelectCompleteWith (int (length dataRows)))])))"

section \<open>Aggregated rows\<close>

text \<open>The aggregate functions of the parser package: a set of them, built up and finalised.\<close>

record 's aggregators =
  ag_Aggregators :: "'s go"
  ag_Reset :: "string \<Rightarrow> 's \<Rightarrow> 's go"
  ag_Aggregate :: "row \<Rightarrow> 's \<Rightarrow> 's go"
  ag_Finalize :: "'s \<Rightarrow> row go list go"

fun aggregate_rows :: "('s, 'x) aggregators_scheme \<Rightarrow> row list \<Rightarrow> 's \<Rightarrow> 's go" where
  "aggregate_rows ag [] s = Ok s"
| "aggregate_rows ag (r # rs) s = sequence_res (ag_Aggregate ag r s) (aggregate_rows ag rs)"

definition NewDataRowsForAggregator ::
    "safecast \<Rightarrow> 's aggregators \<Rightarrow> RowDescription \<Rightarrow> string list \<Rightarrow> row list \<Rightarrow> string \<Rightarrow> DataRow list go" where
  "NewDataRowsForAggregator sc ag rowDesc selectors rows groupBy =
     sequence_res (ag_Aggregators ag) (\<lambda>s0.
     sequence_res (ag_Reset ag groupBy s0) (\<lambda>s1.
     sequence_res (aggregate_rows ag rows s1) (\<lambda>s2.
     sequence_res (ag_Finalize ag s2) (map_go (result_row sc rowDesc selectors)))))"

section \<open>Statements and their parameters\<close>

text \<open>What \<open>Bind\<close> sees of a column: no value, a parameter to be bound, or another value\<close>

datatype column_value = NoValue | BindName string | Plain go_value

text \<open>
  The statement by its type: an UPDATE with its columns, an INSERT with its rows, any other. The values that
  the WHERE of a statement compares with are kept beside, because a parameter can stand there as well.
\<close>

datatype bindable =
    UpdateColumns "column_value list" "column_value list"
  | InsertValues "column_value list list"
  | NotBindable "column_value list"

text \<open>
  \<open>updateBindColumns\<close>: the columns before the one that fails stay bound, because \<open>SetValue\<close> works
  on the statement itself.
\<close>

fun updateBindColumns :: "BindParam list \<Rightarrow> column_value list \<Rightarrow> unit go \<times> column_value list" where
  "updateBindColumns params [] = (Ok (), [])"
| "updateBindColumns params (c # cs) =
     (case c of
        BindName name \<Rightarrow>
          (case FindBindParam params name of
             Err e \<Rightarrow> (Err e, c # cs)
           | Panic p \<Rightarrow> (Panic p, c # cs)
           | Ok bindParam \<Rightarrow>
               (case updateBindColumns params cs of (x, cs') \<Rightarrow> (x, Plain (bind_Value bindParam) # cs')))
      | _ \<Rightarrow> (case updateBindColumns params cs of (x, cs') \<Rightarrow> (x, c # cs')))"

fun updateBindRows :: "BindParam list \<Rightarrow> column_value list list \<Rightarrow> unit go \<times> column_value list list" where
  "updateBindRows params [] = (Ok (), [])"
| "updateBindRows params (r # rs) =
     (case updateBindColumns params r of
        (Ok _, r') \<Rightarrow> (case updateBindRows params rs of (x, rs') \<Rightarrow> (x, r' # rs'))
      | (x, r') \<Rightarrow> (x, r' # rs))"

definition Statement_Bind :: "BindParam list \<Rightarrow> (bindable, gerr, unit) gom" where
  "Statement_Bind bindParams stmt = (case stmt of
       UpdateColumns cs ws \<Rightarrow> (case updateBindColumns bindParams cs of (x, cs') \<Rightarrow> (x, UpdateColumns cs' ws))
     | InsertValues rs \<Rightarrow> (case updateBindRows bindParams rs of (x, rs') \<Rightarrow> (x, InsertValues rs'))
     | NotBindable ws \<Rightarrow> (Ok (), stmt))"

section \<open>The shape of a result\<close>

lemma map_go_Ok_length: "map_go f xs = Ok ys \<Longrightarrow> length ys = length xs"
  by (induction xs arbitrary: ys) (auto simp: sequence_res_def map_res_def split: res.splits)

lemma map_go_Ok_nth: "map_go f xs = Ok ys \<Longrightarrow> i < length xs \<Longrightarrow> f (xs ! i) = Ok (ys ! i)"
  by (induction xs arbitrary: ys i)
    (auto simp: sequence_res_def map_res_def nth_Cons split: res.splits nat.splits)

lemma fold_AppendField:
  "fold RowDescription_AppendField fs rd = rd\<lparr>rd_fileds := rd_fileds rd @ fs\<rparr>"
  by (induction fs arbitrary: rd) (simp_all add: RowDescription_AppendField_def)

lemma row_description_length:
  "row_description rs = Ok rd \<Longrightarrow> length (rd_fileds rd) = length (rs_Selectors rs)"
  by (auto simp: row_description_def map_res_def fold_AppendField NewRowDescription_def
      dest!: map_go_Ok_length split: res.splits)

text \<open>The columns of a row that were cast: those for which \<open>AppendData\<close> succeeds\<close>

definition column_ok :: "safecast \<Rightarrow> RowField \<Rightarrow> go_value \<Rightarrow> bool" where
  "column_ok sc f v \<longleftrightarrow> (\<exists>w. sequence_res (cast_column sc (rf_ObjectID f) v)
     (format_column sc (rf_FormatCode f)) = Ok w)"

definition panic_free :: "safecast \<Rightarrow> bool" where
  "panic_free sc \<longleftrightarrow> (\<forall>v. \<not> is_panic (ToBool sc v) \<and> \<not> is_panic (ToInt16 sc v) \<and>
     \<not> is_panic (ToInt32 sc v) \<and> \<not> is_panic (ToInt64 sc v) \<and> \<not> is_panic (ToFloat32 sc v) \<and>
     \<not> is_panic (ToFloat64 sc v) \<and> \<not> is_panic (ToString sc v) \<and> \<not> is_panic (ToTime sc v))"

lemma is_panic_map_res [simp]: "is_panic (map_res f x) = is_panic x"
  by (cases x) simp_all

lemma AppendData_effect:
  assumes "panic_free sc"
  shows "(column_ok sc f v \<longrightarrow> (\<exists>w. AppendData sc f v dr = (Ok (), dr\<lparr>dr_Data := dr_Data dr @ [w]\<rparr>))) \<and>
    (\<not> column_ok sc f v \<longrightarrow> (\<exists>e. AppendData sc f v dr = (Err e, dr)))"
proof -
  have cast: "\<not> is_panic (cast_column sc oid v)" for oid
    using assms by (auto simp: cast_column_def panic_free_def split: go_value.splits)
  have fmt: "\<not> is_panic (format_column sc c w)" for c w
    using assms by (auto simp: format_column_def panic_free_def split: go_value.splits)
  show ?thesis
  proof (cases "cast_column sc (rf_ObjectID f) v")
    case (Ok w)
    then show ?thesis
      using fmt [of "rf_FormatCode f" w]
      by (cases "format_column sc (rf_FormatCode f) w")
        (auto simp: AppendData_def column_ok_def go_simps)
  next
    case (Err e)
    then show ?thesis by (simp add: AppendData_def column_ok_def go_simps)
  next
    case (Panic p)
    with cast [of "rf_ObjectID f"] show ?thesis by simp
  qed
qed

lemma append_selectors_columns:
  assumes "panic_free sc" "n + length names = length (rd_fileds rd)"
  shows "\<exists>dr'. append_selectors sc rd row n names dr = (Ok (), dr') \<and>
    length (dr_Data dr') = length (dr_Data dr) + length (filter (\<lambda>(f, name).
      column_ok sc f (case row name of None \<Rightarrow> VNil | Some v \<Rightarrow> v)) (zip (drop n (rd_fileds rd)) names))"
  using assms(2)
proof (induction names arbitrary: n dr)
  case (Cons name names)
  let ?f = "rd_fileds rd ! n" and ?v = "case row name of None \<Rightarrow> VNil | Some v \<Rightarrow> v"
  have n: "n < length (rd_fileds rd)" "Suc n + length names = length (rd_fileds rd)"
    using Cons.prems by simp_all
  then have field: "RowDescription_Field rd n = Ok ?f" and
    drop: "drop n (rd_fileds rd) = ?f # drop (Suc n) (rd_fileds rd)"
    by (simp_all add: RowDescription_Field_def Cons_nth_drop_Suc)
  show ?case
  proof (cases "column_ok sc ?f ?v")
    case True
    then obtain w where "AppendData sc ?f ?v dr = (Ok (), dr\<lparr>dr_Data := dr_Data dr @ [w]\<rparr>)"
      using AppendData_effect [OF assms(1)] by blast
    with Cons.IH [OF n(2), of "dr\<lparr>dr_Data := dr_Data dr @ [w]\<rparr>"] field drop True show ?thesis
      by (auto simp: goseq_def gotry_def lift_res_def)
  next
    case False
    then obtain e where "AppendData sc ?f ?v dr = (Err e, dr)"
      using AppendData_effect [OF assms(1)] by blast
    with Cons.IH [OF n(2), of dr] field drop False show ?thesis
      by (auto simp: goseq_def gotry_def lift_res_def)
  qed
qed (simp add: ret_def)

text \<open>
  C33: a column that cannot be cast disappears from its row. A data row has one value for each column
  whose cast succeeded, not for each column of the row description, because the error of
  \<open>AppendData\<close> is dropped; the client then takes the later values for those of earlier columns.
\<close>

theorem failed_cast_drops_column:
  assumes "panic_free sc" and "length selectors = length (rd_fileds rd)"
  shows "\<exists>dr. NewDataRowForSelectors sc rd selectors row = Ok dr \<and>
    length (dr_Data dr) = length (filter (\<lambda>(f, name).
      column_ok sc f (case row name of None \<Rightarrow> VNil | Some v \<Rightarrow> v)) (zip (rd_fileds rd) selectors))"
  using append_selectors_columns [OF assms(1), of 0 selectors rd row NewDataRow] assms(2)
  by (auto simp: NewDataRowForSelectors_def NewDataRow_def)

definition strict_casts :: safecast where
  "strict_casts =
     \<lparr>ToBool = \<lambda>_. Err (NewErrInvalid ''bool''), ToInt16 = \<lambda>_. Err (NewErrInvalid ''int16''),
      ToInt32 = \<lambda>_. Err (NewErrInvalid ''int32''), ToInt64 = \<lambda>_. Err (NewErrInvalid ''int64''),
      ToFloat32 = \<lambda>_. Err (NewErrInvalid ''float32''), ToFloat64 = \<lambda>_. Err (NewErrInvalid ''float64''),
      ToString = \<lambda>v. (case v of VInt32 i \<Rightarrow> Ok (show_int (sint i)) | _ \<Rightarrow> Err (NewErrInvalid ''string'')),
      ToTime = \<lambda>_. Err (NewErrInvalid ''time'')\<rparr>"

theorem failed_cast_drops_column_witness:
  "\<exists>dr. NewDataRowForSelectors strict_casts
      (fold RowDescription_AppendField
        [NewRowFieldWith ''id'' [WithRowFieldObjectID oid_Int4], NewRowFieldWith ''name'' [WithRowFieldObjectID oid_Text]]
        NewRowDescription) [''id'', ''name''] [''id'' \<mapsto> VNil, ''name'' \<mapsto> VString ''x''] = Ok dr \<and>
     length (dr_Data dr) = 1"
proof -
  have "panic_free strict_casts"
    by (simp add: panic_free_def strict_casts_def split: go_value.split)
  let ?id = "NewRowFieldWith ''id'' [WithRowFieldObjectID oid_Int4]"
  let ?name = "NewRowFieldWith ''name'' [WithRowFieldObjectID oid_Text]"
  have rd: "rd_fileds (fold RowDescription_AppendField [?id, ?name] NewRowDescription) = [?id, ?name]"
    by (simp only: fold_AppendField NewRowDescription_def) simp
  have "\<not> column_ok strict_casts ?id VNil" "column_ok strict_casts ?name (VString ''x'')"
    by (simp_all add: column_ok_def NewRowFieldWith_def WithRowFieldObjectID_def cast_column_def
        format_column_def strict_casts_def object_ids TextFormat_def)
  then show ?thesis
    using failed_cast_drops_column [OF \<open>panic_free strict_casts\<close>, of "[''id'', ''name'']"
        "fold RowDescription_AppendField [?id, ?name] NewRowDescription"
        "[''id'' \<mapsto> VNil, ''name'' \<mapsto> VString ''x'']"]
    unfolding rd by simp
qed

text \<open>
  C34: the answer to a query has the shape the protocol asks for: one row description with as many
  fields as there are selectors, one data row for each row of the result in order, and a command
  completion with their number.
\<close>

theorem result_set_shape:
  assumes "NewResponseFromResultSet sc rs = Ok res"
  shows "\<exists>rd drs. res = RowDescriptionResponse rd # map DataRowResponse drs @
      [MessageResponse (NewSelectCompleteWith (int (length (rs_Rows rs))))] \<and>
    length (rd_fileds rd) = length (rs_Selectors rs) \<and> length drs = length (rs_Rows rs) \<and>
    (\<forall>i < length drs. \<exists>row. rs_Rows rs ! i = Ok row \<and>
       NewDataRowForSelectors sc rd (rs_Selectors rs) row = Ok (drs ! i))"
proof -
  from assms obtain rd drs where rd: "row_description rs = Ok rd"
    and drs: "map_go (result_row sc rd (rs_Selectors rs)) (rs_Rows rs) = Ok drs"
    and res: "res = RowDescriptionResponse rd # map DataRowResponse drs @
      [MessageResponse (NewSelectCompleteWith (int (length drs)))]"
    by (auto simp: NewResponseFromResultSet_def sequence_res_def split: res.splits)
  have row: "\<exists>row. rs_Rows rs ! i = Ok row \<and>
      NewDataRowForSelectors sc rd (rs_Selectors rs) row = Ok (drs ! i)" if "i < length drs" for i
    using map_go_Ok_nth [OF drs, of i] that map_go_Ok_length [OF drs]
    by (cases "rs_Rows rs ! i") (simp_all add: result_row_def)
  from rd res row map_go_Ok_length [OF drs] row_description_length [OF rd] show ?thesis by auto
qed

theorem result_set_shape_witness:
  "\<exists>res. NewResponseFromResultSet strict_casts
      \<lparr>rs_LookupColumn = \<lambda>_. Ok TextType, rs_Selectors = [''a''], rs_Rows = [Ok [''a'' \<mapsto> VString ''x'']]\<rparr> = Ok res \<and>
     length res = 3"
proof -
  let ?rs = "\<lparr>rs_LookupColumn = \<lambda>_. Ok TextType, rs_Selectors = [''a''],
      rs_Rows = [Ok [''a'' \<mapsto> VString ''x'']]\<rparr>"
  have dt: "NewDataTypeFrom TextType = Ok \<lparr>dt_name = ''Text'', dt_oid = 25, dt_size = - 1\<rparr>"
    by code_simp
  have "\<exists>res. NewResponseFromResultSet strict_casts ?rs = Ok res"
    by (simp add: NewResponseFromResultSet_def row_description_def NewRowFieldFrom_def dt
        result_row_def NewDataRowForSelectors_def RowDescription_Field_def fold_AppendField
        NewRowDescription_def NewRowFieldWith_def WithRowFieldDataType_def WithRowFieldNumber_def
        AppendData_def cast_column_def format_column_def DataType_FormatCode_def object_ids
        TextFormat_def BinaryFormat_def go_simps)
  then obtain res where "NewResponseFromResultSet strict_casts ?rs = Ok res" by blast
  with result_set_shape [OF this] show ?thesis by auto
qed

definition bound :: "BindParam list \<Rightarrow> column_value \<Rightarrow> column_value" where
  "bound params c = (case c of
       BindName name \<Rightarrow> (case FindBindParam params name of Ok p \<Rightarrow> Plain (bind_Value p) | _ \<Rightarrow> c)
     | _ \<Rightarrow> c)"

definition found :: "BindParam list \<Rightarrow> column_value set \<Rightarrow> bool" where
  "found params cs \<longleftrightarrow> (\<forall>name. BindName name \<in> cs \<longrightarrow> (\<exists>p. FindBindParam params name = Ok p))"

lemma found_insert [simp]: "found params (insert c cs) \<longleftrightarrow>
    (case c of BindName name \<Rightarrow> (\<exists>p. FindBindParam params name = Ok p) | _ \<Rightarrow> True) \<and> found params cs"
  by (auto simp: found_def split: column_value.splits)

lemma found_Un [simp]: "found params (A \<union> B) \<longleftrightarrow> found params A \<and> found params B"
  by (auto simp: found_def)

lemma found_empty [simp]: "found params {}"
  by (simp add: found_def)

lemma updateBindColumns_result:
  "fst (updateBindColumns params cs) = Ok () \<longleftrightarrow> found params (set cs)"
  "fst (updateBindColumns params cs) = Ok () \<Longrightarrow> snd (updateBindColumns params cs) = map (bound params) cs"
  by (induction cs) (auto simp: bound_def split: column_value.splits res.splits prod.splits)

lemma updateBindRows_result:
  "fst (updateBindRows params rs) = Ok () \<longleftrightarrow> found params (\<Union>(set ` set rs)) \<and>
   (fst (updateBindRows params rs) = Ok () \<longrightarrow> snd (updateBindRows params rs) = map (map (bound params)) rs)"
proof (induction rs)
  case (Cons row rs)
  obtain x row' where row: "updateBindColumns params row = (x, row')" by fastforce
  with Cons.IH updateBindColumns_result [of params row] show ?case
    by (cases x) (auto split: prod.splits)
qed simp

text \<open>
  C35: binding a statement. It succeeds exactly when every parameter among the columns of an UPDATE, or in any row
  of an INSERT, exists; then each of them has become its value, every other value is as it was, and no
  parameter is left there. The parameters in the WHERE of an UPDATE, and all of a statement of another
  kind, are never looked up: they stay where they are.
\<close>

theorem bind_replaces_parameters:
  "(fst (Statement_Bind params stmt) = Ok () \<longleftrightarrow> (\<forall>name. BindName name \<in> (case stmt of
        UpdateColumns cs ws \<Rightarrow> set cs | InsertValues rs \<Rightarrow> \<Union>(set ` set rs) | NotBindable ws \<Rightarrow> {}) \<longrightarrow>
      (\<exists>p. FindBindParam params name = Ok p))) \<and>
   (fst (Statement_Bind params stmt) = Ok () \<longrightarrow> snd (Statement_Bind params stmt) = (case stmt of
        UpdateColumns cs ws \<Rightarrow> UpdateColumns (map (bound params) cs) ws
      | InsertValues rs \<Rightarrow> InsertValues (map (map (bound params)) rs)
      | NotBindable ws \<Rightarrow> NotBindable ws)) \<and>
   (\<forall>c. bound params c = (case c of
        BindName name \<Rightarrow> (case FindBindParam params name of Ok p \<Rightarrow> Plain (bind_Value p) | _ \<Rightarrow> BindName name)
      | _ \<Rightarrow> c))"
proof -
  have "fst (Statement_Bind params stmt) = Ok () \<longleftrightarrow> found params (case stmt of
        UpdateColumns cs ws \<Rightarrow> set cs | InsertValues rs \<Rightarrow> \<Union>(set ` set rs) | NotBindable ws \<Rightarrow> {})"
    using updateBindColumns_result(1) updateBindRows_result
    by (cases stmt) (auto simp: Statement_Bind_def case_prod_beta)
  moreover have "snd (Statement_Bind params stmt) = (case stmt of
        UpdateColumns cs ws \<Rightarrow> UpdateColumns (map (bound params) cs) ws
      | InsertValues rs \<Rightarrow> InsertValues (map (map (bound params)) rs)
      | NotBindable ws \<Rightarrow> NotBindable ws)" if "fst (Statement_Bind params stmt) = Ok ()"
    using that updateBindColumns_result(2) updateBindRows_result
    by (cases stmt) (auto simp: Statement_Bind_def case_prod_beta)
  ultimately show ?thesis by (simp add: found_def bound_def split: column_value.split)
qed

text \<open>Two rows to be inserted, and an UPDATE whose WHERE has a parameter\<close>

theorem bind_replaces_parameters_witness:
  "let ps = [\<lparr>bind_FormatCode = TextFormat, bind_Value = VString ''v''\<rparr>] in
   Statement_Bind ps (InsertValues [[NoValue], [BindName ''$1'']]) = (Ok (), InsertValues [[NoValue], [Plain (VString ''v'')]]) \<and>
   Statement_Bind ps (UpdateColumns [BindName ''$1''] [BindName ''$1'']) =
     (Ok (), UpdateColumns [Plain (VString ''v'')] [BindName ''$1''])"
proof -
  let ?ps = "[\<lparr>bind_FormatCode = TextFormat, bind_Value = VString ''v''\<rparr>]"
  have fb: "FindBindParam ?ps ''$1'' = Ok \<lparr>bind_FormatCode = TextFormat, bind_Value = VString ''v''\<rparr>" by code_simp
  from fb have ok: "fst (Statement_Bind ?ps (InsertValues [[NoValue], [BindName ''$1'']])) = Ok ()"
    "fst (Statement_Bind ?ps (UpdateColumns [BindName ''$1''] [BindName ''$1''])) = Ok ()"
    using bind_replaces_parameters [of ?ps "InsertValues [[NoValue], [BindName ''$1'']]"]
      bind_replaces_parameters [of ?ps "UpdateColumns [BindName ''$1''] [BindName ''$1'']"] by simp_all
  with fb have "snd (Statement_Bind ?ps (InsertValues [[NoValue], [BindName ''$1'']])) =
      InsertValues [[NoValue], [Plain (VString ''v'')]]"
    "snd (Statement_Bind ?ps (UpdateColumns [BindName ''$1''] [BindName ''$1''])) =
      UpdateColumns [Plain (VString ''v'')] [BindName ''$1'']"
    using bind_replaces_parameters [of ?ps "InsertValues [[NoValue], [BindName ''$1'']]"]
      bind_replaces_parameters [of ?ps "UpdateColumns [BindName ''$1''] [BindName ''$1'']"]
    by (simp_all add: bound_def)
  with ok show ?thesis by (simp add: Let_def prod_eq_iff)
qed

end
