(* ===== verification/Executors.thy ===== *)
theory Executors
  imports Conn Rows
begin

text \<open>
  The executors: \<open>executor.go\<close>, \<open>executor_query.go\<close>, \<open>executor_query_ex.go\<close>,
  \<open>executor_query_system.go\<close>, \<open>executor_bulk.go\<close> and \<open>executor_error.go\<close>. An interface of the code is
  a record of functions; the SQL executor behind them belongs to the parser package's interface and
  is a parameter, with a state of its own. An executor sees the connection but does not write to it.
\<close>

section \<open>Statements\<close>

datatype StatementType =
    BeginStatement | CommitStatement | RollbackStatement
  | CreateDatabaseStatement | CreateTableStatement | CreateIndexStatement
  | AlterDatabaseStatement | AlterTableStatement
  | DropDatabaseStatement | DropTableStatement | DropIndexStatement
  | InsertStatement | SelectStatement | UpdateStatement | DeleteStatement
  | TruncateStatement | VacuumStatement | CopyStatement
  | OtherStatement

text \<open>
  What the code reads off a statement of the parser package: its type, its text, and the parts the
  methods \<open>Values\<close>, \<open>From\<close>, \<open>Selectors\<close>, \<open>Columns\<close>, \<open>Tables\<close> and \<open>TableName\<close> return.
\<close>

record statement =
  st_Type :: StatementType
  st_String :: string
  st_Values :: "column_value list list"
  st_FromTables :: "string list"
  st_FromString :: string
  st_HasSchemaTable :: "string list \<Rightarrow> bool"
  st_Selectors :: "string list"
  st_Columns :: "string list"
  st_Tables :: "string list"
  st_TableName :: string

section \<open>Interfaces\<close>

text \<open>The SQL executor; \<open>RowsAffected\<close> is all the code reads of the result of an update or delete.\<close>

type_synonym ('a, 'r) sql_op = "conn \<Rightarrow> statement \<Rightarrow> ('a, gerr, 'r) gom"

record 'a SQLExecutor =
  se_Begin :: "('a, unit) sql_op"
  se_Commit :: "('a, unit) sql_op"
  se_Rollback :: "('a, unit) sql_op"
  se_CreateDatabase :: "('a, unit) sql_op"
  se_CreateTable :: "('a, unit) sql_op"
  se_AlterDatabase :: "('a, unit) sql_op"
  se_AlterTable :: "('a, unit) sql_op"
  se_DropDatabase :: "('a, unit) sql_op"
  se_DropTable :: "('a, unit) sql_op"
  se_Insert :: "('a, unit) sql_op"
  se_Select :: "('a, resultset) sql_op"
  se_Update :: "('a, int) sql_op"
  se_Delete :: "('a, int) sql_op"
  se_SystemSelect :: "('a, resultset) sql_op"

type_synonym 'a query_op = "('a, responses) sql_op"

text \<open>The interfaces of \<open>executor.go\<close>, and those of \<open>server.go\<close> that embed them\<close>

record 'a TCOExecutor =
  tco_Begin :: "'a query_op"
  tco_Commit :: "'a query_op"
  tco_Rollback :: "'a query_op"

record 'a DDOExecutor =
  ddo_CreateDatabase :: "'a query_op"
  ddo_CreateTable :: "'a query_op"
  ddo_AlterDatabase :: "'a query_op"
  ddo_AlterTable :: "'a query_op"
  ddo_DropDatabase :: "'a query_op"
  ddo_DropTable :: "'a query_op"

record 'a DMOExecutor =
  dmo_Insert :: "'a query_op"
  dmo_Select :: "'a query_op"
  dmo_Update :: "'a query_op"
  dmo_Delete :: "'a query_op"

record 'a QueryExecutor =
  qe_TCO :: "'a TCOExecutor"
  qe_DDO :: "'a DDOExecutor"
  qe_DMO :: "'a DMOExecutor"

record 'a DDOExExecutor =
  ddox_CreateIndex :: "'a query_op"
  ddox_DropIndex :: "'a query_op"

record 'a DMOExExecutor =
  dmox_Vacuum :: "'a query_op"
  dmox_Truncate :: "'a query_op"

record 'a ExQueryExecutor =
  ex_DDO :: "'a DDOExExecutor"
  ex_DMO :: "'a DMOExExecutor"

text \<open>The methods an embedding interface is called by\<close>

abbreviation qe_Begin :: "'a QueryExecutor \<Rightarrow> 'a query_op" where
  "qe_Begin q \<equiv> tco_Begin (qe_TCO q)"

abbreviation qe_Commit :: "'a QueryExecutor \<Rightarrow> 'a query_op" where
  "qe_Commit q \<equiv> tco_Commit (qe_TCO q)"

abbreviation qe_Rollback :: "'a QueryExecutor \<Rightarrow> 'a query_op" where
  "qe_Rollback q \<equiv> tco_Rollback (qe_TCO q)"

abbreviation qe_CreateDatabase :: "'a QueryExecutor \<Rightarrow> 'a query_op" where
  "qe_CreateDatabase q \<equiv> ddo_CreateDatabase (qe_DDO q)"

abbreviation qe_CreateTable :: "'a QueryExecutor \<Rightarrow> 'a query_op" where
  "qe_CreateTable q \<equiv> ddo_CreateTable (qe_DDO q)"

abbreviation qe_AlterDatabase :: "'a QueryExecutor \<Rightarrow> 'a query_op" where
  "qe_AlterDatabase q \<equiv> ddo_AlterDatabase (qe_DDO q)"

abbreviation qe_AlterTable :: "'a QueryExecutor \<Rightarrow> 'a query_op" where
  "qe_AlterTable q \<equiv> ddo_AlterTable (qe_DDO q)"

abbreviation qe_DropDatabase :: "'a QueryExecutor \<Rightarrow> 'a query_op" where
  "qe_DropDatabase q \<equiv> ddo_DropDatabase (qe_DDO q)"

abbreviation qe_DropTable :: "'a QueryExecutor \<Rightarrow> 'a query_op" where
  "qe_DropTable q \<equiv> ddo_DropTable (qe_DDO q)"

abbreviation qe_Insert :: "'a QueryExecutor \<Rightarrow> 'a query_op" where
  "qe_Insert q \<equiv> dmo_Insert (qe_DMO q)"

abbreviation qe_Select :: "'a QueryExecutor \<Rightarrow> 'a query_op" where
  "qe_Select q \<equiv> dmo_Select (qe_DMO q)"

abbreviation qe_Update :: "'a QueryExecutor \<Rightarrow> 'a query_op" where
  "qe_Update q \<equiv> dmo_Update (qe_DMO q)"

abbreviation qe_Delete :: "'a QueryExecutor \<Rightarrow> 'a query_op" where
  "qe_Delete q \<equiv> dmo_Delete (qe_DMO q)"

abbreviation ex_CreateIndex :: "'a ExQueryExecutor \<Rightarrow> 'a query_op" where
  "ex_CreateIndex q \<equiv> ddox_CreateIndex (ex_DDO q)"

abbreviation ex_DropIndex :: "'a ExQueryExecutor \<Rightarrow> 'a query_op" where
  "ex_DropIndex q \<equiv> ddox_DropIndex (ex_DDO q)"

abbreviation ex_Vacuum :: "'a ExQueryExecutor \<Rightarrow> 'a query_op" where
  "ex_Vacuum q \<equiv> dmox_Vacuum (ex_DMO q)"

abbreviation ex_Truncate :: "'a ExQueryExecutor \<Rightarrow> 'a query_op" where
  "ex_Truncate q \<equiv> dmox_Truncate (ex_DMO q)"

section \<open>The default query executor\<close>

text \<open>
  Every operation is refused while no SQL executor is set. \<open>Begin\<close> calls the \<open>Commit\<close> of the SQL
  executor, as the code does.
\<close>

definition default_Begin :: "'a SQLExecutor option \<Rightarrow> 'a query_op" where
  "default_Begin sqlExecutor conn stmt = (case sqlExecutor of
       None \<Rightarrow> fail (NewErrNotImplemented ''BEGIN'')
     | Some se \<Rightarrow> goseq (se_Commit se conn stmt) (\<lambda>_. ret (NewCommandCompleteResponsesWith (st_String stmt))))"

definition default_Commit :: "'a SQLExecutor option \<Rightarrow> 'a query_op" where
  "default_Commit sqlExecutor conn stmt = (case sqlExecutor of
       None \<Rightarrow> fail (NewErrNotImplemented ''COMMIT'')
     | Some se \<Rightarrow> goseq (se_Commit se conn stmt) (\<lambda>_. ret (NewCommandCompleteResponsesWith (st_String stmt))))"

definition default_Rollback :: "'a SQLExecutor option \<Rightarrow> 'a query_op" where
  "default_Rollback sqlExecutor conn stmt = (case sqlExecutor of
       None \<Rightarrow> fail (NewErrNotImplemented ''ROLLBACK'')
     | Some se \<Rightarrow> goseq (se_Rollback se conn stmt) (\<lambda>_. ret (NewCommandCompleteResponsesWith (st_String stmt))))"

definition default_CreateDatabase :: "'a SQLExecutor option \<Rightarrow> 'a query_op" where
  "default_CreateDatabase sqlExecutor conn stmt = (case sqlExecutor of
       None \<Rightarrow> fail (NewErrNotImplemented ''CREATE DATABASE'')
     | Some se \<Rightarrow> goseq (se_CreateDatabase se conn stmt)
         (\<lambda>_. ret (NewCommandCompleteResponsesWith (st_String stmt))))"

definition default_CreateTable :: "'a SQLExecutor option \<Rightarrow> 'a query_op" where
  "default_CreateTable sqlExecutor conn stmt = (case sqlExecutor of
       None \<Rightarrow> fail (NewErrNotImplemented ''CREATE TABLE'')
     | Some se \<Rightarrow> goseq (se_CreateTable se conn stmt)
         (\<lambda>_. ret (NewCommandCompleteResponsesWith (st_String stmt))))"

definition default_AlterDatabase :: "'a SQLExecutor option \<Rightarrow> 'a query_op" where
  "default_AlterDatabase sqlExecutor conn stmt = (case sqlExecutor of
       None \<Rightarrow> fail (NewErrNotImplemented ''ALTER DATABASE'')
     | Some se \<Rightarrow> goseq (se_AlterDatabase se conn stmt)
         (\<lambda>_. ret (NewCommandCompleteResponsesWith (st_String stmt))))"

definition default_AlterTable :: "'a SQLExecutor option \<Rightarrow> 'a query_op" where
  "default_AlterTable sqlExecutor conn stmt = (case sqlExecutor of
       None \<Rightarrow> fail (NewErrNotImplemented ''ALTER TABLE'')
     | Some se \<Rightarrow> goseq (se_AlterTable se conn stmt)
         (\<lambda>_. ret (NewCommandCompleteResponsesWith (st_String stmt))))"

definition default_DropDatabase :: "'a SQLExecutor option \<Rightarrow> 'a query_op" where
  "default_DropDatabase sqlExecutor conn stmt = (case sqlExecutor of
       None \<Rightarrow> fail (NewErrNotImplemented ''DROP DATABASE'')
     | Some se \<Rightarrow> goseq (se_DropDatabase se conn stmt)
         (\<lambda>_. ret (NewCommandCompleteResponsesWith (st_String stmt))))"

definition default_DropTable :: "'a SQLExecutor option \<Rightarrow> 'a query_op" where
  "default_DropTable sqlExecutor conn stmt = (case sqlExecutor of
       None \<Rightarrow> fail (NewErrNotImplemented ''DROP TABLE'')
     | Some se \<Rightarrow> goseq (se_DropTable se conn stmt)
         (\<lambda>_. ret (NewCommandCompleteResponsesWith (st_String stmt))))"

definition default_Insert :: "'a SQLExecutor option \<Rightarrow> 'a query_op" where
  "default_Insert sqlExecutor conn stmt = (case sqlExecutor of
       None \<Rightarrow> fail (NewErrNotImplemented ''INSERT'')
     | Some se \<Rightarrow> goseq (se_Insert se conn stmt)
         (\<lambda>_. ret (NewInsertCompleteResponsesWith (int (length (st_Values stmt))))))"

definition default_Select :: "safecast \<Rightarrow> 'a SQLExecutor option \<Rightarrow> 'a query_op" where
  "default_Select sc sqlExecutor conn stmt = (case sqlExecutor of
       None \<Rightarrow> fail (NewErrNotImplemented ''SELECT'')
     | Some se \<Rightarrow> goseq (se_Select se conn stmt) (\<lambda>rs. lift_res (NewResponseFromResultSet sc rs)))"

definition default_Update :: "'a SQLExecutor option \<Rightarrow> 'a query_op" where
  "default_Update sqlExecutor conn stmt = (case sqlExecutor of
       None \<Rightarrow> fail (NewErrNotImplemented ''UPDATE'')
     | Some se \<Rightarrow> goseq (se_Update se conn stmt) (\<lambda>n. ret (NewUpdateCompleteResponsesWith n)))"

definition default_Delete :: "'a SQLExecutor option \<Rightarrow> 'a query_op" where
  "default_Delete sqlExecutor conn stmt = (case sqlExecutor of
       None \<Rightarrow> fail (NewErrNotImplemented ''DELETE'')
     | Some se \<Rightarrow> goseq (se_Delete se conn stmt) (\<lambda>n. ret (NewDeleteCompleteResponsesWith n)))"

lemmas default_op_defs = default_Begin_def default_Commit_def default_Rollback_def
  default_CreateDatabase_def default_CreateTable_def default_AlterDatabase_def default_AlterTable_def
  default_DropDatabase_def default_DropTable_def default_Insert_def default_Select_def
  default_Update_def default_Delete_def

definition defaultQueryExecutor :: "safecast \<Rightarrow> 'a SQLExecutor option \<Rightarrow> 'a QueryExecutor" where
  "defaultQueryExecutor sc se =
     \<lparr>qe_TCO = \<lparr>tco_Begin = default_Begin se, tco_Commit = default_Commit se, tco_Rollback = default_Rollback se\<rparr>,
      qe_DDO = \<lparr>ddo_CreateDatabase = default_CreateDatabase se, ddo_CreateTable = default_CreateTable se,
        ddo_AlterDatabase = default_AlterDatabase se, ddo_AlterTable = default_AlterTable se,
        ddo_DropDatabase = default_DropDatabase se, ddo_DropTable = default_DropTable se\<rparr>,
      qe_DMO = \<lparr>dmo_Insert = default_Insert se, dmo_Select = default_Select sc se,
        dmo_Update = default_Update se, dmo_Delete = default_Delete se\<rparr>\<rparr>"

definition NewDefaultQueryExecutor :: "safecast \<Rightarrow> 'a QueryExecutor" where
  "NewDefaultQueryExecutor sc = defaultQueryExecutor sc None"

section \<open>The extended and the system executor\<close>

text \<open>\<open>sql.NewAlterTableFrom\<close> and \<open>sql.NewDeleteWith\<close> of the parser package are parameters.\<close>

definition ex_default_index :: "(statement \<Rightarrow> statement go) \<Rightarrow> 'a QueryExecutor \<Rightarrow> 'a query_op" where
  "ex_default_index NewAlterTableFrom qe conn stmt =
     goseq (lift_res (NewAlterTableFrom stmt)) (\<lambda>alterStmt. qe_AlterTable qe conn alterStmt)"

definition ex_default_Vacuum :: "'a query_op" where
  "ex_default_Vacuum conn stmt = ret (NewCommandCompleteResponsesWith ''VACUUM'')"

definition ex_default_Truncate :: "(string \<Rightarrow> statement) \<Rightarrow> 'a QueryExecutor \<Rightarrow> 'a query_op" where
  "ex_default_Truncate NewDeleteWith qe conn stmt =
     goseq (for_each (\<lambda>table. goseq (qe_Delete qe conn (NewDeleteWith table)) (\<lambda>_. ret ())) (st_Tables stmt))
       (\<lambda>_. ret (NewCommandCompleteResponsesWith ''TRUNCATE''))"

definition NewDefaultExQueryExecutorWith ::
    "(statement \<Rightarrow> statement go) \<Rightarrow> (string \<Rightarrow> statement) \<Rightarrow> 'a QueryExecutor \<Rightarrow> 'a ExQueryExecutor" where
  "NewDefaultExQueryExecutorWith NewAlterTableFrom NewDeleteWith executor =
     \<lparr>ex_DDO = \<lparr>ddox_CreateIndex = ex_default_index NewAlterTableFrom executor,
        ddox_DropIndex = ex_default_index NewAlterTableFrom executor\<rparr>,
      ex_DMO = \<lparr>dmox_Vacuum = ex_default_Vacuum, dmox_Truncate = ex_default_Truncate NewDeleteWith executor\<rparr>\<rparr>"

definition default_SystemSelect :: "safecast \<Rightarrow> 'a SQLExecutor option \<Rightarrow> 'a query_op" where
  "default_SystemSelect sc sqlExecutor conn stmt = (case sqlExecutor of
       None \<Rightarrow> fail (NewErrNotImplemented ''SELECT'')
     | Some se \<Rightarrow> goseq (se_SystemSelect se conn stmt) (\<lambda>rs. lift_res (NewResponseFromResultSet sc rs)))"

section \<open>The null bulk executor and error handler\<close>

definition null_Copy :: "'a query_op" where
  "null_Copy conn stmt = fail (NewErrNotImplemented ''COPY'')"

definition null_CopyData :: "'a query_op" where
  "null_CopyData conn stmt = fail (NewErrNotImplemented ''COPY DATA'')"

definition null_ParserError :: "conn \<Rightarrow> string \<Rightarrow> gerr \<Rightarrow> responses go" where
  "null_ParserError conn q err =
     Ok [ErrorResponse (NewErrorResponseWith (GoError (''parser error : '' @ err_text err) (err_chain err)))]"

section \<open>Properties\<close>

text \<open>
  BEGIN commits. With a SQL executor set, the default executor's \<open>Begin\<close> has the effect and the
  outcome of \<open>Commit\<close> of the SQL executor on the statement, whatever its \<open>Begin\<close> would have done.
\<close>

theorem begin_calls_commit:
  "qe_Begin (defaultQueryExecutor sc (Some se)) conn stmt =
     qe_Begin (defaultQueryExecutor sc (Some (se\<lparr>se_Begin := other\<rparr>))) conn stmt \<and>
   qe_Begin (defaultQueryExecutor sc (Some se)) conn stmt =
     goseq (se_Commit se conn stmt) (\<lambda>_. ret (NewCommandCompleteResponsesWith (st_String stmt)))"
  by (simp add: defaultQueryExecutor_def default_Begin_def)

text \<open>
  without a SQL executor every operation is refused as not implemented, and the state of the
  executor is left alone.
\<close>

theorem no_sql_executor_refuses:
  "let qe = NewDefaultQueryExecutor sc in
   list_all (\<lambda>op. \<exists>e. op conn stmt a = (Err e, a) \<and> errors_Is e ErrNotImplemented)
    [qe_Begin qe, qe_Commit qe, qe_Rollback qe, qe_CreateDatabase qe, qe_CreateTable qe,
     qe_AlterDatabase qe, qe_AlterTable qe, qe_DropDatabase qe, qe_DropTable qe, qe_Insert qe,
     qe_Select qe, qe_Update qe, qe_Delete qe, default_SystemSelect sc None, null_Copy, null_CopyData]"
  by (simp add: Let_def NewDefaultQueryExecutor_def defaultQueryExecutor_def default_op_defs
      default_SystemSelect_def null_Copy_def null_CopyData_def fail_def NewErrNotImplemented_def errors_Is_def)

lemma truncate_fails_midway:
  "qe_Delete qe conn (NewDeleteWith t) a = (Err e, a') \<Longrightarrow>
   ex_default_Truncate NewDeleteWith qe conn (stmt\<lparr>st_Tables := t # ts\<rparr>) a = (Err e, a')"
  by (simp add: ex_default_Truncate_def goseq_def)

end
