(* ===== verification/Prepared.thy ===== *)
theory Prepared
  imports Requests
begin

text \<open>
  Prepared statements and portals (\<open>stmt/prepared_manager.go\<close>, \<open>stmt/prepared_stmt.go\<close>): for every
  connection a map from names to statements and one to portals. The SQL parser is a parameter,
  from the text of a query to its statements. That both managers are keyed stores is an interface,
  stated once as a locale and interpreted twice.
\<close>

section \<open>Statements of one connection\<close>

record 'st prepared_statement =
  ps_Parse :: Parse_msg
  ps_ParsedStatement :: 'st

type_synonym 'st PreparedStatementMap = "string \<rightharpoonup> 'st prepared_statement"
type_synonym PreparedPortalMap = "string \<rightharpoonup> Query_msg"

definition NewPreparedStatementMap :: "'st PreparedStatementMap" where
  "NewPreparedStatementMap = Map.empty"

definition map_PreparedStatement :: "'st PreparedStatementMap \<Rightarrow> string \<Rightarrow> 'st prepared_statement go" where
  "map_PreparedStatement stmtMap name = (case stmtMap name of
       None \<Rightarrow> Err (NewErrPreparedStatementNotExist name) | Some q \<Rightarrow> Ok q)"

text \<open>A query text without a statement leaves \<open>stmts[0]\<close> out of range.\<close>

definition map_SetPreparedStatement ::
    "(string \<Rightarrow> 'st list go) \<Rightarrow> Parse_msg \<Rightarrow> ('st PreparedStatementMap, gerr, unit) gom" where
  "map_SetPreparedStatement ParseString msg =
     goseq (lift_res (ParseString (parse_Query msg))) (\<lambda>stmts.
     if 1 < length stmts then fail (NewErrMultiplePreparedStatementNotSupported (parse_Query msg))
     else if stmts = [] then panic IndexOutOfRange
     else modify (\<lambda>stmtMap. stmtMap(parse_Name msg \<mapsto>
       \<lparr>ps_Parse = msg, ps_ParsedStatement = stmts ! 0\<rparr>)))"

definition map_RemovePreparedStatement :: "string \<Rightarrow> ('st PreparedStatementMap, gerr, unit) gom" where
  "map_RemovePreparedStatement name stmtMap = (case stmtMap name of
       None \<Rightarrow> (Err (NewErrPreparedStatementNotExist name), stmtMap)
     | Some _ \<Rightarrow> (Ok (), stmtMap(name := None)))"

definition NewPreparedPortalMap :: PreparedPortalMap where
  "NewPreparedPortalMap = Map.empty"

definition map_PreparedPortal :: "PreparedPortalMap \<Rightarrow> string \<Rightarrow> Query_msg go" where
  "map_PreparedPortal portalMap name = (case portalMap name of
       None \<Rightarrow> Err (NewErrPreparedPortalNotExist name) | Some q \<Rightarrow> Ok q)"

definition map_SetPreparedPortal :: "string \<Rightarrow> Query_msg \<Rightarrow> (PreparedPortalMap, gerr, unit) gom" where
  "map_SetPreparedPortal name query = modify (\<lambda>portalMap. portalMap(name \<mapsto> query))"

definition map_RemovePreparedPortal :: "string \<Rightarrow> (PreparedPortalMap, gerr, unit) gom" where
  "map_RemovePreparedPortal name portalMap = (case portalMap name of
       None \<Rightarrow> (Err (NewErrPreparedPortalNotExist name), portalMap)
     | Some _ \<Rightarrow> (Ok (), portalMap(name := None)))"

section \<open>The manager\<close>

text \<open>Connections are identified by their UUID.\<close>

record 'st PreparedManager =
  stateMap :: "nat \<rightharpoonup> 'st PreparedStatementMap"
  potalMap :: "nat \<rightharpoonup> PreparedPortalMap"

type_synonym ('st, 'a) pm = "('st PreparedManager, gerr, 'a) gom"

definition NewPreparedManager :: "'st PreparedManager" where
  "NewPreparedManager = \<lparr>stateMap = Map.empty, potalMap = Map.empty\<rparr>"

definition PreparedStatement :: "nat \<Rightarrow> string \<Rightarrow> 'st PreparedManager \<Rightarrow> 'st prepared_statement go" where
  "PreparedStatement uuid name mgr = (case stateMap mgr uuid of
       None \<Rightarrow> Err (NewErrPreparedStatementNotExist name)
     | Some preState \<Rightarrow> map_PreparedStatement preState name)"

definition SetPreparedStatement ::
    "(string \<Rightarrow> 'st list go) \<Rightarrow> nat \<Rightarrow> Parse_msg \<Rightarrow> ('st, unit) pm" where
  "SetPreparedStatement ParseString uuid msg mgr =
     (let preState = (case stateMap mgr uuid of None \<Rightarrow> NewPreparedStatementMap | Some m \<Rightarrow> m)
      in case map_SetPreparedStatement ParseString msg preState of (x, preState') \<Rightarrow>
        (x, mgr\<lparr>stateMap := (stateMap mgr)(uuid \<mapsto> preState')\<rparr>))"

definition RemovePreparedStatement :: "nat \<Rightarrow> string \<Rightarrow> ('st, unit) pm" where
  "RemovePreparedStatement uuid name mgr = (case stateMap mgr uuid of
       None \<Rightarrow> (Err (NewErrPreparedStatementNotExist name), mgr)
     | Some preState \<Rightarrow> (case map_RemovePreparedStatement name preState of (x, preState') \<Rightarrow>
         (x, mgr\<lparr>stateMap := (stateMap mgr)(uuid \<mapsto> preState')\<rparr>)))"

definition PreparedPortal :: "nat \<Rightarrow> string \<Rightarrow> 'st PreparedManager \<Rightarrow> Query_msg go" where
  "PreparedPortal uuid name mgr = (case potalMap mgr uuid of
       None \<Rightarrow> Err (NewErrPreparedPortalNotExist name)
     | Some prePortal \<Rightarrow> map_PreparedPortal prePortal name)"

definition SetPreparedPortal :: "nat \<Rightarrow> string \<Rightarrow> Query_msg \<Rightarrow> ('st, unit) pm" where
  "SetPreparedPortal uuid name query mgr =
     (let prePortal = (case potalMap mgr uuid of None \<Rightarrow> NewPreparedPortalMap | Some m \<Rightarrow> m)
      in case map_SetPreparedPortal name query prePortal of (x, prePortal') \<Rightarrow>
        (x, mgr\<lparr>potalMap := (potalMap mgr)(uuid \<mapsto> prePortal')\<rparr>))"

definition RemovePreparedPortal :: "nat \<Rightarrow> string \<Rightarrow> ('st, unit) pm" where
  "RemovePreparedPortal uuid name mgr = (case potalMap mgr uuid of
       None \<Rightarrow> (Err (NewErrPreparedPortalNotExist name), mgr)
     | Some prePortal \<Rightarrow> (case map_RemovePreparedPortal name prePortal of (x, prePortal') \<Rightarrow>
         (x, mgr\<lparr>potalMap := (potalMap mgr)(uuid \<mapsto> prePortal')\<rparr>)))"

section \<open>Keyed stores\<close>

text \<open>
  The contract the query handler relies on: entries are found under the connection and the name
  they were stored with, and storing or removing one entry leaves all others alone.
\<close>

locale keyed_store =
  fixes find :: "'u \<Rightarrow> 'k \<Rightarrow> 's \<Rightarrow> ('e, 'v) res"
    and store :: "'u \<Rightarrow> 'k \<Rightarrow> 'v \<Rightarrow> 's \<Rightarrow> 's"
    and remove :: "'u \<Rightarrow> 'k \<Rightarrow> 's \<Rightarrow> ('e, unit) res \<times> 's"
    and missing :: "'k \<Rightarrow> 'e"
  assumes find_store: "find u k (store u' k' v s) = (if u = u' \<and> k = k' then Ok v else find u k s)"
    and find_cases: "find u k s = Err (missing k) \<or> (\<exists>v. find u k s = Ok v)"
    and find_remove: "find u k (snd (remove u' k' s)) =
        (if u = u' \<and> k = k' then Err (missing k) else find u k s)"
    and remove_result: "fst (remove u k s) =
        (case find u k s of Ok _ \<Rightarrow> Ok () | _ \<Rightarrow> Err (missing k))"
begin

lemma find_stored: "find u k (store u k v s) = Ok v"
  by (simp add: find_store)

lemma last_store_wins: "find u k (store u k w (store u k v s)) = Ok w"
  by (simp add: find_store)

lemma removed_is_gone: "find u k (snd (remove u k s)) = Err (missing k)"
  by (simp add: find_remove)

lemma remove_twice: "fst (remove u k (snd (remove u k s))) = Err (missing k)"
  by (simp add: remove_result find_remove)

lemma remove_stored: "fst (remove u k (store u k v s)) = Ok ()"
  by (simp add: remove_result find_store)

lemma other_connection: "u \<noteq> u' \<Longrightarrow> find u k (store u' k' v s) = find u k s \<and>
    find u k (snd (remove u' k' s)) = find u k s"
  by (simp add: find_store find_remove)

lemma no_panic: "\<not> is_panic (find u k s)"
  using find_cases [of u k s] by auto

end

text \<open>What \<open>SetPreparedStatement\<close> stores when the parser finds one statement\<close>

definition store_statement ::
    "nat \<Rightarrow> string \<Rightarrow> 'st prepared_statement \<Rightarrow> 'st PreparedManager \<Rightarrow> 'st PreparedManager" where
  "store_statement uuid name ps mgr = mgr\<lparr>stateMap := (stateMap mgr)(uuid \<mapsto>
     (case stateMap mgr uuid of None \<Rightarrow> NewPreparedStatementMap | Some m \<Rightarrow> m)(name \<mapsto> ps))\<rparr>"

definition store_portal :: "nat \<Rightarrow> string \<Rightarrow> Query_msg \<Rightarrow> 'st PreparedManager \<Rightarrow> 'st PreparedManager" where
  "store_portal uuid name q mgr = snd (SetPreparedPortal uuid name q mgr)"

interpretation statements: keyed_store PreparedStatement store_statement RemovePreparedStatement
    NewErrPreparedStatementNotExist
  by unfold_locales
    (auto simp: PreparedStatement_def store_statement_def RemovePreparedStatement_def
      map_PreparedStatement_def map_RemovePreparedStatement_def NewPreparedStatementMap_def
      split: option.splits if_splits)

interpretation portals: keyed_store PreparedPortal store_portal RemovePreparedPortal
    NewErrPreparedPortalNotExist
  by unfold_locales
    (auto simp: PreparedPortal_def store_portal_def SetPreparedPortal_def RemovePreparedPortal_def
      map_PreparedPortal_def map_SetPreparedPortal_def map_RemovePreparedPortal_def
      NewPreparedPortalMap_def modify_def Let_def split: option.splits if_splits)

lemma SetPreparedStatement_one:
  "ParseString (parse_Query msg) = Ok [st] \<Longrightarrow>
   SetPreparedStatement ParseString uuid msg mgr =
     (Ok (), store_statement uuid (parse_Name msg) \<lparr>ps_Parse = msg, ps_ParsedStatement = st\<rparr> mgr)"
  by (simp add: SetPreparedStatement_def map_SetPreparedStatement_def store_statement_def goseq_def
      lift_res_def modify_def Let_def)

lemma SetPreparedStatement_other:
  assumes "\<nexists>st. ParseString (parse_Query msg) = Ok [st]"
  shows "PreparedStatement u k (snd (SetPreparedStatement ParseString uuid msg mgr)) =
    PreparedStatement u k mgr"
  using assms
  by (auto simp: SetPreparedStatement_def map_SetPreparedStatement_def PreparedStatement_def
      map_PreparedStatement_def NewPreparedStatementMap_def goseq_def lift_res_def modify_def fail_def
      panic_def Let_def length_Suc_conv Suc_lessI split: res.splits option.splits if_splits)
    (metis One_nat_def Suc_lessI length_0_conv length_Suc_conv not_gr_zero)+

section \<open>Properties\<close>

text \<open>
  the outcome of preparing a statement, on every branch. One statement is stored under its name
  and found again by its own connection; a parse error and more than one statement are errors that
  store nothing; a text without statements panics. No other entry changes.
\<close>

theorem prepare_statement:
  "(case ParseString (parse_Query msg) of
      Ok [st] \<Rightarrow> fst (SetPreparedStatement ParseString uuid msg mgr) = Ok () \<and>
        PreparedStatement uuid (parse_Name msg) (snd (SetPreparedStatement ParseString uuid msg mgr)) =
          Ok \<lparr>ps_Parse = msg, ps_ParsedStatement = st\<rparr>
    | Ok [] \<Rightarrow> fst (SetPreparedStatement ParseString uuid msg mgr) = Panic IndexOutOfRange
    | Ok sts \<Rightarrow> fst (SetPreparedStatement ParseString uuid msg mgr) =
        Err (NewErrMultiplePreparedStatementNotSupported (parse_Query msg))
    | Err e \<Rightarrow> fst (SetPreparedStatement ParseString uuid msg mgr) = Err e
    | Panic p \<Rightarrow> fst (SetPreparedStatement ParseString uuid msg mgr) = Panic p) \<and>
   PreparedStatement u k (snd (SetPreparedStatement ParseString uuid msg mgr)) \<in>
     {PreparedStatement u k mgr} \<union>
     (if u = uuid \<and> k = parse_Name msg
      then {Ok \<lparr>ps_Parse = msg, ps_ParsedStatement = st\<rparr> | st. ParseString (parse_Query msg) = Ok [st]} else {})"
proof (cases "\<exists>st. ParseString (parse_Query msg) = Ok [st]")
  case True
  then obtain st where st: "ParseString (parse_Query msg) = Ok [st]" by blast
  show ?thesis
    using SetPreparedStatement_one [of ParseString, OF st, of uuid mgr]
    by (simp add: st statements.find_stored statements.find_store)
next
  case False
  have "case ParseString (parse_Query msg) of
      Ok [st] \<Rightarrow> False
    | Ok [] \<Rightarrow> fst (SetPreparedStatement ParseString uuid msg mgr) = Panic IndexOutOfRange
    | Ok sts \<Rightarrow> fst (SetPreparedStatement ParseString uuid msg mgr) =
        Err (NewErrMultiplePreparedStatementNotSupported (parse_Query msg))
    | Err e \<Rightarrow> fst (SetPreparedStatement ParseString uuid msg mgr) = Err e
    | Panic p \<Rightarrow> fst (SetPreparedStatement ParseString uuid msg mgr) = Panic p"
    using False by (auto simp: SetPreparedStatement_def map_SetPreparedStatement_def goseq_def
        lift_res_def fail_def panic_def Let_def split: res.splits list.splits)
  with SetPreparedStatement_other [of ParseString msg u k uuid mgr, OF False] show ?thesis
    by (auto split: res.splits list.splits)
qed

text \<open>
  the life of a portal. A portal is found under its name until it is replaced or closed, by its
  own connection only; closing it twice is an error the second time; and statements and portals
  do not touch each other.
\<close>

theorem portal_lifecycle:
  "PreparedPortal u k (snd (SetPreparedPortal u k q mgr)) = Ok q \<and>
   PreparedPortal u k (snd (RemovePreparedPortal u k mgr)) = Err (NewErrPreparedPortalNotExist k) \<and>
   fst (RemovePreparedPortal u k (snd (RemovePreparedPortal u k mgr))) =
     Err (NewErrPreparedPortalNotExist k) \<and>
   fst (RemovePreparedPortal u k (snd (SetPreparedPortal u k q mgr))) = Ok () \<and>
   (if u' = u then True else PreparedPortal u' k' (snd (SetPreparedPortal u k q mgr)) = PreparedPortal u' k' mgr \<and>
      PreparedPortal u' k' (snd (RemovePreparedPortal u k mgr)) = PreparedPortal u' k' mgr) \<and>
   PreparedStatement u' k' (snd (SetPreparedPortal u k q mgr)) = PreparedStatement u' k' mgr \<and>
   PreparedStatement u' k' (snd (RemovePreparedPortal u k mgr)) = PreparedStatement u' k' mgr"
proof -
  have "stateMap (snd (SetPreparedPortal u k q mgr)) = stateMap mgr"
    "stateMap (snd (RemovePreparedPortal u k mgr)) = stateMap mgr"
    by (simp_all add: SetPreparedPortal_def RemovePreparedPortal_def Let_def case_prod_beta
        split: option.splits)
  then show ?thesis
    using portals.find_stored [of u k q mgr] portals.removed_is_gone [of u k mgr]
      portals.remove_twice [of u k mgr] portals.remove_stored [of u k q mgr]
      portals.other_connection [of u' u k' k q mgr]
    by (simp add: store_portal_def PreparedStatement_def)
qed

end
