(* ===== verification/Copy_Stream.thy ===== *)
theory Copy_Stream
  imports Request_Proofs
begin

text \<open>
  The data of a \<open>COPY FROM STDIN\<close>: \<open>protocol/copy_data.go\<close> and \<open>copy_stream.go\<close>. A row of text is
  split at its tabs; the stream ends at a row of backslashes and dots, at a CopyDone message, or at
  any other message.
\<close>

section \<open>CopyData\<close>

definition tabSep :: byte where "tabSep = 9"
definition newLineSep :: bytes where "newLineSep = [13, 10]"

text \<open>\<open>bytes.TrimRight\<close> for a set of single-byte characters, and \<open>strings.Split\<close> at one byte\<close>

definition TrimRight :: "bytes \<Rightarrow> bytes \<Rightarrow> bytes" where
  "TrimRight bs cutset = rev (dropWhile (\<lambda>b. b \<in> set cutset) (rev bs))"

fun Split :: "bytes \<Rightarrow> byte \<Rightarrow> bytes list" where
  "Split [] sep = [[]]"
| "Split (b # bs) sep =
     (if b = sep then [] # Split bs sep
      else case Split bs sep of [] \<Rightarrow> [[b]] | f # fs \<Rightarrow> (b # f) # fs)"

definition isEOFData :: "bytes \<Rightarrow> bool" where
  "isEOFData data \<longleftrightarrow> list_all (\<lambda>b. \<not> (b \<noteq> 0x5C \<and> b \<noteq> 0x2E)) data"

record CopyData =
  copy_header :: message
  copy_Data :: "string list"

definition NewCopyDataWithReader :: "CopyData rd" where
  "NewCopyDataWithReader =
     goseq NewRequestMessageWithReader (\<lambda>msg.
     let dataLen = sint (MessageDataLength msg) in
     if dataLen < 0 then fail (newInvalidLengthError dataLen)
     else goseq (ReadBytes (nat dataLen)) (\<lambda>raw.
       let dataBytes = TrimRight raw newLineSep in
       if isEOFData dataBytes then fail EOF
       else ret \<lparr>copy_header = msg, copy_Data = map string_of_bytes (Split dataBytes tabSep)\<rparr>))"

section \<open>CopyStream\<close>

text \<open>A copy stream is the message reader it wraps.\<close>

definition skipCopyDone :: "unit rd" where
  "skipCopyDone = goseq NewCopyDoneWithReader (\<lambda>_. ret ())"

definition CopyStream_Next :: "CopyData rd" where
  "CopyStream_Next =
     goseq PeekType (\<lambda>t.
     if t = CopyDataMessage then
       goseq (gotry NewCopyDataWithReader) (\<lambda>res.
         case res of
           Inr copyData \<Rightarrow> ret copyData
         | Inl copyErr \<Rightarrow>
             if \<not> errors_Is copyErr IoEOF then fail copyErr
             else goseq (IsPeekType CopyDoneMessage) (\<lambda>ok.
               if \<not> ok then fail copyErr
               else goseq skipCopyDone (\<lambda>_. fail copyErr)))
     else if t = CopyDoneMessage then goseq skipCopyDone (\<lambda>_. fail EOF)
     else fail EOF)"

section \<open>Splitting rows\<close>

definition joined :: "bytes list \<Rightarrow> bytes" where
  "joined fs = concat (case fs of [] \<Rightarrow> [] | f # gs \<Rightarrow> f # map ((#) tabSep) gs)"

lemma Split_no_sep: "sep \<notin> set bs \<Longrightarrow> Split bs sep = [bs]"
  by (induction bs) auto

lemma Split_append: "sep \<notin> set bs \<Longrightarrow> Split (bs @ sep # cs) sep = bs # Split cs sep"
  by (induction bs) auto

lemma Split_joined:
  "fs \<noteq> [] \<Longrightarrow> list_all (\<lambda>f. tabSep \<notin> set f) fs \<Longrightarrow> Split (joined fs) tabSep = fs"
proof (induction fs)
  case (Cons f fs)
  show ?case
  proof (cases fs)
    case Nil
    with Cons.prems show ?thesis by (simp add: joined_def Split_no_sep)
  next
    case (Cons g gs)
    then have "joined (f # fs) = f @ tabSep # joined fs" by (simp add: joined_def)
    with Cons Cons.IH Cons.prems show ?thesis by (simp add: Split_append)
  qed
qed simp

lemma Split_nonempty: "Split bs sep \<noteq> []"
  by (induction bs) (auto split: list.splits)

lemma TrimRight_eol:
  "set eol \<subseteq> set cs \<Longrightarrow> set bs \<inter> set cs = {} \<Longrightarrow> TrimRight (bs @ eol) cs = bs"
proof -
  assume e: "set eol \<subseteq> set cs" and b: "set bs \<inter> set cs = {}"
  have "dropWhile (\<lambda>b. b \<in> set cs) (rev eol @ rev bs) = dropWhile (\<lambda>b. b \<in> set cs) (rev bs)"
    using e by (intro dropWhile_append2) auto
  also have "\<dots> = rev bs"
    using b by (subst dropWhile_eq_self_iff) (cases "rev bs", auto dest: arg_cong [of _ _ set])
  finally show ?thesis by (simp add: TrimRight_def)
qed

lemma set_joined: "set (joined fs) \<subseteq> insert tabSep (\<Union> (set ` set fs))"
  by (auto simp: joined_def split: list.splits)

definition row_ok :: "bytes list \<Rightarrow> bool" where
  "row_ok fs \<longleftrightarrow> fs \<noteq> [] \<and> \<not> isEOFData (joined fs) \<and>
     list_all (\<lambda>f. tabSep \<notin> set f \<and> 13 \<notin> set f \<and> 10 \<notin> set f) fs"

lemma TrimRight_row:
  assumes "row_ok fs" "set eol \<subseteq> set newLineSep"
  shows "TrimRight (joined fs @ eol) newLineSep = joined fs"
proof (rule TrimRight_eol [OF assms(2)])
  show "set (joined fs) \<inter> set newLineSep = {}"
    using set_joined [of fs] assms(1)
    by (fastforce simp: row_ok_def newLineSep_def tabSep_def list_all_iff)
qed

context reader_class
begin

lemma parses_CopyData:
  assumes "row_ok fs" "set eol \<subseteq> set newLineSep" "length (joined fs @ eol) < 2 ^ 31"
  shows "parses P NewCopyDataWithReader (frame CopyDataMessage (joined fs @ eol))
    \<lparr>copy_header = \<lparr>msg_Type = CopyDataMessage, msg_Length = of_nat (length (joined fs @ eol) + 4)\<rparr>,
     copy_Data = map string_of_bytes fs\<rparr>"
proof -
  let ?raw = "joined fs @ eol"
  let ?msg = "\<lparr>msg_Type = CopyDataMessage, msg_Length = of_nat (length ?raw + 4)\<rparr> :: message"
  have len: "sint (MessageDataLength ?msg) = int (length ?raw)"
    by (rule MessageDataLength_frame [OF _ assms(3)]) simp
  have split: "Split (joined fs) tabSep = fs" "\<not> isEOFData (joined fs)"
    using assms(1) Split_joined [of fs] by (auto simp: row_ok_def list_all_iff)
  show ?thesis
    unfolding NewCopyDataWithReader_def frame_def
    by (rule parses_goseq [OF parses_NewRequestMessageWithReader])
      (simp only: Let_def len of_nat_less_0_iff if_False nat_int,
       rule parses_goseq_ret [OF parses_ReadBytes],
       simp only: TrimRight_row [OF assms(1,2)] split if_False)
qed

end

text \<open>
  a row of copied data is returned field by field. Fields without tabs and line ends, joined by
  tabs and ended by any mix of carriage returns and line feeds, come back as they were, on any
  reader, provided the row is not only backslashes and dots.
\<close>

theorem copy_row_round_trip:
  assumes "row_ok fs" and "set eol \<subseteq> set newLineSep" and "length (joined fs @ eol) < 2 ^ 31"
    and "reader_patient r"
    and "reader_pending r = frame CopyDataMessage (joined fs @ eol) @ rest"
  shows "\<exists>msg r'. NewCopyDataWithReader r = (Ok msg, r') \<and>
      copy_Data msg = map string_of_bytes fs \<and> reader_pending r' = rest"
  by (rule parsesE [OF any_reader.parses_CopyData [OF assms(1-3)] TrueI assms(4,5)])
    (intro exI conjI, assumption, simp, assumption)

theorem copy_row_round_trip_witness:
  "\<exists>msg r'. NewCopyDataWithReader (NewReaderWithBytes (frame CopyDataMessage [49, 9, 9, 97, 10] @ [99])) =
      (Ok msg, r') \<and> copy_Data msg = [''1'', [], ''a''] \<and> reader_pending r' = [99]"
proof -
  let ?fs = "[[49], [], [97]] :: bytes list"
  let ?r = "NewReaderWithBytes (frame CopyDataMessage [49, 9, 9, 97, 10] @ [99])"
  have row: "row_ok ?fs" "set [10] \<subseteq> set newLineSep" "joined ?fs @ [10] = [49, 9, 9, 97, 10]"
    by (simp_all add: row_ok_def joined_def isEOFData_def tabSep_def newLineSep_def)
  have "reader_patient ?r" "reader_pending ?r = frame CopyDataMessage (joined ?fs @ [10]) @ [99]"
    unfolding row(3) by (simp_all add: NewReaderWithBytes_def reader_patient_def src_patient_def
        reader_pending_def src_pending_def)
  moreover have "map string_of_bytes ?fs = [''1'', [], ''a'']" by code_simp
  ultimately show ?thesis
    using copy_row_round_trip [OF row(1,2), of ?r "[99]"] row(3) by simp
qed

section \<open>The stream\<close>

lemma copy_data_eof:
  assumes "isEOFData (TrimRight payload newLineSep)" "length payload < 2 ^ 31"
    "reader_patient r" "reader_pending r = frame CopyDataMessage payload @ rest"
  shows "\<exists>r'. NewCopyDataWithReader r = (Err EOF, r') \<and> reader_patient r' \<and> reader_pending r' = rest"
proof -
  let ?msg = "\<lparr>msg_Type = CopyDataMessage, msg_Length = of_nat (length payload + 4)\<rparr> :: message"
  have len: "sint (MessageDataLength ?msg) = int (length payload)"
    by (rule MessageDataLength_frame [OF _ assms(2)]) simp
  from assms(4) have "reader_pending r = header CopyDataMessage (of_nat (length payload + 4)) @ payload @ rest"
    by (simp add: frame_def)
  with assms(3) obtain r1 where r1: "NewRequestMessageWithReader r = (Ok ?msg, r1)"
      "reader_patient r1" "reader_pending r1 = payload @ rest"
    using parsesE [OF any_reader.parses_NewRequestMessageWithReader TrueI] by metis
  obtain r2 where r2: "ReadBytes (length payload) r1 = (Ok payload, r2)" "reader_patient r2"
      "reader_pending r2 = rest"
    using parsesE [OF any_reader.parses_ReadBytes TrueI r1(2,3)] by auto
  have "NewCopyDataWithReader r = (Err EOF, r2)"
    using r1(1) r2(1) assms(1) len by (simp add: NewCopyDataWithReader_def goseq_def Let_def fail_def)
  with r2 show ?thesis by blast
qed

text \<open>
  a row of backslashes and dots ends the copy, and so does an empty row. The single check
  accepts the end marker, but also a row whose only column is empty, and every other text over the
  two characters: these rows are not copied, and the error is the end of the stream.
\<close>

theorem copy_end_marker:
  assumes "set row \<subseteq> {0x5C, 0x2E}" and "set eol \<subseteq> set newLineSep"
    and "length (row @ eol) < 2 ^ 31" and "reader_patient r"
    and "reader_pending r = frame CopyDataMessage (row @ eol) @ rest"
  shows "\<exists>r'. NewCopyDataWithReader r = (Err EOF, r') \<and> reader_pending r' = rest"
proof -
  have "TrimRight (row @ eol) newLineSep = row"
    using assms(1) by (intro TrimRight_eol [OF assms(2)]) (auto simp: newLineSep_def)
  then have "isEOFData (TrimRight (row @ eol) newLineSep)"
    using assms(1) by (auto simp: isEOFData_def list_all_iff)
  from copy_data_eof [OF this assms(3-5)] show ?thesis by blast
qed

theorem copy_end_marker_witness:
  "\<exists>r'. NewCopyDataWithReader (NewReaderWithBytes (frame CopyDataMessage [10] @ [100])) =
      (Err EOF, r') \<and> reader_pending r' = [100]"
proof -
  let ?r = "NewReaderWithBytes (frame CopyDataMessage [10] @ [100])"
  have "reader_patient ?r" "reader_pending ?r = frame CopyDataMessage ([] @ [10]) @ [100]"
    by (simp_all add: NewReaderWithBytes_def reader_patient_def src_patient_def
        reader_pending_def src_pending_def)
  then show ?thesis
    using copy_end_marker [of "[]" "[10]" ?r "[100]"] by (simp add: newLineSep_def)
qed

definition enc_row :: "bytes list \<Rightarrow> bytes" where
  "enc_row fs = frame CopyDataMessage (joined fs @ [10])"

definition row_msg :: "bytes list \<Rightarrow> CopyData" where
  "row_msg fs = \<lparr>copy_header = \<lparr>msg_Type = CopyDataMessage,
       msg_Length = of_nat (length (joined fs @ [10]) + 4)\<rparr>,
     copy_Data = map string_of_bytes fs\<rparr>"

definition row_fits :: "bytes list \<Rightarrow> bool" where
  "row_fits fs \<longleftrightarrow> row_ok fs \<and> length (joined fs @ [10]) < 2 ^ 31"

lemma parses_gotry:
  assumes "parses P m bs x"
  shows "parses P (gotry m) bs (Inr x)"
  by (rule parsesI, rule parsesE [OF assms], assumption+) (auto simp: gotry_def)

text \<open>The classes of readers in which the type of the next message can be peeked at\<close>

locale peeking = reader_class P for P +
  assumes peeks: "P r \<Longrightarrow> reader_patient r \<Longrightarrow> reader_pending r = t # rest \<Longrightarrow>
    \<exists>r1. PeekType r = (Ok t, r1) \<and> P r1 \<and> reader_patient r1 \<and> reader_pending r1 = t # rest"
begin

lemma parses_peek_type:
  assumes "parses P (f t) (header t len @ bs) x"
  shows "parses P (goseq PeekType f) (header t len @ bs) x"
proof (rule parsesI)
  fix r rest
  assume r: "P r" "reader_patient r" "reader_pending r = (header t len @ bs) @ rest"
  obtain r1 where r1: "PeekType r = (Ok t, r1)" "P r1" "reader_patient r1"
      "reader_pending r1 = (header t len @ bs) @ rest"
    using peeks [OF r(1,2)] r(3) by (auto simp: header_def)
  from parsesE [OF assms r1(2-4)] r1(1)
  show "\<exists>r'. goseq PeekType f r = (Ok x, r') \<and> P r' \<and> reader_patient r' \<and> reader_pending r' = rest"
    by (metis goseq_Ok)
qed

lemma parses_Next:
  assumes "row_fits fs"
  shows "parses P CopyStream_Next (enc_row fs) (row_msg fs)"
proof -
  have row: "parses P NewCopyDataWithReader (enc_row fs) (row_msg fs)"
    unfolding enc_row_def row_msg_def
    by (rule parses_CopyData) (use assms in \<open>auto simp: row_fits_def newLineSep_def\<close>)
  show ?thesis
    unfolding CopyStream_Next_def enc_row_def frame_def
    by (rule parses_peek_type, simp only: if_True simp_thms, fold frame_def, fold enc_row_def,
        rule parses_goseq_ret [OF parses_gotry [OF row]]) simp
qed

lemma Next_done:
  assumes "P r" "reader_patient r" "reader_pending r = header CopyDoneMessage len @ rest"
  shows "\<exists>r'. CopyStream_Next r = (Err EOF, r') \<and> P r' \<and> reader_patient r' \<and> reader_pending r' = rest"
proof -
  obtain r1 where r1: "PeekType r = (Ok CopyDoneMessage, r1)" "P r1" "reader_patient r1"
      "reader_pending r1 = header CopyDoneMessage len @ rest"
    using peeks [OF assms(1,2)] assms(3) by (auto simp: header_def)
  obtain m r2 where "NewCopyDoneWithReader r1 = (Ok m, r2)" "P r2" "reader_patient r2" "reader_pending r2 = rest"
    using parsesE [OF parses_header_only(4) r1(2-4)] by metis
  with r1(1) show ?thesis
    by (auto simp: CopyStream_Next_def skipCopyDone_def go_simps msg_types)
qed

end

text \<open>The readers that have at most the next type byte peeked are such a class.\<close>

interpretation narrow: peeking "\<lambda>r. length (peekBuf r) \<le> 1"
proof unfold_locales
  fix bs
  show "parses (\<lambda>r. length (peekBuf r) \<le> 1) (ReadBytes (length bs)) bs bs"
    by (rule parsesI) (auto dest: ReadBytes_full [of _ "length bs"])
next
  fix r t rest
  assume "length (peekBuf r) \<le> 1" "reader_patient r" "reader_pending r = t # rest"
  then show "\<exists>r1. PeekType r = (Ok t, r1) \<and> length (peekBuf r1) \<le> 1 \<and> reader_patient r1 \<and> reader_pending r1 = t # rest"
    using PeekType_full [of r] by auto
qed

text \<open>
  C14: a copy stream returns its rows in order and then its end. After any number of rows the
  CopyDone message is consumed, the stream reports its end, and the next message of the session
  begins right behind it.
\<close>

theorem copy_stream_round_trip:
  assumes "list_all row_fits rows" and "reader_patient r" and "length (peekBuf r) \<le> 1"
    and "reader_pending r = concat (map enc_row rows) @ header CopyDoneMessage len @ rest"
  shows "\<exists>msgs r1 r2. repeat_n (length rows) CopyStream_Next r = (Ok msgs, r1) \<and>
      map copy_Data msgs = map (map string_of_bytes) rows \<and>
      CopyStream_Next r1 = (Err EOF, r2) \<and> reader_pending r2 = rest"
proof -
  let ?P = "\<lambda>r. length (peekBuf r) \<le> 1"
  have step: "list_all row_fits rows \<Longrightarrow> parses ?P (repeat_n (length rows) CopyStream_Next)
      (concat (map enc_row rows)) (map row_msg rows)" for rows
  proof (induction rows)
    case (Cons fs rows)
    then show ?case
      by (simp only: list.pred_inject length_Cons repeat_n.simps list.map concat.simps)
        (blast intro: parses_goseq [OF narrow.parses_Next] parses_goseq_ret)
  qed (simp add: parses_ret)
  obtain r1 where r1: "repeat_n (length rows) CopyStream_Next r = (Ok (map row_msg rows), r1)"
      "?P r1" "reader_patient r1" "reader_pending r1 = header CopyDoneMessage len @ rest"
    using parsesE [OF step [OF assms(1)] assms(3,2,4)] .
  from narrow.Next_done [OF r1(2-4)] r1(1) show ?thesis
    by (auto simp: row_msg_def comp_def)
qed

theorem copy_stream_round_trip_witness:
  "\<exists>msgs r1 r2. repeat_n 1 CopyStream_Next
      (NewReaderWithBytes (frame CopyDataMessage [49, 10] @ header CopyDoneMessage 4 @ [81])) = (Ok msgs, r1) \<and>
    map copy_Data msgs = [[''1'']] \<and> CopyStream_Next r1 = (Err EOF, r2) \<and> reader_pending r2 = [81]"
proof -
  let ?r = "NewReaderWithBytes (frame CopyDataMessage [49, 10] @ header CopyDoneMessage 4 @ [81])"
  have "joined [[49]] = [49]" by (simp add: joined_def)
  moreover from this have "row_fits [[49]]"
    by (simp add: row_fits_def row_ok_def isEOFData_def tabSep_def)
  moreover have "reader_patient ?r" "length (peekBuf ?r) \<le> 1"
    by (simp_all add: NewReaderWithBytes_def reader_patient_def src_patient_def)
  moreover have "string_of_bytes [49] = ''1''" by code_simp
  ultimately show ?thesis
    using copy_stream_round_trip [of "[[[49]]]" ?r 4 "[81]"]
    by (simp add: NewReaderWithBytes_def reader_pending_def src_pending_def enc_row_def
        del: repeat_n.simps)
qed

text \<open>
  a copy the client aborts looks like one it completed. On a CopyFail message the stream
  reports the same end as on CopyDone, and leaves the message to be taken for the next request.
\<close>

theorem copy_fail_is_end:
  assumes "reader_patient r" and "length (peekBuf r) \<le> 1"
    and "reader_pending r = CopyFailMessage # rest"
  shows "\<exists>r'. CopyStream_Next r = (Err EOF, r') \<and> reader_pending r' = CopyFailMessage # rest"
  using PeekType_full [OF assms]
  by (auto simp: CopyStream_Next_def go_simps msg_types)

theorem copy_fail_is_end_witness:
  "\<exists>r'. CopyStream_Next (NewReaderWithBytes (header CopyFailMessage 5 @ [0])) = (Err EOF, r') \<and>
     reader_pending r' = header CopyFailMessage 5 @ [0]"
proof -
  let ?r = "NewReaderWithBytes (header CopyFailMessage 5 @ [0])"
  have "reader_patient ?r" "length (peekBuf ?r) \<le> 1"
    "reader_pending ?r = CopyFailMessage # Int32ToBytes 5 @ [0]"
    by (simp_all add: NewReaderWithBytes_def reader_patient_def src_patient_def
        reader_pending_def src_pending_def header_def)
  from copy_fail_is_end [OF this] show ?thesis by (simp add: header_def)
qed

end
