(* ===== verification/Query_Handler.thy ===== *)
theory Query_Handler
  imports Executors Prepared Copy_Stream
begin

text \<open>
  The query handler of the server: \<open>server_query_handler.go\<close>, \<open>server_startup_handler.go\<close> and
  \<open>copy.go\<close>. Its state is the connection, the prepared statements and portals, and the state of the
  executor. What the parser package does is a parameter; the spans are in \<open>Tracing\<close>.
\<close>

section \<open>The state of a session\<close>

record 'a session =
  s_conn :: conn
  s_prep :: "statement PreparedManager"
  s_app :: 'a

type_synonym ('a, 'r) sm = "('a session, gerr, 'r) gom"

definition on_conn :: "'r cm \<Rightarrow> ('a, 'r) sm" where
  "on_conn = on_part s_conn (\<lambda>c s. s\<lparr>s_conn := c\<rparr>)"

definition on_prep :: "(nat \<Rightarrow> (statement PreparedManager, gerr, 'r) gom) \<Rightarrow> ('a, 'r) sm" where
  "on_prep f s = on_part s_prep (\<lambda>m s. s\<lparr>s_prep := m\<rparr>) (f (c_uuid (s_conn s))) s"

definition on_app :: "(conn \<Rightarrow> statement \<Rightarrow> ('a, gerr, 'r) gom) \<Rightarrow> statement \<Rightarrow> ('a, 'r) sm" where
  "on_app f stmt s = on_part s_app (\<lambda>a s. s\<lparr>s_app := a\<rparr>) (f (s_conn s) stmt) s"

text \<open>
  The part of the server the handler uses. \<open>sv_MapOrder\<close> is the order in which the entries of a map are
  visited, which Go leaves open, on the connection with the given id; the fields behind it are the
  parser package and the casts.
\<close>

record 'a query_server =
  sv_queryExecutor :: "'a QueryExecutor"
  sv_exQueryExecutor :: "'a ExQueryExecutor"
  sv_SystemSelect :: "'a query_op"
  sv_Copy :: "'a query_op"
  sv_CopyData :: "statement \<Rightarrow> ('a, responses) sm"
  sv_ParserError :: "conn \<Rightarrow> string \<Rightarrow> gerr \<Rightarrow> responses go"
  sv_processID :: "32 word"
  sv_secretKey :: "32 word"
  sv_MapOrder :: "nat \<Rightarrow> (string \<times> string) list \<Rightarrow> (string \<times> string) list"
  sv_ParseString :: "string \<Rightarrow> statement list go"
  sv_BindStatements :: "string \<Rightarrow> BindParam list \<Rightarrow> statement list go"
  sv_NewSchemaColumnsStatement :: "string \<Rightarrow> string list \<Rightarrow> statement go"
  sv_EqualFold :: "string \<Rightarrow> string \<Rightarrow> bool"
  sv_safecast :: safecast

section \<open>Startup\<close>

text \<open>\<open>newProtocolStartupHandler\<close> goes on with a nil number when there is no random one.\<close>

definition newProtocolStartupHandler :: "int \<Rightarrow> int go \<Rightarrow> (32 word \<times> 32 word) go" where
  "newProtocolStartupHandler pid rand_Int = (case rand_Int of
       Ok r \<Rightarrow> Ok (word_of_int pid, word_of_int r)
     | Err _ \<Rightarrow> Panic NilPointerDereference
     | Panic p \<Rightarrow> Panic p)"

lemma secret_key_positive:
  "newProtocolStartupHandler pid (Ok r) = Ok (i, k) \<Longrightarrow> 0 \<le> r \<Longrightarrow> r < 2 ^ 31 - 1 \<Longrightarrow> sint k = r"
  by (auto simp: newProtocolStartupHandler_def signed_of_int signed_take_bit_int_eq_self_iff)

definition ParameterStatuses :: "('a, 'x) query_server_scheme \<Rightarrow> conn \<Rightarrow> responses" where
  "ParameterStatuses sv conn = NewParameterStatusesWith
     (sv_MapOrder sv (c_uuid conn) [(ClientEncoding, EncodingUTF8), (ServerEncoding, EncodingUTF8)])"

definition BackendKeyData :: "('a, 'x) query_server_scheme \<Rightarrow> response" where
  "BackendKeyData sv = MessageResponse (NewBackendKeyDataWith (sv_processID sv) (sv_secretKey sv))"

section \<open>Parse, Bind, Close, Sync, Flush\<close>

definition handle_Parse :: "('a, 'x) query_server_scheme \<Rightarrow> Parse_msg \<Rightarrow> ('a, responses) sm" where
  "handle_Parse sv msg =
     goseq (on_prep (\<lambda>uuid. SetPreparedStatement (sv_ParseString sv) uuid msg)) (\<lambda>_.
     ret [MessageResponse NewParseComplete])"

definition handle_Bind :: "Bind_msg \<Rightarrow> ('a, responses) sm" where
  "handle_Bind msg =
     goseq (on_prep (\<lambda>uuid mgr. (PreparedStatement uuid (bind_StatementName msg) mgr, mgr))) (\<lambda>prepStmt.
     goseq (on_prep (\<lambda>uuid. SetPreparedPortal uuid (bind_PortalName msg) (NewQueryWith (ps_Parse prepStmt) msg))) (\<lambda>_.
     ret [MessageResponse NewBindComplete]))"

definition handle_Close :: "Close_msg \<Rightarrow> ('a, responses) sm" where
  "handle_Close msg =
     goseq (gotry (on_prep (\<lambda>uuid. case close_Type msg of
         PreparedStatementType \<Rightarrow> RemovePreparedStatement uuid (close_Name msg)
       | PreparedPortalType \<Rightarrow> RemovePreparedPortal uuid (close_Name msg)))) (\<lambda>_.
     ret [MessageResponse NewCloseComplete])"

definition handle_Sync :: "message \<Rightarrow> ('a, responses) sm" where
  "handle_Sync msg = ret []"

definition handle_Flush :: "message \<Rightarrow> ('a, responses) sm" where
  "handle_Flush msg = ret []"

section \<open>Describe\<close>

definition newSystemSelectQuery :: "('a, 'x) query_server_scheme \<Rightarrow> statement \<Rightarrow> ('a, statement) sm" where
  "newSystemSelectQuery sv stmt =
     (if length (st_FromTables stmt) \<noteq> 1
      then fail (NewErrMultipleTableNotSupported (st_FromString stmt))
      else goseq (gets (\<lambda>s. Database (s_conn s))) (\<lambda>db.
        lift_res (sv_NewSchemaColumnsStatement sv db [st_FromTables stmt ! 0])))"

text \<open>
  The first data row behind the first response whose first column is the name and whose second
  column is a number. The code loops over the responses and skips the first one.
\<close>

fun objIDFromResponses ::
    "('a, 'x) query_server_scheme \<Rightarrow> responses \<Rightarrow> string \<Rightarrow> (32 word) option" where
  "objIDFromResponses sv [] colName = None"
| "objIDFromResponses sv (res # rest) colName =
     (case res of
        DataRowResponse dataRow \<Rightarrow>
          (if length (dr_Data dataRow) < 2 then objIDFromResponses sv rest colName
           else case dr_Data dataRow ! 0 of
             VString columnName \<Rightarrow>
               (if \<not> sv_EqualFold sv columnName colName then objIDFromResponses sv rest colName
                else case ToInt32 (sv_safecast sv) (dr_Data dataRow ! 1) of
                  Ok objID \<Rightarrow> Some objID
                | _ \<Rightarrow> objIDFromResponses sv rest colName)
           | _ \<Rightarrow> objIDFromResponses sv rest colName)
      | _ \<Rightarrow> objIDFromResponses sv rest colName)"

definition selectObjectIds :: "('a, 'x) query_server_scheme \<Rightarrow> statement \<Rightarrow> ('a, 32 word list) sm" where
  "selectObjectIds sv stmt =
     goseq (newSystemSelectQuery sv stmt) (\<lambda>query.
     goseq (on_app (sv_SystemSelect sv) query) (\<lambda>res.
     ret (map (\<lambda>selName. case objIDFromResponses sv (tl res) selName of None \<Rightarrow> 0 | Some objID \<Rightarrow> objID)
            (st_Selectors stmt))))"

definition handle_Describe :: "('a, 'x) query_server_scheme \<Rightarrow> Describe_msg \<Rightarrow> ('a, responses) sm" where
  "handle_Describe sv msg = (case describe_typ msg of
       PreparedStatementType \<Rightarrow>
         goseq (on_prep (\<lambda>uuid mgr. (PreparedStatement uuid (describe_name msg) mgr, mgr))) (\<lambda>prepStmt.
         goseq (if st_Type (ps_ParsedStatement prepStmt) = SelectStatement
                then selectObjectIds sv (ps_ParsedStatement prepStmt) else ret []) (\<lambda>objIDs.
         ret [MessageResponse (NewParameterDescriptionWith objIDs), MessageResponse NewNoData]))
     | PreparedPortalType \<Rightarrow>
         goseq (on_prep (\<lambda>uuid mgr. (PreparedPortal uuid (describe_name msg) mgr, mgr))) (\<lambda>_.
         ret [MessageResponse NewNoData]))"

section \<open>Query and Execute\<close>

text \<open>\<open>%s\<close> of a parameter value, which the Bind parser makes a string, a byte slice or nil\<close>

definition format_s :: "go_value \<Rightarrow> string" where
  "format_s v = (case v of
       VString s \<Rightarrow> s
     | VBytes b \<Rightarrow> string_of_bytes (slice_bytes b)
     | _ \<Rightarrow> ''%!s('' @ go_type_name v @ '')'')"

fun join :: "string \<Rightarrow> string list \<Rightarrow> string" where
  "join sep [] = []"
| "join sep [s] = s"
| "join sep (s # ss) = s @ sep @ join sep ss"

definition Query_String :: "Query_msg \<Rightarrow> string" where
  "Query_String q = (if 0 < length (query_BindParams q)
     then query_Query q @ '' WITH BIND PARAMS: '' @ join '', '' (map (format_s \<circ> bind_Value) (query_BindParams q))
     else query_Query q)"

definition handleCopyQuery :: "('a, 'x) query_server_scheme \<Rightarrow> statement \<Rightarrow> ('a, responses) sm" where
  "handleCopyQuery sv stmt =
     goseq (on_app (sv_Copy sv) stmt) (\<lambda>res.
     if HasErrorResponse res then ret res
     else goseq (on_conn (ResponseMessages res)) (\<lambda>_.
       goseq (on_conn (on_reader (IsPeekType CopyDataMessage))) (\<lambda>ok.
       if \<not> ok then ret [] else sv_CopyData sv stmt)))"

definition SystemSchemaNames :: "string list" where
  "SystemSchemaNames = [''pg_catalog'', ''information_schema'']"

text \<open>\<open>res, err := op(); conn.UnlockTransaction()\<close>: the lock is released whatever the outcome.\<close>

definition then_unlock :: "('a, responses) sm \<Rightarrow> ('a, responses) sm" where
  "then_unlock m = goseq (gotry m) (\<lambda>r. goseq (on_conn UnlockTransaction) (\<lambda>_.
     case r of Inl e \<Rightarrow> fail e | Inr res \<Rightarrow> ret res))"

definition exec_statement :: "('a, 'x) query_server_scheme \<Rightarrow> statement \<Rightarrow> ('a, responses) sm" where
  "exec_statement sv stmt =
     (let qe = sv_queryExecutor sv; ex = sv_exQueryExecutor sv in
      case st_Type stmt of
        BeginStatement \<Rightarrow> goseq (on_conn LockTransaction) (\<lambda>_. on_app (qe_Begin qe) stmt)
      | CommitStatement \<Rightarrow> then_unlock (on_app (qe_Commit qe) stmt)
      | RollbackStatement \<Rightarrow> then_unlock (on_app (qe_Rollback qe) stmt)
      | CreateDatabaseStatement \<Rightarrow> on_app (qe_CreateDatabase qe) stmt
      | CreateTableStatement \<Rightarrow> on_app (qe_CreateTable qe) stmt
      | CreateIndexStatement \<Rightarrow> on_app (ex_CreateIndex ex) stmt
      | AlterDatabaseStatement \<Rightarrow> on_app (qe_AlterDatabase qe) stmt
      | AlterTableStatement \<Rightarrow> on_app (qe_AlterTable qe) stmt
      | DropDatabaseStatement \<Rightarrow> on_app (qe_DropDatabase qe) stmt
      | DropTableStatement \<Rightarrow> on_app (qe_DropTable qe) stmt
      | DropIndexStatement \<Rightarrow> on_app (ex_DropIndex ex) stmt
      | InsertStatement \<Rightarrow> on_app (qe_Insert qe) stmt
      | SelectStatement \<Rightarrow>
          if st_HasSchemaTable stmt SystemSchemaNames then on_app (sv_SystemSelect sv) stmt
          else on_app (qe_Select qe) stmt
      | UpdateStatement \<Rightarrow> on_app (qe_Update qe) stmt
      | DeleteStatement \<Rightarrow> on_app (qe_Delete qe) stmt
      | TruncateStatement \<Rightarrow> on_app (ex_Truncate ex) stmt
      | VacuumStatement \<Rightarrow> on_app (ex_Vacuum ex) stmt
      | CopyStatement \<Rightarrow> handleCopyQuery sv stmt
      | OtherStatement \<Rightarrow> ret [])"

definition run_statement :: "('a, 'x) query_server_scheme \<Rightarrow> statement \<Rightarrow> ('a, unit) sm" where
  "run_statement sv stmt = goseq (exec_statement sv stmt) (\<lambda>res.
     if 0 < length res then on_conn (ResponseMessages res) else ret ())"

definition handle_Query :: "('a, 'x) query_server_scheme \<Rightarrow> Query_msg \<Rightarrow> ('a, responses) sm" where
  "handle_Query sv msg =
     (case sv_BindStatements sv (query_Query msg) (query_BindParams msg) of
        Ok stmts \<Rightarrow> goseq (for_each (run_statement sv) stmts) (\<lambda>_. ret [])
      | Err err \<Rightarrow>
          if errors_Is err SqlParserErrEmptyQuery then ret NewEmptyCompleteResponses
          else goseq (gets s_conn) (\<lambda>conn. lift_res (sv_ParserError sv conn (Query_String msg) err))
      | Panic p \<Rightarrow> panic p)"

definition handle_Execute :: "('a, 'x) query_server_scheme \<Rightarrow> Execute_msg \<Rightarrow> ('a, responses) sm" where
  "handle_Execute sv msg =
     goseq (on_prep (\<lambda>uuid mgr. (PreparedPortal uuid (execute_PortalName msg) mgr, mgr))) (\<lambda>q.
     handle_Query sv q)"

end
