(* ===== verification/Progress.thy ===== *)
theory Progress
  imports Copy_Stream Startup
begin

text \<open>
  Progress on the stream. No parser ever makes the bytes to come longer, and a parser of a message
  consumes at least the type byte that was peeked. The loops of the server and of a copy end
  because of this.
\<close>

named_theorems nongrowing_intros \<open>parsers that do not lengthen the stream\<close>
named_theorems advancing_intros \<open>parsers that consume a byte that was peeked\<close>

definition left :: "reader \<Rightarrow> nat" where
  "left r = length (reader_pending r)"

definition nongrowing :: "'a rd \<Rightarrow> bool" where
  "nongrowing m \<longleftrightarrow> (\<forall>r. left (snd (m r)) \<le> left r)"

definition advancing :: "'a rd \<Rightarrow> bool" where
  "advancing m \<longleftrightarrow> (\<forall>r. peekBuf r \<noteq> [] \<longrightarrow> left (snd (m r)) < left r)"

lemma nongrowingD: "nongrowing m \<Longrightarrow> m r = (x, r') \<Longrightarrow> left r' \<le> left r"
  by (metis nongrowing_def snd_conv)

lemma advancingD: "advancing m \<Longrightarrow> m r = (x, r') \<Longrightarrow> peekBuf r \<noteq> [] \<Longrightarrow> left r' < left r"
  by (metis advancing_def snd_conv)

lemma nongrowing_basic [nongrowing_intros]:
  "nongrowing (ret x)" "nongrowing (fail e)" "nongrowing (panic p)" "nongrowing (lift_res y)"
  by (simp_all add: nongrowing_def ret_def fail_def panic_def lift_res_def)

lemma nongrowing_goseq [nongrowing_intros]:
  assumes "nongrowing m" "\<And>a. nongrowing (f a)"
  shows "nongrowing (goseq m f)"
  unfolding nongrowing_def
proof
  fix r
  obtain x r1 where m: "m r = (x, r1)" by fastforce
  show "left (snd (goseq m f r)) \<le> left r"
    using nongrowingD [OF assms(1) m] assms(2) [unfolded nongrowing_def] m
    by (cases x) (auto simp: goseq_def intro: order_trans)
qed

lemma nongrowing_gotry [nongrowing_intros]: "nongrowing m \<Longrightarrow> nongrowing (gotry m)"
  by (auto simp: nongrowing_def gotry_def split: prod.splits res.splits) (metis snd_conv)+

lemma nongrowing_if [nongrowing_intros]:
  "nongrowing m \<Longrightarrow> nongrowing n \<Longrightarrow> nongrowing (if b then m else n)"
  by simp

lemma nongrowing_repeat_n [nongrowing_intros]: "nongrowing m \<Longrightarrow> nongrowing (repeat_n n m)"
  by (induction n) (auto intro!: nongrowing_intros)

lemma advancing_goseq [advancing_intros]:
  assumes "advancing m" "\<And>a. nongrowing (f a)"
  shows "advancing (goseq m f)"
  unfolding advancing_def
proof (intro allI impI)
  fix r :: reader assume r: "peekBuf r \<noteq> []"
  obtain x r1 where m: "m r = (x, r1)" by fastforce
  show "left (snd (goseq m f r)) < left r"
    using advancingD [OF assms(1) m r] assms(2) [unfolded nongrowing_def] m
    by (cases x) (auto simp: goseq_def intro: le_less_trans)
qed

lemma left_ReadBytes: "left (snd (ReadBytes n r)) \<le> left r"
proof (cases "ReadBytes n r")
  case (Pair x r')
  then show ?thesis
  proof (cases x)
    case (Ok bs)
    with Pair ReadBytes_Ok(1) [of n r bs r'] show ?thesis by (simp add: left_def)
  next
    case (Err e)
    with Pair ReadBytes_Err(1) [of n r e r'] show ?thesis by (auto simp: left_def)
  next
    case (Panic p)
    with Pair ReadBytes_no_panic [of n r p r'] show ?thesis by simp
  qed
qed

lemma nongrowing_ReadBytes [nongrowing_intros]: "nongrowing (ReadBytes n)"
  by (simp add: nongrowing_def left_ReadBytes)

lemma nongrowing_ReadByte [nongrowing_intros]: "nongrowing ReadByte"
  unfolding ReadByte_def by (intro nongrowing_intros)

lemma nongrowing_ReadInt32 [nongrowing_intros]: "nongrowing ReadInt32"
  unfolding ReadInt32_def by (intro nongrowing_intros)

lemma nongrowing_ReadInt16 [nongrowing_intros]: "nongrowing ReadInt16"
  unfolding ReadInt16_def by (intro nongrowing_intros)

lemma left_ReadBytesUntil_loop: "left (snd (ReadBytesUntil_loop delim buf r)) \<le> left r"
proof (induction delim buf r rule: ReadBytesUntil_loop.induct)
  case (1 delim buf r)
  obtain x r1 where rb: "ReadByte r = (x, r1)" by fastforce
  have le: "left r1 \<le> left r" using nongrowingD [OF nongrowing_ReadByte rb] .
  show ?case
    using 1 [OF rb [symmetric]] rb le
    by (cases x) (auto simp: ReadBytesUntil_loop.simps [of delim buf r] intro: order_trans)
qed

lemma nongrowing_ReadString [nongrowing_intros]: "nongrowing ReadString"
proof -
  have "nongrowing (ReadBytesUntil 0)"
    by (simp add: nongrowing_def ReadBytesUntil_def left_ReadBytesUntil_loop)
  then show ?thesis unfolding ReadString_def by (intro nongrowing_intros)
qed

lemma left_PeekBytes: "left (snd (PeekBytes n r)) \<le> left r"
proof -
  obtain y r1 where rb: "ReadBytes n r = (y, r1)" by fastforce
  obtain x r' where pb: "PeekBytes n r = (x, r')" by fastforce
  have "left r' \<le> left r" if "x = Ok cs" for cs
  proof -
    from that pb obtain r2 where r2: "ReadBytes n r = (Ok cs, r2)"
        "r' = r2\<lparr>peekBuf := drop n (peekBuf r) @ cs\<rparr>"
      using PeekBytes_Ok(2) by blast
    from ReadBytes_Ok [OF r2(1)] r2(2) show ?thesis
      by (simp add: left_def reader_pending_def)
  qed
  moreover have "left r1 \<le> left r" using nongrowingD [OF nongrowing_ReadBytes rb] .
  moreover have "r' = r1 \<or> (\<exists>cs. x = Ok cs)"
    using pb rb by (cases y) (auto simp: PeekBytes_def goseq_def fail_def modify_def ret_def split: if_splits)
  ultimately show ?thesis using pb by auto
qed

lemma nongrowing_PeekBytes [nongrowing_intros]: "nongrowing (PeekBytes n)"
  unfolding nongrowing_def using left_PeekBytes by blast

lemma nongrowing_PeekType [nongrowing_intros]: "nongrowing PeekType"
  unfolding PeekType_def by (intro nongrowing_intros)

lemma nongrowing_IsPeekType [nongrowing_intros]: "nongrowing (IsPeekType t)"
  unfolding IsPeekType_def by (intro nongrowing_intros)

lemma nongrowing_PeekInt32 [nongrowing_intros]: "nongrowing PeekInt32"
  unfolding PeekInt32_def by (intro nongrowing_intros)

lemma PeekType_Ok_peeked:
  assumes "PeekType r = (Ok t, r')"
  shows "peekBuf r' \<noteq> []" and "left r' \<le> left r"
proof -
  from assms obtain bs where pb: "PeekBytes 1 r = (Ok bs, r')"
    by (auto simp: PeekType_def goseq_def panic_def ret_def split: prod.splits res.splits if_splits)
  from PeekBytes_Ok [OF pb] show "peekBuf r' \<noteq> []" by auto
  from nongrowingD [OF nongrowing_PeekBytes pb] show "left r' \<le> left r" .
qed

lemma advancing_ReadByte [advancing_intros]: "advancing ReadByte"
  unfolding advancing_def
proof (intro allI impI)
  fix r :: reader assume "peekBuf r \<noteq> []"
  then obtain b bs where "peekBuf r = b # bs" by (cases "peekBuf r") auto
  then show "left (snd (ReadByte r)) < left r"
    by (simp add: ReadByte_def ReadBytes_def goseq_def ret_def left_def reader_pending_def)
qed

lemma nongrowing_NewMessageWithReader [nongrowing_intros]: "nongrowing NewMessageWithReader"
  unfolding NewMessageWithReader_def ReadType_def ReadLength_def by (intro nongrowing_intros)

lemma nongrowing_NewRequestMessageWithReader [nongrowing_intros]:
  "nongrowing NewRequestMessageWithReader"
  unfolding NewRequestMessageWithReader_def by (intro nongrowing_intros)

lemma advancing_NewMessageWithReader [advancing_intros]: "advancing NewMessageWithReader"
  unfolding NewMessageWithReader_def ReadType_def ReadLength_def
  by (intro advancing_intros nongrowing_intros)

lemma advancing_NewRequestMessageWithReader [advancing_intros]: "advancing NewRequestMessageWithReader"
  unfolding NewRequestMessageWithReader_def by (intro advancing_intros nongrowing_intros)

lemma nongrowing_ReadMessageData [nongrowing_intros]: "nongrowing (ReadMessageData msg)"
  unfolding ReadMessageData_def Let_def by (intro nongrowing_intros)

lemma nongrowing_read_slice [nongrowing_intros]: "nongrowing m \<Longrightarrow> nongrowing (read_slice n m)"
  unfolding read_slice_def make_slice_def by (intro nongrowing_intros)

lemma nongrowing_Read_direct [nongrowing_intros]: "nongrowing (Read_direct n)"
  unfolding nongrowing_def
proof
  fix r :: reader
  obtain bs e src' where rd: "src_Read n (rsrc r) = ((bs, e), src')" by (metis surj_pair)
  have "length (src_pending src') \<le> length (src_pending (rsrc r))"
  proof (cases "n = 0")
    case True
    with rd have "src' = rsrc r"
      by (cases "rsrc r") (auto simp: src_Read_def conn_Read_def slice_Read_def split: if_splits)
    then show ?thesis by simp
  next
    case False
    then show ?thesis
      using rd src_io.read_some [of n "rsrc r" bs src'] src_io.read_error [of n "rsrc r" bs _ src']
      by (cases e) auto
  qed
  then show "left (snd (Read_direct n r)) \<le> left r"
    using rd by (cases e) (simp_all add: Read_direct_def left_def reader_pending_def)
qed

lemma nongrowing_read_param_bytes [nongrowing_intros]: "nongrowing read_param_bytes"
  unfolding read_param_bytes_def by (intro nongrowing_intros)

text \<open>Every parser of a request consumes the peeked type byte, whether it succeeds or fails.\<close>

lemma advancing_requests [advancing_intros]:
  "advancing NewParseWithReader" "advancing NewBindWithReader" "advancing NewDescribeWithReader"
  "advancing NewQueryWithReader" "advancing NewExecuteWithReader" "advancing NewCloseWithReader"
  "advancing NewSyncWithReader" "advancing NewFlushWithReader" "advancing NewTerminateWithReader"
  "advancing NewCopyDoneWithReader" "advancing NewPasswordWithReader"
  unfolding NewParseWithReader_def NewBindWithReader_def NewDescribeWithReader_def
    NewQueryWithReader_def NewExecuteWithReader_def NewCloseWithReader_def NewSyncWithReader_def
    NewFlushWithReader_def NewTerminateWithReader_def NewCopyDoneWithReader_def
    NewPasswordWithReader_def
  by (intro advancing_intros nongrowing_intros)+

lemma advancing_CopyData [advancing_intros]: "advancing NewCopyDataWithReader"
  unfolding NewCopyDataWithReader_def Let_def by (intro advancing_intros nongrowing_intros)

lemma advancing_gotry: "advancing m \<Longrightarrow> advancing (gotry m)"
  by (auto simp: advancing_def gotry_def split: prod.splits res.splits)

lemma nongrowing_NewCopyDoneWithReader [nongrowing_intros]: "nongrowing NewCopyDoneWithReader"
  unfolding NewCopyDoneWithReader_def by (intro nongrowing_intros)

text \<open>A row of a copy consumes at least one byte.\<close>

lemma CopyStream_Next_Ok_less:
  assumes "CopyStream_Next r = (Ok cp, r')"
  shows "left r' < left r"
proof -
  from assms obtain t r1 where pt: "PeekType r = (Ok t, r1)"
    and rest: "(if t = CopyDataMessage then
       goseq (gotry NewCopyDataWithReader) (\<lambda>res.
         case res of
           Inr copyData \<Rightarrow> ret copyData
         | Inl copyErr \<Rightarrow>
             if \<not> errors_Is copyErr IoEOF then fail copyErr
             else goseq (IsPeekType CopyDoneMessage) (\<lambda>ok.
               if \<not> ok then fail copyErr
               else goseq skipCopyDone (\<lambda>_. fail copyErr)))
     else if t = CopyDoneMessage then goseq skipCopyDone (\<lambda>_. fail EOF)
     else fail EOF) r1 = (Ok cp, r')"
    unfolding CopyStream_Next_def by (elim goseq_OkD) blast
  from rest have "t = CopyDataMessage"
    by (auto simp: goseq_def fail_def split: if_splits prod.splits res.splits)
  with rest obtain res r2 where r2: "gotry NewCopyDataWithReader r1 = (Ok res, r2)"
    and "(case res of Inr copyData \<Rightarrow> ret copyData
         | Inl copyErr \<Rightarrow> if \<not> errors_Is copyErr IoEOF then fail copyErr
             else goseq (IsPeekType CopyDoneMessage) (\<lambda>ok. if \<not> ok then fail copyErr
               else goseq skipCopyDone (\<lambda>_. fail copyErr))) r2 = (Ok cp, r')"
    by (auto elim: goseq_OkD)
  then have "r2 = r'"
    by (auto simp: goseq_def fail_def ret_def split: sum.splits if_splits prod.splits res.splits)
  with advancingD [OF advancing_gotry [OF advancing_CopyData] r2] PeekType_Ok_peeked [OF pt]
  show ?thesis by simp
qed

end
