(* ===== verification/Copy_Query.thy ===== *)
theory Copy_Query
  imports Query_Handler Progress
begin

text \<open>
  \<open>copy.go\<close>: the answer to a COPY, the INSERT made of each row, and the loop over the rows. The
  columns of the schema, its lookup, and the constructor of an INSERT belong to the parser package.
\<close>

section \<open>The answer to COPY\<close>

definition NewCopyInResponsesFrom :: "(string \<Rightarrow> unit go) \<Rightarrow> string list \<Rightarrow> statement \<Rightarrow> responses go" where
  "NewCopyInResponsesFrom LookupColumn schemaColumns q =
     sequence_res
       (if 0 < length (st_Columns q)
        then map_res (\<lambda>_. st_Columns q) (map_go LookupColumn (st_Columns q))
        else Ok schemaColumns)
       (\<lambda>copyColums. Ok [CopyInResponse (fold (\<lambda>_. AppendFormatCode TextFormat) copyColums
         (NewCopyInResponseWith TextCopy))])"

section \<open>Rows as INSERTs\<close>

definition NewCopyQueryFrom ::
    "(string \<Rightarrow> (string \<times> string) list list \<Rightarrow> statement) \<Rightarrow> string \<Rightarrow> string list \<Rightarrow> string list \<Rightarrow> statement go" where
  "NewCopyQueryFrom NewInsertWith tableName copyColumns copyColumData =
     (if length copyColumData \<noteq> length copyColumns
      then Err (NewErrColumnsNotEqual (int (length copyColumData)) (int (length copyColumns)))
      else Ok (NewInsertWith tableName
        [map (\<lambda>(name, d). (name, if length d = 0 then ''NULL'' else d)) (zip copyColumns copyColumData)]))"

section \<open>The loop\<close>

text \<open>
  The loop of \<open>NewCopyCompleteResponsesFrom\<close>: a row that fails is counted and the copy goes on; the
  first error of the stream ends it and is returned with the counts.
\<close>

function copy_loop ::
    "(string list \<Rightarrow> statement go) \<Rightarrow> (statement \<Rightarrow> ('a, gerr, responses) gom) \<Rightarrow> nat \<Rightarrow> nat \<Rightarrow>
     reader \<Rightarrow> 'a \<Rightarrow> (nat \<times> nat \<times> gerr) go \<times> reader \<times> 'a" where
  "copy_loop mk ins nCopy nFail r a =
     (case CopyStream_Next r of
        (Ok cpData, r') \<Rightarrow>
          (case mk (copy_Data cpData) of
             Ok q \<Rightarrow> (case ins q a of
                 (Ok _, a') \<Rightarrow> copy_loop mk ins (Suc nCopy) nFail r' a'
               | (Err _, a') \<Rightarrow> copy_loop mk ins nCopy (Suc nFail) r' a'
               | (Panic p, a') \<Rightarrow> (Panic p, r', a'))
           | Err _ \<Rightarrow> copy_loop mk ins nCopy (Suc nFail) r' a
           | Panic p \<Rightarrow> (Panic p, r', a))
      | (Err e, r') \<Rightarrow> (Ok (nCopy, nFail, e), r', a)
      | (Panic p, r') \<Rightarrow> (Panic p, r', a))"
  by pat_completeness auto
termination
  by (relation "measure (\<lambda>(mk, ins, nCopy, nFail, r, a). left r)")
    (auto dest!: CopyStream_Next_Ok_less [OF sym])

declare copy_loop.simps [simp del]

definition copy_counts_error :: "statement \<Rightarrow> nat \<Rightarrow> nat \<Rightarrow> gerr" where
  "copy_counts_error q nCopy nFail =
     GoError (st_String q @ '' ('' @ show_int (int nCopy) @ ''/'' @ show_int (int nFail) @ '')'') []"

definition NewCopyCompleteResponsesFrom ::
    "(string \<Rightarrow> (string \<times> string) list list \<Rightarrow> statement) \<Rightarrow> string \<Rightarrow> string list \<Rightarrow>
     (conn \<Rightarrow> statement \<Rightarrow> ('a, gerr, responses) gom) \<Rightarrow> statement \<Rightarrow> ('a, responses) sm" where
  "NewCopyCompleteResponsesFrom NewInsertWith tableName schemaColumns Insert q s =
     (let copyColums = (if length (st_Columns q) = 0 then schemaColumns else st_Columns q) in
      case copy_loop (NewCopyQueryFrom NewInsertWith tableName copyColums) (Insert (s_conn s)) 0 0
             (c_reader (s_conn s)) (s_app s) of
        (x, r', a') \<Rightarrow>
          (case x of
             Ok (nCopy, nFail, err) \<Rightarrow>
               if \<not> errors_Is err IoEOF then Err err
               else if 0 < nFail then Err (copy_counts_error q nCopy nFail)
               else Ok (NewCopyCompleteResponsesWith (int nCopy))
           | Err e \<Rightarrow> Err e
           | Panic p \<Rightarrow> Panic p,
           s\<lparr>s_conn := (s_conn s)\<lparr>c_reader := r'\<rparr>, s_app := a'\<rparr>))"

section \<open>Properties\<close>

text \<open>
  a row becomes an INSERT exactly when it has a value for every column; otherwise the error names
  both numbers. Every value goes to the column at its position, and an empty one as NULL.
\<close>

theorem copy_query_from:
  "NewCopyQueryFrom mkInsert tbl cols vals =
     (if length vals = length cols
      then Ok (mkInsert tbl [map (\<lambda>i. (cols ! i, if vals ! i = [] then ''NULL'' else vals ! i)) [0..<length cols]])
      else Err (NewErrColumnsNotEqual (int (length vals)) (int (length cols))))"
  by (auto simp: NewCopyQueryFrom_def intro!: arg_cong [where f = "mkInsert tbl"] nth_equalityI)

text \<open>Running the inserts of a list of rows on the executor's state, and counting them\<close>

fun copy_rows ::
    "(string list \<Rightarrow> statement go) \<Rightarrow> (statement \<Rightarrow> ('a, gerr, responses) gom) \<Rightarrow> string list list \<Rightarrow>
     nat \<times> nat \<times> 'a \<Rightarrow> nat \<times> nat \<times> 'a" where
  "copy_rows mk ins [] (c, f, a) = (c, f, a)"
| "copy_rows mk ins (row # rows) (c, f, a) = (case mk row of
     Ok q \<Rightarrow> (case ins q a of
         (Ok _, a') \<Rightarrow> copy_rows mk ins rows (Suc c, f, a')
       | (_, a') \<Rightarrow> copy_rows mk ins rows (c, Suc f, a'))
   | _ \<Rightarrow> copy_rows mk ins rows (c, Suc f, a))"

context peeking
begin

lemma copy_loop_rows:
  assumes "list_all row_fits rows" "P r" "reader_patient r"
    "reader_pending r = concat (map enc_row rows) @ tail" "\<And>row. \<not> is_panic (mk row)"
    "\<And>q a. \<not> is_panic (fst (ins q a))"
  shows "\<exists>r1. P r1 \<and> reader_patient r1 \<and> reader_pending r1 = tail \<and>
    copy_loop mk ins c f r a =
      (case copy_rows mk ins (map (map string_of_bytes) rows) (c, f, a) of (c', f', a') \<Rightarrow>
         copy_loop mk ins c' f' r1 a')"
  using assms(1-4)
proof (induction rows arbitrary: r c f a)
  case (Cons fs rows)
  then have fits: "row_fits fs" "list_all row_fits rows" by simp_all
  obtain r1 where r1: "CopyStream_Next r = (Ok (row_msg fs), r1)" "P r1"
      "reader_patient r1" "reader_pending r1 = concat (map enc_row rows) @ tail"
    using parsesE [OF parses_Next [OF fits(1)] Cons.prems(2,3), of "concat (map enc_row rows) @ tail"]
      Cons.prems(4) by auto
  have data: "copy_Data (row_msg fs) = map string_of_bytes fs" by (simp add: row_msg_def)
  note IH = Cons.IH [OF fits(2) r1(2-4)]
  show ?case
  proof (cases "mk (map string_of_bytes fs)")
    case (Ok q)
    obtain x a' where ins: "ins q a = (x, a')" by fastforce
    then have "\<not> is_panic x" using assms(6) [of q a] by simp
    then show ?thesis
      using Ok ins IH [of "Suc c" f a'] IH [of c "Suc f" a'] r1(1) data
      by (cases x) (simp_all add: copy_loop.simps [of mk ins c f r a])
  next
    case (Err e)
    then show ?thesis
      using IH [of c "Suc f" a] r1(1) data by (simp add: copy_loop.simps [of mk ins c f r a])
  next
    case (Panic p)
    then show ?thesis using assms(5) [of "map string_of_bytes fs"] by simp
  qed
qed auto

lemma copy_loop_done:
  assumes "list_all row_fits rows" "P r" "reader_patient r"
    "reader_pending r = concat (map enc_row rows) @ header CopyDoneMessage len @ rest"
    "\<And>row. \<not> is_panic (mk row)" "\<And>q a. \<not> is_panic (fst (ins q a))"
  shows "\<exists>r'. copy_loop mk ins 0 0 r a =
      (case copy_rows mk ins (map (map string_of_bytes) rows) (0, 0, a) of (c, f, a') \<Rightarrow>
         (Ok (c, f, EOF), r', a')) \<and> P r' \<and> reader_patient r' \<and> reader_pending r' = rest"
proof -
  obtain r1 where r1: "P r1" "reader_patient r1" "reader_pending r1 = header CopyDoneMessage len @ rest"
      "copy_loop mk ins 0 0 r a =
        (case copy_rows mk ins (map (map string_of_bytes) rows) (0, 0, a) of (c', f', a') \<Rightarrow>
           copy_loop mk ins c' f' r1 a')"
    using copy_loop_rows [OF assms(1-4)] assms(5,6) by metis
  obtain r2 where r2: "CopyStream_Next r1 = (Err EOF, r2)" "P r2" "reader_patient r2" "reader_pending r2 = rest"
    using Next_done [OF r1(1-3)] by blast
  have "copy_loop mk ins c f r1 a = (Ok (c, f, EOF), r2, a)" for c f a
    by (simp add: copy_loop.simps [of mk ins c f r1 a] r2(1))
  with r1(4) r2(2-4) show ?thesis by (auto split: prod.split)
qed

end

text \<open>
  a copy inserts every row it is sent. With the rows and the CopyDone message to come, the loop
  runs the INSERT of each row in order on the executor, counts the rows that went in and those
  that failed, consumes the whole copy and nothing behind it, and ends with the end of the stream.
\<close>

theorem copy_inserts_all_rows:
  assumes "list_all row_fits rows" and "reader_patient r" and "length (peekBuf r) \<le> 1"
    and "reader_pending r = concat (map enc_row rows) @ header CopyDoneMessage len @ rest"
    and "\<forall>row. \<not> is_panic (mk row)" and "\<forall>q a. \<not> is_panic (fst (ins q a))"
  shows "\<exists>r'. copy_loop mk ins 0 0 r a =
      (case copy_rows mk ins (map (map string_of_bytes) rows) (0, 0, a) of (c, f, a') \<Rightarrow>
         (Ok (c, f, EOF), r', a')) \<and> reader_pending r' = rest"
proof -
  have "\<And>row. \<not> is_panic (mk row)" "\<And>q a. \<not> is_panic (fst (ins q a))" using assms(5,6) by blast+
  from narrow.copy_loop_done [of rows r len rest mk ins a, OF assms(1,3,2,4) this] show ?thesis by blast
qed

definition plain_insert :: "string \<Rightarrow> (string \<times> string) list list \<Rightarrow> statement" where
  "plain_insert tbl rows =
     \<lparr>st_Type = InsertStatement, st_String = tbl,
      st_Values = map (map (\<lambda>(_, v). Plain (VString v))) rows, st_FromTables = [], st_FromString = [],
      st_HasSchemaTable = \<lambda>_. False, st_Selectors = [], st_Columns = [], st_Tables = [],
      st_TableName = tbl\<rparr>"

theorem copy_inserts_all_rows_witness:
  "\<exists>r'. copy_loop (NewCopyQueryFrom plain_insert ''t'' [''a'']) (\<lambda>q a. (Ok [], a @ [st_Values q])) 0 0
      (NewReaderWithBytes (frame CopyDataMessage [49, 10] @ header CopyDoneMessage 4 @ [81])) [] =
      (Ok (1, 0, EOF), r', [[[Plain (VString ''1'')]]]) \<and> reader_pending r' = [81]"
proof -
  let ?r = "NewReaderWithBytes (frame CopyDataMessage [49, 10] @ header CopyDoneMessage 4 @ [81])"
  let ?mk = "NewCopyQueryFrom plain_insert ''t'' [''a'']"
  have "joined [[49]] = [49]" by (simp add: joined_def)
  moreover from this have "row_fits [[49]]"
    by (simp add: row_fits_def row_ok_def isEOFData_def tabSep_def)
  moreover have "reader_patient ?r" "length (peekBuf ?r) \<le> 1"
    by (simp_all add: NewReaderWithBytes_def reader_patient_def src_patient_def)
  moreover have "string_of_bytes [49] = ''1''" by code_simp
  moreover have "\<forall>row. \<not> is_panic (?mk row)" by (simp add: NewCopyQueryFrom_def)
  ultimately show ?thesis
    using copy_inserts_all_rows [of "[[[49]]]" ?r 4 "[81]" ?mk "\<lambda>q a. (Ok [], a @ [st_Values q])" "[]"]
    by (simp add: NewReaderWithBytes_def reader_pending_def src_pending_def enc_row_def
        NewCopyQueryFrom_def plain_insert_def)
qed

text \<open>
  an aborted copy is reported as complete. When the client sends CopyFail after its rows, the
  server answers as after CopyDone: the rows stay inserted, the command completes with their
  number, and the CopyFail message is left on the stream.
\<close>

theorem aborted_copy_completes:
  assumes "reader_patient (c_reader (s_conn s))" and "length (peekBuf (c_reader (s_conn s))) \<le> 1"
    and "reader_pending (c_reader (s_conn s)) = CopyFailMessage # rest"
  shows "\<exists>s'. NewCopyCompleteResponsesFrom mkInsert tbl cols ins q s = (Ok (NewCopyCompleteResponsesWith 0), s') \<and>
      reader_pending (c_reader (s_conn s')) = CopyFailMessage # rest"
proof -
  obtain r' where r': "CopyStream_Next (c_reader (s_conn s)) = (Err EOF, r')"
      "reader_pending r' = CopyFailMessage # rest"
    using PeekType_full [OF assms] by (auto simp: CopyStream_Next_def go_simps msg_types)
  have "copy_loop mk f 0 0 (c_reader (s_conn s)) (s_app s) = (Ok (0, 0, EOF), r', s_app s)" for mk f
    by (simp add: copy_loop.simps r'(1))
  with r'(2) show ?thesis
    by (simp add: NewCopyCompleteResponsesFrom_def Let_def errors_Is_def EOF_def)
qed

definition idle_session :: "net_event list \<Rightarrow> unit session" where
  "idle_session es = \<lparr>s_conn = NewConnWith (new_net_conn es) 1 [], s_prep = NewPreparedManager, s_app = ()\<rparr>"

theorem aborted_copy_completes_witness:
  "\<exists>s'. NewCopyCompleteResponsesFrom plain_insert ''t'' [''a''] (\<lambda>_ _ a. (Ok [], a)) (plain_insert ''t'' [])
      (idle_session [Arrive [102, 0, 0, 0, 5, 0]]) = (Ok (NewCopyCompleteResponsesWith 0), s') \<and>
     reader_pending (c_reader (s_conn s')) = [102, 0, 0, 0, 5, 0]"
proof -
  let ?s = "idle_session [Arrive [102, 0, 0, 0, 5, 0]]"
  have "reader_patient (c_reader (s_conn ?s))" "length (peekBuf (c_reader (s_conn ?s))) \<le> 1"
    "reader_pending (c_reader (s_conn ?s)) = CopyFailMessage # [0, 0, 0, 5, 0]"
    by (simp_all add: idle_session_def NewConnWith_def NewReaderWithConn_def new_net_conn_def
        reader_patient_def src_patient_def conn_patient_def reader_pending_def src_pending_def
        conn_pending_def msg_types)
  from aborted_copy_completes [OF this] show ?thesis by (simp add: msg_types)
qed

end
