(* ===== verification/Handler_Proofs.thy ===== *)
theory Handler_Proofs
  imports Copy_Query
begin

text \<open>
  Correctness of the query handler: what the extended protocol adds up to, transactions over several
  statements, errors in the middle of a query, and the invariants every handler keeps.
\<close>

section \<open>A small server\<close>

text \<open>
  A server with the default executors over a SQL executor that only counts its calls; it is what
  the witnesses run on. Its parser knows the statements that are handed to it.
\<close>

definition counting_executor :: "nat SQLExecutor" where
  "counting_executor =
     \<lparr>se_Begin = \<lambda>_ _ n. (Ok (), Suc n), se_Commit = \<lambda>_ _ n. (Ok (), Suc n),
      se_Rollback = \<lambda>_ _ n. (Ok (), Suc n), se_CreateDatabase = \<lambda>_ _ n. (Ok (), Suc n),
      se_CreateTable = \<lambda>_ _ n. (Ok (), Suc n), se_AlterDatabase = \<lambda>_ _ n. (Ok (), Suc n),
      se_AlterTable = \<lambda>_ _ n. (Ok (), Suc n), se_DropDatabase = \<lambda>_ _ n. (Ok (), Suc n),
      se_DropTable = \<lambda>_ _ n. (Ok (), Suc n), se_Insert = \<lambda>_ _ n. (Ok (), Suc n),
      se_Select = \<lambda>_ _ n. (Ok \<lparr>rs_LookupColumn = \<lambda>_. Ok TextType, rs_Selectors = [], rs_Rows = []\<rparr>, Suc n),
      se_Update = \<lambda>_ _ n. (Ok 1, Suc n), se_Delete = \<lambda>_ _ n. (Ok 1, Suc n),
      se_SystemSelect = \<lambda>_ _ n. (Ok \<lparr>rs_LookupColumn = \<lambda>_. Ok TextType, rs_Selectors = [], rs_Rows = []\<rparr>, Suc n)\<rparr>"

definition small_server :: "'a SQLExecutor option \<Rightarrow> (string \<Rightarrow> statement list go) \<Rightarrow> 'a query_server" where
  "small_server se parser =
     \<lparr>sv_queryExecutor = defaultQueryExecutor strict_casts se,
      sv_exQueryExecutor = NewDefaultExQueryExecutorWith Ok (\<lambda>t. plain_insert t [])
        (defaultQueryExecutor strict_casts se),
      sv_SystemSelect = default_SystemSelect strict_casts se,
      sv_Copy = null_Copy, sv_CopyData = \<lambda>stmt. on_app null_CopyData stmt,
      sv_ParserError = null_ParserError, sv_processID = 1, sv_secretKey = 2, sv_MapOrder = \<lambda>_ entries. entries,
      sv_ParseString = parser, sv_BindStatements = \<lambda>q ps. parser q,
      sv_NewSchemaColumnsStatement = \<lambda>db tables. Ok (plain_insert db []),
      sv_EqualFold = \<lambda>a b. a = b, sv_safecast = strict_casts\<rparr>"

definition statement_of :: "StatementType \<Rightarrow> string \<Rightarrow> statement" where
  "statement_of t q = (plain_insert [] [])\<lparr>st_Type := t, st_String := q\<rparr>"

definition session_of :: "'a \<Rightarrow> 'a session" where
  "session_of a = \<lparr>s_conn = NewConnWith (new_net_conn []) 1 [], s_prep = NewPreparedManager, s_app = a\<rparr>"

section \<open>Transactions\<close>

lemma on_conn_Ok: "m (s_conn s) = (x, c) \<Longrightarrow> on_conn m s = (x, s\<lparr>s_conn := c\<rparr>)"
  by (simp add: on_conn_def on_part_def)

lemma on_app_conn [simp]: "s_conn (snd (on_app f stmt s)) = s_conn s"
  by (simp add: on_app_def on_part_def case_prod_beta)

lemma on_app_fst: "fst (on_app f stmt s) = fst (f (s_conn s) stmt (s_app s))"
  by (simp add: on_app_def on_part_def case_prod_beta)

lemma then_unlock_free:
  assumes "s_conn (snd (m s)) = s_conn s" "\<not> c_txLocked (s_conn s)" "\<not> is_panic (fst (m s))"
  shows "fst (then_unlock m s) = Panic UnlockOfUnlockedMutex"
  using assms
  by (cases "m s"; cases "fst (m s)")
    (auto simp: then_unlock_def goseq_def gotry_def on_conn_def on_part_def UnlockTransaction_def)

lemma then_unlock_held:
  assumes "s_conn (snd (m s)) = s_conn s" "c_txLocked (s_conn s)" "\<not> is_panic (fst (m s))"
  shows "fst (then_unlock m s) = fst (m s) \<and>
    s_conn (snd (then_unlock m s)) = (s_conn s)\<lparr>c_txLocked := False\<rparr>"
  using assms
  by (cases "m s"; cases "fst (m s)")
    (auto simp: then_unlock_def goseq_def gotry_def on_conn_def on_part_def UnlockTransaction_def
      ret_def fail_def)

text \<open>
  C25: COMMIT or ROLLBACK without a transaction ends the server. A client that is in no transaction
  block makes the process die of unlocking an unlocked mutex, whatever the executor answered.
\<close>

theorem end_without_begin_is_fatal:
  assumes "st_Type stmt = CommitStatement \<or> st_Type stmt = RollbackStatement"
    and "sv_BindStatements sv (query_Query msg) (query_BindParams msg) = Ok (stmt # stmts)"
    and "\<not> c_txLocked (s_conn s)"
    and "\<not> is_panic (fst (qe_Commit (sv_queryExecutor sv) (s_conn s) stmt (s_app s)))"
    and "\<not> is_panic (fst (qe_Rollback (sv_queryExecutor sv) (s_conn s) stmt (s_app s)))"
  shows "fst (handle_Query sv msg s) = Panic UnlockOfUnlockedMutex"
proof -
  have "fst (exec_statement sv stmt s) = Panic UnlockOfUnlockedMutex"
    using assms(1,3-5) then_unlock_free [of "on_app (qe_Commit (sv_queryExecutor sv)) stmt" s]
      then_unlock_free [of "on_app (qe_Rollback (sv_queryExecutor sv)) stmt" s]
    by (auto simp: exec_statement_def Let_def on_app_fst)
  then have "fst (run_statement sv stmt s) = Panic UnlockOfUnlockedMutex"
    unfolding run_statement_def by (rule goseq_panic_fst)
  then show ?thesis
    unfolding handle_Query_def assms(2) by (simp add: goseq_panic_fst)
qed

theorem end_without_begin_is_fatal_witness:
  "fst (handle_Query (small_server (Some counting_executor) (\<lambda>q. Ok [statement_of CommitStatement q]))
     \<lparr>query_header = None, query_Query = ''COMMIT'', query_BindParams = []\<rparr> (session_of 0)) =
   Panic UnlockOfUnlockedMutex"
  by (rule end_without_begin_is_fatal [of "statement_of CommitStatement ''COMMIT''"])
    (simp_all add: statement_of_def small_server_def session_of_def NewConnWith_def defaultQueryExecutor_def
      default_Commit_def default_Rollback_def counting_executor_def goseq_def ret_def)

text \<open>
  C31: a BEGIN that fails leaves the transaction open. The lock is taken before the executor is asked,
  and nobody releases it on its error: the client gets the error and a session whose status is a
  transaction block.
\<close>

theorem failed_begin_stays_locked:
  assumes "st_Type stmt = BeginStatement" and "\<not> c_txLocked (s_conn s)"
    and "\<And>c a. fst (qe_Begin (sv_queryExecutor sv) c stmt a) = Err e"
  shows "fst (run_statement sv stmt s) = Err e \<and>
    TransactionStatus (s_conn (snd (run_statement sv stmt s))) = TransactionBlock"
proof -
  let ?s = "s\<lparr>s_conn := (s_conn s)\<lparr>c_txLocked := True\<rparr>\<rparr>"
  obtain y s' where app: "on_app (qe_Begin (sv_queryExecutor sv)) stmt ?s = (y, s')" by fastforce
  have "y = Err e" using assms(3) on_app_fst [of "qe_Begin (sv_queryExecutor sv)" stmt ?s] app by simp
  moreover have "s_conn s' = s_conn ?s"
    using on_app_conn [of "qe_Begin (sv_queryExecutor sv)" stmt ?s] app by simp
  ultimately show ?thesis
    using app assms(1,2)
    by (simp add: run_statement_def exec_statement_def goseq_def on_conn_def on_part_def
        LockTransaction_def TransactionStatus_def)
qed

theorem failed_begin_stays_locked_witness:
  "let sv = small_server (None :: unit SQLExecutor option) (\<lambda>q. Ok []);
       s' = snd (run_statement sv (statement_of BeginStatement ''BEGIN'') (session_of ()))
   in TransactionStatus (s_conn s') = TransactionBlock"
  using failed_begin_stays_locked [of "statement_of BeginStatement ''BEGIN''" "session_of ()"
      "small_server None (\<lambda>q. Ok [])" "NewErrNotImplemented ''BEGIN''"]
  by (simp add: statement_of_def session_of_def NewConnWith_def small_server_def defaultQueryExecutor_def
      default_Begin_def fail_def Let_def)

text \<open>
  C17: a transaction block is opened and closed. BEGIN followed by COMMIT or ROLLBACK, with no error of
  the executor at BEGIN, ends outside a transaction, whether or not the executor accepted the end.
\<close>

theorem transaction_block_closes:
  assumes "st_Type b = BeginStatement" and "st_Type e \<in> {CommitStatement, RollbackStatement}"
    and "\<not> c_txLocked (s_conn s)" and "exec_statement sv b s = (Ok res, s1)"
    and "\<not> is_panic (fst (qe_Commit (sv_queryExecutor sv) (s_conn s1) e (s_app s1)))"
    and "\<not> is_panic (fst (qe_Rollback (sv_queryExecutor sv) (s_conn s1) e (s_app s1)))"
  shows "TransactionStatus (s_conn s1) = TransactionBlock \<and>
    \<not> is_panic (fst (exec_statement sv e s1)) \<and>
    TransactionStatus (s_conn (snd (exec_statement sv e s1))) = TransactionIdle"
proof -
  let ?s = "s\<lparr>s_conn := (s_conn s)\<lparr>c_txLocked := True\<rparr>\<rparr>"
  have "on_app (qe_Begin (sv_queryExecutor sv)) b ?s = (Ok res, s1)"
    using assms(1,3,4)
    by (simp add: exec_statement_def goseq_def on_conn_def on_part_def LockTransaction_def)
  then have held: "c_txLocked (s_conn s1)"
    using on_app_conn [of "qe_Begin (sv_queryExecutor sv)" b ?s] by simp
  have "exec_statement sv e s1 = then_unlock (on_app (qe_Commit (sv_queryExecutor sv)) e) s1 \<or>
      exec_statement sv e s1 = then_unlock (on_app (qe_Rollback (sv_queryExecutor sv)) e) s1"
    using assms(2) by (auto simp: exec_statement_def Let_def)
  then show ?thesis
    using then_unlock_held [of "on_app (qe_Commit (sv_queryExecutor sv)) e" s1, OF on_app_conn held]
      then_unlock_held [of "on_app (qe_Rollback (sv_queryExecutor sv)) e" s1, OF on_app_conn held]
      assms(5,6) held
    by (auto simp: on_app_fst TransactionStatus_def TransactionIdle_def TransactionBlock_def)
qed

theorem transaction_block_closes_witness:
  "let sv = small_server (Some counting_executor) (\<lambda>q. Ok []);
       s1 = snd (exec_statement sv (statement_of BeginStatement ''BEGIN'') (session_of 0))
   in TransactionStatus (s_conn (snd (exec_statement sv (statement_of RollbackStatement ''ROLLBACK'') s1))) =
      TransactionIdle"
proof -
  let ?sv = "small_server (Some counting_executor) (\<lambda>q. Ok [])"
  let ?b = "statement_of BeginStatement ''BEGIN''" and ?e = "statement_of RollbackStatement ''ROLLBACK''"
  obtain res s1 where s1: "exec_statement ?sv ?b (session_of 0) = (Ok res, s1)"
    by (simp add: exec_statement_def statement_of_def small_server_def defaultQueryExecutor_def
        default_Begin_def counting_executor_def session_of_def NewConnWith_def goseq_def on_conn_def
        on_app_def on_part_def LockTransaction_def ret_def)
  have "TransactionStatus (s_conn (snd (exec_statement ?sv ?e s1))) = TransactionIdle"
    using transaction_block_closes [OF _ _ _ s1, of ?e]
    by (simp add: statement_of_def session_of_def NewConnWith_def small_server_def
        defaultQueryExecutor_def default_Commit_def default_Rollback_def counting_executor_def
        goseq_def ret_def)
  then show ?thesis by (simp add: s1 Let_def)
qed

section \<open>The extended protocol\<close>

text \<open>
  C18: Parse, Bind and Execute run the statement with its parameters. On a connection that prepares a
  query under a name, binds it to a portal and executes the portal, the outcome and the new state
  are those of handling that query with the parameters of the Bind message.
\<close>

theorem execute_runs_bound_query:
  assumes "sv_ParseString sv (parse_Query p) = Ok [st]"
    and "bind_StatementName b = parse_Name p" and "execute_PortalName e = bind_PortalName b"
  shows "\<exists>s1 s2. handle_Parse sv p s = (Ok [MessageResponse NewParseComplete], s1) \<and>
    handle_Bind b s1 = (Ok [MessageResponse NewBindComplete], s2) \<and>
    handle_Execute sv e s2 =
      handle_Query sv \<lparr>query_header = None, query_Query = parse_Query p, query_BindParams = bind_Params b\<rparr> s2 \<and>
    s_conn s2 = s_conn s \<and> s_app s2 = s_app s"
proof -
  let ?u = "c_uuid (s_conn s)" and ?ps = "\<lparr>ps_Parse = p, ps_ParsedStatement = st\<rparr>"
  let ?s1 = "s\<lparr>s_prep := store_statement ?u (parse_Name p) ?ps (s_prep s)\<rparr>"
  let ?q = "NewQueryWith p b"
  let ?s2 = "?s1\<lparr>s_prep := store_portal ?u (bind_PortalName b) ?q (s_prep ?s1)\<rparr>"
  have p: "handle_Parse sv p s = (Ok [MessageResponse NewParseComplete], ?s1)"
    using SetPreparedStatement_one [of "sv_ParseString sv", OF assms(1)]
    by (simp add: handle_Parse_def goseq_def on_prep_def on_part_def ret_def)
  have set_portal: "SetPreparedPortal u k q m = (Ok (), store_portal u k q m)" for u k q and m :: "statement PreparedManager"
    by (simp add: SetPreparedPortal_def map_SetPreparedPortal_def store_portal_def modify_def Let_def)
  have b: "handle_Bind b ?s1 = (Ok [MessageResponse NewBindComplete], ?s2)"
    using statements.find_stored [of ?u "parse_Name p" ?ps "s_prep s"] assms(2)
    by (simp add: handle_Bind_def goseq_def on_prep_def on_part_def ret_def set_portal)
  have "PreparedPortal ?u (execute_PortalName e) (s_prep ?s2) = Ok ?q"
    using portals.find_stored assms(3) by simp
  then have "handle_Execute sv e ?s2 = handle_Query sv ?q ?s2"
    by (simp add: handle_Execute_def goseq_def on_prep_def on_part_def)
  then show ?thesis using p b by (intro exI [of _ ?s1] exI [of _ ?s2]) (simp add: NewQueryWith_def)
qed

theorem execute_runs_bound_query_witness:
  "let sv = small_server (Some counting_executor) (\<lambda>q. Ok [statement_of InsertStatement q]);
       p = \<lparr>parse_header = \<lparr>msg_Type = ParseMessage, msg_Length = 9\<rparr>, parse_Name = ''s'', parse_Query = ''I'',
            parse_NumDataTypes = 0, parse_DataTypes = []\<rparr>;
       b = \<lparr>bind_header = \<lparr>msg_Type = BindMessage, msg_Length = 9\<rparr>, bind_PortalName = ''p'',
            bind_StatementName = ''s'', bind_Params = []\<rparr>;
       e = \<lparr>execute_header = \<lparr>msg_Type = ExecuteMessage, msg_Length = 9\<rparr>, execute_PortalName = ''p'',
            execute_MaxRows = 0\<rparr>
   in \<exists>s2. s_app s2 = (0 :: nat) \<and> handle_Execute sv e s2 =
        handle_Query sv \<lparr>query_header = None, query_Query = ''I'', query_BindParams = []\<rparr> s2"
  unfolding Let_def
  using execute_runs_bound_query [of "small_server (Some counting_executor) (\<lambda>q. Ok [statement_of InsertStatement q])"
      "\<lparr>parse_header = \<lparr>msg_Type = ParseMessage, msg_Length = 9\<rparr>, parse_Name = ''s'', parse_Query = ''I'',
        parse_NumDataTypes = 0, parse_DataTypes = []\<rparr>" "statement_of InsertStatement ''I''"
      "\<lparr>bind_header = \<lparr>msg_Type = BindMessage, msg_Length = 9\<rparr>, bind_PortalName = ''p'',
        bind_StatementName = ''s'', bind_Params = []\<rparr>"
      "\<lparr>execute_header = \<lparr>msg_Type = ExecuteMessage, msg_Length = 9\<rparr>, execute_PortalName = ''p'',
        execute_MaxRows = 0\<rparr>" "session_of 0"]
  by (auto simp: small_server_def session_of_def)

section \<open>Errors in the middle of a query\<close>

lemma for_each_append:
  "for_each f (xs @ ys) = goseq (for_each f xs) (\<lambda>_. for_each f ys)"
  by (induction xs) (simp_all add: goseq_assoc)

text \<open>
  the first statement that fails ends the query. The statements before it have run and answered,
  the ones behind it do not run, and the error is that of the failing statement.
\<close>

theorem query_stops_at_first_error:
  assumes "sv_BindStatements sv (query_Query msg) (query_BindParams msg) = Ok (before @ stmt # after)"
    and "for_each (run_statement sv) before s = (Ok (), s1)"
    and "run_statement sv stmt s1 = (Err e, s2)"
  shows "handle_Query sv msg s = (Err e, s2)"
  using assms by (simp add: handle_Query_def for_each_append goseq_def)

theorem query_stops_at_first_error_witness:
  "let sv = small_server (None :: unit SQLExecutor option)
        (\<lambda>q. Ok [statement_of OtherStatement q, statement_of InsertStatement q, statement_of CommitStatement q])
   in handle_Query sv \<lparr>query_header = None, query_Query = ''Q'', query_BindParams = []\<rparr> (session_of ()) =
      (Err (NewErrNotImplemented ''INSERT''), session_of ())"
  unfolding Let_def
  by (rule query_stops_at_first_error [where before = "[statement_of OtherStatement ''Q'']"
        and stmt = "statement_of InsertStatement ''Q''" and after = "[statement_of CommitStatement ''Q'']"
        and ?s1.0 = "session_of ()"])
    (simp_all add: small_server_def run_statement_def exec_statement_def statement_of_def goseq_def
      ret_def on_app_def on_part_def defaultQueryExecutor_def default_Insert_def fail_def Let_def session_of_def)

end
