(* ===== verification/Server_Loop.thy ===== *)
theory Server_Loop
  imports Handler_Proofs
begin

text \<open>
  The protocol server (\<open>protocol/server_impl.go\<close>, \<open>protocol/handler.go\<close>): SSL negotiation, startup and
  authentication, and the loop over the requests of one connection. The message handler is an
  interface, a record of functions; \<open>server_handler\<close> is the one the server installs. Authentication,
  TLS and the registry of connections are other packages: what is used of them is a parameter.
\<close>

section \<open>The message handler\<close>

record 'a MessageHandler =
  mh_ParameterStatuses :: "('a, responses) sm"
  mh_BackendKeyData :: "('a, response) sm"
  mh_Query :: "Query_msg \<Rightarrow> ('a, responses) sm"
  mh_Parse :: "Parse_msg \<Rightarrow> ('a, responses) sm"
  mh_Bind :: "Bind_msg \<Rightarrow> ('a, responses) sm"
  mh_Describe :: "Describe_msg \<Rightarrow> ('a, responses) sm"
  mh_Execute :: "Execute_msg \<Rightarrow> ('a, responses) sm"
  mh_Close :: "Close_msg \<Rightarrow> ('a, responses) sm"
  mh_Sync :: "message \<Rightarrow> ('a, responses) sm"
  mh_Flush :: "message \<Rightarrow> ('a, responses) sm"

definition server_handler :: "('a, 'x) query_server_scheme \<Rightarrow> 'a MessageHandler" where
  "server_handler sv =
     \<lparr>mh_ParameterStatuses = gets (\<lambda>s. ParameterStatuses sv (s_conn s)), mh_BackendKeyData = ret (BackendKeyData sv),
      mh_Query = handle_Query sv, mh_Parse = handle_Parse sv, mh_Bind = handle_Bind,
      mh_Describe = handle_Describe sv, mh_Execute = handle_Execute sv, mh_Close = handle_Close,
      mh_Sync = handle_Sync, mh_Flush = handle_Flush\<rparr>"

text \<open>
  The protocol server. \<open>VerifyCredential\<close> is the authenticator's answer for a user name and a
  password; \<open>Handshake\<close> is the TLS handshake, which yields the connection inside the tunnel.
\<close>

record 'a protocol_server =
  ps_MessageHandler :: "'a MessageHandler"
  ps_VerifyCredential :: "conn \<Rightarrow> string \<Rightarrow> string \<Rightarrow> bool go"
  ps_TLSConfig :: "bool go"
  ps_Handshake :: "net_conn cm"
  ps_VerifyCertificate :: "net_conn \<Rightarrow> bool \<times> gerr option"
  ps_tls_uuid :: nat

definition SetMessageHandler :: "'a MessageHandler \<Rightarrow> 'a protocol_server \<Rightarrow> 'a protocol_server" where
  "SetMessageHandler h server = server\<lparr>ps_MessageHandler := h\<rparr>"

section \<open>Startup\<close>

definition send :: "response \<Rightarrow> ('a, unit) sm" where
  "send res = on_conn (ResponseMessage (Some res))"

definition authenticate :: "'a protocol_server \<Rightarrow> startup \<Rightarrow> ('a, bool) sm" where
  "authenticate ps startupMsg = (case Startup_User startupMsg of
       None \<Rightarrow> ret False
     | Some clientUsername \<Rightarrow>
         goseq (send (MessageResponse NewAuthenticationCleartextPassword)) (\<lambda>_.
         goseq (on_conn (on_reader NewPasswordWithReader)) (\<lambda>msg.
         goseq (gets s_conn) (\<lambda>conn.
         lift_res (ps_VerifyCredential ps conn clientUsername (password_Password msg))))))"

definition authenticateStartup :: "'a protocol_server \<Rightarrow> startup \<Rightarrow> ('a, response) sm" where
  "authenticateStartup ps startupMsg = goseq (authenticate ps startupMsg) (\<lambda>ok.
     if ok then ret (MessageResponse NewAuthenticationOk) else ret (ErrorResponse NewErrorResponse))"

definition handleStartupMessage :: "'a protocol_server \<Rightarrow> startup \<Rightarrow> ('a, unit) sm" where
  "handleStartupMessage ps startupMsg =
     goseq (authenticateStartup ps startupMsg) (\<lambda>res.
     goseq (send res) (\<lambda>_.
     goseq (mh_ParameterStatuses (ps_MessageHandler ps)) (\<lambda>reses.
     goseq (on_conn (ResponseMessages reses)) (\<lambda>_.
     goseq (mh_BackendKeyData (ps_MessageHandler ps)) (\<lambda>res.
     goseq (send res) (\<lambda>_.
     on_conn ReadyForMessage))))))"

text \<open>\<open>if err != nil { conn.ResponseError(err); return err }\<close>\<close>

definition or_report :: "('a, 'r) sm \<Rightarrow> ('a, 'r) sm" where
  "or_report m = goseq (gotry m) (\<lambda>x. case x of
       Inr r \<Rightarrow> ret r
     | Inl e \<Rightarrow> goseq (gotry (on_conn (ResponseError (Some e)))) (\<lambda>_. fail e))"

text \<open>The result says whether the server goes on; a refused certificate without an error ends it.\<close>

definition negotiateSSL :: "'a protocol_server \<Rightarrow> ('a, bool) sm" where
  "negotiateSSL ps =
     goseq (or_report (on_conn (on_reader PeekInt32))) (\<lambda>startupMsgLength.
     if startupMsgLength \<noteq> 8 then ret True
     else
       goseq (or_report (on_conn (on_reader NewSSLRequestWithReader))) (\<lambda>_.
       goseq (or_report (lift_res (ps_TLSConfig ps))) (\<lambda>tlsConfig.
       if \<not> tlsConfig
       then goseq (send (SSLResponseResponse (NewSSLResponseWith SSLDisabled))) (\<lambda>_. ret True)
       else
         goseq (send (SSLResponseResponse (NewSSLResponseWith SSLEnabled))) (\<lambda>_.
         goseq (or_report (on_conn (ps_Handshake ps))) (\<lambda>tlsConn.
         case ps_VerifyCertificate ps tlsConn of
           (True, _) \<Rightarrow>
             goseq (modify (\<lambda>s. s\<lparr>s_conn := NewConnWith tlsConn (ps_tls_uuid ps) [WithConnTLSConn (rsrc (c_reader (s_conn s)))]\<rparr>)) (\<lambda>_. ret True)
         | (False, Some e) \<Rightarrow> or_report (fail e)
         | (False, None) \<Rightarrow> ret False)))))"

definition startup_phase :: "'a protocol_server \<Rightarrow> ('a, bool) sm" where
  "startup_phase ps =
     goseq (negotiateSSL ps) (\<lambda>go_on.
     if \<not> go_on then ret False
     else
       goseq (or_report (on_conn (on_reader NewStartupWithReader))) (\<lambda>startupMsg.
       goseq (or_report (handleStartupMessage ps startupMsg)) (\<lambda>_.
       goseq (on_conn (SetDatabase (case Startup_Database startupMsg of None \<Rightarrow> [] | Some db \<Rightarrow> db))) (\<lambda>_.
       ret True))))"

section \<open>The request loop\<close>

definition request :: "'m rd \<Rightarrow> ('m \<Rightarrow> ('a, responses) sm) \<Rightarrow> ('a, responses) sm" where
  "request parser handler = goseq (on_conn (on_reader parser)) handler"

text \<open>The switch over the type of the request, without Terminate\<close>

definition dispatch :: "'a MessageHandler \<Rightarrow> msg_type \<Rightarrow> ('a, responses) sm" where
  "dispatch h reqType =
     (if reqType = ParseMessage then request NewParseWithReader (mh_Parse h)
      else if reqType = BindMessage then request NewBindWithReader (mh_Bind h)
      else if reqType = DescribeMessage then request NewDescribeWithReader (mh_Describe h)
      else if reqType = QueryMessage then request NewQueryWithReader (mh_Query h)
      else if reqType = ExecuteMessage then request NewExecuteWithReader (mh_Execute h)
      else if reqType = CloseMessage then request NewCloseWithReader (mh_Close h)
      else if reqType = SyncMessage then request NewSyncWithReader (mh_Sync h)
      else if reqType = FlushMessage then request NewFlushWithReader (mh_Flush h)
      else goseq (on_conn SkipMessage) (\<lambda>_. fail (NewErrMessageNotSuppoted reqType)))"

text \<open>
  The answers of a request, then its error, then the ready message, which is left out when the next
  request is already there.
\<close>

definition after_request :: "responses \<Rightarrow> gerr option \<Rightarrow> ('a, bool) sm" where
  "after_request resMsgs reqErr =
     goseq (on_conn (ResponseMessages resMsgs)) (\<lambda>_.
     goseq (on_conn (ResponseError reqErr)) (\<lambda>_.
     goseq (gotry (on_conn (on_reader PeekTypeNonBlocking))) (\<lambda>peeked.
     case peeked of
       Inr _ \<Rightarrow> ret True
     | Inl _ \<Rightarrow> goseq (on_conn ReadyForMessage) (\<lambda>_. ret True))))"

text \<open>One round of the loop: \<open>True\<close> to go on, \<open>False\<close> when the server returns without an error\<close>

definition receive_step :: "'a MessageHandler \<Rightarrow> ('a, bool) sm" where
  "receive_step h =
     goseq (gotry (on_conn (on_reader PeekType))) (\<lambda>peeked.
     case peeked of
       Inl reqErr \<Rightarrow> goseq (gotry (on_conn (ResponseError (Some reqErr)))) (\<lambda>_. ret False)
     | Inr reqType \<Rightarrow>
         if reqType = TerminateMessage then
           goseq (gotry (on_conn (on_reader NewTerminateWithReader))) (\<lambda>x. case x of
             Inr _ \<Rightarrow> ret False
           | Inl reqErr \<Rightarrow> after_request [] (Some reqErr))
         else
           goseq (gotry (dispatch h reqType)) (\<lambda>x. case x of
             Inr resMsgs \<Rightarrow> after_request resMsgs None
           | Inl reqErr \<Rightarrow> after_request [] (Some reqErr)))"

text \<open>The loop, with fuel for the number of rounds\<close>

fun receive_loop :: "nat \<Rightarrow> 'a MessageHandler \<Rightarrow> 'a session \<Rightarrow> (unit go \<times> 'a session) option" where
  "receive_loop 0 h s = None"
| "receive_loop (Suc fuel) h s = (case receive_step h s of
       (Ok True, s') \<Rightarrow> receive_loop fuel h s'
     | (Ok False, s') \<Rightarrow> Some (Ok (), s')
     | (Err e, s') \<Rightarrow> Some (Err e, s')
     | (Panic p, s') \<Rightarrow> Some (Panic p, s'))"

text \<open>
  The deferred calls close the connection and then the network connection that was accepted, also when a
  panic unwinds; their errors are dropped.
\<close>

definition close_session :: "'a session \<Rightarrow> 'a session" where
  "close_session s = (let s1 = snd (on_conn conn_impl_Close s) in s1\<lparr>s_conn := close_accepted (s_conn s1)\<rparr>)"

lemma conn_impl_Close_rest [simp]:
  "sent (snd (conn_impl_Close c)) = sent c" "c_tls (snd (conn_impl_Close c)) = c_tls c"
  "c_uuid (snd (conn_impl_Close c)) = c_uuid c" "c_txLocked (snd (conn_impl_Close c)) = c_txLocked c"
  by (auto simp: conn_impl_Close_def goseq_def on_net_def conn_Close_def modify_def sent_def
      split: io_source.split prod.split res.split if_splits)

lemma close_session_parts [simp]:
  "s_conn (close_session s) = close_accepted (snd (conn_impl_Close (s_conn s)))"
  "s_app (close_session s) = s_app s" "s_prep (close_session s) = s_prep s"
  by (simp_all add: close_session_def Let_def on_conn_def on_part_def case_prod_beta)

definition receive :: "nat \<Rightarrow> 'a protocol_server \<Rightarrow> 'a session \<Rightarrow> (unit go \<times> 'a session) option" where
  "receive fuel ps s = (case startup_phase ps s of
       (Ok True, s1) \<Rightarrow>
         map_option (\<lambda>(x, s2). (x, close_session s2)) (receive_loop fuel (ps_MessageHandler ps) s1)
     | (Ok False, s1) \<Rightarrow> Some (Ok (), close_session s1)
     | (Err e, s1) \<Rightarrow> Some (Err e, close_session s1)
     | (Panic p, s1) \<Rightarrow> Some (Panic p, close_session s1))"

end
