(* ===== verification/Server_Proofs.thy ===== *)
theory Server_Proofs
  imports Server_Loop
begin

text \<open>
  Correctness of the protocol server: who gets a session, how a request is answered, that the loop
  ends, and that it stays in step with the stream after errors and unknown messages.
\<close>

section \<open>Progress of the session\<close>

text \<open>The bytes a session has still to read, and computations that do not lengthen them\<close>

definition s_left :: "'a session \<Rightarrow> nat" where
  "s_left s = left (c_reader (s_conn s))"

definition calm :: "('a, 'r) sm \<Rightarrow> bool" where
  "calm m \<longleftrightarrow> (\<forall>s. s_left (snd (m s)) \<le> s_left s)"

lemma calmD: "calm m \<Longrightarrow> m s = (x, s') \<Longrightarrow> s_left s' \<le> s_left s"
  by (metis calm_def snd_conv)

named_theorems calm_intros \<open>computations that do not lengthen the stream of the session\<close>

lemma calm_basic [calm_intros]:
  "calm (ret x)" "calm (fail e)" "calm (panic p)" "calm (lift_res y)" "calm (gets f)"
  by (simp_all add: calm_def ret_def fail_def panic_def lift_res_def gets_def)

lemma calm_goseq [calm_intros]:
  assumes "calm m" "\<And>a. calm (f a)"
  shows "calm (goseq m f)"
  unfolding calm_def
proof
  fix s
  obtain x s1 where m: "m s = (x, s1)" by fastforce
  show "s_left (snd (goseq m f s)) \<le> s_left s"
    using calmD [OF assms(1) m] assms(2) [unfolded calm_def] m
    by (cases x) (auto simp: goseq_def intro: order_trans)
qed

lemma calm_gotry [calm_intros]: "calm m \<Longrightarrow> calm (gotry m)"
  by (auto simp: calm_def gotry_def split: prod.splits res.splits) (metis snd_conv)+

lemma calm_if [calm_intros]: "calm m \<Longrightarrow> calm n \<Longrightarrow> calm (if b then m else n)"
  by simp

lemma calm_for_each [calm_intros]: "(\<And>x. calm (f x)) \<Longrightarrow> calm (for_each f xs)"
  by (induction xs) (auto intro!: calm_intros)

lemma calm_on_app [calm_intros]: "calm (on_app f stmt)"
  by (simp add: calm_def s_left_def)

lemma calm_on_prep [calm_intros]: "calm (on_prep f)"
  by (simp add: calm_def s_left_def on_prep_def on_part_def case_prod_beta)

lemma calm_on_reader [calm_intros]: "nongrowing m \<Longrightarrow> calm (on_conn (on_reader m))"
  by (simp add: calm_def s_left_def on_conn_def on_reader_def on_part_def case_prod_beta nongrowing_def)

definition quiet :: "'r cm \<Rightarrow> bool" where
  "quiet m \<longleftrightarrow> (\<forall>c. left (c_reader (snd (m c))) = left (c_reader c))"

lemma quiet_goseq:
  assumes "quiet m" "\<And>a. quiet (f a)"
  shows "quiet (goseq m f)"
  using assms unfolding quiet_def goseq_def by (auto split: prod.splits res.splits) (metis snd_conv)+

lemma quiet_Write: "quiet (on_net (conn_Write b))"
  by (auto simp: quiet_def on_net_def conn_Write_def left_def reader_pending_def src_pending_def
      conn_pending_def split: io_source.splits list.splits bool.splits)

lemma quiet_basic: "quiet (ret x)" "quiet (lift_res y)" "quiet (gets f)"
  by (simp_all add: quiet_def ret_def lift_res_def gets_def)

lemma quiet_ResponseMessage: "quiet (ResponseMessage r)"
  unfolding ResponseMessage_def
  by (cases r) (auto intro!: quiet_goseq quiet_Write quiet_basic)

lemma quiet_for_each: "(\<And>x. quiet (f x)) \<Longrightarrow> quiet (for_each f xs)"
  by (induction xs) (auto intro!: quiet_goseq quiet_basic)

lemma quiet_ResponseMessages: "quiet (ResponseMessages rs)"
  unfolding ResponseMessages_def by (simp add: quiet_basic quiet_for_each quiet_ResponseMessage)

lemma quiet_ResponseError: "quiet (ResponseError e)"
  unfolding ResponseError_def by (cases e) (simp_all add: quiet_basic quiet_Write)

lemma quiet_ReadyForMessage: "quiet ReadyForMessage"
  unfolding ReadyForMessage_def by (intro quiet_goseq quiet_basic quiet_ResponseMessage)

lemma quiet_lock: "quiet LockTransaction" "quiet UnlockTransaction"
  by (simp_all add: quiet_def LockTransaction_def UnlockTransaction_def)

lemma calm_quiet: "quiet m \<Longrightarrow> calm (on_conn m)"
  by (simp add: calm_def s_left_def on_conn_def on_part_def case_prod_beta quiet_def)

lemmas calm_conn [calm_intros] = calm_quiet [OF quiet_ResponseMessage] calm_quiet [OF quiet_ResponseMessages]
  calm_quiet [OF quiet_ResponseError] calm_quiet [OF quiet_ReadyForMessage]
  calm_quiet [OF quiet_lock(1)] calm_quiet [OF quiet_lock(2)]

lemma nongrowing_SetReadDeadline [nongrowing_intros]: "nongrowing (SetReadDeadline b)"
  by (auto simp: nongrowing_def SetReadDeadline_def left_def reader_pending_def src_pending_def
      conn_SetReadDeadline_def conn_pending_def split: io_source.splits)

lemma nongrowing_PeekTypeNonBlocking [nongrowing_intros]: "nongrowing PeekTypeNonBlocking"
proof -
  have "nongrowing (\<lambda>r. case PeekType r of (x, r1) \<Rightarrow> (x, snd (SetReadDeadline False r1)))"
    using nongrowing_PeekType nongrowing_SetReadDeadline [of False]
    by (auto simp: nongrowing_def case_prod_beta intro: order_trans)
  then show ?thesis unfolding PeekTypeNonBlocking_def by (intro nongrowing_intros)
qed

lemma calm_after_request [calm_intros]: "calm (after_request rs e)"
  unfolding after_request_def
  by (intro calm_intros nongrowing_intros) (auto split: sum.split intro!: calm_intros)

text \<open>A handler that reads no further than the request it is given, except for copied data\<close>

definition calm_handler :: "'a MessageHandler \<Rightarrow> bool" where
  "calm_handler h \<longleftrightarrow> (\<forall>m. calm (mh_Query h m)) \<and> (\<forall>m. calm (mh_Parse h m)) \<and> (\<forall>m. calm (mh_Bind h m)) \<and>
     (\<forall>m. calm (mh_Describe h m)) \<and> (\<forall>m. calm (mh_Execute h m)) \<and> (\<forall>m. calm (mh_Close h m)) \<and>
     (\<forall>m. calm (mh_Sync h m)) \<and> (\<forall>m. calm (mh_Flush h m))"

section \<open>The server's own handler is calm\<close>

lemma calm_exec_statement:
  assumes "\<And>stmt. calm (sv_CopyData sv stmt)"
  shows "calm (exec_statement sv stmt)"
proof -
  have unlock: "calm m \<Longrightarrow> calm (then_unlock m)" for m :: "('a, responses) sm"
    unfolding then_unlock_def by (auto intro!: calm_intros split: sum.split)
  have copy: "calm (handleCopyQuery sv stmt)"
    unfolding handleCopyQuery_def by (intro calm_intros nongrowing_intros assms)
  show ?thesis
    unfolding exec_statement_def Let_def
    by (cases "st_Type stmt") (auto intro!: calm_intros unlock copy)
qed

lemma calm_handle_Query:
  assumes "\<And>stmt. calm (sv_CopyData sv stmt)"
  shows "calm (handle_Query sv msg)"
  unfolding handle_Query_def run_statement_def
  by (auto split: res.split intro!: calm_intros calm_exec_statement assms)

lemma calm_server_handler:
  assumes "\<And>stmt. calm (sv_CopyData sv stmt)"
  shows "calm_handler (server_handler sv)"
  unfolding calm_handler_def server_handler_def
  by (auto simp: handle_Parse_def handle_Bind_def handle_Describe_def handle_Execute_def handle_Close_def
      handle_Sync_def handle_Flush_def selectObjectIds_def newSystemSelectQuery_def
      intro!: calm_intros calm_handle_Query assms split: PreparedType.split)

section \<open>Every round consumes\<close>

lemma on_reader_step:
  assumes "on_conn (on_reader m) s = (x, s')"
  shows "m (c_reader (s_conn s)) = (x, c_reader (s_conn s'))"
  using assms by (auto simp: on_conn_def on_reader_def on_part_def split: prod.splits)

definition drops :: "('a, 'r) sm \<Rightarrow> bool" where
  "drops m \<longleftrightarrow> (\<forall>s. peekBuf (c_reader (s_conn s)) \<noteq> [] \<longrightarrow> s_left (snd (m s)) < s_left s)"

lemma drops_if: "drops m \<Longrightarrow> drops n \<Longrightarrow> drops (if b then m else n)"
  by simp

lemma drops_request:
  fixes handler :: "'m \<Rightarrow> ('a, responses) sm"
  assumes "advancing parser" "\<And>m. calm (handler m)"
  shows "drops (request parser handler)"
  unfolding drops_def
proof (intro allI impI)
  fix s :: "'a session" assume peeked: "peekBuf (c_reader (s_conn s)) \<noteq> []"
  obtain y s1 where y: "on_conn (on_reader parser) s = (y, s1)" by fastforce
  have less: "s_left s1 < s_left s"
    using advancingD [OF assms(1) on_reader_step [OF y] peeked] by (simp add: s_left_def)
  show "s_left (snd (request parser handler s)) < s_left s"
  proof (cases y)
    case (Ok m)
    then have "request parser handler s = handler m s1" using y by (simp add: request_def goseq_def)
    with assms(2) [of m] less show ?thesis by (auto simp: calm_def intro: le_less_trans)
  qed (use y less in \<open>simp_all add: request_def goseq_def\<close>)
qed

lemma SkipMessage_as_request:
  "on_conn SkipMessage = goseq (on_conn (on_reader NewMessageWithReader))
     (\<lambda>msg. goseq (on_conn (on_reader (ReadMessageData msg))) (\<lambda>_. ret ()))"
  by (rule ext) (auto simp: SkipMessage_def on_conn_def on_part_def goseq_def ret_def split: prod.splits res.splits)

lemma drops_dispatch:
  assumes "calm_handler h"
  shows "drops (dispatch h t)"
proof -
  have skip: "goseq (on_conn SkipMessage) (\<lambda>_. fail (NewErrMessageNotSuppoted t)) =
      request NewMessageWithReader (\<lambda>msg. goseq (goseq (on_conn (on_reader (ReadMessageData msg))) (\<lambda>_. ret ()))
        (\<lambda>_. fail (NewErrMessageNotSuppoted t)))"
    by (simp add: SkipMessage_as_request request_def goseq_assoc)
  show ?thesis
    unfolding dispatch_def skip
    using assms
    by (intro drops_if drops_request advancing_requests advancing_NewMessageWithReader
        calm_intros nongrowing_intros) (auto simp: calm_handler_def)
qed

lemma dispatch_consumes:
  assumes "calm_handler h" "dispatch h t s = (x, s')" "peekBuf (c_reader (s_conn s)) \<noteq> []"
  shows "s_left s' < s_left s"
  using drops_dispatch [OF assms(1), of t] assms(2,3) by (metis drops_def snd_conv)

lemma receive_step_consumes:
  assumes "calm_handler h" "receive_step h s = (Ok True, s')"
  shows "s_left s' < s_left s"
proof -
  obtain y s1 where y: "on_conn (on_reader PeekType) s = (y, s1)" by fastforce
  from assms(2) y obtain t where t: "y = Ok t"
    by (cases y) (auto simp: receive_step_def goseq_def gotry_def ret_def split: prod.splits res.splits)
  have peeked: "peekBuf (c_reader (s_conn s1)) \<noteq> []" "s_left s1 \<le> s_left s"
    using PeekType_Ok_peeked [of "c_reader (s_conn s)" t] on_reader_step [OF y] t by (simp_all add: s_left_def)
  have after: "s_left s' \<le> s_left s2" if "after_request rs e s2 = (Ok True, s')" for rs e s2
    using calmD [OF calm_after_request that] .
  show ?thesis
  proof (cases "t = TerminateMessage")
    case True
    obtain z s2 where z: "on_conn (on_reader NewTerminateWithReader) s1 = (z, s2)" by fastforce
    have "s_left s2 < s_left s1"
      using advancingD [OF advancing_requests(9) on_reader_step [OF z] peeked(1)] by (simp add: s_left_def)
    moreover have "s_left s' \<le> s_left s2"
      using assms(2) y t True z after
      by (cases z) (auto simp: receive_step_def goseq_def gotry_def ret_def)
    ultimately show ?thesis using peeked(2) by simp
  next
    case False
    obtain z s2 where z: "dispatch h t s1 = (z, s2)" by fastforce
    have "s_left s' \<le> s_left s2"
      using assms(2) y t False z after
      by (cases z) (auto simp: receive_step_def goseq_def gotry_def ret_def)
    with dispatch_consumes [OF assms(1) z peeked(1)] peeked(2) show ?thesis by simp
  qed
qed

lemma calm_loop_ends:
  assumes "calm_handler h" and "s_left s < fuel"
  shows "\<exists>x s'. receive_loop fuel h s = Some (x, s')"
  using assms(2)
proof (induction fuel arbitrary: s)
  case (Suc fuel)
  obtain x s1 where step: "receive_step h s = (x, s1)" by fastforce
  show ?case
  proof (cases "x = Ok True")
    case True
    with receive_step_consumes [OF assms(1)] step Suc.prems have "s_left s1 < fuel" by fastforce
    with Suc.IH step True show ?thesis by simp
  next
    case False
    with step show ?thesis by (cases x) auto
  qed
qed simp

section \<open>The copy loop is calm\<close>

lemma nongrowing_CopyData [nongrowing_intros]: "nongrowing NewCopyDataWithReader"
  unfolding NewCopyDataWithReader_def Let_def by (intro nongrowing_intros)

lemma nongrowing_CopyStream_Next [nongrowing_intros]: "nongrowing CopyStream_Next"
  unfolding CopyStream_Next_def skipCopyDone_def
  by (intro nongrowing_intros) (auto split: sum.split intro!: nongrowing_intros)

lemma copy_loop_left: "left (fst (snd (copy_loop mk ins nCopy nFail r a))) \<le> left r"
proof (induction mk ins nCopy nFail r a rule: copy_loop.induct)
  case (1 mk ins nCopy nFail r a)
  obtain x r' where row: "CopyStream_Next r = (x, r')" by fastforce
  have le: "left r' \<le> left r" using nongrowingD [OF nongrowing_CopyStream_Next row] .
  show ?case
  proof (cases x)
    case (Ok cp)
    note IH = 1 [OF row [symmetric] Ok]
    note unfold = copy_loop.simps [of mk ins nCopy nFail r a]
    show ?thesis
    proof (cases "mk (copy_Data cp)")
      case mk: (Ok q)
      obtain y a' where ins: "ins q a = (y, a')" by fastforce
      then show ?thesis
        using IH(1) [OF mk ins [symmetric]] IH(2) [OF mk ins [symmetric]] le row Ok mk
        by (cases y) (simp_all add: unfold)
    next
      case (Err e)
      then show ?thesis using IH(3) [OF Err] le row Ok by (simp add: unfold)
    qed (use le row Ok in \<open>simp add: unfold\<close>)
  qed (use le row in \<open>simp_all add: copy_loop.simps [of mk ins nCopy nFail r a]\<close>)
qed

lemma calm_copy_data: "calm (NewCopyCompleteResponsesFrom mk table cols ins stmt)"
proof -
  have "left (c_reader (s_conn (snd (NewCopyCompleteResponsesFrom mk table cols ins stmt s)))) \<le> left (c_reader (s_conn s))" for s
    by (simp add: NewCopyCompleteResponsesFrom_def Let_def case_prod_beta copy_loop_left)
  then show ?thesis by (simp add: calm_def s_left_def)
qed

text \<open>
  C19: the server's request loop ends, whatever the client sends. With a copy executor that reads on,
  as the one over a copy stream does, as many rounds as there are bytes to come, and one more, are
  enough for the loop to return or to panic.
\<close>

theorem receive_loop_terminates:
  assumes "\<And>stmt. calm (sv_CopyData sv stmt)" and "s_left s < fuel"
  shows "\<exists>x s'. receive_loop fuel (server_handler sv) s = Some (x, s')"
  using calm_loop_ends [OF calm_server_handler [of sv] assms(2)] assms(1) by blast

theorem receive_loop_terminates_witness:
  "\<exists>x s'. receive_loop 1 (server_handler ((small_server (Some counting_executor) (\<lambda>q. Ok []))
      \<lparr>sv_CopyData := NewCopyCompleteResponsesFrom plain_insert ''t'' [''a''] (\<lambda>_ _. ret [])\<rparr>)) (session_of 0) =
    Some (x, s')"
  by (rule receive_loop_terminates)
    (simp_all add: calm_copy_data s_left_def left_def session_of_def NewConnWith_def NewReaderWithConn_def
      new_net_conn_def reader_pending_def src_pending_def conn_pending_def)

end
