(* ===== verification/Session_Proofs.thy ===== *)
theory Session_Proofs
  imports Server_Proofs
begin

text \<open>
  What a client sees of the server: the startup dialogue, the answer to each request, and the ready
  messages between them.
\<close>

section \<open>Reading does not write\<close>

text \<open>The side of the connection that reading leaves alone: open, what was sent, the next writes\<close>

definition wire :: "bytes list \<Rightarrow> bool list \<Rightarrow> bool \<Rightarrow> io_source \<Rightarrow> bool" where
  "wire out fails dl src \<longleftrightarrow> (\<exists>c. src = NetConn c \<and> \<not> conn_closed c \<and> outbox c = out \<and>
     write_fails c = fails \<and> read_deadline c = dl)"

definition rwire :: "bytes list \<Rightarrow> bool list \<Rightarrow> bool \<Rightarrow> reader \<Rightarrow> bool" where
  "rwire out fails dl r \<longleftrightarrow> wire out fails dl (rsrc r)"

lemma wire_src_Read: "src_Read n src = (x, src') \<Longrightarrow> wire out fails dl src \<Longrightarrow> wire out fails dl src'"
  by (auto simp: wire_def src_Read_def conn_Read_def split: if_splits prod.splits)

lemma wire_read_loop:
  "read_loop src_Read fuel need src = Some (x, src') \<Longrightarrow> wire out fails dl src \<Longrightarrow> wire out fails dl src'"
proof (induction fuel arbitrary: need src x src')
  case (Suc fuel)
  then show ?case
    by (auto split: if_splits prod.splits option.splits dest: wire_src_Read)
qed (auto split: if_splits)

lemma wire_ReadAtLeast:
  "ReadAtLeast src_Read n src = (x, src') \<Longrightarrow> wire out fails dl src \<Longrightarrow> wire out fails dl src'"
  by (auto simp: ReadAtLeast_def split: option.splits prod.splits if_splits dest: wire_read_loop)

lemma keeps_wire_ReadBytes [keeps_intros]: "keeps (rwire out fails dl) (ReadBytes n)"
  by (rule keepsI)
    (auto simp: rwire_def ReadBytes_def Let_def split: prod.splits option.splits dest: wire_ReadAtLeast)

lemma keeps_wire_Read_direct [keeps_intros]: "keeps (rwire out fails dl) (Read_direct n)"
  by (rule keepsI)
    (auto simp: rwire_def Read_direct_def split: prod.splits option.splits dest: wire_src_Read)

lemma keeps_wire_ReadByte [keeps_intros]: "keeps (rwire out fails dl) ReadByte"
  unfolding ReadByte_def by (intro keeps_intros)

lemma keeps_wire_ReadInt32 [keeps_intros]: "keeps (rwire out fails dl) ReadInt32"
  unfolding ReadInt32_def by (intro keeps_intros)

lemma keeps_wire_ReadInt16 [keeps_intros]: "keeps (rwire out fails dl) ReadInt16"
  unfolding ReadInt16_def by (intro keeps_intros)

lemma keeps_wire_peeked [keeps_intros]:
  "keeps (rwire out fails dl) (modify (\<lambda>r. r\<lparr>peekBuf := peekBuf r @ buf\<rparr>))"
  by (rule keepsI) (simp add: rwire_def modify_def)

lemma keeps_wire_PeekType [keeps_intros]: "keeps (rwire out fails dl) PeekType"
  unfolding PeekType_def PeekBytes_def by (intro keeps_intros)

lemma keeps_wire_PeekInt32 [keeps_intros]: "keeps (rwire out fails dl) PeekInt32"
  unfolding PeekInt32_def PeekBytes_def by (intro keeps_intros)

lemma keeps_wire_ReadBytesUntil_loop: "rwire out fails dl r \<Longrightarrow> rwire out fails dl (snd (ReadBytesUntil_loop delim buf r))"
proof (induction delim buf r rule: ReadBytesUntil_loop.induct)
  case (1 delim buf r)
  obtain x r1 where rb: "ReadByte r = (x, r1)" by fastforce
  with keepsD [OF keeps_wire_ReadByte 1(2)] have "rwire out fails dl r1" by blast
  then show ?case
    using 1(1) [OF rb [symmetric]] rb by (cases x) (simp_all add: ReadBytesUntil_loop.simps [of delim buf r])
qed

lemma keeps_wire_ReadString [keeps_intros]: "keeps (rwire out fails dl) ReadString"
  unfolding ReadString_def ReadBytesUntil_def
  by (intro keeps_intros) (simp add: keeps_def keeps_wire_ReadBytesUntil_loop)

lemma keeps_wire_NewMessageWithReader [keeps_intros]: "keeps (rwire out fails dl) NewMessageWithReader"
  unfolding NewMessageWithReader_def ReadType_def ReadLength_def by (intro keeps_intros)

lemma keeps_wire_NewRequestMessageWithReader [keeps_intros]:
  "keeps (rwire out fails dl) NewRequestMessageWithReader"
  unfolding NewRequestMessageWithReader_def by (intro keeps_intros)

lemma keeps_wire_ReadMessageData [keeps_intros]: "keeps (rwire out fails dl) (ReadMessageData msg)"
  unfolding ReadMessageData_def Let_def by (intro keeps_intros)

lemma keeps_wire_NewPasswordWithReader [keeps_intros]: "keeps (rwire out fails dl) NewPasswordWithReader"
  unfolding NewPasswordWithReader_def by (intro keeps_intros)

lemma keeps_wire_NewSyncWithReader [keeps_intros]: "keeps (rwire out fails dl) NewSyncWithReader"
  unfolding NewSyncWithReader_def by (intro keeps_intros)

section \<open>The state between two requests\<close>

text \<open>
  An idle connection: open, no deadline, all writes succeed, at most the next type byte peeked.
\<close>

definition idle :: "conn \<Rightarrow> bool" where
  "idle c \<longleftrightarrow> (\<exists>out. rwire out [] False (c_reader c)) \<and> length (peekBuf (c_reader c)) \<le> 1"

lemma idle_writable: "idle c \<Longrightarrow> writable c"
  by (auto simp: idle_def rwire_def wire_def writable_def)

lemma idle_patient: "idle c \<Longrightarrow> reader_patient (c_reader c)"
  by (auto simp: idle_def rwire_def wire_def reader_patient_def src_patient_def conn_patient_def)

lemma idle_wire: "idle c \<Longrightarrow> rwire (sent c) [] False (c_reader c)"
  by (auto simp: idle_def rwire_def wire_def sent_def)

lemma idle_put_out: "idle c \<Longrightarrow> idle (put_out b c)"
  by (auto simp: idle_def rwire_def wire_def put_out_def)

lemma idle_fold_put_out: "idle c \<Longrightarrow> idle (fold put_out bs c)"
  by (induction bs arbitrary: c) (simp_all add: idle_put_out)

lemma on_reader_idle:
  assumes "keeps (rwire (sent c) [] False) m" "on_reader m c = (x, c')" "idle c"
    "length (peekBuf (c_reader c')) \<le> 1"
  shows "idle c' \<and> sent c' = sent c \<and> c_txLocked c' = c_txLocked c"
proof -
  from assms(2) obtain r' where r': "m (c_reader c) = (x, r')" "c' = c\<lparr>c_reader := r'\<rparr>"
    by (auto simp: on_reader_def on_part_def split: prod.splits)
  with keepsD [OF assms(1) idle_wire [OF assms(3)] r'(1)] assms(4) show ?thesis
    by (auto simp: idle_def rwire_def wire_def sent_def)
qed

lemma narrow_step:
  assumes "parses (\<lambda>r. length (peekBuf r) \<le> 1) m bs x" "keeps (rwire (sent c) [] False) m" "idle c"
    "reader_pending (c_reader c) = bs @ rest"
  shows "\<exists>c'. on_reader m c = (Ok x, c') \<and> idle c' \<and> sent c' = sent c \<and> c_txLocked c' = c_txLocked c \<and>
    c_uuid c' = c_uuid c \<and> c_db c' = c_db c \<and> c_tls c' = c_tls c \<and> c_isClosed c' = c_isClosed c \<and>
    reader_pending (c_reader c') = rest"
proof -
  have peek: "length (peekBuf (c_reader c)) \<le> 1" using assms(3) by (simp add: idle_def)
  obtain r' where r': "m (c_reader c) = (Ok x, r')" "length (peekBuf r') \<le> 1" "reader_pending r' = rest"
    using parsesE [OF assms(1) peek idle_patient [OF assms(3)] assms(4)] by metis
  then have "on_reader m c = (Ok x, c\<lparr>c_reader := r'\<rparr>)" by (simp add: on_reader_def on_part_def)
  with on_reader_idle [OF assms(2) this assms(3)] r' show ?thesis by auto
qed

section \<open>All bytes in one segment\<close>

text \<open>
  The connections whose remaining bytes have arrived together, with at most the next type byte
  peeked. Whether a ready message is sent depends on what is there at once, so the answers of the
  server are stated for them.
\<close>

definition front :: "reader \<Rightarrow> bool" where
  "front r \<longleftrightarrow> length (peekBuf r) \<le> 1 \<and> whole_source (rsrc r)"

interpretation front: reader_class front
proof unfold_locales
  fix bs
  show "parses front (ReadBytes (length bs)) bs bs"
  proof (rule parsesI)
    fix r rest
    assume r: "front r" "reader_patient r" "reader_pending r = bs @ rest"
    let ?k = "length (peekBuf r)"
    have src: "whole_source (rsrc r)" "src_patient (rsrc r)"
      using r(1,2) by (simp_all add: front_def reader_patient_def)
    show "\<exists>r'. ReadBytes (length bs) r = (Ok bs, r') \<and> front r' \<and> reader_patient r' \<and> reader_pending r' = rest"
    proof (cases "length bs \<le> ?k")
      case True
      moreover have "take (length bs) (peekBuf r) = bs" "drop (length bs) (peekBuf r) @ src_pending (rsrc r) = rest"
        using arg_cong [OF r(3), of "take (length bs)"] arg_cong [OF r(3), of "drop (length bs)"] True
        by (simp_all add: reader_pending_def)
      ultimately show ?thesis
        using r(1,2)
        by (auto simp: ReadBytes_def Let_def min_def front_def reader_patient_def reader_pending_def)
    next
      case False
      have "peekBuf r = take ?k bs" "src_pending (rsrc r) = drop ?k bs @ rest"
        using arg_cong [OF r(3), of "take ?k"] arg_cong [OF r(3), of "drop ?k"] False
        by (simp_all add: reader_pending_def)
      then have split: "bs = peekBuf r @ drop ?k bs" "src_pending (rsrc r) = drop ?k bs @ rest"
        by (metis append_take_drop_id, simp)
      have "length bs - ?k \<le> length (src_pending (rsrc r))" by (simp add: split(2))
      from ReadAtLeast_whole [OF src this] obtain src' where
        "ReadAtLeast src_Read (length bs - ?k) (rsrc r) = ((drop ?k bs, None), src')"
        "whole_source src'" "src_patient src'" "src_pending src' = rest"
        by (auto simp: split(2))
      then show ?thesis
        using False split(1) r(1)
        by (auto simp: ReadBytes_def Let_def min_def front_def reader_patient_def reader_pending_def)
    qed
  qed
qed

lemma peek_front:
  assumes "front r" "reader_patient r" "reader_pending r = t # rest"
  obtains r1 where "PeekType r = (Ok t, r1)" "front r1" "reader_patient r1" "reader_pending r1 = t # rest"
proof -
  obtain r1 where r1: "ReadBytes 1 r = (Ok [t], r1)" "front r1" "reader_patient r1" "reader_pending r1 = rest"
    using parsesE [OF front.parses_ReadBytes [of "[t]"] assms(1,2), of rest] assms(3) by auto
  have "peekBuf r1 = []" using ReadBytes_Ok(3) [OF r1(1)] assms(1) by (simp add: front_def)
  then have "PeekType r = (Ok t, r1\<lparr>peekBuf := [t]\<rparr>)"
    using r1(1) by (simp add: PeekType_def PeekBytes_def go_simps)
  with that [of "r1\<lparr>peekBuf := [t]\<rparr>"] r1 \<open>peekBuf r1 = []\<close> show thesis
    by (simp add: front_def reader_patient_def reader_pending_def)
qed

definition fronted :: "conn \<Rightarrow> bool" where
  "fronted c \<longleftrightarrow> idle c \<and> whole_source (rsrc (c_reader c))"

lemma fronted_front: "fronted c \<Longrightarrow> front (c_reader c)"
  by (simp add: fronted_def front_def idle_def)

lemma fronted_put_out: "fronted c \<Longrightarrow> fronted (put_out b c)"
  using idle_put_out [of c b]
  by (cases "rsrc (c_reader c)") (auto simp: fronted_def put_out_def whole_source_def)

lemma fronted_fold_put_out: "fronted c \<Longrightarrow> fronted (fold put_out bs c)"
  by (induction bs arbitrary: c) (simp_all add: fronted_put_out)

text \<open>What reading leaves of a connection\<close>

definition same_side :: "conn \<Rightarrow> conn \<Rightarrow> bool" where
  "same_side c c' \<longleftrightarrow> sent c' = sent c \<and> c_txLocked c' = c_txLocked c \<and> c_uuid c' = c_uuid c \<and>
     c_db c' = c_db c \<and> c_tls c' = c_tls c \<and> c_isClosed c' = c_isClosed c"

lemma same_side_trans: "same_side a b \<Longrightarrow> same_side b c \<Longrightarrow> same_side a c"
  by (simp add: same_side_def)

lemma front_step:
  assumes "parses front m bs x" "keeps (rwire (sent c) [] False) m" "fronted c"
    "reader_pending (c_reader c) = bs @ rest"
  shows "\<exists>c'. on_reader m c = (Ok x, c') \<and> fronted c' \<and> same_side c c' \<and> reader_pending (c_reader c') = rest"
proof -
  have c: "idle c" "front (c_reader c)" "reader_patient (c_reader c)"
    using assms(3) fronted_front idle_patient by (auto simp: fronted_def)
  obtain r' where r': "m (c_reader c) = (Ok x, r')" "front r'" "reader_pending r' = rest"
    using parsesE [OF assms(1) c(2,3) assms(4)] by metis
  have w: "rwire (sent c) [] False r'" using keepsD [OF assms(2) idle_wire [OF c(1)] r'(1)] .
  then have "idle (c\<lparr>c_reader := r'\<rparr>)" "sent (c\<lparr>c_reader := r'\<rparr>) = sent c"
    using r'(2) by (auto simp: idle_def front_def rwire_def wire_def sent_def)
  with r' show ?thesis
    by (intro exI [of _ "c\<lparr>c_reader := r'\<rparr>"])
      (simp add: on_reader_def on_part_def fronted_def front_def same_side_def)
qed

lemma PeekType_front:
  assumes "fronted c" "reader_pending (c_reader c) = t # rest"
  shows "\<exists>c'. on_reader PeekType c = (Ok t, c') \<and> fronted c' \<and> same_side c c' \<and>
    reader_pending (c_reader c') = t # rest"
proof -
  have c: "idle c" "front (c_reader c)" "reader_patient (c_reader c)"
    using assms(1) fronted_front idle_patient by (auto simp: fronted_def)
  obtain r1 where r1: "ReadBytes 1 (c_reader c) = (Ok [t], r1)" "front r1" "reader_pending r1 = rest"
    using parsesE [OF front.parses_ReadBytes [of "[t]"] c(2,3), of rest] assms(2) by auto
  have "peekBuf r1 = drop 1 (peekBuf (c_reader c))" using ReadBytes_Ok(3) [OF r1(1)] .
  then have "peekBuf r1 = []" using c(2) by (auto simp: front_def)
  define r' where "r' = r1\<lparr>peekBuf := [t]\<rparr>"
  have pk: "PeekType (c_reader c) = (Ok t, r')"
    using r1(1) \<open>peekBuf r1 = []\<close> by (simp add: r'_def PeekType_def PeekBytes_def go_simps)
  have w: "rwire (sent c) [] False r'" using keepsD [OF keeps_wire_PeekType idle_wire [OF c(1)] pk] .
  then have "idle (c\<lparr>c_reader := r'\<rparr>)" "sent (c\<lparr>c_reader := r'\<rparr>) = sent c"
    by (auto simp: idle_def rwire_def wire_def sent_def r'_def)
  moreover have "reader_pending r' = t # rest" "whole_source (rsrc r')"
    using r1 \<open>peekBuf r1 = []\<close> by (simp_all add: r'_def reader_pending_def front_def)
  ultimately show ?thesis
    using pk by (intro exI [of _ "c\<lparr>c_reader := r'\<rparr>"])
      (simp add: on_reader_def on_part_def fronted_def same_side_def)
qed

lemma fronted_cases:
  assumes "fronted c"
  obtains nc where "rsrc (c_reader c) = NetConn nc" "\<not> conn_closed nc" "\<not> read_deadline nc"
    "inbox nc = [] \<or> (\<exists>bs. inbox nc = [Arrive bs])" "outbox nc = sent c" "write_fails nc = []"
proof -
  obtain nc where nc: "rsrc (c_reader c) = NetConn nc" "\<not> conn_closed nc" "write_fails nc = []" "\<not> read_deadline nc"
    using assms by (auto simp: fronted_def idle_def rwire_def wire_def)
  moreover from this have "inbox nc = [] \<or> (\<exists>bs. inbox nc = [Arrive bs])"
    using assms by (auto simp: fronted_def whole_source_def split: list.splits net_event.splits)
  ultimately show thesis using that by (simp add: sent_def)
qed

lemma PeekType_end:
  assumes "fronted c" "reader_pending (c_reader c) = []"
  shows "\<exists>c'. on_reader PeekType c = (Err EOF, c') \<and> fronted c' \<and> same_side c c'"
proof -
  obtain nc where nc: "rsrc (c_reader c) = NetConn nc" "\<not> conn_closed nc" "\<not> read_deadline nc"
    "inbox nc = [] \<or> (\<exists>bs. inbox nc = [Arrive bs])" "outbox nc = sent c" "write_fails nc = []"
    using fronted_cases [OF assms(1)] .
  have peek: "peekBuf (c_reader c) = []" using assms(2) by (simp add: reader_pending_def)
  have inbox: "inbox nc = [] \<or> inbox nc = [Arrive []]"
    using nc(1,4) assms(2) by (auto simp: reader_pending_def src_pending_def conn_pending_def)
  let ?r = "\<lparr>rsrc = NetConn (nc\<lparr>inbox := []\<rparr>), peekBuf = []\<rparr>"
  have "src_Read 1 (NetConn nc) = (([], Some EOF), NetConn (nc\<lparr>inbox := []\<rparr>))"
    using inbox nc(2) by (auto simp: src_Read_def conn_Read_def)
  then have "ReadAtLeast src_Read 1 (NetConn nc) = (([], Some EOF), NetConn (nc\<lparr>inbox := []\<rparr>))"
    by (simp add: ReadAtLeast_def)
  then have "PeekType (c_reader c) = (Err EOF, ?r)"
    using nc(1) peek
    by (cases "c_reader c") (simp add: PeekType_def PeekBytes_def ReadBytes_def go_simps Let_def)
  then have "on_reader PeekType c = (Err EOF, c\<lparr>c_reader := ?r\<rparr>)"
    by (simp add: on_reader_def on_part_def)
  then show ?thesis
    using nc by (auto simp: fronted_def idle_def rwire_def wire_def whole_source_def same_side_def sent_def)
qed

section \<open>The ready message\<close>

text \<open>
  Looking for the next message: the look succeeds when a byte is there, fails at the end, and leaves
  the stream as it was.
\<close>

lemma peek_next:
  assumes "fronted c"
  shows "\<exists>x c'. on_reader PeekTypeNonBlocking c = (x, c') \<and> fronted c' \<and> same_side c c' \<and>
    reader_pending (c_reader c') = reader_pending (c_reader c) \<and>
    (if reader_pending (c_reader c) = [] then \<exists>e. x = Err e else \<exists>t. x = Ok t)"
proof -
  obtain nc where nc: "rsrc (c_reader c) = NetConn nc" "\<not> conn_closed nc" "\<not> read_deadline nc"
    "inbox nc = [] \<or> (\<exists>bs. inbox nc = [Arrive bs])" "outbox nc = sent c" "write_fails nc = []"
    using fronted_cases [OF assms] .
  have narrow: "length (peekBuf (c_reader c)) \<le> 1" using assms by (simp add: fronted_def idle_def)
  let ?nc = "nc\<lparr>read_deadline := True\<rparr>"
  note defs = PeekTypeNonBlocking_def SetReadDeadline_def conn_SetReadDeadline_def PeekType_def PeekBytes_def
    ReadBytes_def go_simps Let_def on_reader_def
  show ?thesis
  proof (cases "peekBuf (c_reader c)")
    case (Cons t ts)
    with narrow have t: "peekBuf (c_reader c) = [t]" by simp
    let ?r = "\<lparr>rsrc = NetConn nc, peekBuf = [t]\<rparr>"
    have "nc\<lparr>read_deadline := False\<rparr> = nc" using nc(3) by (cases nc) simp
    then have "PeekTypeNonBlocking (c_reader c) = (Ok t, ?r)"
      using nc t by (cases "c_reader c") (simp add: defs)
    moreover have "c_reader c = ?r" using nc(1) t by (cases "c_reader c") simp
    ultimately have "on_reader PeekTypeNonBlocking c = (Ok t, c)"
      by (cases c) (simp add: on_reader_def on_part_def)
    then show ?thesis using assms t by (auto simp: same_side_def reader_pending_def)
  next
    case Nil
    show ?thesis
    proof (cases "reader_pending (c_reader c)")
      case (Cons t ts)
      then have inbox: "inbox nc = [Arrive (t # ts)]"
        using nc(1,4) Nil by (auto simp: reader_pending_def src_pending_def conn_pending_def)
      let ?in = "if ts = [] then [] else [Arrive ts]"
      let ?r = "\<lparr>rsrc = NetConn (nc\<lparr>inbox := ?in, read_deadline := False\<rparr>), peekBuf = [t]\<rparr>"
      have "src_Read 1 (NetConn ?nc) = (([t], None), NetConn (?nc\<lparr>inbox := ?in\<rparr>))"
        using inbox nc(2) by (auto simp: src_Read_def conn_Read_def Suc_le_eq)
      then have "ReadAtLeast src_Read 1 (NetConn ?nc) = (([t], None), NetConn (?nc\<lparr>inbox := ?in\<rparr>))"
        by (rule ReadAtLeast_once) simp_all
      then have "PeekTypeNonBlocking (c_reader c) = (Ok t, ?r)"
        using nc Nil by (cases "c_reader c") (simp add: defs)
      then have "on_reader PeekTypeNonBlocking c = (Ok t, c\<lparr>c_reader := ?r\<rparr>)"
        by (simp add: on_reader_def on_part_def)
      moreover have "fronted (c\<lparr>c_reader := ?r\<rparr>)" "same_side c (c\<lparr>c_reader := ?r\<rparr>)"
        using nc by (auto simp: fronted_def idle_def rwire_def wire_def whole_source_def same_side_def sent_def)
      moreover have "reader_pending ?r = t # ts"
        by (simp add: reader_pending_def src_pending_def conn_pending_def)
      ultimately show ?thesis using Cons by (intro exI [of _ "Ok t"] exI [of _ "c\<lparr>c_reader := ?r\<rparr>"]) simp
    next
      assume empty: "reader_pending (c_reader c) = []"
      then have inbox: "inbox nc = [] \<or> inbox nc = [Arrive []]"
        using nc(1,4) Nil by (auto simp: reader_pending_def src_pending_def conn_pending_def)
      let ?r = "\<lparr>rsrc = NetConn (nc\<lparr>inbox := [], read_deadline := False\<rparr>), peekBuf = []\<rparr>"
      have "src_Read 1 (NetConn ?nc) = (([], Some EOF), NetConn (?nc\<lparr>inbox := []\<rparr>))"
        using inbox nc(2) by (auto simp: src_Read_def conn_Read_def)
      then have "ReadAtLeast src_Read 1 (NetConn ?nc) = (([], Some EOF), NetConn (?nc\<lparr>inbox := []\<rparr>))"
        by (simp add: ReadAtLeast_def)
      then have "PeekTypeNonBlocking (c_reader c) = (Err EOF, ?r)"
        using nc Nil by (cases "c_reader c") (simp add: defs)
      then have "on_reader PeekTypeNonBlocking c = (Err EOF, c\<lparr>c_reader := ?r\<rparr>)"
        by (simp add: on_reader_def on_part_def)
      moreover have "fronted (c\<lparr>c_reader := ?r\<rparr>)" "same_side c (c\<lparr>c_reader := ?r\<rparr>)"
        using nc by (auto simp: fronted_def idle_def rwire_def wire_def whole_source_def same_side_def sent_def)
      moreover have "reader_pending ?r = []"
        by (simp add: reader_pending_def src_pending_def conn_pending_def)
      ultimately show ?thesis using empty by (intro exI [of _ "Err EOF"] exI [of _ "c\<lparr>c_reader := ?r\<rparr>"]) simp
    qed
  qed
qed

definition ready_frame :: "conn \<Rightarrow> bytes" where
  "ready_frame c = frame ReadyForQueryMessage [if c_txLocked c then TransactionBlock else TransactionIdle]"

text \<open>The bytes of the error of a request, if it has one\<close>

definition error_frames :: "gerr option \<Rightarrow> bytes list" where
  "error_frames err = (case err of None \<Rightarrow> [] | Some e \<Rightarrow> [fst (ErrorResponse_Bytes (NewErrorResponseWith e))])"

lemma after_request_front:
  assumes "fronted (s_conn s)" "list_all2 (\<lambda>res b. fst (Response_Bytes res) = Ok b) rs bs"
  shows "\<exists>c'. after_request rs err s = (Ok True, s\<lparr>s_conn := c'\<rparr>) \<and> fronted c' \<and>
    sent c' = sent (s_conn s) @ bs @ error_frames err @
      (if reader_pending (c_reader (s_conn s)) = [] then [ready_frame (s_conn s)] else []) \<and>
    reader_pending (c_reader c') = reader_pending (c_reader (s_conn s)) \<and>
    c_txLocked c' = c_txLocked (s_conn s)"
proof -
  let ?c = "s_conn s"
  let ?c1 = "fold put_out bs ?c"
  let ?c2 = "fold put_out (error_frames err) ?c1"
  have w: "writable ?c" using assms(1) idle_writable by (simp add: fronted_def)
  have r1: "ResponseMessages rs ?c = (Ok (), ?c1)" by (rule ResponseMessages_Ok [OF assms(2) w])
  have r2: "ResponseError err ?c1 = (Ok (), ?c2)"
    using w ResponseError_Ok [of ?c1]
    by (cases err) (simp_all add: error_frames_def ResponseError_def ret_def)
  have f2: "fronted ?c2" by (intro fronted_fold_put_out assms(1))
  obtain x c3 where c3: "on_reader PeekTypeNonBlocking ?c2 = (x, c3)" "fronted c3" "same_side ?c2 c3"
    "reader_pending (c_reader c3) = reader_pending (c_reader ?c2)"
    "if reader_pending (c_reader ?c2) = [] then \<exists>e. x = Err e else \<exists>t. x = Ok t"
    using peek_next [OF f2] by blast
  have sent3: "sent c3 = sent ?c @ bs @ error_frames err" "c_txLocked c3 = c_txLocked ?c"
    using c3(3) w by (simp_all add: same_side_def)
  have w3: "writable c3" using c3(2) idle_writable by (simp add: fronted_def)
  have steps: "after_request rs err s =
      (case x of Ok _ \<Rightarrow> (Ok True, s\<lparr>s_conn := c3\<rparr>)
       | Err _ \<Rightarrow> goseq (on_conn ReadyForMessage) (\<lambda>_. ret True) (s\<lparr>s_conn := c3\<rparr>)
       | Panic p \<Rightarrow> (Panic p, s\<lparr>s_conn := c3\<rparr>))"
    using r1 r2 c3(1)
    by (cases x) (simp_all add: after_request_def goseq_def gotry_def on_conn_def on_part_def ret_def)
  show ?thesis
  proof (cases "reader_pending (c_reader ?c) = []")
    case False
    with c3(5) w obtain t where "x = Ok t" by auto
    with steps c3 sent3 False w show ?thesis by (intro exI [of _ c3]) simp
  next
    case True
    with c3(5) w obtain e where e: "x = Err e" by auto
    have "ReadyForMessage c3 = (Ok (), put_out (ready_frame ?c) c3)"
      using ready_message [OF w3] sent3(2) by (simp add: ready_frame_def)
    then have "after_request rs err s = (Ok True, s\<lparr>s_conn := put_out (ready_frame ?c) c3\<rparr>)"
      using steps e by (simp add: goseq_def on_conn_def on_part_def ret_def)
    with c3 sent3 True w w3 show ?thesis
      by (intro exI [of _ "put_out (ready_frame ?c) c3"]) (simp add: fronted_put_out)
  qed
qed

end
