(* ===== verification/Sessions.thy ===== *)
theory Sessions
  imports Session_Proofs
begin

text \<open>
  Rounds of the request loop as a client sees them: what is on the wire after a request, compared
  with a specification that knows neither readers nor connections.
\<close>

section \<open>A round of the loop\<close>

definition finish :: "gerr + responses \<Rightarrow> ('a, bool) sm" where
  "finish x = (case x of Inr resMsgs \<Rightarrow> after_request resMsgs None | Inl reqErr \<Rightarrow> after_request [] (Some reqErr))"

lemma read_request:
  assumes "parses front parser (t # bs) m" "\<And>out. keeps (rwire out [] False) parser"
    and "fronted (s_conn s)" "reader_pending (c_reader (s_conn s)) = (t # bs) @ rest"
    and "t \<noteq> TerminateMessage" "dispatch h t = request parser handler"
  obtains c where "fronted c" "same_side (s_conn s) c" "reader_pending (c_reader c) = rest"
    "receive_step h s = goseq (gotry (handler m)) finish (s\<lparr>s_conn := c\<rparr>)"
proof -
  obtain c1 where c1: "on_reader PeekType (s_conn s) = (Ok t, c1)" "fronted c1" "same_side (s_conn s) c1"
    "reader_pending (c_reader c1) = (t # bs) @ rest"
    using PeekType_front [OF assms(3), of t "bs @ rest"] assms(4) by auto
  obtain c2 where c2: "on_reader parser c1 = (Ok m, c2)" "fronted c2" "same_side c1 c2"
    "reader_pending (c_reader c2) = rest"
    using front_step [OF assms(1,2) c1(2,4)] by blast
  have "receive_step h s = goseq (gotry (dispatch h t)) finish (s\<lparr>s_conn := c1\<rparr>)"
    unfolding finish_def [abs_def] using c1(1) assms(5)
    by (cases "dispatch h t (s\<lparr>s_conn := c1\<rparr>)"; cases "fst (dispatch h t (s\<lparr>s_conn := c1\<rparr>))")
      (auto simp: receive_step_def goseq_def gotry_def on_conn_def on_part_def)
  also have "\<dots> = goseq (gotry (handler m)) finish (s\<lparr>s_conn := c2\<rparr>)"
    using c2(1) by (simp add: assms(6) request_def goseq_def gotry_def on_conn_def on_part_def)
  finally show thesis using that [OF c2(2) same_side_trans [OF c1(3) c2(3)] c2(4)] by blast
qed

lemma frame_not_Nil [simp]: "frame t payload \<noteq> []"
  by (simp add: frame_def header_def)

text \<open>The bytes of a list of responses, each of which must have some\<close>

definition all_sendable :: "responses \<Rightarrow> bool" where
  "all_sendable rs = list_all (\<lambda>res. case fst (Response_Bytes res) of Ok _ \<Rightarrow> True | _ \<Rightarrow> False) rs"

definition wire_of :: "responses \<Rightarrow> bytes list" where
  "wire_of rs = map (\<lambda>res. case fst (Response_Bytes res) of Ok b \<Rightarrow> b | _ \<Rightarrow> []) rs"

lemma sendable_simps [simp]:
  "all_sendable []" "all_sendable (rs @ rs') \<longleftrightarrow> all_sendable rs \<and> all_sendable rs'"
  "wire_of [] = []" "wire_of (rs @ rs') = wire_of rs @ wire_of rs'"
  by (simp_all add: all_sendable_def wire_of_def)

lemma sendable_list_all2: "all_sendable rs \<Longrightarrow> list_all2 (\<lambda>res b. fst (Response_Bytes res) = Ok b) rs (wire_of rs)"
  unfolding all_sendable_def wire_of_def by (induction rs) (auto split: res.splits)

lemma finish_front:
  assumes "gotry m s0 = (Ok x, s2)" "fronted (s_conn s2)"
    and "all_sendable (case x of Inr rs \<Rightarrow> rs | Inl _ \<Rightarrow> [])"
  shows "\<exists>c'. goseq (gotry m) finish s0 = (Ok True, s2\<lparr>s_conn := c'\<rparr>) \<and> fronted c' \<and>
    sent c' = sent (s_conn s2) @ (case x of Inr rs \<Rightarrow> wire_of rs | Inl e \<Rightarrow> error_frames (Some e)) @
      (if reader_pending (c_reader (s_conn s2)) = [] then [ready_frame (s_conn s2)] else []) \<and>
    reader_pending (c_reader c') = reader_pending (c_reader (s_conn s2)) \<and>
    c_txLocked c' = c_txLocked (s_conn s2)"
  using after_request_front [OF assms(2) sendable_list_all2 [of "[]"]]
    after_request_front [OF assms(2) sendable_list_all2, where err = None] assms(1,3)
  by (cases x) (fastforce simp: finish_def goseq_def error_frames_def)+

text \<open>A fresh connection whose client has sent some bytes, for the witnesses\<close>

definition client_session :: "'a \<Rightarrow> bytes \<Rightarrow> 'a session" where
  "client_session a bs =
     \<lparr>s_conn = NewConnWith (new_net_conn [Arrive bs]) 1 [], s_prep = NewPreparedManager, s_app = a\<rparr>"

lemma client_session_simps [simp]:
  "fronted (s_conn (client_session a bs))"
  "reader_pending (c_reader (s_conn (client_session a bs))) = bs"
  "sent (s_conn (client_session a bs)) = []"
  "c_txLocked (s_conn (client_session a bs)) = False"
  "s_app (client_session a bs) = a" "s_prep (client_session a bs) = NewPreparedManager"
  "c_uuid (s_conn (client_session a bs)) = 1"
  by (simp_all add: client_session_def NewConnWith_def NewReaderWithConn_def new_net_conn_def fronted_def
      idle_def rwire_def wire_def whole_source_def reader_pending_def src_pending_def conn_pending_def sent_def)

section \<open>Sync, unknown messages, failed requests\<close>

text \<open>
  Sync is answered with exactly a ready message when no further request has arrived, and with
  nothing at all when one has.
\<close>

theorem sync_answer:
  assumes "fronted (s_conn s)" and "reader_pending (c_reader (s_conn s)) = frame SyncMessage [] @ rest"
  shows "\<exists>c'. receive_step (server_handler sv) s = (Ok True, s\<lparr>s_conn := c'\<rparr>) \<and>
    sent c' = sent (s_conn s) @ (if rest = [] then [ready_frame (s_conn s)] else []) \<and>
    reader_pending (c_reader c') = rest \<and> fronted c'"
proof -
  have p: "parses front NewSyncWithReader (SyncMessage # Int32ToBytes 4) \<lparr>msg_Type = SyncMessage, msg_Length = 4\<rparr>"
    using front.parses_header_only(1) [of SyncMessage 4] by (simp add: header_def)
  obtain c where c: "fronted c" "same_side (s_conn s) c" "reader_pending (c_reader c) = rest"
    "receive_step (server_handler sv) s =
       goseq (gotry (handle_Sync \<lparr>msg_Type = SyncMessage, msg_Length = 4\<rparr>)) finish (s\<lparr>s_conn := c\<rparr>)"
    using read_request [OF p keeps_wire_NewSyncWithReader assms(1), of rest "server_handler sv" handle_Sync] assms(2)
    by (auto simp: frame_def header_def msg_types dispatch_def server_handler_def)
  have "gotry (handle_Sync \<lparr>msg_Type = SyncMessage, msg_Length = 4\<rparr>) (s\<lparr>s_conn := c\<rparr>) =
      (Ok (Inr []), s\<lparr>s_conn := c\<rparr>)"
    by (simp add: handle_Sync_def gotry_def ret_def)
  from finish_front [OF this] c show ?thesis
    by (auto simp: same_side_def ready_frame_def)
qed

theorem sync_answer_witness:
  "\<exists>s'. receive_step (server_handler (small_server (Some counting_executor) (\<lambda>q. Ok [])))
      (client_session 0 (frame SyncMessage [])) = (Ok True, s') \<and>
    sent (s_conn s') = [frame ReadyForQueryMessage [TransactionIdle]]"
  using sync_answer [of "client_session 0 (frame SyncMessage [])" "[]"
      "small_server (Some counting_executor) (\<lambda>q. Ok [])"]
  by (auto simp: ready_frame_def)

lemma unknown_message_round:
  assumes "fronted (s_conn s)" and "reader_pending (c_reader (s_conn s)) = frame t payload @ rest"
    and "length payload < 2 ^ 31"
    and "t \<notin> {ParseMessage, BindMessage, DescribeMessage, QueryMessage, ExecuteMessage, CloseMessage,
      SyncMessage, FlushMessage, TerminateMessage}"
  shows "\<exists>c'. receive_step h s = (Ok True, s\<lparr>s_conn := c'\<rparr>) \<and>
    sent c' = sent (s_conn s) @ error_frames (Some (NewErrMessageNotSuppoted t)) @
      (if rest = [] then [ready_frame (s_conn s)] else []) \<and>
    reader_pending (c_reader c') = rest \<and> fronted c'"
proof -
  let ?len = "of_nat (length payload + 4) :: 32 word"
  let ?msg = "\<lparr>msg_Type = t, msg_Length = ?len\<rparr> :: message"
  let ?body = "\<lambda>msg. goseq (goseq (on_conn (on_reader (ReadMessageData msg))) (\<lambda>_. ret ()))
    (\<lambda>_. fail (NewErrMessageNotSuppoted t))"
  have disp: "dispatch h t = request NewMessageWithReader ?body"
    using assms(4) by (simp add: dispatch_def SkipMessage_as_request request_def goseq_assoc)
  have p: "parses front NewMessageWithReader (t # Int32ToBytes ?len) ?msg"
    using front.parses_NewMessageWithReader [of t ?len] by (simp add: header_def)
  have pend: "reader_pending (c_reader (s_conn s)) = (t # Int32ToBytes ?len) @ payload @ rest"
    using assms(2) by (simp add: frame_def header_def)
  obtain c where c: "fronted c" "same_side (s_conn s) c" "reader_pending (c_reader c) = payload @ rest"
    "receive_step h s = goseq (gotry (?body ?msg)) finish (s\<lparr>s_conn := c\<rparr>)"
    using read_request [OF p keeps_wire_NewMessageWithReader assms(1) pend _ disp] assms(4) by auto
  have "parses front (ReadMessageData ?msg) payload payload"
    by (rule front.parses_ReadMessageData) (use assms(3) in simp_all)
  from front_step [OF this keeps_wire_ReadMessageData c(1,3)] obtain c2 where
    c2: "on_reader (ReadMessageData ?msg) c = (Ok payload, c2)" "fronted c2" "same_side c c2"
      "reader_pending (c_reader c2) = rest" by blast
  have "gotry (?body ?msg) (s\<lparr>s_conn := c\<rparr>) = (Ok (Inl (NewErrMessageNotSuppoted t)), s\<lparr>s_conn := c2\<rparr>)"
    using c2(1) by (simp add: gotry_def goseq_def on_conn_def on_part_def ret_def fail_def)
  from finish_front [OF this] c(2,4) c2 show ?thesis
    by (auto simp: same_side_def ready_frame_def)
qed

text \<open>
  C21: a message of a type the server does not handle is answered with an error that names the type
  and skipped as a whole: the next request begins right behind it.
\<close>

theorem unknown_message_answer:
  assumes "fronted (s_conn s)" and "reader_pending (c_reader (s_conn s)) = frame t payload @ rest"
    and "length payload < 2 ^ 31"
    and "t \<notin> {ParseMessage, BindMessage, DescribeMessage, QueryMessage, ExecuteMessage, CloseMessage,
      SyncMessage, FlushMessage, TerminateMessage}"
  shows "\<exists>c'. receive_step h s = (Ok True, s\<lparr>s_conn := c'\<rparr>) \<and>
    sent c' = sent (s_conn s) @ error_frames (Some (NewErrMessageNotSuppoted t)) @
      (if rest = [] then [ready_frame (s_conn s)] else []) \<and>
    reader_pending (c_reader c') = rest \<and> fronted c'"
  by (rule unknown_message_round [OF assms])

theorem unknown_message_answer_witness:
  "\<exists>s'. receive_step (server_handler (small_server (Some counting_executor) (\<lambda>q. Ok [])))
      (client_session 0 (frame 70 [1, 2, 3] @ frame SyncMessage [])) = (Ok True, s') \<and>
    length (sent (s_conn s')) = 1 \<and> reader_pending (c_reader (s_conn s')) = frame SyncMessage []"
  using unknown_message_answer [of "client_session 0 (frame 70 [1, 2, 3] @ frame SyncMessage [])" 70 "[1, 2, 3]"
      "frame SyncMessage []" "server_handler (small_server (Some counting_executor) (\<lambda>q. Ok []))"]
  by (auto simp: msg_types error_frames_def)

text \<open>
  a failed request does not make the server skip to the next Sync. Describing a statement that was
  never prepared is answered with an error, and the very next message, whatever it is, is the
  next request; the ready message follows the error directly when nothing else has arrived.
\<close>

theorem failed_describe_answer:
  assumes "fronted (s_conn s)" and "no_nul name"
    and "reader_pending (c_reader (s_conn s)) =
      frame DescribeMessage (enc_prepared_type PreparedStatementType # cstring name) @ rest"
    and "PreparedStatement (c_uuid (s_conn s)) name (s_prep s) = Err e"
  shows "\<exists>c'. receive_step (server_handler sv) s = (Ok True, s\<lparr>s_conn := c'\<rparr>) \<and>
    sent c' = sent (s_conn s) @ error_frames (Some e) @
      (if rest = [] then [ready_frame (s_conn s)] else []) \<and>
    reader_pending (c_reader c') = rest \<and> fronted c'"
proof -
  let ?body = "enc_prepared_type PreparedStatementType # cstring name"
  let ?len = "of_nat (length ?body + 4) :: 32 word"
  let ?msg = "\<lparr>describe_header = \<lparr>msg_Type = DescribeMessage, msg_Length = ?len\<rparr>,
    describe_typ = PreparedStatementType, describe_name = name\<rparr>"
  have p: "parses front NewDescribeWithReader (DescribeMessage # Int32ToBytes ?len @ ?body) ?msg"
    using front.parses_Describe [OF assms(2), of DescribeMessage ?len PreparedStatementType]
    by (simp add: header_def)
  have k: "keeps (rwire out [] False) NewDescribeWithReader" for out
    unfolding NewDescribeWithReader_def by (intro keeps_intros)
  obtain c where c: "fronted c" "same_side (s_conn s) c" "reader_pending (c_reader c) = rest"
    "receive_step (server_handler sv) s = goseq (gotry (handle_Describe sv ?msg)) finish (s\<lparr>s_conn := c\<rparr>)"
    using read_request [OF p k assms(1), of rest "server_handler sv" "handle_Describe sv"] assms(3)
    by (auto simp: frame_def header_def msg_types dispatch_def server_handler_def)
  have "gotry (handle_Describe sv ?msg) (s\<lparr>s_conn := c\<rparr>) = (Ok (Inl e), s\<lparr>s_conn := c\<rparr>)"
    using c(2) assms(4)
    by (simp add: handle_Describe_def gotry_def goseq_def on_prep_def on_part_def same_side_def)
  from finish_front [OF this] c show ?thesis
    by (auto simp: same_side_def ready_frame_def)
qed

theorem failed_describe_answer_witness:
  "\<exists>s'. receive_step (server_handler (small_server (Some counting_executor) (\<lambda>q. Ok [])))
      (client_session 0 (frame DescribeMessage (enc_prepared_type PreparedStatementType # cstring ''s''))) =
        (Ok True, s') \<and>
    sent (s_conn s') = error_frames (Some (NewErrPreparedStatementNotExist ''s'')) @
      [frame ReadyForQueryMessage [TransactionIdle]]"
proof -
  let ?b = "frame DescribeMessage (enc_prepared_type PreparedStatementType # cstring ''s'')"
  have "no_nul ''s''" by (simp add: no_nul_def bytes_of_string_def byte_of_char_def)
  from failed_describe_answer [OF _ this, of "client_session 0 ?b" "[]" "NewErrPreparedStatementNotExist ''s''"
      "small_server (Some counting_executor) (\<lambda>q. Ok [])"]
  show ?thesis by (auto simp: PreparedStatement_def NewPreparedManager_def ready_frame_def)
qed

section \<open>The end of a session\<close>

lemma end_round:
  assumes "fronted (s_conn s)"
    and "reader_pending (c_reader (s_conn s)) = [] \<or>
      reader_pending (c_reader (s_conn s)) = frame TerminateMessage [] @ rest"
  shows "\<exists>s'. receive_step h s = (Ok False, s') \<and> s_app s' = s_app s \<and> s_prep s' = s_prep s \<and>
    c_txLocked (s_conn s') = c_txLocked (s_conn s) \<and> c_uuid (s_conn s') = c_uuid (s_conn s) \<and>
    c_tls (s_conn s') = c_tls (s_conn s) \<and>
    sent (s_conn s') = sent (s_conn s) @
      (if reader_pending (c_reader (s_conn s)) = [] then error_frames (Some EOF) else [])"
  using assms(2)
proof
  assume pend: "reader_pending (c_reader (s_conn s)) = frame TerminateMessage [] @ rest"
  obtain c1 where c1: "on_reader PeekType (s_conn s) = (Ok TerminateMessage, c1)" "fronted c1"
    "same_side (s_conn s) c1" "reader_pending (c_reader c1) = header TerminateMessage 4 @ rest"
    using PeekType_front [OF assms(1), of TerminateMessage "Int32ToBytes 4 @ rest"] pend
    by (auto simp: frame_def header_def)
  have k: "keeps (rwire out [] False) NewTerminateWithReader" for out
    unfolding NewTerminateWithReader_def by (intro keeps_intros)
  obtain m c2 where "on_reader NewTerminateWithReader c1 = (Ok m, c2)" "same_side c1 c2"
    using front_step [OF front.parses_header_only(3) k c1(2,4)] by blast
  with c1 pend show ?thesis
    by (auto simp: receive_step_def goseq_def gotry_def on_conn_def on_part_def ret_def same_side_def)
next
  assume pend: "reader_pending (c_reader (s_conn s)) = []"
  obtain c1 where c1: "on_reader PeekType (s_conn s) = (Err EOF, c1)" "fronted c1" "same_side (s_conn s) c1"
    using PeekType_end [OF assms(1) pend] by blast
  have "writable c1" using c1(2) idle_writable by (simp add: fronted_def)
  with c1 pend show ?thesis
    by (simp add: receive_step_def goseq_def gotry_def on_conn_def on_part_def ret_def ResponseError_Ok
        error_frames_def same_side_def)
qed

text \<open>
  Terminate ends the loop without a word, and the end of the stream with an error message that
  nobody asked for; both are a normal end of the session.
\<close>

theorem session_end:
  assumes "fronted (s_conn s)"
    and "reader_pending (c_reader (s_conn s)) = [] \<or>
      reader_pending (c_reader (s_conn s)) = frame TerminateMessage [] @ rest"
  shows "\<exists>s'. receive_step h s = (Ok False, s') \<and> s_app s' = s_app s \<and> s_prep s' = s_prep s \<and>
    sent (s_conn s') = sent (s_conn s) @
      (if reader_pending (c_reader (s_conn s)) = [] then error_frames (Some EOF) else [])"
  using end_round [OF assms, of h] by blast

theorem session_end_witness:
  "\<exists>s'. receive_step (server_handler (small_server (Some counting_executor) (\<lambda>q. Ok [])))
      (client_session 0 (frame TerminateMessage [])) = (Ok False, s') \<and> sent (s_conn s') = []"
  using session_end [of "client_session 0 (frame TerminateMessage [])" "[]"
      "server_handler (small_server (Some counting_executor) (\<lambda>q. Ok []))"]
  by auto

end
