(* ===== verification/Interleaving.thy ===== *)
theory Interleaving
  imports Sessions
begin

text \<open>
  Several connections on one server. The prepared statements and the state behind the executor are
  shared, each connection has a goroutine of its own; a turn of one of them is a round of its request
  loop. The turns are taken one at a time here, in any order.
\<close>

section \<open>Turns\<close>

record 'a server_state =
  ss_conns :: "nat \<Rightarrow> conn"
  ss_prep :: "statement PreparedManager"
  ss_app :: 'a

definition session_at :: "nat \<Rightarrow> 'a server_state \<Rightarrow> 'a session" where
  "session_at i S = \<lparr>s_conn = ss_conns S i, s_prep = ss_prep S, s_app = ss_app S\<rparr>"

definition put_session :: "nat \<Rightarrow> 'a session \<Rightarrow> 'a server_state \<Rightarrow> 'a server_state" where
  "put_session i s S = \<lparr>ss_conns = (ss_conns S)(i := s_conn s), ss_prep = s_prep s, ss_app = s_app s\<rparr>"

text \<open>A round that panics ends the process and is no turn.\<close>

inductive turn :: "'a MessageHandler \<Rightarrow> nat \<Rightarrow> 'a server_state \<Rightarrow> 'a server_state \<Rightarrow> bool" for h where
  round: "receive_step h (session_at i S) = (x, s') \<Longrightarrow> \<not> is_panic x \<Longrightarrow> turn h i S (put_session i s' S)"

text \<open>Any number of turns, all of connections other than \<open>i\<close>\<close>

inductive turns_without :: "'a MessageHandler \<Rightarrow> nat \<Rightarrow> 'a server_state \<Rightarrow> 'a server_state \<Rightarrow> bool" for h i S where
  none: "turns_without h i S S"
| another: "turns_without h i S S1 \<Longrightarrow> j \<noteq> i \<Longrightarrow> turn h j S1 S2 \<Longrightarrow> turns_without h i S S2"

inductive_cases turnE: "turn h i S S'"

section \<open>What a round of one connection leaves alone\<close>

named_theorems aside_intros \<open>computations that leave the statements of another connection alone\<close>

text \<open>
  The connection keeps its id \<open>v\<close>, and the statements and portals of \<open>u\<close> are those of \<open>M\<close>.
\<close>

definition mine :: "nat \<Rightarrow> nat \<Rightarrow> statement PreparedManager \<Rightarrow> 'a session \<Rightarrow> bool" where
  "mine u v M s \<longleftrightarrow> c_uuid (s_conn s) = v \<and> stateMap (s_prep s) u = stateMap M u \<and> potalMap (s_prep s) u = potalMap M u"

definition aside :: "('a, 'r) sm \<Rightarrow> bool" where
  "aside m \<longleftrightarrow> (\<forall>u v M. u \<noteq> v \<longrightarrow> keeps (mine u v M) m)"

lemma asideI: "(\<And>u v M. u \<noteq> v \<Longrightarrow> keeps (mine u v M) m) \<Longrightarrow> aside m"
  by (simp add: aside_def)

lemma aside_basic [aside_intros]:
  "aside (ret x)" "aside (fail e)" "aside (panic p)" "aside (lift_res y)" "aside (gets f)"
  by (auto intro!: asideI keeps_intros)

lemma aside_goseq [aside_intros]: "aside m \<Longrightarrow> (\<And>a. aside (f a)) \<Longrightarrow> aside (goseq m f)"
  by (auto simp: aside_def intro: keeps_goseq)

lemma aside_gotry [aside_intros]: "aside m \<Longrightarrow> aside (gotry m)"
  by (auto simp: aside_def intro: keeps_gotry)

lemma aside_if [aside_intros]: "aside m \<Longrightarrow> aside n \<Longrightarrow> aside (if b then m else n)"
  by simp

lemma aside_for_each [aside_intros]: "(\<And>x. aside (f x)) \<Longrightarrow> aside (for_each f xs)"
  by (auto simp: aside_def intro: keeps_for_each)

lemma aside_on_app [aside_intros]: "aside (on_app f stmt)"
  by (auto simp: aside_def keeps_def mine_def on_app_def on_part_def case_prod_beta)

text \<open>Operations of the connection never change its id.\<close>

definition same_id :: "'r cm \<Rightarrow> bool" where
  "same_id m \<longleftrightarrow> (\<forall>c. c_uuid (snd (m c)) = c_uuid c)"

lemma same_id_reader: "same_id (on_reader m)"
  by (simp add: same_id_def on_reader_def on_part_def case_prod_beta)

lemma same_id_net: "same_id (on_net m)"
  by (auto simp: same_id_def on_net_def split: io_source.split prod.split)

lemma same_id_basic: "same_id (ret x)" "same_id (lift_res y)" "same_id (gets f)"
  by (simp_all add: same_id_def ret_def lift_res_def gets_def)

lemma same_id_goseq:
  assumes "same_id m" "\<And>a. same_id (f a)"
  shows "same_id (goseq m f)"
  using assms unfolding same_id_def goseq_def by (auto split: prod.splits res.splits) (metis snd_conv)+

lemma same_id_ResponseMessage: "same_id (ResponseMessage r)"
  unfolding ResponseMessage_def by (cases r) (auto intro!: same_id_goseq same_id_net same_id_basic)

lemma same_id_for_each: "(\<And>x. same_id (f x)) \<Longrightarrow> same_id (for_each f xs)"
  by (induction xs) (auto intro!: same_id_goseq same_id_basic)

lemma same_id_ResponseMessages: "same_id (ResponseMessages rs)"
  unfolding ResponseMessages_def by (simp add: same_id_basic same_id_for_each same_id_ResponseMessage)

lemma same_id_ResponseError: "same_id (ResponseError e)"
  unfolding ResponseError_def by (cases e) (simp_all add: same_id_basic same_id_net)

lemma same_id_ReadyForMessage: "same_id ReadyForMessage"
  unfolding ReadyForMessage_def by (intro same_id_goseq same_id_basic same_id_ResponseMessage)

lemma same_id_SkipMessage: "same_id SkipMessage"
  unfolding SkipMessage_def by (intro same_id_goseq same_id_basic same_id_reader)

lemma same_id_lock: "same_id LockTransaction" "same_id UnlockTransaction"
  by (simp_all add: same_id_def LockTransaction_def UnlockTransaction_def)

lemma aside_on_conn: "same_id m \<Longrightarrow> aside (on_conn m)"
  by (auto simp: aside_def keeps_def mine_def same_id_def on_conn_def on_part_def case_prod_beta)

lemmas aside_conn [aside_intros] = aside_on_conn [OF same_id_reader] aside_on_conn [OF same_id_ResponseMessage]
  aside_on_conn [OF same_id_ResponseMessages] aside_on_conn [OF same_id_ResponseError]
  aside_on_conn [OF same_id_ReadyForMessage] aside_on_conn [OF same_id_SkipMessage]
  aside_on_conn [OF same_id_lock(1)] aside_on_conn [OF same_id_lock(2)]

text \<open>Operations on the prepared statements work under the id of the connection only.\<close>

lemma aside_on_prep:
  assumes "\<And>u v mgr. u \<noteq> v \<Longrightarrow> stateMap (snd (f v mgr)) u = stateMap mgr u \<and> potalMap (snd (f v mgr)) u = potalMap mgr u"
  shows "aside (on_prep f)"
  using assms by (auto simp: aside_def keeps_def mine_def on_prep_def on_part_def case_prod_beta)

lemma aside_prep [aside_intros]:
  "aside (on_prep (\<lambda>uuid. SetPreparedStatement p uuid msg))"
  "aside (on_prep (\<lambda>uuid mgr. (PreparedStatement uuid name mgr, mgr)))"
  "aside (on_prep (\<lambda>uuid. SetPreparedPortal uuid name q))"
  "aside (on_prep (\<lambda>uuid mgr. (PreparedPortal uuid name mgr, mgr)))"
  by (rule aside_on_prep,
      auto simp: SetPreparedStatement_def SetPreparedPortal_def Let_def split: prod.split)+

lemma aside_remove [aside_intros]:
  "aside (on_prep (\<lambda>uuid. case t of
       PreparedStatementType \<Rightarrow> RemovePreparedStatement uuid name
     | PreparedPortalType \<Rightarrow> RemovePreparedPortal uuid name))"
  by (rule aside_on_prep)
    (auto simp: RemovePreparedStatement_def RemovePreparedPortal_def split: PreparedType.split prod.split option.split)

section \<open>The handler and the loop\<close>

text \<open>A copy executor that works on the stream and on its own state\<close>

definition copy_aside :: "('a, 'x) query_server_scheme \<Rightarrow> bool" where
  "copy_aside sv \<longleftrightarrow> (\<forall>stmt. aside (sv_CopyData sv stmt))"

lemma aside_copy_data: "aside (NewCopyCompleteResponsesFrom mk table cols ins stmt)"
  by (auto simp: aside_def keeps_def mine_def NewCopyCompleteResponsesFrom_def Let_def case_prod_beta)

lemma aside_exec_statement:
  assumes "copy_aside sv"
  shows "aside (exec_statement sv stmt)"
proof -
  have unlock: "aside m \<Longrightarrow> aside (then_unlock m)" for m :: "('a, responses) sm"
    unfolding then_unlock_def by (auto intro!: aside_intros split: sum.split)
  have copy: "aside (handleCopyQuery sv stmt)"
    unfolding handleCopyQuery_def using assms by (auto simp: copy_aside_def intro!: aside_intros)
  show ?thesis
    unfolding exec_statement_def Let_def
    by (cases "st_Type stmt") (auto intro!: aside_intros unlock copy)
qed

lemma aside_handle_Query: "copy_aside sv \<Longrightarrow> aside (handle_Query sv msg)"
  unfolding handle_Query_def run_statement_def
  by (auto split: res.split intro!: aside_intros aside_exec_statement)

definition aside_handler :: "'a MessageHandler \<Rightarrow> bool" where
  "aside_handler h \<longleftrightarrow> (\<forall>m. aside (mh_Query h m)) \<and> (\<forall>m. aside (mh_Parse h m)) \<and> (\<forall>m. aside (mh_Bind h m)) \<and>
     (\<forall>m. aside (mh_Describe h m)) \<and> (\<forall>m. aside (mh_Execute h m)) \<and> (\<forall>m. aside (mh_Close h m)) \<and>
     (\<forall>m. aside (mh_Sync h m)) \<and> (\<forall>m. aside (mh_Flush h m))"

lemma aside_server_handler: "copy_aside sv \<Longrightarrow> aside_handler (server_handler sv)"
  unfolding aside_handler_def server_handler_def
  by (auto simp: handle_Parse_def handle_Bind_def handle_Describe_def handle_Execute_def handle_Close_def
      handle_Sync_def handle_Flush_def selectObjectIds_def newSystemSelectQuery_def
      intro!: aside_intros aside_handle_Query split: PreparedType.split)

lemma aside_after_request [aside_intros]: "aside (after_request rs e)"
  unfolding after_request_def by (intro aside_intros) (auto split: sum.split intro!: aside_intros)

lemma aside_dispatch [aside_intros]: "aside_handler h \<Longrightarrow> aside (dispatch h t)"
  unfolding dispatch_def request_def aside_handler_def by (auto intro!: aside_intros)

lemma aside_receive_step: "aside_handler h \<Longrightarrow> aside (receive_step h)"
  unfolding receive_step_def by (auto intro!: aside_intros split: sum.split)

lemma turn_aside:
  assumes "aside_handler h" "turn h j S S'" "u \<noteq> c_uuid (ss_conns S j)"
  shows "c_uuid (ss_conns S' j) = c_uuid (ss_conns S j) \<and> stateMap (ss_prep S') u = stateMap (ss_prep S) u \<and>
    potalMap (ss_prep S') u = potalMap (ss_prep S) u \<and> (\<forall>k. k \<noteq> j \<longrightarrow> ss_conns S' k = ss_conns S k)"
proof -
  obtain x s' where r: "receive_step h (session_at j S) = (x, s')" "S' = put_session j s' S"
    using assms(2) by (elim turnE)
  have "mine u (c_uuid (ss_conns S j)) (ss_prep S) (session_at j S)" by (simp add: mine_def session_at_def)
  moreover have "keeps (mine u (c_uuid (ss_conns S j)) (ss_prep S)) (receive_step h)"
    using aside_receive_step [OF assms(1)] assms(3) by (simp add: aside_def)
  ultimately have "mine u (c_uuid (ss_conns S j)) (ss_prep S) s'"
    using r(1) keepsD by metis
  then show ?thesis by (simp add: r(2) mine_def put_session_def)
qed

section \<open>Isolation\<close>

text \<open>
  C13: connections are isolated from each other. However the rounds of the other connections are
  interleaved, and whatever their clients send, connection \<open>i\<close> finds its own state as it was: the
  bytes it has still to read, its transaction lock, its database, and every prepared statement and
  portal. Only the executor's own state is shared. The ids of the connections must differ.
\<close>

theorem connections_are_isolated:
  assumes "\<And>stmt. aside (sv_CopyData sv stmt)" and "turns_without (server_handler sv) i S S'"
    and "\<And>j. j \<noteq> i \<Longrightarrow> c_uuid (ss_conns S j) \<noteq> c_uuid (ss_conns S i)"
  shows "ss_conns S' i = ss_conns S i \<and>
    (\<forall>name. PreparedStatement (c_uuid (ss_conns S i)) name (ss_prep S') =
        PreparedStatement (c_uuid (ss_conns S i)) name (ss_prep S) \<and>
      PreparedPortal (c_uuid (ss_conns S i)) name (ss_prep S') =
        PreparedPortal (c_uuid (ss_conns S i)) name (ss_prep S))"
proof -
  let ?u = "c_uuid (ss_conns S i)"
  have h: "aside_handler (server_handler sv)"
    by (rule aside_server_handler) (simp add: copy_aside_def assms(1))
  from assms(2) have "ss_conns S' i = ss_conns S i \<and> stateMap (ss_prep S') ?u = stateMap (ss_prep S) ?u \<and>
      potalMap (ss_prep S') ?u = potalMap (ss_prep S) ?u \<and>
      (\<forall>j. j \<noteq> i \<longrightarrow> c_uuid (ss_conns S' j) = c_uuid (ss_conns S j))"
  proof (induction rule: turns_without.induct)
    case (another S1 j S2)
    then have "?u \<noteq> c_uuid (ss_conns S1 j)" using assms(3) [of j] by auto
    from turn_aside [OF h another.hyps(3) this] another.IH another.hyps(2) show ?case
      by (metis (no_types, lifting))
  qed simp
  then show ?thesis by (simp add: PreparedStatement_def PreparedPortal_def)
qed

text \<open>Clients whose bytes are the same, each on a connection of its own\<close>

definition same_clients :: "'a \<Rightarrow> bytes \<Rightarrow> 'a server_state" where
  "same_clients a bs =
     \<lparr>ss_conns = \<lambda>k. (s_conn (client_session a bs))\<lparr>c_uuid := k\<rparr>, ss_prep = NewPreparedManager, ss_app = a\<rparr>"

lemma session_at_same_clients: "session_at (Suc 0) (same_clients a bs) = client_session a bs"
  by (simp add: session_at_def same_clients_def client_session_def NewConnWith_def)

theorem connections_are_isolated_witness:
  "\<exists>S'. turn (server_handler (small_server (Some counting_executor) (\<lambda>q. Ok []))) 1
      (same_clients 0 (frame TerminateMessage [])) S' \<and>
    ss_conns S' 0 = ss_conns (same_clients (0::nat) (frame TerminateMessage [])) 0"
proof -
  let ?h = "server_handler (small_server (Some counting_executor) (\<lambda>q. Ok []))"
    and ?S = "same_clients (0::nat) (frame TerminateMessage [])"
  obtain s' where "receive_step ?h (session_at 1 ?S) = (Ok False, s')"
    using end_round [of "client_session (0::nat) (frame TerminateMessage [])" "[]" ?h]
    by (auto simp: session_at_same_clients)
  then have turn: "turn ?h 1 ?S (put_session 1 s' ?S)" by (rule turn.round) simp
  then have "turns_without ?h 0 ?S (put_session 1 s' ?S)"
    by (intro turns_without.another [OF turns_without.none, of 1]) simp_all
  then have "ss_conns (put_session 1 s' ?S) 0 = ss_conns ?S 0"
    by (intro connections_are_isolated [THEN conjunct1])
      (auto simp: small_server_def same_clients_def intro: aside_on_app)
  with turn show ?thesis by blast
qed

end
