(* ===== verification/Server_Setup.thy ===== *)
theory Server_Setup
  imports Server_Loop
begin

text \<open>
  The set-up of a server: the configuration (\<open>protocol/config_impl.go\<close>) and the executors a user
  installs (\<open>server_impl.go\<close>, with the setters of \<open>executor_query.go\<close>, \<open>executor_query_ex.go\<close> and
  \<open>executor_query_system.go\<close>).
\<close>

section \<open>The configuration\<close>

text \<open>The TLS part of the configuration is another package's and opaque here.\<close>

record 'tls config =
  cfg_productName :: string
  cfg_productVersion :: string
  cfg_addr :: string
  cfg_port :: int
  cfg_CertConfig :: 'tls

definition defaultAddr :: string where "defaultAddr = ''''"
definition defaultPort :: int where "defaultPort = 5432"

definition NewDefaultConfig :: "'tls \<Rightarrow> 'tls config" where
  "NewDefaultConfig certConfig =
     \<lparr>cfg_productName = '''', cfg_productVersion = '''', cfg_addr = defaultAddr, cfg_port = defaultPort,
      cfg_CertConfig = certConfig\<rparr>"

definition SetAddress :: "string \<Rightarrow> 'tls config \<Rightarrow> 'tls config" where
  "SetAddress addr config = config\<lparr>cfg_addr := addr\<rparr>"

definition SetPort :: "int \<Rightarrow> 'tls config \<Rightarrow> 'tls config" where
  "SetPort port config = config\<lparr>cfg_port := port\<rparr>"

definition Address :: "'tls config \<Rightarrow> string" where
  "Address config = cfg_addr config"

definition Port :: "'tls config \<Rightarrow> int" where
  "Port config = cfg_port config"

definition SetProductName :: "string \<Rightarrow> 'tls config \<Rightarrow> 'tls config" where
  "SetProductName v config = config\<lparr>cfg_productName := v\<rparr>"

definition SetProductVersion :: "string \<Rightarrow> 'tls config \<Rightarrow> 'tls config" where
  "SetProductVersion v config = config\<lparr>cfg_productVersion := v\<rparr>"

definition ProductName :: "'tls config \<Rightarrow> string" where
  "ProductName config = cfg_productName config"

definition ProductVersion :: "'tls config \<Rightarrow> string" where
  "ProductVersion config = cfg_productVersion config"

section \<open>Installed executors\<close>

text \<open>
  What an interface field of the server holds: nil, the executor made by \<open>NewServer\<close>, an executor
  without \<open>SetSQLExecutor\<close> (or one that is itself a server, which the loop of \<open>SetSQLExecutor\<close>
  skips), or one with it, as a function of the SQL executor it was last given.
\<close>

datatype ('i, 'a) installed =
    Unset
  | Built_in
  | Fixed 'i
  | Settable "'a SQLExecutor option \<Rightarrow> 'i" "'a SQLExecutor option"

definition is_built_in :: "('i, 'a) installed \<Rightarrow> bool" where
  "is_built_in x = (case x of Built_in \<Rightarrow> True | _ \<Rightarrow> False)"

definition give :: "'a SQLExecutor option \<Rightarrow> ('i, 'a) installed \<Rightarrow> ('i, 'a) installed" where
  "give se x = (case x of Settable f _ \<Rightarrow> Settable f se | _ \<Rightarrow> x)"

definition installed :: "'i \<Rightarrow> 'i \<Rightarrow> ('i, 'a) installed \<Rightarrow> 'i" where
  "installed nil_one built_in x = (case x of
       Unset \<Rightarrow> nil_one | Built_in \<Rightarrow> built_in | Fixed i \<Rightarrow> i | Settable f se \<Rightarrow> f se)"

lemma installed_simps [simp]:
  "is_built_in Built_in" "\<not> is_built_in Unset" "\<not> is_built_in (Fixed i)" "\<not> is_built_in (Settable f se)"
  "give se' Built_in = Built_in" "give se' Unset = Unset" "give se' (Fixed i) = Fixed i"
  "give se' (Settable f se) = Settable f se'"
  "installed n b Built_in = b" "installed n b Unset = n" "installed n b (Fixed i) = i"
  "installed n b (Settable f se) = f se"
  by (simp_all add: is_built_in_def give_def installed_def)

record 'a BulkQueryExecutor =
  be_Copy :: "'a query_op"
  be_CopyData :: "statement \<Rightarrow> ('a, responses) sm"

type_synonym error_handler = "conn \<Rightarrow> string \<Rightarrow> gerr \<Rightarrow> responses go"

text \<open>
  The server's executors. \<open>default_se\<close> is the SQL executor held by the default query executor that
  \<open>NewServer\<close> makes, which the default extended executor embeds; \<open>system_se\<close> is that of the built-in
  system executor.
\<close>

record 'a server_executors =
  srv_sqlExecutor :: "'a SQLExecutor option"
  default_se :: "'a SQLExecutor option"
  system_se :: "'a SQLExecutor option"
  srv_queryExecutor :: "('a QueryExecutor, 'a) installed"
  srv_exQueryExecutor :: "('a ExQueryExecutor, 'a) installed"
  srv_systemQueryExecutor :: "('a query_op, 'a) installed"
  srv_bulkQueryExecutor :: "('a BulkQueryExecutor, 'a) installed"
  srv_errorHandler :: "(error_handler, 'a) installed"

definition NewServer_executors :: "'a server_executors" where
  "NewServer_executors =
     \<lparr>srv_sqlExecutor = None, default_se = None, system_se = None, srv_queryExecutor = Built_in,
      srv_exQueryExecutor = Built_in, srv_systemQueryExecutor = Built_in,
      srv_bulkQueryExecutor = Built_in, srv_errorHandler = Built_in\<rparr>"

text \<open>
  The loop of \<open>SetSQLExecutor\<close>. The default extended executor passes the SQL executor on to the
  query executor it embeds, which is the default one even when the server has another.
\<close>

definition SetSQLExecutor :: "'a SQLExecutor option \<Rightarrow> 'a server_executors \<Rightarrow> 'a server_executors" where
  "SetSQLExecutor se server =
     \<lparr>srv_sqlExecutor = se,
      default_se = (if is_built_in (srv_queryExecutor server) \<or> is_built_in (srv_exQueryExecutor server)
                    then se else default_se server),
      system_se = (if is_built_in (srv_systemQueryExecutor server) then se else system_se server),
      srv_queryExecutor = give se (srv_queryExecutor server),
      srv_exQueryExecutor = give se (srv_exQueryExecutor server),
      srv_systemQueryExecutor = give se (srv_systemQueryExecutor server),
      srv_bulkQueryExecutor = give se (srv_bulkQueryExecutor server),
      srv_errorHandler = give se (srv_errorHandler server)\<rparr>"

text \<open>The setters it calls, each on the part of the state its executor holds\<close>

definition default_SetSQLExecutor :: "'a SQLExecutor option \<Rightarrow> 'a server_executors \<Rightarrow> 'a server_executors" where
  "default_SetSQLExecutor se server = server\<lparr>default_se := se\<rparr>"

definition ex_SetSQLExecutor :: "'a SQLExecutor option \<Rightarrow> 'a server_executors \<Rightarrow> 'a server_executors" where
  "ex_SetSQLExecutor se server = default_SetSQLExecutor se server"

definition system_SetSQLExecutor :: "'a SQLExecutor option \<Rightarrow> 'a server_executors \<Rightarrow> 'a server_executors" where
  "system_SetSQLExecutor se server = server\<lparr>system_se := se\<rparr>"

lemma SetSQLExecutor_on_new:
  "SetSQLExecutor se NewServer_executors =
     system_SetSQLExecutor se (ex_SetSQLExecutor se (default_SetSQLExecutor se (NewServer_executors\<lparr>srv_sqlExecutor := se\<rparr>)))"
  by (simp add: SetSQLExecutor_def NewServer_executors_def default_SetSQLExecutor_def ex_SetSQLExecutor_def
      system_SetSQLExecutor_def)

definition SetQueryExecutor :: "('a QueryExecutor, 'a) installed \<Rightarrow> 'a server_executors \<Rightarrow> 'a server_executors" where
  "SetQueryExecutor qe server = server\<lparr>srv_queryExecutor := qe\<rparr>"

definition SetExQueryExecutor ::
    "('a ExQueryExecutor, 'a) installed \<Rightarrow> 'a server_executors \<Rightarrow> 'a server_executors" where
  "SetExQueryExecutor qe server = server\<lparr>srv_exQueryExecutor := qe\<rparr>"

definition SetSystemQueryExecutor ::
    "('a query_op, 'a) installed \<Rightarrow> 'a server_executors \<Rightarrow> 'a server_executors" where
  "SetSystemQueryExecutor sq server = server\<lparr>srv_systemQueryExecutor := sq\<rparr>"

definition SetBulkQueryExecutor ::
    "('a BulkQueryExecutor, 'a) installed \<Rightarrow> 'a server_executors \<Rightarrow> 'a server_executors" where
  "SetBulkQueryExecutor be server = server\<lparr>srv_bulkQueryExecutor := be\<rparr>"

definition SetErrorHandler :: "(error_handler, 'a) installed \<Rightarrow> 'a server_executors \<Rightarrow> 'a server_executors" where
  "SetErrorHandler eh server = server\<lparr>srv_errorHandler := eh\<rparr>"

section \<open>The executors in force\<close>

text \<open>Calling a method of a nil interface panics.\<close>

definition nil_op :: "'a query_op" where
  "nil_op conn stmt = panic NilPointerDereference"

definition nil_QueryExecutor :: "'a QueryExecutor" where
  "nil_QueryExecutor =
     \<lparr>qe_TCO = \<lparr>tco_Begin = nil_op, tco_Commit = nil_op, tco_Rollback = nil_op\<rparr>,
      qe_DDO = \<lparr>ddo_CreateDatabase = nil_op, ddo_CreateTable = nil_op, ddo_AlterDatabase = nil_op,
        ddo_AlterTable = nil_op, ddo_DropDatabase = nil_op, ddo_DropTable = nil_op\<rparr>,
      qe_DMO = \<lparr>dmo_Insert = nil_op, dmo_Select = nil_op, dmo_Update = nil_op, dmo_Delete = nil_op\<rparr>\<rparr>"

definition nil_ExQueryExecutor :: "'a ExQueryExecutor" where
  "nil_ExQueryExecutor =
     \<lparr>ex_DDO = \<lparr>ddox_CreateIndex = nil_op, ddox_DropIndex = nil_op\<rparr>,
      ex_DMO = \<lparr>dmox_Vacuum = nil_op, dmox_Truncate = nil_op\<rparr>\<rparr>"

definition nil_BulkQueryExecutor :: "'a BulkQueryExecutor" where
  "nil_BulkQueryExecutor = \<lparr>be_Copy = nil_op, be_CopyData = \<lambda>_. panic NilPointerDereference\<rparr>"

definition NewNullBulkExecutor :: "'a BulkQueryExecutor" where
  "NewNullBulkExecutor = \<lparr>be_Copy = null_Copy, be_CopyData = on_app null_CopyData\<rparr>"

text \<open>
  The server the handler runs on: the executors of the set-up, and the parser package, the process
  id and the secret key from \<open>base\<close>.
\<close>

definition running_server ::
    "(statement \<Rightarrow> statement go) \<Rightarrow> (string \<Rightarrow> statement) \<Rightarrow> 'a server_executors \<Rightarrow> 'a query_server \<Rightarrow> 'a query_server" where
  "running_server NewAlterTableFrom NewDeleteWith server base =
     (let sc = sv_safecast base; default_qe = defaultQueryExecutor sc (default_se server);
          bulk = installed nil_BulkQueryExecutor NewNullBulkExecutor (srv_bulkQueryExecutor server)
      in base\<lparr>
        sv_queryExecutor := installed nil_QueryExecutor default_qe (srv_queryExecutor server),
        sv_exQueryExecutor := installed nil_ExQueryExecutor
          (NewDefaultExQueryExecutorWith NewAlterTableFrom NewDeleteWith default_qe) (srv_exQueryExecutor server),
        sv_SystemSelect := installed nil_op (default_SystemSelect sc (system_se server)) (srv_systemQueryExecutor server),
        sv_Copy := be_Copy bulk,
        sv_CopyData := be_CopyData bulk,
        sv_ParserError := installed (\<lambda>_ _ _. Panic NilPointerDereference) null_ParserError (srv_errorHandler server)\<rparr>)"

section \<open>Properties\<close>

text \<open>
  one SQL executor is enough. After \<open>SetSQLExecutor\<close> on a new server, user statements, extended
  statements and system queries all run on that SQL executor, the bulk executor and the error handler
  are the null ones, and setting it again replaces it everywhere.
\<close>

theorem sql_executor_installed:
  "let sv = running_server alt del (SetSQLExecutor (Some se) (SetSQLExecutor old NewServer_executors)) base;
       qe = defaultQueryExecutor (sv_safecast base) (Some se) in
   sv_queryExecutor sv = qe \<and> sv_exQueryExecutor sv = NewDefaultExQueryExecutorWith alt del qe \<and>
   sv_SystemSelect sv = default_SystemSelect (sv_safecast base) (Some se) \<and>
   sv_Copy sv = null_Copy \<and> sv_ParserError sv = null_ParserError"
  by (simp add: running_server_def SetSQLExecutor_def NewServer_executors_def NewNullBulkExecutor_def Let_def)

text \<open>
  a user's query executor does not see the extended statements. Once it is installed, TRUNCATE,
  CREATE INDEX and DROP INDEX still go to the default query executor: they are refused when no SQL
  executor was set, whatever the user's executor would do.
\<close>

theorem user_executor_bypassed:
  "let sv = running_server alt del (SetQueryExecutor (Fixed qe) NewServer_executors) base in
   sv_queryExecutor sv = qe \<and>
   ex_Truncate (sv_exQueryExecutor sv) conn (stmt\<lparr>st_Tables := t # ts\<rparr>) a = (Err (NewErrNotImplemented ''DELETE''), a) \<and>
   ex_CreateIndex (sv_exQueryExecutor sv) conn stmt a = ex_DropIndex (sv_exQueryExecutor sv) conn stmt a \<and>
   ex_CreateIndex (sv_exQueryExecutor sv) conn stmt a =
     (case alt stmt of Ok _ \<Rightarrow> (Err (NewErrNotImplemented ''ALTER TABLE''), a)
      | Err e \<Rightarrow> (Err e, a) | Panic p \<Rightarrow> (Panic p, a))"
  by (simp add: running_server_def SetQueryExecutor_def NewServer_executors_def Let_def
      NewDefaultExQueryExecutorWith_def ex_default_Truncate_def ex_default_index_def defaultQueryExecutor_def
      default_Delete_def default_AlterTable_def go_simps split: res.split)


end
