(* ===== verification/Server_Lifecycle.thy ===== *)
theory Server_Lifecycle
  imports Server_Setup
begin

text \<open>
  Starting and stopping the server: \<open>Start\<close>, \<open>Stop\<close>, \<open>Restart\<close>, the listening socket, and the goroutine
  that accepts on it (\<open>server_impl.go\<close> and \<open>protocol/server_impl.go\<close>). The goroutine runs beside
  the caller of these operations, so the model is a step relation over both. Here each operation and each
  turn of the goroutine is one step: nothing in the code makes it so, the field \<open>tcpListener\<close> has no lock, and
  what is said of all states of this relation holds while the operations do not overlap. \<open>Listener_Steps\<close> cuts
  them into the accesses of the field and says what remains true. The registry of connections belongs
  to the parser package and is a parameter, and so is the outcome of listening on an address.
\<close>

section \<open>State\<close>

text \<open>
  A goroutine in \<open>serve\<close> has not yet run, or accepts on the socket it read from the server. Sockets
  are numbered in the order they are opened.
\<close>

datatype serving = Scheduled | Accepting nat

record 'c lifecycle =
  lc_ConnManager :: 'c
  lc_tcpListener :: "nat option"
  lc_open :: "nat list"
  lc_next :: nat
  lc_serving :: "serving list"

record 'c net_env =
  cm_Start :: "('c, gerr, unit) gom"
  cm_Stop :: "('c, gerr, unit) gom"
  net_Listen :: "string \<Rightarrow> gerr option"

definition new_lifecycle :: "'c \<Rightarrow> 'c lifecycle" where
  "new_lifecycle c = \<lparr>lc_ConnManager = c, lc_tcpListener = None, lc_open = [], lc_next = 0, lc_serving = []\<rparr>"

type_synonym ('c, 'r) lm = "('c lifecycle, gerr, 'r) gom"

definition on_manager :: "('c, gerr, 'r) gom \<Rightarrow> ('c, 'r) lm" where
  "on_manager = on_part lc_ConnManager (\<lambda>c s. s\<lparr>lc_ConnManager := c\<rparr>)"

section \<open>The socket\<close>

text \<open>\<open>net.JoinHostPort\<close>: a host with a colon is put into brackets.\<close>

definition JoinHostPort :: "string \<Rightarrow> string \<Rightarrow> string" where
  "JoinHostPort host port =
     (if CHR '':'' \<in> set host then ''['' @ host @ '']:'' @ port else host @ '':'' @ port)"

text \<open>\<open>net.Listen\<close> returns a nil listener with its error, and both are assigned.\<close>

definition protocol_open :: "('c, 'x) net_env_scheme \<Rightarrow> 'tls config \<Rightarrow> ('c, unit) lm" where
  "protocol_open E cfg s = (case net_Listen E (JoinHostPort (Address cfg) (show_int (Port cfg))) of
       Some e \<Rightarrow> (Err e, s\<lparr>lc_tcpListener := None\<rparr>)
     | None \<Rightarrow> (Ok (), s\<lparr>lc_tcpListener := Some (lc_next s), lc_open := lc_next s # lc_open s, lc_next := Suc (lc_next s)\<rparr>))"

text \<open>Closing a socket twice is an error.\<close>

definition socket_Close :: "nat \<Rightarrow> ('c, unit) lm" where
  "socket_Close l s = (if l \<in> set (lc_open s) then (Ok (), s\<lparr>lc_open := removeAll l (lc_open s)\<rparr>)
     else (Err UseOfClosedConn, s))"

definition protocol_close :: "('c, unit) lm" where
  "protocol_close =
     goseq (gets lc_tcpListener) (\<lambda>listener.
     goseq (case listener of None \<Rightarrow> ret () | Some l \<Rightarrow> socket_Close l) (\<lambda>_.
     modify (\<lambda>s. s\<lparr>lc_tcpListener := None\<rparr>)))"

section \<open>Start, Stop, Restart\<close>

definition protocol_Start :: "('c, 'x) net_env_scheme \<Rightarrow> 'tls config \<Rightarrow> ('c, unit) lm" where
  "protocol_Start E cfg =
     goseq (on_manager (cm_Start E)) (\<lambda>_.
     goseq (protocol_open E cfg) (\<lambda>_.
     modify (\<lambda>s. s\<lparr>lc_serving := lc_serving s @ [Scheduled]\<rparr>)))"

definition protocol_Stop :: "('c, 'x) net_env_scheme \<Rightarrow> ('c, unit) lm" where
  "protocol_Stop E = goseq (on_manager (cm_Stop E)) (\<lambda>_. protocol_close)"

text \<open>\<open>errors.Join\<close> of one error has its text and its chain.\<close>

definition server_Stop :: "('c, 'x) net_env_scheme \<Rightarrow> ('c, unit) lm" where
  "server_Stop E = protocol_Stop E"

text \<open>\<open>if err := s.Start(); err != nil { return server.Stop() }\<close>\<close>

definition server_Start :: "('c, 'x) net_env_scheme \<Rightarrow> 'tls config \<Rightarrow> ('c, unit) lm" where
  "server_Start E cfg = goseq (gotry (protocol_Start E cfg)) (\<lambda>x. case x of
       Inl _ \<Rightarrow> server_Stop E
     | Inr _ \<Rightarrow> ret ())"

definition server_Restart :: "('c, 'x) net_env_scheme \<Rightarrow> 'tls config \<Rightarrow> ('c, unit) lm" where
  "server_Restart E cfg = goseq (server_Stop E) (\<lambda>_. server_Start E cfg)"

section \<open>The accepting goroutine\<close>

definition leave :: "nat \<Rightarrow> 'c lifecycle \<Rightarrow> 'c lifecycle" where
  "leave n s = s\<lparr>lc_serving := take n (lc_serving s) @ drop (Suc n) (lc_serving s)\<rparr>"

text \<open>
  A turn of the \<open>n\<close>-th goroutine: it reads the server's socket, or finds none; it accepts a connection,
  which starts \<open>receive\<close>; or \<open>Accept\<close> fails, as it does on a closed socket. Whenever it ends, the
  deferred \<open>close\<close> runs, on the socket the server has then.
\<close>

inductive serve :: "'c lifecycle \<Rightarrow> 'c lifecycle \<Rightarrow> bool" where
  listens: "n < length (lc_serving s) \<Longrightarrow> lc_serving s ! n = Scheduled \<Longrightarrow> lc_tcpListener s = Some l \<Longrightarrow>
    serve s (s\<lparr>lc_serving := (lc_serving s)[n := Accepting l]\<rparr>)"
| no_listener: "n < length (lc_serving s) \<Longrightarrow> lc_serving s ! n = Scheduled \<Longrightarrow> lc_tcpListener s = None \<Longrightarrow>
    serve s (leave n (snd (protocol_close s)))"
| accepts: "n < length (lc_serving s) \<Longrightarrow> lc_serving s ! n = Accepting l \<Longrightarrow> l \<in> set (lc_open s) \<Longrightarrow>
    serve s s"
| accept_fails: "n < length (lc_serving s) \<Longrightarrow> lc_serving s ! n = Accepting l \<Longrightarrow>
    serve s (leave n (snd (protocol_close s)))"

inductive server_step :: "('c, 'x) net_env_scheme \<Rightarrow> 'tls config \<Rightarrow> 'c lifecycle \<Rightarrow> 'c lifecycle \<Rightarrow> bool"
  for E cfg where
  start: "server_step E cfg s (snd (server_Start E cfg s))"
| stop: "server_step E cfg s (snd (server_Stop E s))"
| restart: "server_step E cfg s (snd (server_Restart E cfg s))"
| serving: "serve s s' \<Longrightarrow> server_step E cfg s s'"

inductive_cases server_stepE: "server_step E cfg s s'"

section \<open>The invariant\<close>

text \<open>The server's socket is open, sockets are not numbered twice, and goroutines accept on old ones.\<close>

definition serves_below :: "nat \<Rightarrow> serving \<Rightarrow> bool" where
  "serves_below n g = (case g of Scheduled \<Rightarrow> True | Accepting l \<Rightarrow> l < n)"

lemma serves_below_simps [simp]: "serves_below n Scheduled" "serves_below n (Accepting l) \<longleftrightarrow> l < n"
  by (simp_all add: serves_below_def)

lemma serves_below_Suc: "serves_below n g \<Longrightarrow> serves_below (Suc n) g"
  by (cases g) simp_all

definition sockets_ok :: "'c lifecycle \<Rightarrow> bool" where
  "sockets_ok s \<longleftrightarrow>
     (case lc_tcpListener s of None \<Rightarrow> True | Some l \<Rightarrow> l \<in> set (lc_open s)) \<and>
     distinct (lc_open s) \<and> list_all (\<lambda>l. l < lc_next s) (lc_open s) \<and>
     list_all (serves_below (lc_next s)) (lc_serving s)"

lemma sockets_ok_new: "sockets_ok (new_lifecycle c)"
  by (simp add: sockets_ok_def new_lifecycle_def)

lemma keeps_on_manager: "keeps sockets_ok (on_manager m)"
  by (auto simp: keeps_def on_manager_def on_part_def case_prod_beta sockets_ok_def split: option.split)

lemma keeps_protocol_open: "keeps sockets_ok (protocol_open E cfg)"
  by (rule keepsI)
    (auto simp: protocol_open_def sockets_ok_def list_all_iff split: option.split intro: less_SucI serves_below_Suc)

lemma protocol_close_ok:
  "sockets_ok s \<Longrightarrow> protocol_close s = (Ok (), s\<lparr>lc_tcpListener := None,
     lc_open := (case lc_tcpListener s of None \<Rightarrow> lc_open s | Some l \<Rightarrow> removeAll l (lc_open s))\<rparr>)"
  by (auto simp: protocol_close_def socket_Close_def sockets_ok_def go_simps split: option.splits)

lemma keeps_protocol_close: "keeps sockets_ok protocol_close"
  by (rule keepsI)
    (auto simp: protocol_close_ok, auto simp: sockets_ok_def list_all_iff distinct_removeAll split: option.splits)

lemma keeps_protocol_Start: "keeps sockets_ok (protocol_Start E cfg)"
  unfolding protocol_Start_def
  by (intro keeps_goseq keeps_on_manager keeps_protocol_open)
    (auto simp: keeps_def modify_def sockets_ok_def split: option.splits)

lemma keeps_server_Stop: "keeps sockets_ok (server_Stop E)"
  unfolding server_Stop_def protocol_Stop_def
  by (intro keeps_goseq keeps_on_manager keeps_protocol_close)

lemma keeps_server_Start: "keeps sockets_ok (server_Start E cfg)"
  unfolding server_Start_def
  by (intro keeps_goseq keeps_gotry keeps_protocol_Start) (auto intro: keeps_server_Stop keeps_ret split: sum.split)

lemma keeps_server_Restart: "keeps sockets_ok (server_Restart E cfg)"
  unfolding server_Restart_def by (intro keeps_goseq keeps_server_Stop keeps_server_Start)

lemma sockets_ok_leave: "sockets_ok s \<Longrightarrow> sockets_ok (leave n s)"
  by (auto simp: sockets_ok_def leave_def list_all_iff dest!: in_set_takeD in_set_dropD split: option.splits)

lemma sockets_ok_serve: "serve s s' \<Longrightarrow> sockets_ok s \<Longrightarrow> sockets_ok s'"
proof (induction rule: serve.induct)
  case (listens n s l)
  then show ?case
    by (auto simp: sockets_ok_def list_all_iff dest!: set_update_subset_insert [THEN subsetD])
next
  case (no_listener n s)
  then show ?case using keeps_protocol_close by (auto simp: keeps_def intro: sockets_ok_leave)
next
  case (accept_fails n s l)
  then show ?case using keeps_protocol_close by (auto simp: keeps_def intro: sockets_ok_leave)
qed

text \<open>
  Operations that do not overlap keep the socket: the one the server holds is open, so closing it never
  fails, and \<open>Stop\<close> reports exactly the error of the connection manager.
\<close>

theorem separate_operations_keep_socket:
  assumes "(server_step E cfg)\<^sup>*\<^sup>* (new_lifecycle c) s"
  shows "sockets_ok s \<and> fst (protocol_close s) = Ok () \<and>
    fst (server_Stop E s) = fst (cm_Stop E (lc_ConnManager s))"
proof -
  have ok: "sockets_ok s"
    using assms
  proof (induction rule: rtranclp_induct)
    case base
    show ?case by (rule sockets_ok_new)
  next
    case (step s s')
    from step.hyps(2) step.IH show ?case
      using keeps_server_Start [of E cfg] keeps_server_Stop [of E] keeps_server_Restart [of E cfg] sockets_ok_serve
      by (elim server_stepE) (auto simp: keeps_def)
  qed
  obtain x m where cm: "cm_Stop E (lc_ConnManager s) = (x, m)" by fastforce
  have "sockets_ok (s\<lparr>lc_ConnManager := m\<rparr>)" using ok by (simp add: sockets_ok_def split: option.splits)
  from protocol_close_ok [OF this] protocol_close_ok [OF ok] ok show ?thesis
    using cm by (cases x) (simp_all add: server_Stop_def protocol_Stop_def on_manager_def on_part_def goseq_def)
qed

text \<open>An environment in which everything succeeds, except listening on some addresses\<close>

definition calm_env :: "string list \<Rightarrow> unit net_env" where
  "calm_env busy = \<lparr>cm_Start = ret (), cm_Stop = ret (),
     net_Listen = \<lambda>addr. if addr \<in> set busy then Some (GoError ''address already in use'' []) else None\<rparr>"

section \<open>Failures\<close>

lemma not_listening:
  assumes "cm_Start E c = (Ok (), c1)" and "cm_Stop E c1 = (Ok (), c2)"
    and "net_Listen E (JoinHostPort (Address cfg) (show_int (Port cfg))) = Some e"
  shows "server_Start E cfg (new_lifecycle c) = (Ok (), new_lifecycle c2)"
  using assms
  by (simp add: server_Start_def protocol_Start_def server_Stop_def protocol_Stop_def protocol_open_def
      protocol_close_def on_manager_def on_part_def new_lifecycle_def go_simps)

text \<open>
  a failed start is reported as a success. When the address cannot be listened on, \<open>Start\<close> stops
  the server and returns the result of that: no error, with no socket open and nobody serving.
\<close>

theorem failed_start_reported_as_success:
  assumes "cm_Start E c = (Ok (), c1)" and "cm_Stop E c1 = (Ok (), c2)"
    and "net_Listen E (JoinHostPort (Address cfg) (show_int (Port cfg))) = Some e"
  shows "server_Start E cfg (new_lifecycle c) = (Ok (), new_lifecycle c2)"
  by (rule not_listening [OF assms])

theorem failed_start_reported_as_success_witness:
  "server_Start (calm_env [JoinHostPort [] (show_int 5432)]) (NewDefaultConfig ()) (new_lifecycle ()) =
     (Ok (), new_lifecycle ())"
  by (rule failed_start_reported_as_success [where e = "GoError ''address already in use'' []"])
    (simp_all add: calm_env_def ret_def Address_def Port_def NewDefaultConfig_def defaultAddr_def defaultPort_def)

text \<open>
  C22: a restart can close the new socket. \<open>Restart\<close> succeeds and the server listens on a new socket;
  when the goroutine of the old one gets its turn only then, its \<open>Accept\<close> fails and its deferred
  \<open>close\<close> closes the new socket: the server is left without one. Had it run before the new start,
  the server would keep listening.
\<close>

theorem restart_race:
  assumes "lc_tcpListener s = Some l" and "lc_open s = [l]" and "lc_serving s = [Accepting l]"
    and "cm_Stop E (lc_ConnManager s) = (Ok (), c1)" and "cm_Start E c1 = (Ok (), c2)"
    and "net_Listen E (JoinHostPort (Address cfg) (show_int (Port cfg))) = None"
  shows "(\<exists>s1 s2. server_Restart E cfg s = (Ok (), s1) \<and> lc_tcpListener s1 = Some (lc_next s) \<and>
      lc_open s1 = [lc_next s] \<and> serve s1 s2 \<and> lc_tcpListener s2 = None \<and> lc_open s2 = []) \<and>
    (\<exists>s1 s2 s3. server_Stop E s = (Ok (), s1) \<and> serve s1 s2 \<and> server_Start E cfg s2 = (Ok (), s3) \<and>
      lc_tcpListener s3 = Some (lc_next s) \<and> lc_open s3 = [lc_next s] \<and> lc_serving s3 = [Scheduled])"
proof
  let ?s1 = "s\<lparr>lc_ConnManager := c2, lc_tcpListener := Some (lc_next s), lc_open := [lc_next s],
    lc_next := Suc (lc_next s), lc_serving := [Accepting l, Scheduled]\<rparr>"
  have "server_Restart E cfg s = (Ok (), ?s1)"
    using assms
    by (simp add: server_Restart_def server_Start_def protocol_Start_def server_Stop_def protocol_Stop_def
        protocol_open_def protocol_close_def socket_Close_def on_manager_def on_part_def go_simps)
  moreover have "serve ?s1 (leave 0 (snd (protocol_close ?s1)))"
    by (rule serve.accept_fails [of 0 _ l]) simp_all
  moreover have "snd (protocol_close ?s1) = ?s1\<lparr>lc_tcpListener := None, lc_open := []\<rparr>"
    by (simp add: protocol_close_def socket_Close_def go_simps)
  ultimately show "\<exists>s1 s2. server_Restart E cfg s = (Ok (), s1) \<and> lc_tcpListener s1 = Some (lc_next s) \<and>
      lc_open s1 = [lc_next s] \<and> serve s1 s2 \<and> lc_tcpListener s2 = None \<and> lc_open s2 = []"
    by - (rule exI [of _ ?s1], rule exI [of _ "leave 0 (snd (protocol_close ?s1))"], simp add: leave_def)
next
  let ?s1 = "s\<lparr>lc_ConnManager := c1, lc_tcpListener := None, lc_open := []\<rparr>"
  have "server_Stop E s = (Ok (), ?s1)"
    using assms
    by (simp add: server_Stop_def protocol_Stop_def protocol_close_def socket_Close_def on_manager_def
        on_part_def go_simps)
  moreover have "serve ?s1 (leave 0 (snd (protocol_close ?s1)))"
    by (rule serve.accept_fails [of 0 _ l]) (simp_all add: assms)
  moreover have "leave 0 (snd (protocol_close ?s1)) = ?s1\<lparr>lc_serving := []\<rparr>"
    by (simp add: protocol_close_def leave_def assms go_simps)
  ultimately show "\<exists>s1 s2 s3. server_Stop E s = (Ok (), s1) \<and> serve s1 s2 \<and> server_Start E cfg s2 = (Ok (), s3) \<and>
      lc_tcpListener s3 = Some (lc_next s) \<and> lc_open s3 = [lc_next s] \<and> lc_serving s3 = [Scheduled]"
    using assms(5,6)
    by - (rule exI [of _ ?s1], rule exI [of _ "?s1\<lparr>lc_serving := []\<rparr>"],
      simp add: server_Start_def protocol_Start_def protocol_open_def on_manager_def on_part_def go_simps)
qed

theorem restart_race_witness:
  "let s = (new_lifecycle ())\<lparr>lc_tcpListener := Some 0, lc_open := [0], lc_next := 1, lc_serving := [Accepting 0]\<rparr> in
   \<exists>s1 s2. server_Restart (calm_env []) (NewDefaultConfig ()) s = (Ok (), s1) \<and> serve s1 s2 \<and> lc_open s2 = []"
  using restart_race [of "(new_lifecycle ())\<lparr>lc_tcpListener := Some 0, lc_open := [0], lc_next := 1,
    lc_serving := [Accepting 0]\<rparr>" 0 "calm_env []" "()" "()" "NewDefaultConfig ()"]
  by (auto simp: calm_env_def ret_def Let_def)

end
