(* ===== verification/Daemon.thy ===== *)
theory Daemon
  imports Server_Lifecycle
begin

text \<open>
  The process of the example server (\<open>examples/go-postgresqld/main.go\<close>): it starts the server, takes
  signals from a channel with room for one, restarts or stops the server on them, and exits. The main
  goroutine, the one that takes the signals and those of the server run beside each other, so the process
  is a step relation, over whole operations of the server, as in \<open>Server_Lifecycle\<close>: what it says of all orders
  of events holds while these do not overlap. Log output and the profiling server are left out.
\<close>

section \<open>The process\<close>

datatype signal = SIGHUP | SIGINT | SIGTERM

datatype log_level = LevelInfo | LevelTrace | LevelDebug

definition logLevel :: "bool \<Rightarrow> bool \<Rightarrow> log_level" where
  "logLevel isDebugEnabled isTraceEnabled =
     (if isDebugEnabled then LevelDebug else if isTraceEnabled then LevelTrace else LevelInfo)"

text \<open>
  \<open>dm_sigCh\<close> is the channel of signals and \<open>dm_taking\<close> says whether a goroutine still takes them;
  \<open>dm_exitCh\<close> is what the main goroutine received and is about to exit with; \<open>dm_exit\<close> is the exit code
  of a process that has ended.
\<close>

record 'c daemon =
  dm_server :: "'c lifecycle"
  dm_sigCh :: "signal option"
  dm_taking :: bool
  dm_exitCh :: "nat option"
  dm_exit :: "nat option"

definition on_server :: "('c, 'r) lm \<Rightarrow> ('c daemon, gerr, 'r) gom" where
  "on_server = on_part dm_server (\<lambda>s d. d\<lparr>dm_server := s\<rparr>)"

definition os_Exit :: "nat \<Rightarrow> ('c daemon, gerr, unit) gom" where
  "os_Exit code = modify (\<lambda>d. d\<lparr>dm_exit := Some code\<rparr>)"

text \<open>\<open>if err != nil { log; os.Exit(1) }\<close>\<close>

definition or_exit :: "('c daemon, gerr, unit) gom \<Rightarrow> ('c daemon, gerr, unit) gom \<Rightarrow> ('c daemon, gerr, unit) gom" where
  "or_exit m n = goseq (gotry m) (\<lambda>x. case x of Inl _ \<Rightarrow> os_Exit 1 | Inr _ \<Rightarrow> n)"

definition daemon_main :: "('c, 'x) net_env_scheme \<Rightarrow> 'tls config \<Rightarrow> ('c daemon, gerr, unit) gom" where
  "daemon_main E cfg = or_exit (on_server (server_Start E cfg)) (ret ())"

text \<open>\<open>signal.Notify\<close> does not wait for room in the channel: a signal that finds it full is lost.\<close>

definition Notify :: "signal \<Rightarrow> 'c daemon \<Rightarrow> 'c daemon" where
  "Notify s d = (case dm_sigCh d of None \<Rightarrow> d\<lparr>dm_sigCh := Some s\<rparr> | Some _ \<Rightarrow> d)"

text \<open>
  A turn of the goroutine that takes the signals. The main goroutine receives one code; a second send
  waits for ever.
\<close>

definition handle_signal :: "('c, 'x) net_env_scheme \<Rightarrow> 'tls config \<Rightarrow> signal \<Rightarrow> ('c daemon, gerr, unit) gom" where
  "handle_signal E cfg s = (case s of
       SIGHUP \<Rightarrow> or_exit (on_server (server_Restart E cfg)) (ret ())
     | _ \<Rightarrow> or_exit (on_server (server_Stop E)) (modify (\<lambda>d.
         if dm_exitCh d = None then d\<lparr>dm_exitCh := Some 0\<rparr> else d\<lparr>dm_taking := False\<rparr>)))"

text \<open>
  While the process runs: a signal arrives, a signal is taken, a goroutine of the server takes a turn,
  or the main goroutine exits.
\<close>

inductive daemon_step :: "('c, 'x) net_env_scheme \<Rightarrow> 'tls config \<Rightarrow> 'c daemon \<Rightarrow> 'c daemon \<Rightarrow> bool"
  for E cfg where
  arrives: "dm_exit d = None \<Longrightarrow> daemon_step E cfg d (Notify s d)"
| takes: "dm_exit d = None \<Longrightarrow> dm_taking d \<Longrightarrow> dm_sigCh d = Some s \<Longrightarrow>
    handle_signal E cfg s (d\<lparr>dm_sigCh := None\<rparr>) = (Ok (), d') \<Longrightarrow> daemon_step E cfg d d'"
| serves: "dm_exit d = None \<Longrightarrow> serve (dm_server d) s' \<Longrightarrow> daemon_step E cfg d (d\<lparr>dm_server := s'\<rparr>)"
| exits: "dm_exit d = None \<Longrightarrow> dm_exitCh d = Some code \<Longrightarrow> daemon_step E cfg d (d\<lparr>dm_exit := Some code\<rparr>)"

inductive_cases daemon_stepE: "daemon_step E cfg d d'"

definition new_daemon :: "'c \<Rightarrow> 'c daemon" where
  "new_daemon c = \<lparr>dm_server = new_lifecycle c, dm_sigCh = None, dm_taking = True, dm_exitCh = None, dm_exit = None\<rparr>"

section \<open>The invariant\<close>

text \<open>
  The sockets are accounted for, the process exits with 0 only for a received code, and the only code that
  is sent is 0.
\<close>

definition daemon_ok :: "'c daemon \<Rightarrow> bool" where
  "daemon_ok d \<longleftrightarrow> sockets_ok (dm_server d) \<and> (dm_exitCh d = None \<or> dm_exitCh d = Some 0) \<and>
     (dm_exit d = None \<or> dm_exit d = Some 1 \<or> dm_exit d = Some 0 \<and> dm_exitCh d = Some 0)"

lemma on_server_ok:
  assumes "keeps sockets_ok m" "daemon_ok d" "on_server m d = (x, d')"
  shows "daemon_ok d' \<and> dm_exit d' = dm_exit d"
  using assms keepsD [of sockets_ok m] by (auto simp: on_server_def on_part_def daemon_ok_def split: prod.splits)

lemma or_exit_ok:
  assumes "keeps sockets_ok m" "\<And>d. daemon_ok d \<Longrightarrow> dm_exit d = None \<Longrightarrow> daemon_ok (snd (n d))"
    and "daemon_ok d" "dm_exit d = None"
  shows "daemon_ok (snd (or_exit (on_server m) n d))"
proof -
  obtain x d' where d': "on_server m d = (x, d')" by fastforce
  with on_server_ok [OF assms(1,3) d'] assms(2,4) show ?thesis
    by (cases x) (auto simp: or_exit_def goseq_def gotry_def os_Exit_def modify_def daemon_ok_def)
qed

lemma handle_signal_ok:
  assumes "daemon_ok d" "dm_exit d = None"
  shows "daemon_ok (snd (handle_signal E cfg s d))"
proof (cases "s = SIGHUP")
  case True
  then show ?thesis
    using or_exit_ok [OF keeps_server_Restart _ assms, of "ret ()"] by (simp add: handle_signal_def ret_def)
next
  case False
  let ?send = "modify (\<lambda>d. if dm_exitCh d = None then d\<lparr>dm_exitCh := Some 0\<rparr> else d\<lparr>dm_taking := False\<rparr>)"
  have "daemon_ok (snd (?send d'))" if "daemon_ok d'" "dm_exit d' = None" for d' :: "'a daemon"
    using that by (simp add: modify_def daemon_ok_def)
  from or_exit_ok [OF keeps_server_Stop this assms] False show ?thesis
    by (cases s) (simp_all add: handle_signal_def)
qed

lemma daemon_main_ok: "daemon_ok (snd (daemon_main E cfg (new_daemon c)))"
  unfolding daemon_main_def
  by (rule or_exit_ok [OF keeps_server_Start])
    (simp_all add: ret_def daemon_ok_def new_daemon_def sockets_ok_new)

lemma daemon_step_ok:
  assumes "daemon_step E cfg d d'" "daemon_ok d"
  shows "daemon_ok d'"
  using assms
proof cases
  case (arrives s)
  then show ?thesis using assms(2) by (simp add: Notify_def daemon_ok_def split: option.split)
next
  case (takes s)
  have "daemon_ok (d\<lparr>dm_sigCh := None\<rparr>)" using assms(2) by (simp add: daemon_ok_def)
  from handle_signal_ok [OF this, of E cfg s] takes show ?thesis by simp
next
  case (serves s')
  then show ?thesis using assms(2) sockets_ok_serve by (auto simp: daemon_ok_def)
next
  case (exits code)
  then show ?thesis using assms(2) by (auto simp: daemon_ok_def)
qed

text \<open>
  The process exits with 0 or 1, and with 0 only when a code was handed over behind a termination signal. A
  panic in the code of the server, which would end it with another status, is not a step here.
\<close>

theorem daemon_exit_codes:
  assumes "(daemon_step E cfg)\<^sup>*\<^sup>* (snd (daemon_main E cfg (new_daemon c))) d" and "dm_exit d = Some code"
  shows "code = 1 \<or> code = 0 \<and> dm_exitCh d = Some 0"
proof -
  have "daemon_ok d"
    using assms(1) by (induction rule: rtranclp_induct) (auto intro: daemon_main_ok daemon_step_ok)
  with assms(2) show ?thesis by (auto simp: daemon_ok_def)
qed

section \<open>Termination and failures\<close>

text \<open>
  a termination signal ends the process with 0. When the connection manager stops, taking the signal
  closes the socket, and the main goroutine exits with 0.
\<close>

theorem termination_signal_exits:
  assumes "daemon_ok d" and "dm_exit d = None" and "dm_taking d" and "dm_exitCh d = None"
    and "dm_sigCh d = Some s" and "s \<noteq> SIGHUP" and "cm_Stop E (lc_ConnManager (dm_server d)) = (Ok (), c1)"
  shows "\<exists>d'. (daemon_step E cfg)\<^sup>*\<^sup>* d d' \<and> dm_exit d' = Some 0 \<and> lc_tcpListener (dm_server d') = None \<and>
    (\<forall>l. lc_tcpListener (dm_server d) = Some l \<longrightarrow> l \<notin> set (lc_open (dm_server d')))"
proof -
  let ?s1 = "(dm_server d)\<lparr>lc_ConnManager := c1\<rparr>"
  have ok: "sockets_ok ?s1" using assms(1) by (simp add: daemon_ok_def sockets_ok_def split: option.splits)
  let ?s2 = "snd (protocol_close ?s1)"
  have close: "protocol_close ?s1 = (Ok (), ?s2)" "lc_tcpListener ?s2 = None"
    "\<forall>l. lc_tcpListener (dm_server d) = Some l \<longrightarrow> l \<notin> set (lc_open ?s2)"
    by (simp_all add: protocol_close_ok [OF ok] split: option.split)
  let ?d1 = "d\<lparr>dm_sigCh := None, dm_server := ?s2, dm_exitCh := Some 0\<rparr>"
  have stop: "server_Stop E (dm_server d) = (Ok (), ?s2)"
    using close(1) assms(7) by (simp add: server_Stop_def protocol_Stop_def on_manager_def on_part_def goseq_def)
  have "handle_signal E cfg s (d\<lparr>dm_sigCh := None\<rparr>) = (Ok (), ?d1)"
    using stop assms(4,6)
    by (cases s) (simp_all add: handle_signal_def or_exit_def on_server_def on_part_def goseq_def gotry_def modify_def)
  from daemon_step.takes [OF assms(2,3,5) this] have one: "daemon_step E cfg d ?d1" .
  have "daemon_step E cfg ?d1 (?d1\<lparr>dm_exit := Some 0\<rparr>)" by (rule daemon_step.exits) (simp_all add: assms(2))
  with one have "(daemon_step E cfg)\<^sup>*\<^sup>* d (?d1\<lparr>dm_exit := Some 0\<rparr>)" by (metis rtranclp.simps)
  with close(2,3) show ?thesis by (intro exI [of _ "?d1\<lparr>dm_exit := Some 0\<rparr>"]) simp
qed

theorem termination_signal_exits_witness:
  "\<exists>d'. (daemon_step (calm_env []) (NewDefaultConfig ()))\<^sup>*\<^sup>* ((new_daemon ())\<lparr>dm_sigCh := Some SIGTERM\<rparr>) d' \<and> dm_exit d' = Some 0"
  using termination_signal_exits [of "(new_daemon ())\<lparr>dm_sigCh := Some SIGTERM\<rparr>" SIGTERM "calm_env []" "()" "NewDefaultConfig ()"]
  by (auto simp: new_daemon_def daemon_ok_def sockets_ok_new calm_env_def ret_def)

text \<open>
  C26: a process that cannot listen runs on. When the address is taken, the process does not exit: it has no
  socket and no goroutine that serves, and nothing happens to it but the arrival of a signal.
\<close>

theorem daemon_runs_without_socket:
  assumes "cm_Start E c = (Ok (), c1)" and "cm_Stop E c1 = (Ok (), c2)"
    and "net_Listen E (JoinHostPort (Address cfg) (show_int (Port cfg))) = Some e"
  shows "\<exists>d. daemon_main E cfg (new_daemon c) = (Ok (), d) \<and> dm_exit d = None \<and>
    lc_tcpListener (dm_server d) = None \<and> lc_open (dm_server d) = [] \<and> lc_serving (dm_server d) = [] \<and>
    (\<forall>d'. daemon_step E cfg d d' \<longrightarrow> (\<exists>s. d' = Notify s d))"
proof -
  let ?d = "(new_daemon c)\<lparr>dm_server := new_lifecycle c2\<rparr>"
  have main: "daemon_main E cfg (new_daemon c) = (Ok (), ?d)"
    using not_listening [OF assms]
    by (simp add: daemon_main_def or_exit_def on_server_def on_part_def new_daemon_def goseq_def gotry_def ret_def)
  have idle: "\<not> serve (new_lifecycle c2) s'" for s' by (auto simp: new_lifecycle_def elim: serve.cases)
  have "\<exists>s. d' = Notify s ?d" if "daemon_step E cfg ?d d'" for d'
    using that by cases (auto simp: new_daemon_def idle)
  with main show ?thesis by (intro exI [of _ ?d]) (simp add: new_daemon_def new_lifecycle_def)
qed

theorem daemon_runs_without_socket_witness:
  "\<exists>d. daemon_main (calm_env [JoinHostPort [] (show_int 5432)]) (NewDefaultConfig ()) (new_daemon ()) = (Ok (), d) \<and>
    dm_exit d = None \<and> lc_open (dm_server d) = []"
  using daemon_runs_without_socket [of "calm_env [JoinHostPort [] (show_int 5432)]" "()" "()" "()" "NewDefaultConfig ()"
      "GoError ''address already in use'' []"]
  by (auto simp: calm_env_def ret_def Address_def Port_def NewDefaultConfig_def defaultAddr_def defaultPort_def)

text \<open>
  a termination signal behind a restart is lost. While a SIGHUP waits in the channel, SIGTERM changes
  nothing; once the restart is done, the process runs on with nothing to take.
\<close>

theorem termination_signal_lost:
  assumes "dm_sigCh d = Some SIGHUP" and "dm_exit d = None" and "dm_taking d"
    and "server_Restart E cfg (dm_server d) = (Ok (), s')"
  shows "Notify SIGTERM d = d \<and> daemon_step E cfg (Notify SIGTERM d) (d\<lparr>dm_sigCh := None, dm_server := s'\<rparr>)"
proof -
  have "handle_signal E cfg SIGHUP (d\<lparr>dm_sigCh := None\<rparr>) = (Ok (), d\<lparr>dm_sigCh := None, dm_server := s'\<rparr>)"
    using assms(4) by (simp add: handle_signal_def or_exit_def on_server_def on_part_def goseq_def gotry_def ret_def)
  from daemon_step.takes [OF assms(2,3,1) this] assms(1) show ?thesis by (simp add: Notify_def)
qed

end
