(* ===== verification/Arrivals.thy ===== *)
theory Arrivals
  imports Session_Proofs Bind_Proofs
begin

text \<open>
  What arrives later does not disturb a request that is complete: a parser that succeeds on the
  bytes that are there does the same, and leaves the same behind, when more events follow. A
  conversation in which the client waits for answers is reduced with it to its single batches.
\<close>

section \<open>More events on a connection\<close>

definition src_later :: "net_event list \<Rightarrow> io_source \<Rightarrow> io_source" where
  "src_later es src = (case src of NetConn c \<Rightarrow> NetConn (c\<lparr>inbox := inbox c @ es\<rparr>) | BytesReader s \<Rightarrow> BytesReader s)"

definition reader_later :: "net_event list \<Rightarrow> reader \<Rightarrow> reader" where
  "reader_later es r = r\<lparr>rsrc := src_later es (rsrc r)\<rparr>"

definition later :: "net_event list \<Rightarrow> conn \<Rightarrow> conn" where
  "later es c = c\<lparr>c_reader := reader_later es (c_reader c)\<rparr>"

text \<open>A computation that does not notice: its success does not depend on the end of the stream.\<close>

definition prompt :: "'a rd \<Rightarrow> bool" where
  "prompt m \<longleftrightarrow> (\<forall>r x r' es. m r = (Ok x, r') \<longrightarrow> m (reader_later es r) = (Ok x, reader_later es r'))"

lemma promptI:
  "(\<And>r x r' es. m r = (Ok x, r') \<Longrightarrow> m (reader_later es r) = (Ok x, reader_later es r')) \<Longrightarrow> prompt m"
  by (simp add: prompt_def)

lemma promptD: "prompt m \<Longrightarrow> m r = (Ok x, r') \<Longrightarrow> m (reader_later es r) = (Ok x, reader_later es r')"
  by (simp add: prompt_def)

named_theorems prompt_intros \<open>parsers that do not notice what arrives later\<close>

lemma prompt_ret [prompt_intros]: "prompt (ret x)"
  by (simp add: prompt_def ret_def)

lemma prompt_fail [prompt_intros]: "prompt (fail e)"
  by (simp add: prompt_def fail_def)

lemma prompt_panic [prompt_intros]: "prompt (panic p)"
  by (simp add: prompt_def panic_def)

lemma prompt_lift_res [prompt_intros]: "prompt (lift_res x)"
  by (simp add: prompt_def lift_res_def)

lemma prompt_goseq [prompt_intros]:
  assumes "prompt m" "\<And>a. prompt (f a)"
  shows "prompt (goseq m f)"
  by (rule promptI, erule goseq_OkD) (simp add: goseq_Ok promptD [OF assms(1)] promptD [OF assms(2)])

lemma prompt_if [prompt_intros]: "prompt m \<Longrightarrow> prompt n \<Longrightarrow> prompt (if b then m else n)"
  by simp

lemma prompt_repeat_n [prompt_intros]: "prompt m \<Longrightarrow> prompt (repeat_n n m)"
  by (induction n) (auto intro!: prompt_intros)

section \<open>Reading\<close>

lemma recv_later: "recv dl n es = ((bs, None), es') \<Longrightarrow> recv dl n (es @ fs) = ((bs, None), es' @ fs)"
  by (induction dl n es rule: recv.induct) (auto split: if_splits)

lemma src_Read_later:
  "src_Read n src = ((bs, None), src') \<Longrightarrow> src_Read n (src_later es src) = ((bs, None), src_later es src')"
  by (cases src) (auto simp: src_Read_def src_later_def conn_Read_def slice_Read_def recv_later
      split: prod.splits if_splits)

lemma read_loop_later:
  "read_loop src_Read fuel need src = Some ((bs, None), src') \<Longrightarrow>
   read_loop src_Read fuel need (src_later es src) = Some ((bs, None), src_later es src')"
proof (induction fuel arbitrary: need src bs)
  case (Suc fuel)
  show ?case
  proof (cases "need = 0")
    case False
    obtain as e s1 where rd: "src_Read need src = ((as, e), s1)" by (metis surj_pair)
    with Suc.prems False have e: "e = None" by (cases e) simp_all
    with Suc.prems rd False obtain cs where
      cs: "read_loop src_Read fuel (need - length as) s1 = Some ((cs, None), src')" "bs = as @ cs"
      by (auto split: option.splits)
    from Suc.IH [OF cs(1)] cs(2) src_Read_later [OF rd [unfolded e]] False show ?thesis by simp
  qed (use Suc.prems in simp)
qed (simp split: if_splits)

lemma read_loop_error_short:
  "read_loop src_Read fuel need src = Some ((bs, Some e), src') \<Longrightarrow> length bs < need"
proof (induction fuel arbitrary: need src bs)
  case (Suc fuel)
  then have need: "0 < need" by (cases need) simp_all
  obtain as d s1 where rd: "src_Read need src = ((as, d), s1)" by (metis surj_pair)
  show ?case
  proof (cases d)
    case None
    with Suc.prems rd need obtain cs where
      cs: "read_loop src_Read fuel (need - length as) s1 = Some ((cs, Some e), src')" "bs = as @ cs"
      by (auto split: option.splits)
    from Suc.IH [OF cs(1)] cs(2) show ?thesis by simp
  next
    case (Some d')
    with src_io.read_error [of need src as d' s1] rd need Suc.prems show ?thesis by simp
  qed
qed (simp split: if_splits)

lemma ReadAtLeast_later:
  assumes "ReadAtLeast src_Read n src = ((bs, None), src')"
  shows "ReadAtLeast src_Read n (src_later es src) = ((bs, None), src_later es src')"
proof -
  obtain cs e s1 where loop: "read_loop src_Read n n src = Some ((cs, e), s1)"
    using assms by (cases "read_loop src_Read n n src") (auto simp: ReadAtLeast_def)
  have e: "e = None"
    using assms loop read_loop_error_short [of n n src cs _ s1]
    by (cases e) (fastforce simp: ReadAtLeast_def split: if_splits)+
  with assms loop have "cs = bs" "s1 = src'" by (simp_all add: ReadAtLeast_def split: if_splits)
  moreover have "n \<le> length cs" using src_io.loop_conserves [OF loop] e by simp
  ultimately show ?thesis
    using e read_loop_later [of n n src bs src' es] loop by (simp add: ReadAtLeast_def)
qed

lemma reader_later_simps [simp]:
  "peekBuf (reader_later es r) = peekBuf r" "rsrc (reader_later es r) = src_later es (rsrc r)"
  "reader_later es (r\<lparr>peekBuf := b\<rparr>) = (reader_later es r)\<lparr>peekBuf := b\<rparr>"
  by (simp_all add: reader_later_def)

lemma prompt_ReadBytes [prompt_intros]: "prompt (ReadBytes n)"
proof (rule promptI)
  fix r x r' es assume ok: "ReadBytes n r = (Ok x, r')"
  show "ReadBytes n (reader_later es r) = (Ok x, reader_later es r')"
  proof (cases "n \<le> length (peekBuf r)")
    case True
    with ok show ?thesis by (auto simp: ReadBytes_def Let_def min_def)
  next
    case False
    with ok obtain bs s1 where "ReadAtLeast src_Read (n - length (peekBuf r)) (rsrc r) = ((bs, None), s1)"
      "x = peekBuf r @ bs" "r' = r\<lparr>peekBuf := [], rsrc := s1\<rparr>"
      by (auto simp: ReadBytes_def Let_def min_def split: prod.splits option.splits)
    with False ReadAtLeast_later [of "n - length (peekBuf r)" "rsrc r" bs s1 es] show ?thesis
      by (simp add: ReadBytes_def Let_def min_def reader_later_def)
  qed
qed

lemma prompt_Read_direct [prompt_intros]: "prompt (Read_direct n)"
  by (rule promptI)
    (auto simp: Read_direct_def reader_later_def src_Read_later split: prod.splits option.splits)

lemma prompt_ReadByte [prompt_intros]: "prompt ReadByte"
  unfolding ReadByte_def by (intro prompt_intros)

lemma prompt_ReadInt32 [prompt_intros]: "prompt ReadInt32"
  unfolding ReadInt32_def by (intro prompt_intros)

lemma prompt_ReadInt16 [prompt_intros]: "prompt ReadInt16"
  unfolding ReadInt16_def by (intro prompt_intros)

lemma ReadBytesUntil_loop_later:
  "ReadBytesUntil_loop delim buf r = (Ok x, r') \<Longrightarrow>
   ReadBytesUntil_loop delim buf (reader_later es r) = (Ok x, reader_later es r')"
proof (induction delim buf r rule: ReadBytesUntil_loop.induct)
  case (1 delim buf r)
  note unfold = ReadBytesUntil_loop.simps [of delim buf]
  obtain y r1 where rb: "ReadByte r = (y, r1)" by fastforce
  with 1(2) obtain b where b: "y = Ok b" by (cases y) (simp_all add: unfold)
  with 1 rb show ?case
    using promptD [OF prompt_ReadByte, of r b r1 es] by (auto simp: unfold split: if_splits)
qed

lemma prompt_ReadString [prompt_intros]: "prompt ReadString"
  unfolding ReadString_def ReadBytesUntil_def
  by (intro prompt_intros promptI ReadBytesUntil_loop_later)

lemma prompt_peeked [prompt_intros]: "prompt (modify (\<lambda>r. r\<lparr>peekBuf := peekBuf r @ buf\<rparr>))"
  by (rule promptI) (auto simp: modify_def)

lemma prompt_PeekType [prompt_intros]: "prompt PeekType"
  unfolding PeekType_def PeekBytes_def by (intro prompt_intros)

lemma prompt_NewMessageWithReader [prompt_intros]: "prompt NewMessageWithReader"
  unfolding NewMessageWithReader_def ReadType_def ReadLength_def by (intro prompt_intros)

lemma prompt_NewRequestMessageWithReader [prompt_intros]: "prompt NewRequestMessageWithReader"
  unfolding NewRequestMessageWithReader_def by (intro prompt_intros)

lemma prompt_ReadMessageData [prompt_intros]: "prompt (ReadMessageData msg)"
  unfolding ReadMessageData_def Let_def by (intro prompt_intros)

lemma prompt_read_slice [prompt_intros]: "prompt m \<Longrightarrow> prompt (read_slice n m)"
  unfolding read_slice_def make_slice_def by (intro prompt_intros)

lemma prompt_read_param_bytes [prompt_intros]: "prompt read_param_bytes"
  unfolding read_param_bytes_def by (intro prompt_intros)

lemma prompt_requests [prompt_intros]:
  "prompt NewParseWithReader" "prompt NewBindWithReader" "prompt NewDescribeWithReader"
  "prompt NewExecuteWithReader" "prompt NewCloseWithReader" "prompt NewQueryWithReader"
  "prompt NewSyncWithReader" "prompt NewFlushWithReader" "prompt NewTerminateWithReader"
  unfolding request_parser_defs NewBindWithReader_def by (intro prompt_intros)+

end
