(* ===== verification/Client_Protocol.thy ===== *)
theory Client_Protocol
  imports Arrivals Sessions
begin

text \<open>
  The protocol of a connection as its client knows it: the messages a client sends, and what each of
  them means for prepared statements, portals, the transaction status and the data, written down
  without readers, connections or buffers. \<open>Conversations\<close> shows that the server does this.
\<close>

section \<open>What a client sends\<close>

datatype client_msg =
    CQuery string
  | CParse string string "32 word list"
  | CBind string string "format_code list" "bytes option list" "format_code list"
  | CDescribe PreparedType string
  | CExecute string "32 word"
  | CClose PreparedType string
  | CSync
  | CFlush
  | COther msg_type bytes

fun type_of_client :: "client_msg \<Rightarrow> msg_type" where
  "type_of_client (CQuery q) = QueryMessage"
| "type_of_client (CParse name q types) = ParseMessage"
| "type_of_client (CBind portal stmt fmts vals resFmts) = BindMessage"
| "type_of_client (CDescribe dt name) = DescribeMessage"
| "type_of_client (CExecute portal n) = ExecuteMessage"
| "type_of_client (CClose dt name) = CloseMessage"
| "type_of_client CSync = SyncMessage"
| "type_of_client CFlush = FlushMessage"
| "type_of_client (COther t payload) = t"

fun payload_of_client :: "client_msg \<Rightarrow> bytes" where
  "payload_of_client (CQuery q) = cstring q"
| "payload_of_client (CParse name q types) = enc_parse name q types"
| "payload_of_client (CBind portal stmt fmts vals resFmts) = enc_bind portal stmt fmts vals resFmts"
| "payload_of_client (CDescribe dt name) = enc_prepared_type dt # cstring name"
| "payload_of_client (CExecute portal n) = cstring portal @ Int32ToBytes n"
| "payload_of_client (CClose dt name) = enc_prepared_type dt # cstring name"
| "payload_of_client CSync = []"
| "payload_of_client CFlush = []"
| "payload_of_client (COther t payload) = payload"

definition client_frame :: "client_msg \<Rightarrow> bytes" where
  "client_frame m = frame (type_of_client m) (payload_of_client m)"

definition client_frames :: "client_msg list \<Rightarrow> bytes" where
  "client_frames ms = concat (map client_frame ms)"

lemma client_frames_simps [simp]:
  "client_frames [] = []" "client_frames (m # ms) = client_frame m @ client_frames ms"
  by (simp_all add: client_frames_def)

text \<open>The limits of the format: strings without NUL, counts of 16 bits, lengths of 32\<close>

fun valid_client :: "client_msg \<Rightarrow> bool" where
  "valid_client (CQuery q) = no_nul q"
| "valid_client (CParse name q types) = (no_nul name \<and> no_nul q \<and> length types < 2 ^ 15)"
| "valid_client (CBind portal stmt fmts vals resFmts) = (no_nul portal \<and> no_nul stmt \<and> length fmts < 2 ^ 15 \<and>
     length vals < 2 ^ 15 \<and> length resFmts < 2 ^ 15 \<and> list_all param_ok vals)"
| "valid_client (CDescribe dt name) = no_nul name"
| "valid_client (CExecute portal n) = no_nul portal"
| "valid_client (CClose dt name) = no_nul name"
| "valid_client CSync = True"
| "valid_client CFlush = True"
| "valid_client (COther t payload) = (length payload < 2 ^ 31 \<and>
     t \<notin> {ParseMessage, BindMessage, DescribeMessage, QueryMessage, ExecuteMessage, CloseMessage,
       SyncMessage, FlushMessage, TerminateMessage})"

section \<open>The state a client sees\<close>

text \<open>
  Whether a transaction is open; the prepared statements, each with its text; the portals, each with
  the text and the parameters it was bound to; the data.
\<close>

record 'a view =
  v_tx :: bool
  v_stmts :: "string \<rightharpoonup> string \<times> statement"
  v_portals :: "string \<rightharpoonup> string \<times> BindParam list"
  v_app :: 'a

definition view_stmts :: "nat \<Rightarrow> statement PreparedManager \<Rightarrow> string \<rightharpoonup> string \<times> statement" where
  "view_stmts uuid mgr name = (case PreparedStatement uuid name mgr of
       Ok ps \<Rightarrow> Some (parse_Query (ps_Parse ps), ps_ParsedStatement ps) | _ \<Rightarrow> None)"

definition view_portals :: "nat \<Rightarrow> statement PreparedManager \<Rightarrow> string \<rightharpoonup> string \<times> BindParam list" where
  "view_portals uuid mgr name = (case PreparedPortal uuid name mgr of
       Ok q \<Rightarrow> Some (query_Query q, query_BindParams q) | _ \<Rightarrow> None)"

definition view_of :: "'a session \<Rightarrow> 'a view" where
  "view_of s = \<lparr>v_tx = c_txLocked (s_conn s), v_stmts = view_stmts (c_uuid (s_conn s)) (s_prep s),
     v_portals = view_portals (c_uuid (s_conn s)) (s_prep s), v_app = s_app s\<rparr>"

section \<open>What the messages mean\<close>

text \<open>
  The meaning of statements: what each does to the transaction and the data, which object ids
  describe it, and what is answered when a text is refused.
\<close>

record 'a meaning =
  exec_of :: "statement \<Rightarrow> bool \<times> 'a \<Rightarrow> responses go \<times> bool \<times> 'a"
  ids_of :: "statement \<Rightarrow> 'a \<Rightarrow> 32 word list go \<times> 'a"
  refusal_of :: "string \<Rightarrow> gerr \<Rightarrow> responses go"

text \<open>The bytes of responses, up to the first that has none, and why it has none\<close>

fun deliver :: "responses \<Rightarrow> bytes list \<times> unit go" where
  "deliver [] = ([], Ok ())"
| "deliver (res # rs) = (case fst (Response_Bytes res) of
       Ok b \<Rightarrow> (case deliver rs of (out, r) \<Rightarrow> (b # out, r))
     | Err e \<Rightarrow> ([], Err e)
     | Panic p \<Rightarrow> ([], Panic p))"

text \<open>Statements run in order and answer as they go; the first failure ends them.\<close>

fun run_meaning :: "'a meaning \<Rightarrow> statement list \<Rightarrow> bool \<times> 'a \<Rightarrow> bytes list \<times> unit go \<times> bool \<times> 'a" where
  "run_meaning sem [] x = ([], Ok (), x)"
| "run_meaning sem (st # sts) x = (case exec_of sem st x of
       (Ok rs, x1) \<Rightarrow> (case deliver rs of
           (out, Ok _) \<Rightarrow> (case run_meaning sem sts x1 of (out', r, x2) \<Rightarrow> (out @ out', r, x2))
         | (out, r) \<Rightarrow> (out, r, x1))
     | (Err e, x1) \<Rightarrow> ([], Err e, x1)
     | (Panic p, x1) \<Rightarrow> ([], Panic p, x1))"

definition query_meaning :: "('a, 'x) query_server_scheme \<Rightarrow> 'a meaning \<Rightarrow> string \<Rightarrow> BindParam list \<Rightarrow>
    'a view \<Rightarrow> bytes list \<times> responses go \<times> 'a view" where
  "query_meaning sv sem q ps v = (case sv_BindStatements sv q ps of
       Ok stmts \<Rightarrow> (case run_meaning sem stmts (v_tx v, v_app v) of (out, r, tx, a) \<Rightarrow>
         (out, map_res (\<lambda>_. []) r, v\<lparr>v_tx := tx, v_app := a\<rparr>))
     | Err e \<Rightarrow> ([], if errors_Is e SqlParserErrEmptyQuery then Ok NewEmptyCompleteResponses
         else refusal_of sem (Query_String \<lparr>query_header = None, query_Query = q, query_BindParams = ps\<rparr>) e, v)
     | Panic p \<Rightarrow> ([], Panic p, v))"

text \<open>What is answered while the message is handled, the outcome, and the state behind it\<close>

fun client_meaning :: "('a, 'x) query_server_scheme \<Rightarrow> 'a meaning \<Rightarrow> client_msg \<Rightarrow>
    'a view \<Rightarrow> bytes list \<times> responses go \<times> 'a view" where
  "client_meaning sv sem (CQuery q) v = query_meaning sv sem q [] v"
| "client_meaning sv sem (CParse name q types) v = (case sv_ParseString sv q of
       Ok [st] \<Rightarrow> ([], Ok [MessageResponse NewParseComplete], v\<lparr>v_stmts := (v_stmts v)(name \<mapsto> (q, st))\<rparr>)
     | Ok [] \<Rightarrow> ([], Panic IndexOutOfRange, v)
     | Ok _ \<Rightarrow> ([], Err (NewErrMultiplePreparedStatementNotSupported q), v)
     | Err e \<Rightarrow> ([], Err e, v)
     | Panic p \<Rightarrow> ([], Panic p, v))"
| "client_meaning sv sem (CBind portal stmt fmts vals resFmts) v = (case v_stmts v stmt of
       None \<Rightarrow> ([], Err (NewErrPreparedStatementNotExist stmt), v)
     | Some (q, _) \<Rightarrow> ([], Ok [MessageResponse NewBindComplete],
         v\<lparr>v_portals := (v_portals v)(portal \<mapsto> (q, bind_params fmts vals))\<rparr>))"
| "client_meaning sv sem (CDescribe PreparedStatementType name) v = (case v_stmts v name of
       None \<Rightarrow> ([], Err (NewErrPreparedStatementNotExist name), v)
     | Some (_, st) \<Rightarrow>
         (case if st_Type st = SelectStatement then ids_of sem st (v_app v) else (Ok [], v_app v) of
            (r, a) \<Rightarrow> ([], map_res (\<lambda>ids. [MessageResponse (NewParameterDescriptionWith ids), MessageResponse NewNoData]) r,
              v\<lparr>v_app := a\<rparr>)))"
| "client_meaning sv sem (CDescribe PreparedPortalType name) v = (case v_portals v name of
       None \<Rightarrow> ([], Err (NewErrPreparedPortalNotExist name), v)
     | Some _ \<Rightarrow> ([], Ok [MessageResponse NewNoData], v))"
| "client_meaning sv sem (CExecute portal n) v = (case v_portals v portal of
       None \<Rightarrow> ([], Err (NewErrPreparedPortalNotExist portal), v)
     | Some (q, ps) \<Rightarrow> query_meaning sv sem q ps v)"
| "client_meaning sv sem (CClose PreparedStatementType name) v =
     ([], Ok [MessageResponse NewCloseComplete], v\<lparr>v_stmts := (v_stmts v)(name := None)\<rparr>)"
| "client_meaning sv sem (CClose PreparedPortalType name) v =
     ([], Ok [MessageResponse NewCloseComplete], v\<lparr>v_portals := (v_portals v)(name := None)\<rparr>)"
| "client_meaning sv sem CSync v = ([], Ok [], v)"
| "client_meaning sv sem CFlush v = ([], Ok [], v)"
| "client_meaning sv sem (COther t payload) v = ([], Err (NewErrMessageNotSuppoted t), v)"

section \<open>Conversations\<close>

definition ready_bytes :: "bool \<Rightarrow> bytes" where
  "ready_bytes tx = frame ReadyForQueryMessage [if tx then TransactionBlock else TransactionIdle]"

text \<open>
  A message is answered with its responses or its error, and a ready message when nothing further has
  arrived. A response that cannot be written ends the session with its error, and a panic the server.
\<close>

definition round_meaning :: "('a, 'x) query_server_scheme \<Rightarrow> 'a meaning \<Rightarrow> bool \<Rightarrow> client_msg \<Rightarrow>
    'a view \<Rightarrow> bytes list \<times> unit go \<times> 'a view" where
  "round_meaning sv sem further m v = (case client_meaning sv sem m v of (out, r, v1) \<Rightarrow>
     (let ready = if further then [] else [ready_bytes (v_tx v1)] in
      case r of
        Ok rs \<Rightarrow> (case deliver rs of
            (out', Ok _) \<Rightarrow> (out @ out' @ ready, Ok (), v1)
          | (out', r') \<Rightarrow> (out @ out', r', v1))
      | Err e \<Rightarrow> (out @ error_frames (Some e) @ ready, Ok (), v1)
      | Panic p \<Rightarrow> (out, Panic p, v1)))"

text \<open>Messages that arrive together; \<open>further\<close> says whether something is behind the last of them.\<close>

fun batch_meaning :: "('a, 'x) query_server_scheme \<Rightarrow> 'a meaning \<Rightarrow> bool \<Rightarrow> client_msg list \<Rightarrow>
    'a view \<Rightarrow> bytes list \<times> unit go \<times> 'a view" where
  "batch_meaning sv sem further [] v = ([], Ok (), v)"
| "batch_meaning sv sem further (m # ms) v = (case round_meaning sv sem (further \<or> ms \<noteq> []) m v of
       (out, Ok _, v1) \<Rightarrow> (case batch_meaning sv sem further ms v1 of (out', r, v2) \<Rightarrow> (out @ out', r, v2))
     | (out, r, v1) \<Rightarrow> (out, r, v1))"

text \<open>Batches, each sent when the answers to the one before are there; the last ends the session.\<close>

fun conversation_meaning :: "('a, 'x) query_server_scheme \<Rightarrow> 'a meaning \<Rightarrow> client_msg list list \<Rightarrow> client_msg list \<Rightarrow>
    'a view \<Rightarrow> bytes list \<times> unit go \<times> 'a view" where
  "conversation_meaning sv sem [] final v = batch_meaning sv sem True final v"
| "conversation_meaning sv sem (b # bs) final v = (case batch_meaning sv sem False b v of
       (out, Ok _, v1) \<Rightarrow> (case conversation_meaning sv sem bs final v1 of (out', r, v2) \<Rightarrow> (out @ out', r, v2))
     | (out, r, v1) \<Rightarrow> (out, r, v1))"

text \<open>The events of the conversation on the network\<close>

fun conversation_events :: "client_msg list list \<Rightarrow> client_msg list \<Rightarrow> bytes \<Rightarrow> net_event list" where
  "conversation_events [] final rest = [Arrive (client_frames final @ frame TerminateMessage [] @ rest)]"
| "conversation_events (b # bs) final rest = Arrive (client_frames b) # Silence # conversation_events bs final rest"

end
