(* ===== verification/Conversations.thy ===== *)
theory Conversations
  imports Client_Protocol
begin

text \<open>
  The server holds the conversations its clients expect: every message is handled as
  \<open>Client_Protocol\<close> says, in batches that arrive together as in batches that wait for the answers.
\<close>

section \<open>Connections with more to come\<close>

lemma later_simps [simp]:
  "c_reader (later es c) = reader_later es (c_reader c)"
  "c_txLocked (later es c) = c_txLocked c" "c_uuid (later es c) = c_uuid c" "c_db (later es c) = c_db c"
  "c_tls (later es c) = c_tls c" "c_isClosed (later es c) = c_isClosed c" "sent (later es c) = sent c"
  "writable (later es c) = writable c" "later [] c = c" "later fs (later es c) = later (es @ fs) c"
  "(later es c)\<lparr>c_txLocked := tx\<rparr> = later es (c\<lparr>c_txLocked := tx\<rparr>)"
  by (cases c; simp add: later_def reader_later_def src_later_def sent_def writable_def split: io_source.splits)+

lemma put_out_later: "put_out b (later es c) = later es (put_out b c)"
  by (simp add: put_out_def later_def reader_later_def src_later_def split: io_source.splits)

lemma fold_put_out_later: "fold put_out bs (later es c) = later es (fold put_out bs c)"
  by (induction bs arbitrary: c) (simp_all add: put_out_later)

lemma on_reader_later: "prompt m \<Longrightarrow> on_reader m c = (Ok x, c') \<Longrightarrow> on_reader m (later es c) = (Ok x, later es c')"
  by (auto simp: on_reader_def on_part_def later_def promptD split: prod.splits)

text \<open>A connection on which nothing is waiting\<close>

definition drained :: "conn \<Rightarrow> bool" where
  "drained c \<longleftrightarrow> fronted c \<and> peekBuf (c_reader c) = [] \<and> (case rsrc (c_reader c) of NetConn nc \<Rightarrow> inbox nc = [] | _ \<Rightarrow> False)"

lemma drained_later: "drained c \<Longrightarrow> fronted (later [Arrive b] c) \<and> reader_pending (c_reader (later [Arrive b] c)) = b"
  by (auto simp: drained_def fronted_def idle_def rwire_def wire_def whole_source_def later_def reader_later_def
      src_later_def reader_pending_def src_pending_def conn_pending_def)

lemma drained_put_out: "drained c \<Longrightarrow> drained (put_out b c)"
  using fronted_put_out [of c b]
  by (auto simp: drained_def put_out_def split: io_source.splits)

text \<open>What follows the bytes that are there: nothing, or a silence first\<close>

definition lull :: "net_event list \<Rightarrow> bool" where
  "lull es \<longleftrightarrow> (case es of [] \<Rightarrow> True | e # _ \<Rightarrow> e = Silence)"

lemma SetReadDeadline_later:
  "SetReadDeadline b r = (x, r') \<Longrightarrow> SetReadDeadline b (reader_later es r) = (x, reader_later es r')"
  by (auto simp: SetReadDeadline_def reader_later_def src_later_def conn_SetReadDeadline_def
      split: io_source.splits prod.splits if_splits)

lemma prompt_PeekTypeNonBlocking: "prompt PeekTypeNonBlocking"
  unfolding PeekTypeNonBlocking_def
proof (intro prompt_intros promptI)
  fix r x r' es assume "SetReadDeadline True r = (Ok x, r')"
  then show "SetReadDeadline True (reader_later es r) = (Ok x, reader_later es r')" by (rule SetReadDeadline_later)
next
  fix u r x r' es
  assume "(case PeekType r of (x, r1) \<Rightarrow> (x, snd (SetReadDeadline False r1))) = (Ok x, r')"
  then obtain r1 where r1: "PeekType r = (Ok x, r1)" "r' = snd (SetReadDeadline False r1)"
    by (auto split: prod.splits)
  obtain y r2 where "SetReadDeadline False r1 = (y, r2)" by fastforce
  with SetReadDeadline_later [OF this, of es] r1 promptD [OF prompt_PeekType r1(1), of es]
  show "(case PeekType (reader_later es r) of (x, r1) \<Rightarrow> (x, snd (SetReadDeadline False r1))) = (Ok x, reader_later es r')"
    by simp
qed

lemma peek_lull:
  assumes "fronted c" "reader_pending (c_reader c) = []" "lull es"
  shows "\<exists>e c'. on_reader PeekTypeNonBlocking (later es c) = (Err e, later (tl es) c') \<and> drained c' \<and> same_side c c'"
proof -
  obtain nc where nc: "rsrc (c_reader c) = NetConn nc" "\<not> conn_closed nc" "\<not> read_deadline nc"
    "inbox nc = [] \<or> (\<exists>bs. inbox nc = [Arrive bs])" "outbox nc = sent c" "write_fails nc = []"
    using fronted_cases [OF assms(1)] .
  have peek: "peekBuf (c_reader c) = []" using assms(2) by (simp add: reader_pending_def)
  then have inbox: "inbox nc = [] \<or> inbox nc = [Arrive []]"
    using nc(1,4) assms(2) by (auto simp: reader_pending_def src_pending_def conn_pending_def)
  let ?e = "if es = [] then EOF else DeadlineExceeded"
  let ?nc = "nc\<lparr>inbox := inbox nc @ es, read_deadline := True\<rparr>"
  let ?nc1 = "?nc\<lparr>inbox := tl es\<rparr>"
  let ?c' = "c\<lparr>c_reader := \<lparr>rsrc = NetConn (nc\<lparr>inbox := [], read_deadline := False\<rparr>), peekBuf = []\<rparr>\<rparr>"
  have "recv True 1 (inbox nc @ es) = (([], Some ?e), tl es)"
    using inbox assms(3) by (auto simp: lull_def split: list.splits)
  then have "src_Read 1 (NetConn ?nc) = (([], Some ?e), NetConn ?nc1)"
    using nc(2) by (simp add: src_Read_def conn_Read_def)
  then have "ReadAtLeast src_Read 1 (NetConn ?nc) = (([], Some ?e), NetConn ?nc1)"
    by (simp add: ReadAtLeast_def)
  then have "on_reader PeekTypeNonBlocking (later es c) = (Err ?e, later (tl es) ?c')"
    using nc peek
    by (cases "c_reader c")
      (simp add: PeekTypeNonBlocking_def SetReadDeadline_def conn_SetReadDeadline_def PeekType_def PeekBytes_def
        ReadBytes_def go_simps Let_def on_reader_def later_def reader_later_def src_later_def)
  moreover have "drained ?c'" "same_side c ?c'"
    using nc by (auto simp: drained_def fronted_def idle_def rwire_def wire_def whole_source_def same_side_def sent_def)
  ultimately show ?thesis by blast
qed

section \<open>Reading a message\<close>

lemma parses_front_whole:
  assumes "parses front m bs x" "\<And>r r'. front r \<Longrightarrow> m r = (Ok x, r') \<Longrightarrow> peekBuf r' = []"
    "parses whole_reader (f x) cs y"
  shows "parses front (goseq m f) (bs @ cs) y"
proof (rule parsesI)
  fix r rest assume r: "front r" "reader_patient r" "reader_pending r = (bs @ cs) @ rest"
  obtain r1 where r1: "m r = (Ok x, r1)" "front r1" "reader_patient r1" "reader_pending r1 = cs @ rest"
    using parsesE [OF assms(1) r(1,2), of "cs @ rest"] r(3) by auto
  then have "whole_reader r1" using assms(2) [OF r(1) r1(1)] by (simp add: whole_reader_def front_def)
  with r1 obtain r2 where "f x r1 = (Ok y, r2)" "whole_reader r2" "reader_patient r2" "reader_pending r2 = rest"
    using parsesE [OF assms(3)] by metis
  with r1(1) show "\<exists>r'. goseq m f r = (Ok y, r') \<and> front r' \<and> reader_patient r' \<and> reader_pending r' = rest"
    by (auto simp: goseq_Ok front_def whole_reader_def)
qed

lemma NewRequestMessageWithReader_peek:
  assumes "front r" "NewRequestMessageWithReader r = (Ok m, r')"
  shows "peekBuf r' = []"
proof -
  from assms(2) obtain t r1 n r2 where "ReadByte r = (Ok t, r1)" "ReadInt32 r1 = (Ok n, r2)" "r' = r2"
    by (auto simp: NewRequestMessageWithReader_def NewMessageWithReader_def ReadType_def ReadLength_def ret_def
        elim!: goseq_OkD)
  moreover from this obtain bs where "ReadBytes 4 r1 = (Ok bs, r2)"
    by (auto simp: ReadInt32_def fail_def lift_res_def elim!: goseq_OkD split: if_splits)
  ultimately show ?thesis
    using assms(1) ReadByte_Ok(2) [of r t r1] ReadBytes_Ok(3) [of 4 r1 bs r2] by (simp add: front_def)
qed

lemma parses_front_Bind:
  assumes "no_nul portal" "no_nul stmt" "length fmts < 2 ^ 15" "length vals < 2 ^ 15"
    "length resFmts < 2 ^ 15" "\<And>p. p \<in> set vals \<Longrightarrow> param_ok p"
  shows "parses front NewBindWithReader (header t len @ enc_bind portal stmt fmts vals resFmts)
    \<lparr>bind_header = \<lparr>msg_Type = t, msg_Length = len\<rparr>, bind_PortalName = portal,
     bind_StatementName = stmt, bind_Params = bind_params fmts vals\<rparr>"
proof -
  have rest: "NewRequestMessageWithReader r = (Ok m, r') \<Longrightarrow> front r \<Longrightarrow> peekBuf r' = []" for r m r'
    using NewRequestMessageWithReader_peek by blast
  show ?thesis
    unfolding NewBindWithReader_def enc_bind_def enc_int16_def
    by (rule parses_front_whole [OF front.parses_NewRequestMessageWithReader], erule (1) rest,
        rule parses_goseq [OF whole.parses_cstring [OF assms(1)]],
        rule parses_goseq [OF whole.parses_cstring [OF assms(2)]],
        rule parses_goseq [OF whole.parses_ReadInt16],
        rule parses_goseq [OF whole.parses_read_slice [OF whole.parses_ReadInt16 assms(3)]],
        rule parses_goseq [OF whole.parses_ReadInt16],
        rule parses_goseq [OF whole.parses_read_slice [OF parses_read_param_bytes [OF assms(6)] assms(4)]],
        assumption,
        rule parses_goseq [OF whole.parses_ReadInt16],
        rule parses_goseq_ret [OF whole.parses_read_slice [OF whole.parses_ReadInt16 assms(5)]]) simp
qed

section \<open>A message and its handler\<close>

definition client_header :: "client_msg \<Rightarrow> message" where
  "client_header m = \<lparr>msg_Type = type_of_client m, msg_Length = of_nat (length (payload_of_client m) + 4)\<rparr>"

text \<open>What the loop does with a message once it has read it\<close>

fun client_request :: "('a, 'x) query_server_scheme \<Rightarrow> client_msg \<Rightarrow> ('a, responses) sm" where
  "client_request sv (CQuery q) = handle_Query sv
     \<lparr>query_header = Some (client_header (CQuery q)), query_Query = q, query_BindParams = []\<rparr>"
| "client_request sv (CParse name q types) = handle_Parse sv
     \<lparr>parse_header = client_header (CParse name q types), parse_Name = name, parse_Query = q,
      parse_NumDataTypes = of_nat (length types), parse_DataTypes = types\<rparr>"
| "client_request sv (CBind portal stmt fmts vals resFmts) = handle_Bind
     \<lparr>bind_header = client_header (CBind portal stmt fmts vals resFmts), bind_PortalName = portal,
      bind_StatementName = stmt, bind_Params = bind_params fmts vals\<rparr>"
| "client_request sv (CDescribe dt name) = handle_Describe sv
     \<lparr>describe_header = client_header (CDescribe dt name), describe_typ = dt, describe_name = name\<rparr>"
| "client_request sv (CExecute portal n) = handle_Execute sv
     \<lparr>execute_header = client_header (CExecute portal n), execute_PortalName = portal, execute_MaxRows = n\<rparr>"
| "client_request sv (CClose dt name) = handle_Close
     \<lparr>close_header = client_header (CClose dt name), close_Type = dt, close_Name = name\<rparr>"
| "client_request sv CSync = handle_Sync (client_header CSync)"
| "client_request sv CFlush = handle_Flush (client_header CFlush)"
| "client_request sv (COther t payload) = fail (NewErrMessageNotSuppoted t)"

lemma goseq_start: "m s = m' s' \<Longrightarrow> goseq m f s = goseq m' f s'"
  by (simp add: goseq_def)

lemma read_later:
  assumes "parses front parser (t # bs) m" "\<And>out. keeps (rwire out [] False) parser" "prompt parser"
    and "fronted c" "s_conn s = later es c" "reader_pending (c_reader c) = (t # bs) @ rest"
    and "t \<noteq> TerminateMessage" "dispatch h t = request parser handler"
  obtains c' where "fronted c'" "same_side c c'" "reader_pending (c_reader c') = rest"
    "receive_step h s = goseq (gotry (handler m)) finish (s\<lparr>s_conn := later es c'\<rparr>)"
proof -
  obtain c1 where c1: "on_reader PeekType c = (Ok t, c1)" "fronted c1" "same_side c c1"
    "reader_pending (c_reader c1) = (t # bs) @ rest"
    using PeekType_front [OF assms(4), of t "bs @ rest"] assms(6) by auto
  obtain c2 where c2: "on_reader parser c1 = (Ok m, c2)" "fronted c2" "same_side c1 c2"
    "reader_pending (c_reader c2) = rest"
    using front_step [OF assms(1,2) c1(2,4)] by blast
  note reads = on_reader_later [OF prompt_PeekType c1(1), of es] on_reader_later [OF assms(3) c2(1), of es]
  have "receive_step h s = goseq (gotry (dispatch h t)) finish (s\<lparr>s_conn := later es c1\<rparr>)"
    unfolding finish_def [abs_def] using reads(1) assms(5,7)
    by (cases "dispatch h t (s\<lparr>s_conn := later es c1\<rparr>)"; cases "fst (dispatch h t (s\<lparr>s_conn := later es c1\<rparr>))")
      (auto simp: receive_step_def goseq_def gotry_def on_conn_def on_part_def)
  also have "\<dots> = goseq (gotry (handler m)) finish (s\<lparr>s_conn := later es c2\<rparr>)"
    using reads(2) by (simp add: assms(8) request_def goseq_def gotry_def on_conn_def on_part_def)
  finally show thesis using that [OF c2(2) same_side_trans [OF c1(3) c2(3)] c2(4)] by blast
qed

lemmas dispatch_types = dispatch_def server_handler_def msg_types

lemma keeps_wire_requests [keeps_intros]:
  "keeps (rwire out fails dl) NewParseWithReader" "keeps (rwire out fails dl) NewBindWithReader"
  "keeps (rwire out fails dl) NewDescribeWithReader" "keeps (rwire out fails dl) NewExecuteWithReader"
  "keeps (rwire out fails dl) NewCloseWithReader" "keeps (rwire out fails dl) NewQueryWithReader"
  "keeps (rwire out fails dl) NewFlushWithReader"
  unfolding request_parser_defs NewBindWithReader_def read_slice_def make_slice_def read_param_bytes_def
  by (intro keeps_intros)+

lemma client_step:
  assumes "valid_client m" "fronted c" "s_conn s = later es c" "reader_pending (c_reader c) = client_frame m @ rest"
  obtains c' where "fronted c'" "same_side c c'" "reader_pending (c_reader c') = rest"
    "receive_step (server_handler sv) s = goseq (gotry (client_request sv m)) finish (s\<lparr>s_conn := later es c'\<rparr>)"
proof -
  let ?t = "type_of_client m" and ?len = "of_nat (length (payload_of_client m) + 4) :: 32 word"
  let ?bs = "Int32ToBytes ?len @ payload_of_client m"
  have pend: "reader_pending (c_reader c) = (?t # ?bs) @ rest"
    using assms(4) by (simp add: client_frame_def frame_def header_def)
  note result = that
  have common: thesis if p: "parses front parser (header ?t ?len @ payload_of_client m) x"
    and d: "dispatch (server_handler sv) ?t = request parser handler" "handler x = client_request sv m"
    and k: "\<And>out. keeps (rwire out [] False) parser" "prompt parser" and t: "?t \<noteq> TerminateMessage"
    for parser x handler
  proof -
    have "parses front parser (?t # ?bs) x" using p by (simp add: header_def)
    from read_later [OF this k assms(2,3) pend t d(1)] d(2) result show thesis by metis
  qed
  show thesis
  proof (cases m)
    case (CQuery q)
    show ?thesis by (rule common [of NewQueryWithReader _ "handle_Query sv"])
      (use CQuery assms(1) front.parses_Query in \<open>auto simp: dispatch_types client_header_def intro: keeps_intros prompt_intros\<close>)
  next
    case (CParse name q types)
    show ?thesis by (rule common [of NewParseWithReader _ "handle_Parse sv"])
      (use CParse assms(1) front.parses_Parse in \<open>auto simp: dispatch_types client_header_def intro: keeps_intros prompt_intros\<close>)
  next
    case (CBind portal stmt fmts vals resFmts)
    show ?thesis by (rule common [of NewBindWithReader _ handle_Bind])
      (use CBind assms(1) parses_front_Bind in \<open>auto simp: dispatch_types client_header_def list_all_iff intro: keeps_intros prompt_intros\<close>)
  next
    case (CDescribe dt name)
    show ?thesis by (rule common [of NewDescribeWithReader _ "handle_Describe sv"])
      (use CDescribe assms(1) front.parses_Describe in \<open>auto simp: dispatch_types client_header_def intro: keeps_intros prompt_intros\<close>)
  next
    case (CExecute portal n)
    show ?thesis by (rule common [of NewExecuteWithReader _ "handle_Execute sv"])
      (use CExecute assms(1) front.parses_Execute in \<open>auto simp: dispatch_types client_header_def intro: keeps_intros prompt_intros\<close>)
  next
    case (CClose dt name)
    show ?thesis by (rule common [of NewCloseWithReader _ handle_Close])
      (use CClose assms(1) front.parses_Close in \<open>auto simp: dispatch_types client_header_def intro: keeps_intros prompt_intros\<close>)
  next
    case CSync
    show ?thesis by (rule common [of NewSyncWithReader _ handle_Sync])
      (use CSync front.parses_header_only(1) in \<open>auto simp: dispatch_types client_header_def intro: keeps_intros prompt_intros\<close>)
  next
    case CFlush
    show ?thesis by (rule common [of NewFlushWithReader _ handle_Flush])
      (use CFlush front.parses_header_only(2) in \<open>auto simp: dispatch_types client_header_def intro: keeps_intros prompt_intros\<close>)
  next
    case (COther t payload)
    let ?msg = "client_header m"
    let ?body = "\<lambda>msg. goseq (goseq (on_conn (on_reader (ReadMessageData msg))) (\<lambda>_. ret ()))
      (\<lambda>_. fail (NewErrMessageNotSuppoted t))"
    have disp: "dispatch (server_handler sv) ?t = request NewMessageWithReader ?body"
      using assms(1) COther by (simp add: dispatch_def SkipMessage_as_request request_def goseq_assoc)
    have p: "parses front NewMessageWithReader (?t # Int32ToBytes ?len) ?msg"
      using front.parses_NewMessageWithReader [of ?t ?len] by (simp add: header_def client_header_def)
    have pend1: "reader_pending (c_reader c) = (?t # Int32ToBytes ?len) @ payload_of_client m @ rest"
      using pend by simp
    have "?t \<noteq> TerminateMessage" using assms(1) COther by simp
    from read_later [OF p keeps_wire_NewMessageWithReader prompt_NewMessageWithReader assms(2,3) pend1 this disp]
    obtain c1 where c1: "fronted c1" "same_side c c1" "reader_pending (c_reader c1) = payload_of_client m @ rest"
      "receive_step (server_handler sv) s = goseq (gotry (?body ?msg)) finish (s\<lparr>s_conn := later es c1\<rparr>)" .
    have "parses front (ReadMessageData ?msg) (payload_of_client m) (payload_of_client m)"
      by (rule front.parses_ReadMessageData) (use assms(1) COther in \<open>simp_all add: client_header_def\<close>)
    from front_step [OF this keeps_wire_ReadMessageData c1(1,3)] obtain c2 where
      c2: "on_reader (ReadMessageData ?msg) c1 = (Ok (payload_of_client m), c2)" "fronted c2" "same_side c1 c2"
        "reader_pending (c_reader c2) = rest" by blast
    have "gotry (?body ?msg) (s\<lparr>s_conn := later es c1\<rparr>) =
        gotry (fail (NewErrMessageNotSuppoted t)) (s\<lparr>s_conn := later es c2\<rparr>)"
      using on_reader_later [OF prompt_ReadMessageData c2(1), of es]
      by (simp add: gotry_def goseq_def on_conn_def on_part_def ret_def fail_def)
    then have "goseq (gotry (?body ?msg)) finish (s\<lparr>s_conn := later es c1\<rparr>) =
        goseq (gotry (client_request sv m)) finish (s\<lparr>s_conn := later es c2\<rparr>)"
      unfolding COther client_request.simps by (rule goseq_start)
    with c1 c2 result [OF c2(2) same_side_trans [OF c1(2) c2(3)] c2(4)] show ?thesis by simp
  qed
qed

section \<open>The end of a round\<close>

lemma put_out_txLocked [simp]: "put_out b (c\<lparr>c_txLocked := tx\<rparr>) = (put_out b c)\<lparr>c_txLocked := tx\<rparr>"
  by (cases c) (simp add: put_out_def split: io_source.splits)

lemma fold_put_out_txLocked [simp]:
  "fold put_out bs (c\<lparr>c_txLocked := tx\<rparr>) = (fold put_out bs c)\<lparr>c_txLocked := tx\<rparr>"
  by (induction bs arbitrary: c) simp_all

lemma fronted_txLocked [simp]: "fronted (c\<lparr>c_txLocked := tx\<rparr>) \<longleftrightarrow> fronted c"
  by (simp add: fronted_def idle_def)

lemma writable_txLocked [simp]: "writable (c\<lparr>c_txLocked := tx\<rparr>) \<longleftrightarrow> writable c"
  by (simp add: writable_def)

lemma sent_txLocked [simp]: "sent (c\<lparr>c_txLocked := tx\<rparr>) = sent c"
  by (simp add: sent_def)

lemma fronted_writable: "fronted c \<Longrightarrow> writable c"
  by (simp add: fronted_def idle_writable)

lemma deliver_messages:
  assumes "writable c" "deliver rs = (out, r)"
  shows "ResponseMessages rs c = (r, fold put_out out c)"
proof -
  have "for_each (\<lambda>res. ResponseMessage (Some res)) rs c = (r, fold put_out out c)"
    using assms
  proof (induction rs arbitrary: c out)
    case (Cons res rs)
    then show ?case
      by (cases "fst (Response_Bytes res)")
        (auto simp: goseq_def ResponseMessage_Ok split: prod.splits,
          auto simp: ResponseMessage_def goseq_def lift_res_def)
  qed (simp add: ret_def)
  then show ?thesis using assms(2) by (cases rs) (simp_all add: ResponseMessages_def ret_def)
qed

lemma error_delivered:
  "writable c \<Longrightarrow> ResponseError err c = (Ok (), fold put_out (error_frames err) c)"
  by (cases err) (simp_all add: error_frames_def ResponseError_def on_net_Write ret_def)

lemma after_request_later:
  assumes "fronted c" "s_conn s = later es c" "lull es" "deliver rs = (out, Ok ())"
  obtains c' where
    "after_request rs err s = (Ok True, s\<lparr>s_conn := later (if reader_pending (c_reader c) = [] then tl es else es) c'\<rparr>)"
    "sent c' = sent c @ out @ error_frames err @ (if reader_pending (c_reader c) = [] then [ready_bytes (c_txLocked c)] else [])"
    "c_txLocked c' = c_txLocked c" "c_uuid c' = c_uuid c" "c_db c' = c_db c" "c_tls c' = c_tls c"
    "if reader_pending (c_reader c) = [] then drained c'
     else fronted c' \<and> reader_pending (c_reader c') = reader_pending (c_reader c)"
proof -
  let ?c2 = "fold put_out (error_frames err) (fold put_out out c)"
  have w: "writable c" using assms(1) by (rule fronted_writable)
  have r1: "ResponseMessages rs (later es c) = (Ok (), later es (fold put_out out c))"
    using deliver_messages [of "later es c" rs out] assms(4) w by (simp add: fold_put_out_later)
  have r2: "ResponseError err (later es (fold put_out out c)) = (Ok (), later es ?c2)"
    using error_delivered [of "later es (fold put_out out c)" err] w by (simp add: fold_put_out_later)
  have f2: "fronted ?c2" by (intro fronted_fold_put_out assms(1))
  have pend2: "reader_pending (c_reader ?c2) = reader_pending (c_reader c)" by simp
  have same2: "sent ?c2 = sent c @ out @ error_frames err" "c_txLocked ?c2 = c_txLocked c"
    "c_uuid ?c2 = c_uuid c" "c_db ?c2 = c_db c" "c_tls ?c2 = c_tls c" using w by simp_all
  have steps: "after_request rs err s = (case on_reader PeekTypeNonBlocking (later es ?c2) of
        (Ok _, c3) \<Rightarrow> (Ok True, s\<lparr>s_conn := c3\<rparr>)
      | (Err _, c3) \<Rightarrow> goseq (on_conn ReadyForMessage) (\<lambda>_. ret True) (s\<lparr>s_conn := c3\<rparr>)
      | (Panic p, c3) \<Rightarrow> (Panic p, s\<lparr>s_conn := c3\<rparr>))"
    using r1 r2 assms(2)
    by (simp add: after_request_def goseq_def gotry_def on_conn_def on_part_def ret_def
        split: prod.splits res.splits)
  show thesis
  proof (cases "reader_pending (c_reader c) = []")
    case False
    then obtain t c3 where c3: "on_reader PeekTypeNonBlocking ?c2 = (Ok t, c3)" "fronted c3" "same_side ?c2 c3"
      "reader_pending (c_reader c3) = reader_pending (c_reader ?c2)"
      using peek_next [OF f2] pend2 by auto
    from on_reader_later [OF prompt_PeekTypeNonBlocking c3(1), of es] steps
    have "after_request rs err s = (Ok True, s\<lparr>s_conn := later es c3\<rparr>)" by simp
    with c3 False same2 show thesis by (intro that [of c3]) (simp_all add: same_side_def)
  next
    case True
    obtain e c3 where c3: "on_reader PeekTypeNonBlocking (later es ?c2) = (Err e, later (tl es) c3)" "drained c3"
      "same_side ?c2 c3"
      using peek_lull [OF f2 _ assms(3)] pend2 True by auto
    have w3: "writable c3" using c3(2) by (simp add: drained_def fronted_writable)
    have "ReadyForMessage (later (tl es) c3) = (Ok (), put_out (ready_bytes (c_txLocked c)) (later (tl es) c3))"
      using ready_message [of "later (tl es) c3"] w3 c3(3) same2(2) by (simp add: ready_bytes_def same_side_def)
    then have "after_request rs err s = (Ok True, s\<lparr>s_conn := later (tl es) (put_out (ready_bytes (c_txLocked c)) c3)\<rparr>)"
      using steps c3(1) by (simp add: goseq_def on_conn_def on_part_def ret_def put_out_later)
    with c3 True same2 w3 show thesis
      by (intro that [of "put_out (ready_bytes (c_txLocked c)) c3"]) (simp_all add: same_side_def drained_put_out)
  qed
qed

lemma after_request_fails:
  assumes "writable (s_conn s)" "deliver rs = (out, r)" "r \<noteq> Ok ()"
  shows "after_request rs err s = (map_res (\<lambda>_. True) r, s\<lparr>s_conn := fold put_out out (s_conn s)\<rparr>)"
  using deliver_messages [OF assms(1,2)] assms(3)
  by (cases r) (simp_all add: after_request_def goseq_def on_conn_def on_part_def map_res_def)

section \<open>Prepared statements as the client sees them\<close>

lemma view_other_map [simp]:
  "view_stmts u (mgr\<lparr>potalMap := x\<rparr>) = view_stmts u mgr" "view_portals u (mgr\<lparr>stateMap := y\<rparr>) = view_portals u mgr"
  by (simp_all add: fun_eq_iff view_stmts_def view_portals_def PreparedStatement_def PreparedPortal_def)

lemma view_store_statement [simp]:
  "view_stmts u (store_statement u name ps mgr) =
     (view_stmts u mgr)(name \<mapsto> (parse_Query (ps_Parse ps), ps_ParsedStatement ps))"
  "view_portals u (store_statement u name ps mgr) = view_portals u mgr"
  by (rule ext, simp add: view_stmts_def statements.find_store, simp add: store_statement_def)

lemma view_store_portal [simp]:
  "view_portals u (store_portal u name q mgr) = (view_portals u mgr)(name \<mapsto> (query_Query q, query_BindParams q))"
  "view_stmts u (store_portal u name q mgr) = view_stmts u mgr"
  by (rule ext, simp add: view_portals_def portals.find_store)
    (simp add: store_portal_def SetPreparedPortal_def Let_def case_prod_beta)

lemma view_remove [simp]:
  "view_stmts u (snd (RemovePreparedStatement u name mgr)) = (view_stmts u mgr)(name := None)"
  "view_portals u (snd (RemovePreparedStatement u name mgr)) = view_portals u mgr"
  "view_portals u (snd (RemovePreparedPortal u name mgr)) = (view_portals u mgr)(name := None)"
  "view_stmts u (snd (RemovePreparedPortal u name mgr)) = view_stmts u mgr"
  subgoal by (rule ext) (simp add: view_stmts_def statements.find_remove)
  subgoal by (simp add: RemovePreparedStatement_def case_prod_beta split: option.split)
  subgoal by (rule ext) (simp add: view_portals_def portals.find_remove)
  subgoal by (simp add: RemovePreparedPortal_def case_prod_beta split: option.split)
  done

lemma view_not_prepared:
  assumes "\<nexists>st. ParseString (parse_Query msg) = Ok [st]"
  shows "view_stmts u (snd (SetPreparedStatement ParseString u msg mgr)) = view_stmts u mgr"
    "view_portals u (snd (SetPreparedStatement ParseString u msg mgr)) = view_portals u mgr"
  subgoal by (rule ext) (simp add: view_stmts_def SetPreparedStatement_other [of ParseString msg, OF assms])
  subgoal by (simp add: SetPreparedStatement_def Let_def case_prod_beta)
  done

lemma SetPreparedPortal_store: "SetPreparedPortal u k q m = (Ok (), store_portal u k q m)"
  by (simp add: SetPreparedPortal_def map_SetPreparedPortal_def store_portal_def modify_def Let_def)

lemma find_statement:
  obtains (missing) "PreparedStatement u name mgr = Err (NewErrPreparedStatementNotExist name)" "view_stmts u mgr name = None"
  | (found) ps where "PreparedStatement u name mgr = Ok ps"
      "view_stmts u mgr name = Some (parse_Query (ps_Parse ps), ps_ParsedStatement ps)"
  using statements.find_cases [of u name mgr] by (auto simp: view_stmts_def)

lemma find_portal:
  obtains (missing) "PreparedPortal u name mgr = Err (NewErrPreparedPortalNotExist name)" "view_portals u mgr name = None"
  | (found) q where "PreparedPortal u name mgr = Ok q" "view_portals u mgr name = Some (query_Query q, query_BindParams q)"
  using portals.find_cases [of u name mgr] by (auto simp: view_portals_def)

section \<open>What the executors promise\<close>

text \<open>
  The contract between the query handler and what is behind it: the statements of a set do what
  their meaning says to the transaction and the data, and neither read nor write the network.
  It is asked of one database only, since that is all of a connection an executor looks at.
\<close>

locale server_semantics =
  fixes sv :: "('a, 'x) query_server_scheme" and sem :: "'a meaning" and db :: string and S :: "statement set"
  assumes exec: "st \<in> S \<Longrightarrow> Database (s_conn s) = db \<Longrightarrow> exec_statement sv st s =
      (case exec_of sem st (c_txLocked (s_conn s), s_app s) of (r, tx, a) \<Rightarrow>
        (r, s\<lparr>s_conn := (s_conn s)\<lparr>c_txLocked := tx\<rparr>, s_app := a\<rparr>))"
    and ids: "Database (s_conn s) = db \<Longrightarrow> selectObjectIds sv st s =
      (case ids_of sem st (s_app s) of (r, a) \<Rightarrow> (r, s\<lparr>s_app := a\<rparr>))"
    and refusal: "Database c = db \<Longrightarrow> sv_ParserError sv c = refusal_of sem"
    and bound: "sv_BindStatements sv q ps = Ok sts \<Longrightarrow> set sts \<subseteq> S"
begin

lemma run_statements:
  assumes "writable (s_conn s)" "Database (s_conn s) = db" "set sts \<subseteq> S"
    and "run_meaning sem sts (c_txLocked (s_conn s), s_app s) = (out, r, tx, a)"
  shows "for_each (run_statement sv) sts s =
    (r, s\<lparr>s_conn := (fold put_out out (s_conn s))\<lparr>c_txLocked := tx\<rparr>, s_app := a\<rparr>)"
  using assms
proof (induction sts arbitrary: s out)
  case Nil
  then show ?case by (auto simp: ret_def)
next
  case (Cons st sts)
  obtain y tx1 a1 where y: "exec_of sem st (c_txLocked (s_conn s), s_app s) = (y, tx1, a1)" by (metis surj_pair)
  let ?s1 = "s\<lparr>s_conn := (s_conn s)\<lparr>c_txLocked := tx1\<rparr>, s_app := a1\<rparr>"
  have ex: "exec_statement sv st s = (y, ?s1)" using exec [of st s] Cons.prems(2,3) y by simp
  show ?case
  proof (cases y)
    case (Ok rs)
    obtain out1 r1 where d: "deliver rs = (out1, r1)" by fastforce
    let ?s2 = "?s1\<lparr>s_conn := fold put_out out1 (s_conn ?s1)\<rparr>"
    have run: "run_statement sv st s = (r1, ?s2)"
      using ex Ok d deliver_messages [of "s_conn ?s1" rs] Cons.prems(1)
      by (cases rs) (simp_all add: run_statement_def goseq_def on_conn_def on_part_def ret_def)
    have w2: "writable (s_conn ?s2)" "Database (s_conn ?s2) = db"
      using Cons.prems(1,2) by (simp_all add: Database_def)
    show ?thesis
    proof (cases r1)
      case (Ok u)
      obtain out2 r2 tx2 a2 where m2: "run_meaning sem sts (tx1, a1) = (out2, r2, tx2, a2)" by (metis surj_pair)
      from Cons.IH [OF w2, of out2] m2 Cons.prems(3,4) y d Ok \<open>y = Ok rs\<close> run show ?thesis
        by (auto simp: goseq_def)
    qed (use Cons.prems(4) y d \<open>y = Ok rs\<close> run in \<open>auto simp: goseq_def\<close>)
  qed (use Cons.prems(4) y ex in \<open>auto simp: goseq_def run_statement_def\<close>)
qed

lemma query_answered:
  assumes "writable (s_conn s)" "Database (s_conn s) = db"
    and "query_meaning sv sem (query_Query msg) (query_BindParams msg) (view_of s) = (out, r, v)"
  shows "\<exists>s1. handle_Query sv msg s = (r, s1) \<and> view_of s1 = v \<and>
    s_conn s1 = (fold put_out out (s_conn s))\<lparr>c_txLocked := v_tx v\<rparr>"
proof (cases "sv_BindStatements sv (query_Query msg) (query_BindParams msg)")
  case (Ok sts)
  obtain out1 r1 tx a where m: "run_meaning sem sts (c_txLocked (s_conn s), s_app s) = (out1, r1, tx, a)"
    by (metis surj_pair)
  have "out1 = out" "r = map_res (\<lambda>_. []) r1" "v = (view_of s)\<lparr>v_tx := tx, v_app := a\<rparr>"
    using assms(3) Ok m by (simp_all add: query_meaning_def view_of_def)
  with run_statements [OF assms(1,2) bound [OF Ok] m] Ok show ?thesis
    by (cases r1) (auto simp: handle_Query_def goseq_def ret_def map_res_def view_of_def)
next
  case (Err e)
  have "Query_String msg = Query_String \<lparr>query_header = None, query_Query = query_Query msg, query_BindParams = query_BindParams msg\<rparr>"
    by (simp add: Query_String_def)
  with Err assms refusal [OF assms(2)] show ?thesis
    by (auto simp: handle_Query_def query_meaning_def goseq_def gets_def lift_res_def ret_def view_of_def)
next
  case (Panic p)
  with assms show ?thesis by (auto simp: handle_Query_def query_meaning_def panic_def view_of_def)
qed

lemma client_answered:
  assumes "writable (s_conn s)" "Database (s_conn s) = db"
    and "client_meaning sv sem m (view_of s) = (out, r, v)"
  shows "\<exists>s1. client_request sv m s = (r, s1) \<and> view_of s1 = v \<and>
    s_conn s1 = (fold put_out out (s_conn s))\<lparr>c_txLocked := v_tx v\<rparr>"
proof (cases m)
  case (CQuery q)
  then show ?thesis using query_answered [OF assms(1,2)] assms(3) by simp
next
  case (CParse name q types)
  let ?msg = "\<lparr>parse_header = client_header m, parse_Name = name, parse_Query = q,
    parse_NumDataTypes = of_nat (length types), parse_DataTypes = types\<rparr>"
  let ?set = "SetPreparedStatement (sv_ParseString sv) (c_uuid (s_conn s)) ?msg (s_prep s)"
  have run: "client_request sv m s = (case fst ?set of
      Ok _ \<Rightarrow> (Ok [MessageResponse NewParseComplete], s\<lparr>s_prep := snd ?set\<rparr>)
    | Err e \<Rightarrow> (Err e, s\<lparr>s_prep := snd ?set\<rparr>) | Panic p \<Rightarrow> (Panic p, s\<lparr>s_prep := snd ?set\<rparr>))"
    using CParse by (cases ?set; cases "fst ?set") (simp_all add: handle_Parse_def goseq_def on_prep_def on_part_def ret_def)
  show ?thesis
  proof (cases "\<exists>st. sv_ParseString sv q = Ok [st]")
    case True
    then obtain st where st: "sv_ParseString sv q = Ok [st]" by blast
    with run assms(3) CParse show ?thesis
      using SetPreparedStatement_one [of "sv_ParseString sv" ?msg st "c_uuid (s_conn s)" "s_prep s"]
      by (auto simp: view_of_def)
  next
    case False
    have other: "view_of (s\<lparr>s_prep := snd ?set\<rparr>) = view_of s"
      using view_not_prepared [of "sv_ParseString sv" ?msg] False by (simp add: view_of_def)
    have "fst ?set = (case sv_ParseString sv q of
        Ok [] \<Rightarrow> Panic IndexOutOfRange | Ok _ \<Rightarrow> Err (NewErrMultiplePreparedStatementNotSupported q)
      | Err e \<Rightarrow> Err e | Panic p \<Rightarrow> Panic p)"
      using False by (auto simp: SetPreparedStatement_def map_SetPreparedStatement_def goseq_def lift_res_def
          fail_def panic_def Let_def split: res.splits list.splits)
    with run assms(3) CParse False other show ?thesis
      by (auto simp: view_of_def split: res.splits list.splits)
  qed
next
  case (CBind portal stmt fmts vals resFmts)
  then show ?thesis
    using assms(3)
    by (cases rule: find_statement [of "c_uuid (s_conn s)" stmt "s_prep s"])
      (auto simp: handle_Bind_def goseq_def on_prep_def on_part_def ret_def SetPreparedPortal_store NewQueryWith_def
        view_of_def)
next
  case (CDescribe dt name)
  note defs = handle_Describe_def goseq_def on_prep_def on_part_def ret_def view_of_def
  show ?thesis
  proof (cases dt)
    case PreparedPortalType
    with CDescribe assms(3) show ?thesis
      by (cases rule: find_portal [of "c_uuid (s_conn s)" name "s_prep s"]) (auto simp: defs)
  next
    case PreparedStatementType
    show ?thesis
    proof (cases rule: find_statement [of "c_uuid (s_conn s)" name "s_prep s"])
      case missing
      with CDescribe PreparedStatementType assms(3) show ?thesis by (auto simp: defs)
    next
      case (found ps)
      obtain y a where "ids_of sem (ps_ParsedStatement ps) (s_app s) = (y, a)" by fastforce
      with CDescribe PreparedStatementType assms(3) found ids [OF assms(2), of "ps_ParsedStatement ps"] show ?thesis
        by (cases y) (auto simp: defs map_res_def split: if_splits)
    qed
  qed
next
  case (CExecute portal n)
  then show ?thesis
    using assms(3) query_answered [OF assms(1,2)]
    by (cases rule: find_portal [of "c_uuid (s_conn s)" portal "s_prep s"])
      (auto simp: handle_Execute_def goseq_def on_prep_def on_part_def view_of_def)
next
  case (CClose dt name)
  let ?m = "\<lambda>uuid. case dt of PreparedStatementType \<Rightarrow> RemovePreparedStatement uuid name | PreparedPortalType \<Rightarrow> RemovePreparedPortal uuid name"
  obtain y mgr where y: "?m (c_uuid (s_conn s)) (s_prep s) = (y, mgr)" by fastforce
  have "fst (?m u mgr) = Ok () \<or> (\<exists>e. fst (?m u mgr) = Err e)" for u and mgr :: "statement PreparedManager"
    by (cases dt) (simp_all add: statements.remove_result portals.remove_result split: res.split)
  with y have "y = Ok () \<or> (\<exists>e. y = Err e)" by (metis fst_conv)
  then have "client_request sv m s = (Ok [MessageResponse NewCloseComplete], s\<lparr>s_prep := mgr\<rparr>)"
    using CClose y by (cases dt) (auto simp: handle_Close_def goseq_def gotry_def on_prep_def on_part_def ret_def)
  moreover have "mgr = snd (?m (c_uuid (s_conn s)) (s_prep s))" using y by simp
  ultimately show ?thesis using CClose assms(3) by (cases dt) (auto simp: view_of_def)
qed (use assms(3) in \<open>auto simp: handle_Sync_def handle_Flush_def ret_def fail_def view_of_def\<close>)

lemma round_held:
  assumes "valid_client m" "fronted c" "s_conn s = later es c" "lull es" "Database c = db"
    and "reader_pending (c_reader c) = client_frame m @ rest"
    and "round_meaning sv sem (rest \<noteq> []) m (view_of s) = (out, r, v)"
  shows "\<exists>s'. receive_step (server_handler sv) s = (map_res (\<lambda>_. True) r, s') \<and> view_of s' = v \<and>
    sent (s_conn s') = sent c @ out \<and> c_tls (s_conn s') = c_tls c \<and>
    (r = Ok () \<longrightarrow> (\<exists>c'. s_conn s' = later (if rest = [] then tl es else es) c' \<and> Database c' = db \<and>
      (if rest = [] then drained c' else fronted c' \<and> reader_pending (c_reader c') = rest)))"
proof -
  obtain c1 where c1: "fronted c1" "same_side c c1" "reader_pending (c_reader c1) = rest"
    "receive_step (server_handler sv) s = goseq (gotry (client_request sv m)) finish (s\<lparr>s_conn := later es c1\<rparr>)"
    using client_step [OF assms(1-3,6)] .
  let ?s1 = "s\<lparr>s_conn := later es c1\<rparr>"
  obtain out1 r1 v1 where m: "client_meaning sv sem m (view_of s) = (out1, r1, v1)" by (metis surj_pair)
  have same: "view_of ?s1 = view_of s" "sent c1 = sent c" "c_db c1 = c_db c" "c_tls c1 = c_tls c"
    using c1(2) assms(3) by (simp_all add: view_of_def same_side_def)
  obtain s2 where s2: "client_request sv m ?s1 = (r1, s2)" "view_of s2 = v1"
    "s_conn s2 = (fold put_out out1 (later es c1))\<lparr>c_txLocked := v_tx v1\<rparr>"
    using client_answered [of ?s1 m out1 r1 v1] m c1(1) same(1,3) assms(5) fronted_writable
    by (auto simp: Database_def)
  let ?c2 = "(fold put_out out1 c1)\<lparr>c_txLocked := v_tx v1\<rparr>"
  have conn2: "s_conn s2 = later es ?c2" using s2(3) by (simp add: fold_put_out_later)
  have w1: "writable c1" using c1(1) by (rule fronted_writable)
  have f2: "fronted ?c2" using c1(1) by (simp add: fronted_fold_put_out)
  have c2: "reader_pending (c_reader ?c2) = rest" "sent ?c2 = sent c @ out1" "Database ?c2 = db" "writable (s_conn s2)"
    "sent (s_conn s2) = sent c @ out1" "c_tls ?c2 = c_tls c" "c_tls (s_conn s2) = c_tls c"
    using c1(3) same w1 assms(5) conn2 by (simp_all add: Database_def)
  have step: "receive_step (server_handler sv) s = (case r1 of
      Ok rs \<Rightarrow> after_request rs None s2 | Err e \<Rightarrow> after_request [] (Some e) s2 | Panic p \<Rightarrow> (Panic p, s2))"
    using c1(4) s2(1) by (cases r1) (simp_all add: goseq_def gotry_def finish_def)
  have completed: ?thesis if after: "receive_step (server_handler sv) s = after_request rs err s2"
      and d: "deliver rs = (out2, Ok ())"
      and o: "(out, r, v) = (out1 @ out2 @ error_frames err @ (if rest = [] then [ready_bytes (v_tx v1)] else []), Ok (), v1)"
    for rs err out2
  proof -
    obtain c' where c': "after_request rs err s2 = (Ok True, s2\<lparr>s_conn := later (if rest = [] then tl es else es) c'\<rparr>)"
      "sent c' = sent ?c2 @ out2 @ error_frames err @ (if rest = [] then [ready_bytes (c_txLocked ?c2)] else [])"
      "c_txLocked c' = c_txLocked ?c2" "c_uuid c' = c_uuid ?c2" "c_db c' = c_db ?c2" "c_tls c' = c_tls ?c2"
      "if rest = [] then drained c' else fronted c' \<and> reader_pending (c_reader c') = rest"
      using after_request_later [OF f2 conn2 assms(4) d, of err] unfolding c2(1) .
    let ?s' = "s2\<lparr>s_conn := later (if rest = [] then tl es else es) c'\<rparr>"
    have "view_of ?s' = v" using s2(2) c'(3,4) conn2 o by (simp add: view_of_def)
    moreover have "Database c' = db" using c'(5) c2(3) by (simp add: Database_def)
    moreover have "sent c' = sent c @ out" using c'(2) c2(2) o by simp
    ultimately show ?thesis
      using after c'(1,6,7) c2(6) o by (intro exI [of _ ?s']) (auto simp: map_res_def)
  qed
  show ?thesis
  proof (cases r1)
    case (Ok rs)
    obtain out2 r2 where d: "deliver rs = (out2, r2)" by fastforce
    show ?thesis
    proof (cases "r2 = Ok ()")
      case True
      then have "(out, r, v) = (out1 @ out2 @ error_frames None @ (if rest = [] then [ready_bytes (v_tx v1)] else []), Ok (), v1)"
        using assms(7) m Ok d by (auto simp: round_meaning_def error_frames_def Let_def split: if_splits)
      with step Ok d True show ?thesis by (intro completed [of rs None out2]) simp_all
    next
      case False
      then have "(out, r, v) = (out1 @ out2, r2, v1)"
        using assms(7) m Ok d by (cases r2) (simp_all add: round_meaning_def Let_def)
      with step Ok after_request_fails [OF c2(4) d False] False c2(2,4,6,7) s2(2) conn2 show ?thesis
        by (auto simp: view_of_def)
    qed
  next
    case (Err e)
    then have "(out, r, v) = (out1 @ [] @ error_frames (Some e) @ (if rest = [] then [ready_bytes (v_tx v1)] else []), Ok (), v1)"
      using assms(7) m by (auto simp: round_meaning_def Let_def split: if_splits)
    with step Err show ?thesis by (intro completed [of "[]" "Some e" "[]"]) simp_all
  next
    case (Panic p)
    with assms(7) m step s2(2) c2(5,7) show ?thesis
      by (auto simp: round_meaning_def Let_def map_res_def)
  qed
qed

text \<open>The loop over a batch: it returns, or the batch is answered and the loop goes on with what follows.\<close>

lemma batch_held:
  assumes "list_all valid_client ms" "fronted c" "s_conn s = later es c" "lull es" "Database c = db"
    and "reader_pending (c_reader c) = client_frames ms @ rest" "ms \<noteq> [] \<or> rest \<noteq> []"
    and "batch_meaning sv sem (rest \<noteq> []) ms (view_of s) = (out, r, v)"
  shows "\<exists>s'. view_of s' = v \<and> sent (s_conn s') = sent c @ out \<and> c_tls (s_conn s') = c_tls c \<and>
    (r = Ok () \<longrightarrow>
      (\<forall>n. receive_loop (length ms + n) (server_handler sv) s = receive_loop n (server_handler sv) s') \<and>
      (\<exists>c'. s_conn s' = later (if rest = [] then tl es else es) c' \<and> Database c' = db \<and>
        (if rest = [] then drained c' else fronted c' \<and> reader_pending (c_reader c') = rest))) \<and>
    (r \<noteq> Ok () \<longrightarrow> (\<forall>n. receive_loop (length ms + n) (server_handler sv) s = Some (r, s')))"
  using assms
proof (induction ms arbitrary: s c out)
  case Nil
  then show ?case by (intro exI [of _ s]) auto
next
  case (Cons m ms)
  let ?rest = "client_frames ms @ rest"
  have further: "(rest \<noteq> [] \<or> ms \<noteq> []) = (?rest \<noteq> [])"
    by (cases ms) (simp_all add: client_frame_def)
  obtain out1 r1 v1 where m: "round_meaning sv sem (?rest \<noteq> []) m (view_of s) = (out1, r1, v1)" by (metis surj_pair)
  obtain s1 where s1: "receive_step (server_handler sv) s = (map_res (\<lambda>_. True) r1, s1)" "view_of s1 = v1"
    "sent (s_conn s1) = sent c @ out1 \<and> c_tls (s_conn s1) = c_tls c"
    "r1 = Ok () \<longrightarrow> (\<exists>c'. s_conn s1 = later (if ?rest = [] then tl es else es) c' \<and> Database c' = db \<and>
      (if ?rest = [] then drained c' else fronted c' \<and> reader_pending (c_reader c') = ?rest))"
    using round_held [of m c s es ?rest out1 r1 v1] Cons.prems m by auto
  show ?case
  proof (cases "r1 = Ok ()")
    case False
    with Cons.prems(8) m further have "(out, r, v) = (out1, r1, v1)" by (cases r1) simp_all
    with s1 False show ?thesis by (intro exI [of _ s1]) (cases r1; simp add: map_res_def)
  next
    case True
    with s1(4) obtain c1 where c1: "s_conn s1 = later (if ?rest = [] then tl es else es) c1" "Database c1 = db"
      "if ?rest = [] then drained c1 else fronted c1 \<and> reader_pending (c_reader c1) = ?rest" by blast
    obtain out2 where m2: "batch_meaning sv sem (rest \<noteq> []) ms v1 = (out2, r, v)" and o: "out = out1 @ out2"
      using Cons.prems(8) m further True
      by (cases "batch_meaning sv sem (rest \<noteq> []) ms v1") auto
    have loop: "receive_loop (Suc n) (server_handler sv) s = receive_loop n (server_handler sv) s1" for n
      using s1(1) True by (simp add: map_res_def)
    show ?thesis
    proof (cases "?rest = []")
      case True
      then have "ms = []" "rest = []" using further by auto
      with o m2 s1 c1 loop True show ?thesis by (intro exI [of _ s1]) auto
    next
      case False
      then have more: "ms \<noteq> [] \<or> rest \<noteq> []" by auto
      have c1': "fronted c1" "s_conn s1 = later es c1" "reader_pending (c_reader c1) = ?rest"
        using c1(1,3) unfolding if_not_P [OF False] by simp_all
      then have sent1: "sent c1 = sent c @ out1" "c_tls c1 = c_tls c" using s1(3) by simp_all
      from Cons.IH [OF _ c1'(1,2) Cons.prems(4) c1(2) c1'(3) more] Cons.prems(1) m2 s1(2) o obtain s' where
        s': "view_of s' = v" "sent (s_conn s') = sent c1 @ out2 \<and> c_tls (s_conn s') = c_tls c1"
        "r = Ok () \<longrightarrow>
          (\<forall>n. receive_loop (length ms + n) (server_handler sv) s1 = receive_loop n (server_handler sv) s') \<and>
          (\<exists>c'. s_conn s' = later (if rest = [] then tl es else es) c' \<and> Database c' = db \<and>
            (if rest = [] then drained c' else fronted c' \<and> reader_pending (c_reader c') = rest))"
        "r \<noteq> Ok () \<longrightarrow> (\<forall>n. receive_loop (length ms + n) (server_handler sv) s1 = Some (r, s'))"
        by auto
      have "receive_loop (length (m # ms) + n) (server_handler sv) s = receive_loop (length ms + n) (server_handler sv) s1" for n
        using loop [of "length ms + n"] by simp
      then show ?thesis using s' o sent1 by (intro exI [of _ s']) simp
    qed
  qed
qed

lemma final_held:
  assumes "list_all valid_client ms" "drained c" "s_conn s = later (conversation_events [] ms rest) c" "Database c = db"
    and "batch_meaning sv sem True ms (view_of s) = (out, r, v)"
  shows "\<exists>s'. receive_loop (length ms + 1) (server_handler sv) s = Some (r, s') \<and>
    sent (s_conn s') = sent c @ out \<and> view_of s' = v \<and> c_tls (s_conn s') = c_tls c"
proof -
  let ?stop = "frame TerminateMessage [] @ rest"
  let ?c = "later [Arrive (client_frames ms @ ?stop)] c"
  have c: "fronted ?c" "s_conn s = later [] ?c" "Database ?c = db" "reader_pending (c_reader ?c) = client_frames ms @ ?stop"
    using drained_later [OF assms(2)] assms(3,4) by (simp_all add: Database_def)
  have "ms \<noteq> [] \<or> ?stop \<noteq> []" "lull []" by (simp_all add: lull_def)
  from batch_held [OF assms(1) c(1,2) this(2) c(3,4) this(1)] assms(5) obtain s1 where
    s1: "view_of s1 = v" "sent (s_conn s1) = sent c @ out \<and> c_tls (s_conn s1) = c_tls c"
    "r = Ok () \<Longrightarrow> receive_loop (length ms + n) (server_handler sv) s = receive_loop n (server_handler sv) s1"
    "r = Ok () \<Longrightarrow> fronted (s_conn s1) \<and> reader_pending (c_reader (s_conn s1)) = ?stop"
    "r \<noteq> Ok () \<Longrightarrow> receive_loop (length ms + n) (server_handler sv) s = Some (r, s1)" for n
    by auto
  show ?thesis
  proof (cases r)
    case (Ok u)
    with s1(4) end_round [of s1 rest "server_handler sv"] obtain s2 where
      "receive_step (server_handler sv) s1 = (Ok False, s2)" "view_of s2 = view_of s1" "sent (s_conn s2) = sent (s_conn s1)" "c_tls (s_conn s2) = c_tls (s_conn s1)"
      by (auto simp: view_of_def)
    moreover have "receive_loop (length ms + 1) (server_handler sv) s = receive_loop 1 (server_handler sv) s1"
      by (rule s1(3)) (simp add: Ok)
    ultimately show ?thesis using Ok s1(1,2) by (intro exI [of _ s2]) (simp del: add_Suc_right)
  next
    case (Err e)
    with s1(1,2) s1(5) [of 1] show ?thesis by blast
  next
    case (Panic p)
    with s1(1,2) s1(5) [of 1] show ?thesis by blast
  qed
qed

lemma conversation_held:
  assumes "list_all (\<lambda>b. b \<noteq> [] \<and> list_all valid_client b) bs" "list_all valid_client ms" "drained c"
    and "s_conn s = later (conversation_events bs ms rest) c" "Database c = db"
    and "conversation_meaning sv sem bs ms (view_of s) = (out, r, v)"
  shows "\<exists>s'. receive_loop (length (concat bs) + length ms + 1) (server_handler sv) s = Some (r, s') \<and>
    sent (s_conn s') = sent c @ out \<and> view_of s' = v \<and> c_tls (s_conn s') = c_tls c"
  using assms
proof (induction bs arbitrary: s c out)
  case Nil
  with final_held [of ms c s rest out r v] show ?case by simp
next
  case (Cons b bs)
  let ?es = "Silence # conversation_events bs ms rest" and ?c = "later [Arrive (client_frames b)] c"
  have c: "fronted ?c" "s_conn s = later ?es ?c" "Database ?c = db" "reader_pending (c_reader ?c) = client_frames b @ []"
    using drained_later [OF Cons.prems(3)] Cons.prems(4,5) by (simp_all add: Database_def)
  obtain out1 r1 v1 where m: "batch_meaning sv sem False b (view_of s) = (out1, r1, v1)" by (metis surj_pair)
  have "b \<noteq> [] \<or> ([] :: bytes) \<noteq> []" "lull ?es" using Cons.prems(1) by (simp_all add: lull_def)
  from batch_held [OF _ c(1,2) this(2) c(3,4) this(1)] Cons.prems(1) m obtain s1 where
    s1: "view_of s1 = v1" "sent (s_conn s1) = sent c @ out1 \<and> c_tls (s_conn s1) = c_tls c"
    "r1 = Ok () \<Longrightarrow> receive_loop (length b + n) (server_handler sv) s = receive_loop n (server_handler sv) s1"
    "r1 = Ok () \<Longrightarrow> \<exists>c'. s_conn s1 = later (conversation_events bs ms rest) c' \<and> Database c' = db \<and> drained c'"
    "r1 \<noteq> Ok () \<Longrightarrow> receive_loop (length b + n) (server_handler sv) s = Some (r1, s1)" for n
    by auto
  have fuel: "length (concat (b # bs)) + length ms + 1 = length b + (length (concat bs) + length ms + 1)" by simp
  show ?case
  proof (cases r1)
    case (Ok u)
    with s1(4) obtain c1 where c1: "s_conn s1 = later (conversation_events bs ms rest) c1" "Database c1 = db" "drained c1"
      by auto
    have loop: "receive_loop (length b + n) (server_handler sv) s = receive_loop n (server_handler sv) s1" for n
      using s1(3) Ok by simp
    obtain out2 where m2: "conversation_meaning sv sem bs ms v1 = (out2, r, v)" and o: "out = out1 @ out2"
      using Cons.prems(6) m Ok by (cases "conversation_meaning sv sem bs ms v1") auto
    have "sent c1 = sent c @ out1" "c_tls c1 = c_tls c" using s1(2) c1(1) by simp_all
    with Cons.IH [of c1 s1 out2] Cons.prems(1,2) c1 m2 s1(1) o show ?thesis
      unfolding fuel loop by simp
  next
    case (Err e)
    with m Cons.prems(6) have "r = r1" "out = out1" "v = v1" by simp_all
    with Err s1(1,2) s1(5) show ?thesis unfolding fuel by blast
  next
    case (Panic p)
    with m Cons.prems(6) have "r = r1" "out = out1" "v = v1" by simp_all
    with Panic s1(1,2) s1(5) show ?thesis unfolding fuel by blast
  qed
qed

end

end
