(* ===== verification/Store_Tables.thy ===== *)
theory Store_Tables
  imports Rows "HOL-Library.AList"
begin

unbundle bit_operations_syntax

text \<open>
  The rows and tables of the example server (\<open>examples/go-postgresqld/server/store\<close>, \<open>row.go\<close> and
  \<open>table.go\<close>). A row is a Go map, here an association list without repeated keys. Rows are
  references in Go; each is made by its own call of \<open>NewRowFromColumns\<close> and no two positions of a
  table share one, so a table holds them by value. The backing array of the slice of rows is
  shared between the table and the result of \<open>Select\<close>, which matters in \<open>Delete\<close> and is explicit there.
\<close>

section \<open>What other packages provide\<close>

text \<open>
  The casts and the comparison of the \<open>safecast\<close> package, the integer types of the parser package
  that are known by their name only (tiny, medium and serial ones), and the errors of that package.
\<close>

record store_env = safecast +
  ToInt :: "go_value \<Rightarrow> (64 word) go"
  Equal :: "go_value \<Rightarrow> go_value \<Rightarrow> bool"
  IntTypeNames :: "string list"
  sql_ErrDatabaseNotExist :: "string \<Rightarrow> gerr"
  sql_ErrDatabaseExist :: "string \<Rightarrow> gerr"
  sql_ErrTableNotExist :: "string \<Rightarrow> gerr"
  sql_ErrTableExist :: "string \<Rightarrow> gerr"
  sql_ErrMultipleTable :: "string \<Rightarrow> gerr"
  sql_ErrNotImplemented :: gerr
  sql_NewErrNotImplemented :: "string \<Rightarrow> gerr"
  sql_ErrNotExist :: gerr

text \<open>The schema of a table; \<open>TableName\<close> and \<open>Selectors\<close> of a table are those of its schema.\<close>

record schema =
  sch_TableName :: string
  sch_LookupColumn :: "string \<Rightarrow> sql_type go"
  sch_Selectors :: "string list"
  sch_Columns :: "string list"

section \<open>Rows\<close>

type_synonym store_row = "(string \<times> go_value) list"

definition NewRow :: store_row where
  "NewRow = []"

text \<open>
  A column of a statement. \<open>col_Function\<close> is the function of the column if it has one whose
  executor is found, applied to the row as a map.
\<close>

record column =
  col_Name :: string
  col_HasValue :: bool
  col_Value :: go_value
  col_Function :: "(store_row \<Rightarrow> go_value go) option"

text \<open>The switch over the type of the column; a type without a case leaves the value nil.\<close>

definition column_cast :: "('x) store_env_scheme \<Rightarrow> sql_type \<Rightarrow> go_value \<Rightarrow> go_value go" where
  "column_cast E t v = (case t of
       BooleanType \<Rightarrow> map_res VBool (ToBool E v)
     | TextType \<Rightarrow> map_res VString (ToString E v)
     | VarCharType \<Rightarrow> map_res VString (ToString E v)
     | LongTextType \<Rightarrow> map_res VString (ToString E v)
     | IntType \<Rightarrow> map_res VInt (ToInt E v)
     | IntegerType \<Rightarrow> map_res VInt (ToInt E v)
     | SmallIntType \<Rightarrow> map_res VInt (ToInt E v)
     | FloatType \<Rightarrow> map_res VFloat32 (ToFloat32 E v)
     | DoubleType \<Rightarrow> map_res VFloat64 (ToFloat64 E v)
     | DateTimeType \<Rightarrow> map_res VTime (ToTime E v)
     | TimeStampType \<Rightarrow> map_res VTime (ToTime E v)
     | OtherType name \<Rightarrow> if name \<in> set (IntTypeNames E) then map_res VInt (ToInt E v) else Ok VNil
     | _ \<Rightarrow> Ok VNil)"

fun row_from_columns :: "'x store_env_scheme \<Rightarrow> schema \<Rightarrow> column list \<Rightarrow> store_row \<Rightarrow> store_row go" where
  "row_from_columns E sch [] row = Ok row"
| "row_from_columns E sch (col # cols) row =
     sequence_res (sch_LookupColumn sch (col_Name col)) (\<lambda>t.
     sequence_res (column_cast E t (col_Value col)) (\<lambda>v.
     row_from_columns E sch cols (AList.update (col_Name col) v row)))"

definition NewRowFromColumns :: "'x store_env_scheme \<Rightarrow> schema \<Rightarrow> column list \<Rightarrow> store_row go" where
  "NewRowFromColumns E sch cols = row_from_columns E sch cols NewRow"

text \<open>
  The condition of a statement as the code sees it: none, a comparison of a column with a value, or
  another expression (\<open>AND\<close>, \<open>OR\<close>, \<open>NOT\<close>).
\<close>

datatype operator = EQ | NEQ | OtherOperator

datatype condition = NoConditions | CmpExpr string operator go_value | OtherExpr

definition row_eq :: "'x store_env_scheme \<Rightarrow> store_row \<Rightarrow> string \<Rightarrow> go_value \<Rightarrow> bool" where
  "row_eq E row name v = (case map_of row name of None \<Rightarrow> False | Some rv \<Rightarrow> Equal E rv v)"

definition IsMatched :: "'x store_env_scheme \<Rightarrow> store_row \<Rightarrow> condition \<Rightarrow> bool" where
  "IsMatched E row cond = (case cond of
       NoConditions \<Rightarrow> True
     | CmpExpr name op v \<Rightarrow> (case op of
         EQ \<Rightarrow> row_eq E row name v | NEQ \<Rightarrow> \<not> row_eq E row name v | OtherOperator \<Rightarrow> False)
     | OtherExpr \<Rightarrow> True)"

fun set_values :: "column list \<Rightarrow> store_row \<Rightarrow> store_row" where
  "set_values [] row = row"
| "set_values (col # cols) row =
     set_values cols (if col_HasValue col then AList.update (col_Name col) (col_Value col) row else row)"

fun apply_functions :: "column list \<Rightarrow> store_row \<Rightarrow> unit go \<times> store_row" where
  "apply_functions [] row = (Ok (), row)"
| "apply_functions (col # cols) row = (case col_Function col of
       None \<Rightarrow> apply_functions cols row
     | Some exec \<Rightarrow> (case exec row of
           Ok v \<Rightarrow> apply_functions cols (AList.update (col_Name col) v row)
         | Err e \<Rightarrow> (Err e, row)
         | Panic p \<Rightarrow> (Panic p, row)))"

definition row_Update :: "column list \<Rightarrow> (store_row, gerr, unit) gom" where
  "row_Update cols row = apply_functions cols (set_values cols row)"

text \<open>
  \<open>reflect.DeepEqual\<close> of two values: the same type and the same value, where floats are compared as
  numbers, so that NaN is not equal to itself and the two zeros are equal.
\<close>

definition ieee_eq :: "'w::len word \<Rightarrow> 'w word \<Rightarrow> 'w word \<Rightarrow> 'w word \<Rightarrow> bool" where
  "ieee_eq exponent mantissa a b \<longleftrightarrow>
     (let nan = (\<lambda>x. x AND exponent = exponent \<and> x AND mantissa \<noteq> 0); abs = exponent OR mantissa
      in \<not> nan a \<and> \<not> nan b \<and> (a = b \<or> a AND abs = 0 \<and> b AND abs = 0))"

definition float32_eq :: "float32 \<Rightarrow> float32 \<Rightarrow> bool" where
  "float32_eq a b = ieee_eq 0x7F800000 0x007FFFFF (Float32bits a) (Float32bits b)"

definition float64_eq :: "float64 \<Rightarrow> float64 \<Rightarrow> bool" where
  "float64_eq a b = ieee_eq 0x7FF0000000000000 0x000FFFFFFFFFFFFF (Float64bits a) (Float64bits b)"

fun DeepEqual :: "go_value \<Rightarrow> go_value \<Rightarrow> bool" where
  "DeepEqual (VFloat32 a) (VFloat32 b) = float32_eq a b"
| "DeepEqual (VFloat64 a) (VFloat64 b) = float64_eq a b"
| "DeepEqual v w = (v = w)"

definition row_IsEqual :: "store_row \<Rightarrow> store_row \<Rightarrow> bool" where
  "row_IsEqual row other \<longleftrightarrow> length row = length other \<and>
     list_all (\<lambda>(k, v). case map_of other k of None \<Rightarrow> False | Some ov \<Rightarrow> DeepEqual v ov) row"

definition ValueByName :: "'x store_env_scheme \<Rightarrow> store_row \<Rightarrow> string \<Rightarrow> go_value go" where
  "ValueByName E row name = (case map_of row name of
       None \<Rightarrow> Err (GoError (''row ('' @ name @ '') '' @ err_text (sql_ErrNotExist E))
                       (err_chain (sql_ErrNotExist E)))
     | Some v \<Rightarrow> Ok v)"

section \<open>Tables\<close>

record table =
  tb_Name :: string
  tb_Schema :: schema
  tb_Rows :: "store_row list"

definition NewTableWith :: "string \<Rightarrow> schema \<Rightarrow> table" where
  "NewTableWith name sch = \<lparr>tb_Name = name, tb_Schema = sch, tb_Rows = []\<rparr>"

text \<open>The rows; without a condition the result is the table's own slice.\<close>

definition table_Select :: "'x store_env_scheme \<Rightarrow> condition \<Rightarrow> table \<Rightarrow> store_row list" where
  "table_Select E cond tbl =
     (if cond = NoConditions then tb_Rows tbl
      else filter (\<lambda>row. IsMatched E row cond) (tb_Rows tbl))"

definition table_Insert :: "'x store_env_scheme \<Rightarrow> column list \<Rightarrow> (table, gerr, unit) gom" where
  "table_Insert E cols tbl = (case NewRowFromColumns E (tb_Schema tbl) cols of
       Ok row \<Rightarrow> (Ok (), tbl\<lparr>tb_Rows := tb_Rows tbl @ [row]\<rparr>)
     | Err e \<Rightarrow> (Err e, tbl)
     | Panic p \<Rightarrow> (Panic p, tbl))"

text \<open>The loop of \<open>Update\<close>: the error of a row is not looked at.\<close>

fun update_rows :: "'x store_env_scheme \<Rightarrow> column list \<Rightarrow> condition \<Rightarrow> (store_row list, gerr, unit) gom" where
  "update_rows E cols cond [] = (Ok (), [])"
| "update_rows E cols cond (row # rows) =
     (if IsMatched E row cond then (case row_Update cols row of
          (Panic p, row') \<Rightarrow> (Panic p, row' # rows)
        | (_, row') \<Rightarrow> (case update_rows E cols cond rows of (x, rows') \<Rightarrow> (x, row' # rows')))
      else (case update_rows E cols cond rows of (x, rows') \<Rightarrow> (x, row # rows')))"

definition table_Update :: "'x store_env_scheme \<Rightarrow> column list \<Rightarrow> condition \<Rightarrow> (table, gerr, nat) gom" where
  "table_Update E cols cond tbl = (case update_rows E cols cond (tb_Rows tbl) of
       (x, rows') \<Rightarrow> (map_res (\<lambda>_. length (table_Select E cond tbl)) x, tbl\<lparr>tb_Rows := rows'\<rparr>))"

section \<open>Delete\<close>

text \<open>
  The slice of a table during \<open>Delete\<close>: its backing array, up to the length it had at the start, and
  its present length. \<open>append(s[:n], s[n+1:]...)\<close> moves the elements behind \<open>n\<close> one place to the
  front within the array; the slice expression panics when \<open>n + 1\<close> is past the length.
\<close>

type_synonym row_slice = "store_row list \<times> nat"

definition slice_remove :: "nat \<Rightarrow> (row_slice, gerr, unit) gom" where
  "slice_remove n s = (case s of (arr, len) \<Rightarrow>
     if len < n + 1 then (Panic SliceBoundsOutOfRange, s)
     else (Ok (), (take n arr @ drop (n + 1) (take len arr) @ drop (len - 1) arr, len - 1)))"

text \<open>
  The inner loop ranges over the slice as it was when the loop began: its length is fixed, its
  elements are read from the array one by one.
\<close>

fun delete_equal :: "store_row \<Rightarrow> nat list \<Rightarrow> (row_slice, gerr, unit) gom" where
  "delete_equal row [] s = (Ok (), s)"
| "delete_equal row (n # ns) s =
     (if \<not> row_IsEqual row (fst s ! n) then delete_equal row ns s
      else goseq (slice_remove n) (\<lambda>_. delete_equal row ns) s)"

text \<open>
  The outer loop ranges over the selected rows. Without a condition they are the table's own array,
  so each is read from it when its turn comes; else they are a fresh slice.
\<close>

fun delete_rows :: "bool \<Rightarrow> store_row list \<Rightarrow> nat list \<Rightarrow> (row_slice, gerr, unit) gom" where
  "delete_rows aliased rows [] s = (Ok (), s)"
| "delete_rows aliased rows (i # idx) s =
     goseq (delete_equal (if aliased then fst s ! i else rows ! i) [0..<snd s])
       (\<lambda>_. delete_rows aliased rows idx) s"

definition table_Delete :: "'x store_env_scheme \<Rightarrow> condition \<Rightarrow> (table, gerr, nat) gom" where
  "table_Delete E cond tbl =
     (let rows = table_Select E cond tbl in
      case delete_rows (cond = NoConditions) rows [0..<length rows] (tb_Rows tbl, length (tb_Rows tbl)) of
        (x, (arr, len)) \<Rightarrow> (map_res (\<lambda>_. length rows) x, tbl\<lparr>tb_Rows := take len arr\<rparr>))"

end
