(* ===== verification/Store_Table_Proofs.thy ===== *)
theory Store_Table_Proofs
  imports Store_Tables
begin

text \<open>
  Correctness of the tables of the example server: what an inserted row holds, what an update
  changes, and when \<open>Delete\<close> removes the rows it was asked to remove.
\<close>

section \<open>Removing from a slice\<close>

lemma slice_remove_Ok:
  assumes "n < len" "len \<le> length arr"
  shows "slice_remove n (arr, len) =
    (Ok (), (take n arr @ drop (n + 1) (take len arr) @ drop (len - 1) arr, len - 1))"
  using assms by (simp add: slice_remove_def)

lemma slice_remove_live:
  assumes "n < len" "len \<le> length arr" "slice_remove n (arr, len) = (x, (arr', len'))"
  shows "x = Ok ()" "len' = len - 1" "length arr' = length arr"
    "take len' arr' = take n (take len arr) @ drop (n + 1) (take len arr)"
    "\<And>j. j < length arr \<Longrightarrow> arr' ! j = (if j < n \<or> len - 1 \<le> j then arr ! j else arr ! (j + 1))"
proof -
  have eq: "x = Ok ()" "len' = len - 1"
    "arr' = take n arr @ drop (n + 1) (take len arr) @ drop (len - 1) arr"
    using assms(3) slice_remove_Ok [OF assms(1,2)] by auto
  then show "x = Ok ()" "len' = len - 1" by simp_all
  have len: "length (take n arr) = n" "length (drop (n + 1) (take len arr)) = len - 1 - n"
    using assms(1,2) by simp_all
  show "length arr' = length arr" using assms(1,2) by (simp add: eq)
  have "take (len - 1) arr' = take n arr @ drop (n + 1) (take len arr)"
    using assms(1,2) by (simp add: eq)
  then show "take len' arr' = take n (take len arr) @ drop (n + 1) (take len arr)"
    using assms(1) by (simp add: eq(2) min_absorb1)
  show "arr' ! j = (if j < n \<or> len - 1 \<le> j then arr ! j else arr ! (j + 1))" if "j < length arr" for j
    using assms(1,2) that len by (auto simp: eq(3) nth_append)
qed

lemma delete_equal_append:
  "delete_equal row (ms @ ns) s = goseq (delete_equal row ms) (\<lambda>_. delete_equal row ns) s"
  by (induction ms arbitrary: s) (simp_all add: goseq_def split: prod.splits res.splits)

lemma delete_equal_none:
  "(\<And>n. n \<in> set ns \<Longrightarrow> \<not> row_IsEqual row (fst s ! n)) \<Longrightarrow> delete_equal row ns s = (Ok (), s)"
  by (induction ns) simp_all

text \<open>Rows that are equal only to themselves: no duplicates and no NaN\<close>

definition distinct_rows :: "store_row list \<Rightarrow> bool" where
  "distinct_rows rows \<longleftrightarrow> distinct rows \<and> (\<forall>x\<in>set rows. \<forall>y\<in>set rows. row_IsEqual x y \<longleftrightarrow> x = y)"

text \<open>Among such rows the inner loop removes the row it looks for, once.\<close>

lemma delete_equal_distinct:
  assumes "n < len" "len \<le> length arr" "distinct (take len arr)"
    "\<And>j. j < len \<Longrightarrow> row_IsEqual (arr ! n) (arr ! j) \<longleftrightarrow> arr ! n = arr ! j"
  shows "delete_equal (arr ! n) [0..<len] (arr, len) = slice_remove n (arr, len)"
proof -
  let ?row = "arr ! n"
  have other: "\<not> row_IsEqual ?row (arr ! j)" if "j < len" "j \<noteq> n" for j
    using assms that by (auto simp: distinct_conv_nth)
  obtain arr' where rm: "slice_remove n (arr, len) = (Ok (), (arr', len - 1))"
    using slice_remove_Ok [OF assms(1,2)] by blast
  note live = slice_remove_live [OF assms(1,2) rm]
  have split: "[0..<len] = [0..<n] @ n # [Suc n..<len]"
    using assms(1) upt_add_eq_append [of 0 n "len - n"] by (simp add: upt_conv_Cons)
  have "delete_equal ?row [0..<n] (arr, len) = (Ok (), (arr, len))"
    by (rule delete_equal_none) (use assms(1) other in auto)
  moreover have "delete_equal ?row [Suc n..<len] (arr', len - 1) = (Ok (), (arr', len - 1))"
  proof (rule delete_equal_none)
    fix j assume "j \<in> set [Suc n..<len]"
    then have j: "n < j" "j < len" by auto
    with assms(2) live(5) [of j] show "\<not> row_IsEqual ?row (fst (arr', len - 1) ! j)"
      using other [of j] other [of "j + 1"] by (cases "len - 1 \<le> j") auto
  qed
  moreover have "row_IsEqual ?row (arr ! n)" using assms(1,4) by blast
  ultimately show ?thesis by (simp add: split delete_equal_append goseq_def rm)
qed

lemma removeAll_distinct:
  "distinct xs \<Longrightarrow> n < length xs \<Longrightarrow> take n xs @ drop (n + 1) xs = removeAll (xs ! n) xs"
proof -
  assume d: "distinct xs" and n: "n < length xs"
  have "xs = take n xs @ xs ! n # drop (n + 1) xs" using n by (simp add: id_take_nth_drop)
  moreover from this d have "xs ! n \<notin> set (take n xs)" "xs ! n \<notin> set (drop (n + 1) xs)"
    by (metis distinct_append distinct.simps(2) disjoint_iff list.set_intros(1), metis distinct_append distinct.simps(2))
  ultimately show ?thesis by (metis append_same_eq removeAll.simps(2) removeAll_append removeAll_id)
qed

text \<open>What one round of the outer loop does to the live part of the slice\<close>

lemma delete_round:
  assumes "len \<le> length arr" "distinct (take len arr)"
    "\<And>y. y \<in> set (take len arr) \<Longrightarrow> row_IsEqual x y \<longleftrightarrow> x = y"
  obtains "x \<notin> set (take len arr)" "delete_equal x [0..<len] (arr, len) = (Ok (), (arr, len))"
  | n where "n < len" "arr ! n = x" "delete_equal x [0..<len] (arr, len) = slice_remove n (arr, len)"
proof (cases "x \<in> set (take len arr)")
  case True
  then obtain n where n: "n < len" "arr ! n = x" using assms(1) by (auto simp: in_set_conv_nth)
  have "row_IsEqual (arr ! n) (arr ! j) \<longleftrightarrow> arr ! n = arr ! j" if "j < len" for j
  proof -
    have "arr ! j \<in> set (take len arr)" using that assms(1) by (auto simp: in_set_conv_nth)
    with assms(3) n(2) show ?thesis by simp
  qed
  from delete_equal_distinct [OF n(1) assms(1,2) this] n that(2) show thesis by simp
next
  case False
  have "delete_equal x [0..<len] (arr, len) = (Ok (), (arr, len))"
  proof (rule delete_equal_none)
    fix n assume "n \<in> set [0..<len]"
    then have "arr ! n \<in> set (take len arr)" using assms(1) by (auto simp: in_set_conv_nth)
    with False assms(3) show "\<not> row_IsEqual x (fst (arr, len) ! n)" by auto
  qed
  with False that(1) show thesis by blast
qed

lemma delete_round_live:
  assumes "len \<le> length arr" "distinct (take len arr)"
    "\<And>y. y \<in> set (take len arr) \<Longrightarrow> row_IsEqual x y \<longleftrightarrow> x = y"
  shows "\<exists>arr' len'. delete_equal x [0..<len] (arr, len) = (Ok (), (arr', len')) \<and> len' \<le> length arr' \<and>
    take len' arr' = removeAll x (take len arr)"
proof (rule delete_round [OF assms])
  assume "x \<notin> set (take len arr)" "delete_equal x [0..<len] (arr, len) = (Ok (), (arr, len))"
  with assms(1) show ?thesis by (simp add: removeAll_id)
next
  fix n assume n: "n < len" "arr ! n = x" "delete_equal x [0..<len] (arr, len) = slice_remove n (arr, len)"
  obtain y arr' len' where rm: "slice_remove n (arr, len) = (y, (arr', len'))" by (metis surj_pair)
  note live = slice_remove_live [OF n(1) assms(1) rm]
  have "take len' arr' = removeAll x (take len arr)"
    using removeAll_distinct [OF assms(2), of n] n(1,2) assms(1) live(4) by simp
  with rm live(1-3) n(3) assms(1) show ?thesis by auto
qed

section \<open>Delete with a condition\<close>

lemma delete_rows_copy:
  assumes "len \<le> length arr" "distinct (take len arr)"
    "\<And>i y. i \<in> set idx \<Longrightarrow> y \<in> set (take len arr) \<Longrightarrow> row_IsEqual (rows ! i) y \<longleftrightarrow> rows ! i = y"
  shows "\<exists>arr' len'. delete_rows False rows idx (arr, len) = (Ok (), (arr', len')) \<and>
    take len' arr' = filter (\<lambda>y. \<forall>i\<in>set idx. rows ! i \<noteq> y) (take len arr)"
  using assms
proof (induction idx arbitrary: arr len)
  case (Cons i idx)
  obtain arr1 len1 where r1: "delete_equal (rows ! i) [0..<len] (arr, len) = (Ok (), (arr1, len1))"
    "len1 \<le> length arr1" "take len1 arr1 = removeAll (rows ! i) (take len arr)"
    using delete_round_live [OF Cons.prems(1,2), of "rows ! i"] Cons.prems(3) by auto
  have "\<exists>arr' len'. delete_rows False rows idx (arr1, len1) = (Ok (), (arr', len')) \<and>
      take len' arr' = filter (\<lambda>y. \<forall>i\<in>set idx. rows ! i \<noteq> y) (take len1 arr1)"
    by (rule Cons.IH) (use r1 Cons.prems in \<open>auto simp: distinct_removeAll\<close>)
  moreover have "filter (\<lambda>y. \<forall>j\<in>set (i # idx). rows ! j \<noteq> y) zs =
      filter (\<lambda>y. \<forall>j\<in>set idx. rows ! j \<noteq> y) (removeAll (rows ! i) zs)" for zs :: "store_row list"
    by (auto simp: removeAll_filter_not_eq intro!: filter_cong)
  ultimately show ?case using r1 by (auto simp: goseq_def)
qed simp

lemma nth_never: "(\<forall>i\<in>set [0..<length zs]. zs ! i \<noteq> y) \<longleftrightarrow> y \<notin> set zs"
  by (auto simp: in_set_conv_nth)

text \<open>
  C11: DELETE with a condition, on a table without equal rows. Exactly the rows that match are removed,
  the others keep their order, and the count is the number of rows removed.
\<close>

theorem delete_where:
  assumes "distinct_rows (tb_Rows tbl)" and "cond \<noteq> NoConditions"
  shows "table_Delete E cond tbl =
    (Ok (length (filter (\<lambda>row. IsMatched E row cond) (tb_Rows tbl))),
     tbl\<lparr>tb_Rows := filter (\<lambda>row. \<not> IsMatched E row cond) (tb_Rows tbl)\<rparr>)"
proof -
  let ?xs = "tb_Rows tbl" and ?sel = "filter (\<lambda>row. IsMatched E row cond) (tb_Rows tbl)"
  have sel: "table_Select E cond tbl = ?sel" using assms(2) by (simp add: table_Select_def)
  have nth: "?sel ! i \<in> set ?xs" if "i < length ?sel" for i
    using nth_mem [OF that] by simp
  obtain arr len where d: "delete_rows False ?sel [0..<length ?sel] (?xs, length ?xs) = (Ok (), (arr, len))"
    "take len arr = filter (\<lambda>y. \<forall>i\<in>set [0..<length ?sel]. ?sel ! i \<noteq> y) (take (length ?xs) ?xs)"
    using delete_rows_copy [of "length ?xs" ?xs "[0..<length ?sel]" ?sel] assms(1) nth
    by (fastforce simp: distinct_rows_def)
  have "take len arr = filter (\<lambda>row. \<not> IsMatched E row cond) ?xs"
    unfolding d(2) nth_never take_all [OF order_refl] by (rule filter_cong) auto
  then show ?thesis
    using d(1) assms(2) by (simp add: table_Delete_def sel Let_def)
qed

text \<open>A table with one text column, and an environment that casts strings and integers\<close>

definition plain_env :: store_env where
  "plain_env =
     \<lparr>ToBool = \<lambda>v. case v of VBool b \<Rightarrow> Ok b | _ \<Rightarrow> Err (GoError ''cast'' []),
      ToInt16 = \<lambda>_. Err (GoError ''cast'' []), ToInt32 = \<lambda>_. Err (GoError ''cast'' []),
      ToInt64 = \<lambda>_. Err (GoError ''cast'' []), ToFloat32 = \<lambda>_. Err (GoError ''cast'' []),
      ToFloat64 = \<lambda>_. Err (GoError ''cast'' []),
      ToString = \<lambda>v. case v of VString t \<Rightarrow> Ok t | _ \<Rightarrow> Err (GoError ''cast'' []),
      ToTime = \<lambda>_. Err (GoError ''cast'' []),
      ToInt = \<lambda>v. case v of VInt i \<Rightarrow> Ok i | _ \<Rightarrow> Err (GoError ''cast'' []),
      Equal = (=), IntTypeNames = [],
      sql_ErrDatabaseNotExist = \<lambda>n. GoError (n @ '' not found'') [], sql_ErrDatabaseExist = \<lambda>n. GoError n [],
      sql_ErrTableNotExist = \<lambda>n. GoError (n @ '' not found'') [], sql_ErrTableExist = \<lambda>n. GoError n [],
      sql_ErrMultipleTable = \<lambda>n. GoError n [], sql_ErrNotImplemented = GoError ''no'' [],
      sql_NewErrNotImplemented = \<lambda>n. GoError n [], sql_ErrNotExist = GoError ''no'' []\<rparr>"

definition text_schema :: "string \<Rightarrow> schema" where
  "text_schema name = \<lparr>sch_TableName = name, sch_LookupColumn = \<lambda>c. if c = ''a'' then Ok TextType
     else if c = ''n'' then Ok BigIntType else Err (GoError c []), sch_Selectors = [''a''], sch_Columns = [''a'']\<rparr>"

definition abc_table :: table where
  "abc_table = (NewTableWith ''t'' (text_schema ''t''))\<lparr>tb_Rows :=
     [[(''a'', VString ''x'')], [(''a'', VString ''y'')], [(''a'', VString ''z'')]]\<rparr>"

lemma distinct_abc: "distinct_rows (tb_Rows abc_table)"
  by (simp add: distinct_rows_def abc_table_def row_IsEqual_def)

theorem delete_where_witness:
  "tb_Rows (snd (table_Delete plain_env (CmpExpr ''a'' EQ (VString ''y'')) abc_table)) =
     [[(''a'', VString ''x'')], [(''a'', VString ''z'')]]"
  using delete_where [OF distinct_abc, of "CmpExpr ''a'' EQ (VString ''y'')" plain_env]
  by (simp add: abc_table_def IsMatched_def row_eq_def plain_env_def)

section \<open>Delete without a condition\<close>

text \<open>
  The selected rows are the table's own array, which shrinks under the loop. From the second round
  on, the row at the front of the array is never looked at again.
\<close>

lemma delete_rows_alias:
  assumes "1 \<le> len" "len \<le> length arr" "distinct (take len arr)"
    "\<And>j. 1 \<le> j \<Longrightarrow> j < length arr \<Longrightarrow> arr ! j \<noteq> arr ! 0"
    "\<And>x y. x \<in> set arr \<Longrightarrow> y \<in> set arr \<Longrightarrow> row_IsEqual x y \<longleftrightarrow> x = y"
    "\<And>i. i \<in> set idx \<Longrightarrow> 1 \<le> i \<and> i < length arr"
  shows "\<exists>arr' len'. delete_rows True rows idx (arr, len) = (Ok (), (arr', len')) \<and>
    1 \<le> len' \<and> len' \<le> length arr' \<and> arr' ! 0 = arr ! 0"
  using assms
proof (induction idx arbitrary: arr len)
  case (Cons i idx)
  have i: "1 \<le> i" "i < length arr" using Cons.prems(6) [of i] by simp_all
  have eq: "\<And>y. y \<in> set (take len arr) \<Longrightarrow> row_IsEqual (arr ! i) y \<longleftrightarrow> arr ! i = y"
    using Cons.prems(5) i(2) in_set_takeD nth_mem by metis
  show ?case
  proof (rule delete_round [OF Cons.prems(2,3) eq])
    assume "delete_equal (arr ! i) [0..<len] (arr, len) = (Ok (), (arr, len))"
    then show ?thesis using Cons.IH [OF Cons.prems(1-5)] Cons.prems(6) by (simp add: goseq_def)
  next
    fix n assume n: "n < len" "arr ! n = arr ! i" "delete_equal (arr ! i) [0..<len] (arr, len) = slice_remove n (arr, len)"
    have "n \<noteq> 0" using Cons.prems(4) [OF i] n(2) by metis
    obtain x arr1 len1 where rm: "slice_remove n (arr, len) = (x, (arr1, len1))" by (metis surj_pair)
    note live = slice_remove_live [OF n(1) Cons.prems(2) rm]
    have nonempty: "0 < length arr" using i(2) by (rule le_less_trans [OF le0])
    have front: "arr1 ! 0 = arr ! 0" using live(5) [OF nonempty] \<open>n \<noteq> 0\<close> by simp
    have from_arr: "\<exists>k\<ge>1. k < length arr \<and> arr1 ! j = arr ! k" if "1 \<le> j" "j < length arr1" for j
    proof (cases "j < n \<or> len - 1 \<le> j")
      case True
      then show ?thesis using live(3) live(5) [of j] that by auto
    next
      case False
      then have "j + 1 < length arr" using Cons.prems(2) by arith
      then show ?thesis using live(3) live(5) [of j] that False by (intro exI [of _ "j + 1"]) simp
    qed
    have sub: "set arr1 \<subseteq> set arr"
    proof
      fix y assume "y \<in> set arr1"
      then obtain j where "j < length arr1" "y = arr1 ! j" by (auto simp: in_set_conv_nth)
      then show "y \<in> set arr" using from_arr [of j] front nonempty by (cases "j = 0") auto
    qed
    have "1 \<le> len1" "len1 \<le> length arr1" using \<open>n \<noteq> 0\<close> n(1) live(2,3) Cons.prems(2) by simp_all
    moreover have "distinct (take len1 arr1)"
      using removeAll_distinct [OF Cons.prems(3), of n] n(1) Cons.prems(2,3) live(4)
      by (simp add: distinct_removeAll)
    moreover have "arr1 ! j \<noteq> arr1 ! 0" if "1 \<le> j" "j < length arr1" for j
      using from_arr [OF that] Cons.prems(4) front by metis
    moreover have "row_IsEqual x y \<longleftrightarrow> x = y" if "x \<in> set arr1" "y \<in> set arr1" for x y
      using that sub Cons.prems(5) by blast
    moreover have "1 \<le> k \<and> k < length arr1" if "k \<in> set idx" for k
      using Cons.prems(6) [of k] that live(3) by simp
    ultimately have "\<exists>arr' len'. delete_rows True rows idx (arr1, len1) = (Ok (), (arr', len')) \<and>
        1 \<le> len' \<and> len' \<le> length arr' \<and> arr' ! 0 = arr1 ! 0"
      by (rule Cons.IH)
    then show ?thesis using n(3) rm live(1) front by (auto simp: goseq_def)
  qed
qed simp

text \<open>After the first round, which removes the first row, the second one is at the front and stays there.\<close>

lemma delete_rest:
  assumes "distinct_rows xs" "3 \<le> length xs" "slice_remove 0 (xs, length xs) = (x, (arr, len))"
  shows "\<exists>arr' len'. delete_rows True rows [1..<length xs] (arr, len) = (Ok (), (arr', len')) \<and>
    1 \<le> len' \<and> len' \<le> length arr' \<and> arr' ! 0 = xs ! 1"
proof -
  let ?L = "length xs"
  have d: "distinct xs" "\<And>x y. x \<in> set xs \<Longrightarrow> y \<in> set xs \<Longrightarrow> row_IsEqual x y \<longleftrightarrow> x = y"
    using assms(1) by (auto simp: distinct_rows_def)
  have L: "0 < ?L" "?L \<le> ?L" using assms(2) by auto
  note live = slice_remove_live [OF L assms(3)]
  have front: "arr ! 0 = xs ! 1" using live(5) [OF L(1)] assms(2) by simp
  have elem: "arr ! j = xs ! (if ?L - 1 \<le> j then j else j + 1)" if "j < ?L" for j
    using live(5) [OF that] by simp
  have "\<exists>arr' len'. delete_rows True rows [1..<?L] (arr, len) = (Ok (), (arr', len')) \<and>
      1 \<le> len' \<and> len' \<le> length arr' \<and> arr' ! 0 = arr ! 0"
  proof (rule delete_rows_alias)
    show "1 \<le> len" "len \<le> length arr" using live(2,3) assms(2) by simp_all
    show "distinct (take len arr)" using live(4) d(1) by (simp add: distinct_drop)
    show "arr ! j \<noteq> arr ! 0" if "1 \<le> j" "j < length arr" for j
    proof -
      let ?k = "if ?L - 1 \<le> j then j else j + 1"
      have "?k \<noteq> 1" "?k < ?L" using that live(3) assms(2) by auto
      then have "xs ! ?k \<noteq> xs ! 1" using d(1) assms(2) by (subst nth_eq_iff_index_eq) auto
      then show ?thesis using elem [of j] front that(2) live(3) by simp
    qed
    have "y \<in> set xs" if y: "y \<in> set arr" for y
    proof -
      obtain j where j: "j < ?L" "y = arr ! j" using y live(3) by (auto simp: in_set_conv_nth)
      have "(if ?L - 1 \<le> j then j else j + 1) < ?L" using j(1) by auto
      then show "y \<in> set xs" using elem [OF j(1)] j(2) nth_mem by metis
    qed
    then show "row_IsEqual x y \<longleftrightarrow> x = y" if "x \<in> set arr" "y \<in> set arr" for x y
      using that d(2) by blast
    show "1 \<le> i \<and> i < length arr" if "i \<in> set [1..<?L]" for i using that live(3) by auto
  qed
  with front show ?thesis by simp
qed

lemma table_Delete_all:
  assumes "distinct_rows (tb_Rows tbl)" "3 \<le> length (tb_Rows tbl)"
  shows "\<exists>rest. table_Delete E NoConditions tbl =
    (Ok (length (tb_Rows tbl)), tbl\<lparr>tb_Rows := tb_Rows tbl ! 1 # rest\<rparr>)"
proof -
  let ?xs = "tb_Rows tbl" and ?L = "length (tb_Rows tbl)"
  have L: "0 < ?L" "?L \<le> ?L" using assms(2) by auto
  have d: "distinct ?xs" "row_IsEqual (?xs ! 0) (?xs ! j) \<longleftrightarrow> ?xs ! 0 = ?xs ! j" if "j < ?L" for j
    using assms(1) nth_mem [OF L(1)] nth_mem [OF that] by (auto simp: distinct_rows_def)
  obtain x arr len where rm: "slice_remove 0 (?xs, ?L) = (x, (arr, len))" by (metis surj_pair)
  have first: "delete_equal (?xs ! 0) [0..<?L] (?xs, ?L) = (Ok (), (arr, len))"
    using delete_equal_distinct [OF L _ d(2)] d(1) [OF L(1)] rm slice_remove_live(1) [OF L rm] by simp
  obtain arr' len' where rest: "delete_rows True ?xs [1..<?L] (arr, len) = (Ok (), (arr', len'))"
    "1 \<le> len'" "len' \<le> length arr'" "arr' ! 0 = ?xs ! 1" using delete_rest [OF assms rm] by blast
  obtain tail where "take len' arr' = ?xs ! 1 # tail"
    using rest(2-4) by (cases arr'; cases len') auto
  moreover have "[0..<?L] = 0 # [1..<?L]" using L(1) by (simp add: upt_rec)
  ultimately show ?thesis
    using first rest(1) by (auto simp: table_Delete_def table_Select_def Let_def goseq_def)
qed

text \<open>
  C38: DELETE without a condition does not empty a table. On a table of at least three rows without
  duplicates it reports all rows as deleted and leaves the second row, among others, as the new
  first row: the loop removes from the array it ranges over.
\<close>

theorem delete_all_leaves_rows:
  assumes "distinct_rows (tb_Rows tbl)" and "3 \<le> length (tb_Rows tbl)"
  shows "\<exists>rest. table_Delete E NoConditions tbl =
    (Ok (length (tb_Rows tbl)), tbl\<lparr>tb_Rows := tb_Rows tbl ! 1 # rest\<rparr>)"
  by (rule table_Delete_all [OF assms])

theorem delete_all_leaves_rows_witness:
  "\<exists>rest. table_Delete plain_env NoConditions abc_table =
     (Ok 3, abc_table\<lparr>tb_Rows := [(''a'', VString ''y'')] # rest\<rparr>)"
  using delete_all_leaves_rows [OF distinct_abc, of plain_env] by (simp add: abc_table_def numeral_3_eq_3)

text \<open>
  deleting duplicates ends the server. When a table ends with two equal rows and these are the
  ones that match, the inner loop removes the first, meets the second past the end of the shrunk
  slice, and the slice expression is out of bounds.
\<close>

theorem delete_duplicates_panics:
  assumes "tb_Rows tbl = xs @ [r, r]" and "row_IsEqual r r" and "IsMatched E r cond" and "cond \<noteq> NoConditions"
    and "\<And>x. x \<in> set xs \<Longrightarrow> \<not> row_IsEqual r x \<and> \<not> IsMatched E x cond"
  shows "fst (table_Delete E cond tbl) = Panic SliceBoundsOutOfRange"
proof -
  let ?n = "length xs" and ?arr = "xs @ [r, r]"
  have sel: "table_Select E cond tbl = [r, r]"
    using assms by (auto simp: table_Select_def filter_empty_conv)
  have "delete_equal r [0..<?n] (?arr, ?n + 2) = (Ok (), (?arr, ?n + 2))"
    by (rule delete_equal_none) (use assms(5) in \<open>auto simp: nth_append\<close>)
  moreover have "[0..<?n + 2] = [0..<?n] @ [?n, ?n + 1]" by (simp add: numeral_2_eq_2)
  moreover have "slice_remove ?n (?arr, ?n + 2) = (Ok (), (?arr, ?n + 1))"
    by (simp add: slice_remove_def)
  moreover have "slice_remove (?n + 1) (?arr, ?n + 1) = (Panic SliceBoundsOutOfRange, (?arr, ?n + 1))"
    by (simp add: slice_remove_def)
  ultimately have "delete_equal r [0..<?n + 2] (?arr, ?n + 2) = (Panic SliceBoundsOutOfRange, (?arr, ?n + 1))"
    using assms(2) by (simp add: delete_equal_append goseq_def nth_append)
  then show ?thesis
    using assms(1,4) by (simp add: table_Delete_def sel Let_def goseq_def upt_rec numeral_2_eq_2)
qed

theorem delete_duplicates_panics_witness:
  "fst (table_Delete plain_env (CmpExpr ''a'' EQ (VString ''x''))
     (abc_table\<lparr>tb_Rows := [[(''a'', VString ''x'')], [(''a'', VString ''x'')]]\<rparr>)) = Panic SliceBoundsOutOfRange"
  by (rule delete_duplicates_panics [where xs = "[]" and r = "[(''a'', VString ''x'')]"])
    (simp_all add: row_IsEqual_def IsMatched_def row_eq_def plain_env_def)

end
