(* ===== verification/Store_Row_Proofs.thy ===== *)
theory Store_Row_Proofs
  imports Store_Table_Proofs
begin

text \<open>
  The rows of the example server: what \<open>NewRowFromColumns\<close> stores, which rows a condition selects, and
  what an update does to them.
\<close>

section \<open>Rows from columns\<close>

definition row_ok :: "store_row \<Rightarrow> bool" where
  "row_ok row \<longleftrightarrow> distinct (map fst row)"

lemma row_ok_update: "row_ok row \<Longrightarrow> row_ok (AList.update k v row)"
  by (simp add: row_ok_def distinct_update)

text \<open>The value a column of a statement gets in the row: the cast of the last one with its name\<close>

definition stored_value :: "'x store_env_scheme \<Rightarrow> schema \<Rightarrow> column \<Rightarrow> go_value go" where
  "stored_value E sch col = sequence_res (sch_LookupColumn sch (col_Name col)) (\<lambda>t. column_cast E t (col_Value col))"

lemma row_from_columns_Ok:
  assumes "row_from_columns E sch cols row = Ok row'" "row_ok row"
  shows "row_ok row' \<and> (\<forall>col\<in>set cols. \<exists>v. stored_value E sch col = Ok v) \<and>
    map_of row' = map_of row ++ map_of (rev (map (\<lambda>col. (col_Name col, case stored_value E sch col of Ok v \<Rightarrow> v | _ \<Rightarrow> VNil)) cols))"
  using assms
proof (induction cols arbitrary: row)
  case (Cons col cols)
  obtain t v where tv: "sch_LookupColumn sch (col_Name col) = Ok t" "column_cast E t (col_Value col) = Ok v"
    "row_from_columns E sch cols (AList.update (col_Name col) v row) = Ok row'"
    using Cons.prems(1) by (auto simp: sequence_res_def split: res.splits)
  have st: "stored_value E sch col = Ok v" using tv by (simp add: stored_value_def)
  from Cons.IH [OF tv(3) row_ok_update [OF Cons.prems(2)]] st show ?case
    by (simp add: update_conv' map_add_def fun_eq_iff split: option.splits)
qed simp

text \<open>
  an inserted row holds, for each of its columns, the value cast to the type the schema has for it,
  where the last of two columns with one name wins; a row is made exactly when every column is found
  and its value can be cast.
\<close>

theorem inserted_row:
  "case NewRowFromColumns E sch cols of
     Ok row \<Rightarrow> row_ok row \<and> map_of row =
       map_of (rev (map (\<lambda>col. (col_Name col, case stored_value E sch col of Ok v \<Rightarrow> v | _ \<Rightarrow> VNil)) cols)) \<and>
       list_all (\<lambda>col. \<exists>v. stored_value E sch col = Ok v) cols
   | _ \<Rightarrow> \<not> list_all (\<lambda>col. \<exists>v. stored_value E sch col = Ok v) cols"
proof (cases "NewRowFromColumns E sch cols")
  case (Ok row)
  then show ?thesis
    using row_from_columns_Ok [of E sch cols NewRow row]
    by (simp add: NewRowFromColumns_def NewRow_def row_ok_def list_all_iff)
next
  have never: "list_all (\<lambda>col. \<exists>v. stored_value E sch col = Ok v) cols \<Longrightarrow>
      \<exists>row'. row_from_columns E sch cols row = Ok row'" for row
    by (induction cols arbitrary: row) (auto simp: stored_value_def sequence_res_def split: res.splits)
  {
    case (Err e)
    then show ?thesis using never [of NewRow] by (auto simp: NewRowFromColumns_def)
  next
    case (Panic p)
    then show ?thesis using never [of NewRow] by (auto simp: NewRowFromColumns_def)
  }
qed

text \<open>The types without a case in the switch\<close>

definition untyped :: "'x store_env_scheme \<Rightarrow> sql_type \<Rightarrow> bool" where
  "untyped E t \<longleftrightarrow> (case t of
       BooleanType \<Rightarrow> False | TextType \<Rightarrow> False | VarCharType \<Rightarrow> False | LongTextType \<Rightarrow> False
     | IntType \<Rightarrow> False | IntegerType \<Rightarrow> False | SmallIntType \<Rightarrow> False | FloatType \<Rightarrow> False
     | DoubleType \<Rightarrow> False | DateTimeType \<Rightarrow> False | TimeStampType \<Rightarrow> False
     | OtherType name \<Rightarrow> name \<notin> set (IntTypeNames E) | _ \<Rightarrow> True)"

text \<open>
  a value for a column of a type the switch does not have, such as BIGINT, CHAR or DATE, is
  stored as nil, without an error: the value is lost.
\<close>

theorem untyped_column_is_nil:
  assumes "sch_LookupColumn sch (col_Name col) = Ok t" and "untyped E t"
  shows "NewRowFromColumns E sch [col] = Ok [(col_Name col, VNil)]"
proof -
  have "column_cast E t (col_Value col) = Ok VNil"
    using assms(2) by (cases t) (simp_all add: untyped_def column_cast_def)
  then show ?thesis using assms(1) by (simp add: NewRowFromColumns_def NewRow_def)
qed

theorem untyped_column_is_nil_witness:
  "NewRowFromColumns plain_env (text_schema ''t'')
     [\<lparr>col_Name = ''n'', col_HasValue = True, col_Value = VInt 7, col_Function = None\<rparr>] = Ok [(''n'', VNil)]"
  using untyped_column_is_nil [of "text_schema ''t''"
      "\<lparr>col_Name = ''n'', col_HasValue = True, col_Value = VInt 7, col_Function = None\<rparr>" BigIntType plain_env]
  by (simp add: text_schema_def untyped_def)

section \<open>Update\<close>

lemma update_rows_shape:
  assumes "\<And>row. \<not> is_panic (fst (row_Update cols row))"
  shows "update_rows E cols cond rows =
    (Ok (), map (\<lambda>row. if IsMatched E row cond then snd (row_Update cols row) else row) rows)"
proof (induction rows)
  case (Cons row rows)
  obtain x row' where "row_Update cols row = (x, row')" by fastforce
  with assms [of row] Cons show ?case by (cases x) auto
qed simp

text \<open>
  C39: UPDATE changes the rows that match and only them, in place, and reports how many matched. The
  error of a function in the statement is not reported, although the row it failed on has been
  changed halfway.
\<close>

theorem update_where:
  assumes "\<And>row. \<not> is_panic (fst (row_Update cols row))"
  shows "table_Update E cols cond tbl =
    (Ok (length (filter (\<lambda>row. IsMatched E row cond) (tb_Rows tbl))),
     tbl\<lparr>tb_Rows := map (\<lambda>row. if IsMatched E row cond then snd (row_Update cols row) else row) (tb_Rows tbl)\<rparr>)"
  by (simp add: table_Update_def update_rows_shape [OF assms] table_Select_def IsMatched_def)

definition failing_columns :: "column list" where
  "failing_columns =
     [\<lparr>col_Name = ''a'', col_HasValue = True, col_Value = VString ''new'', col_Function = None\<rparr>,
      \<lparr>col_Name = ''b'', col_HasValue = False, col_Value = VNil,
       col_Function = Some (\<lambda>_. Err (GoError ''division by zero'' []))\<rparr>]"

theorem update_where_witness:
  "table_Update plain_env failing_columns (CmpExpr ''a'' EQ (VString ''y'')) abc_table =
     (Ok 1, abc_table\<lparr>tb_Rows :=
        [[(''a'', VString ''x'')], [(''a'', VString ''new'')], [(''a'', VString ''z'')]]\<rparr>)"
proof -
  have calm: "\<not> is_panic (fst (row_Update failing_columns row))" for row
    by (simp add: row_Update_def failing_columns_def)
  show ?thesis
    unfolding update_where [OF calm]
    by (simp add: abc_table_def IsMatched_def row_eq_def plain_env_def row_Update_def failing_columns_def)
qed

section \<open>Conditions\<close>

text \<open>
  which rows a condition selects. A comparison other than equal and not equal selects none; an
  expression that is not a comparison, such as an AND, selects all, so that an UPDATE or DELETE with
  it works on the whole table.
\<close>

theorem condition_semantics:
  "IsMatched E row NoConditions \<and> IsMatched E row OtherExpr \<and>
   \<not> IsMatched E row (CmpExpr name OtherOperator v) \<and>
   (IsMatched E row (CmpExpr name NEQ v) \<longleftrightarrow> \<not> IsMatched E row (CmpExpr name EQ v)) \<and>
   (IsMatched E row (CmpExpr name EQ v) \<longleftrightarrow> (\<exists>rv. map_of row name = Some rv \<and> Equal E rv v)) \<and>
   table_Select E OtherExpr tbl = tb_Rows tbl \<and> table_Select E (CmpExpr name OtherOperator v) tbl = []"
  by (auto simp: IsMatched_def row_eq_def table_Select_def split: option.splits)

end
