(* ===== verification/Store.thy ===== *)
theory Store
  imports Store_Row_Proofs Executors
begin

text \<open>
  The databases of the example server and the statements on them (\<open>store/database.go\<close>,
  \<open>store/databases.go\<close>, \<open>store/store.go\<close>). Databases and tables are pointers held in one map each, so
  writing through a pointer that was looked up is updating the entry of the map. Each
  operation is one step here. The code does not make it so: a table has a lock, but \<open>Update\<close> and \<open>Delete\<close> let go
  of it between the selection of the rows and the change (\<open>Store_Races\<close>), and the maps have none.
\<close>

section \<open>Databases\<close>

record database =
  db_name :: string
  db_tables :: "string \<rightharpoonup> table"

type_synonym store = "string \<rightharpoonup> database"

definition NewDatabaseWithName :: "string \<Rightarrow> database" where
  "NewDatabaseWithName name = \<lparr>db_name = name, db_tables = Map.empty\<rparr>"

definition NewDatabase :: database where
  "NewDatabase = NewDatabaseWithName []"

definition AddTable :: "table \<Rightarrow> database \<Rightarrow> database" where
  "AddTable tbl db = db\<lparr>db_tables := (db_tables db)(tb_Name tbl \<mapsto> tbl)\<rparr>"

definition AddTables :: "table list \<Rightarrow> database \<Rightarrow> database" where
  "AddTables tbls db = fold AddTable tbls db"

text \<open>The name of a table is that of its schema here.\<close>

definition database_DropTable :: "table \<Rightarrow> database \<Rightarrow> bool \<times> database" where
  "database_DropTable tbl db =
     (let name = sch_TableName (tb_Schema tbl); db' = db\<lparr>db_tables := (db_tables db)(name := None)\<rparr>
      in (db_tables db' name = None, db'))"

definition LookupTable :: "string \<Rightarrow> database \<Rightarrow> table option" where
  "LookupTable name db = db_tables db name"

definition NewDatabases :: store where
  "NewDatabases = Map.empty"

definition NewStore :: store where
  "NewStore = NewDatabases"

definition AddDatabase :: "database \<Rightarrow> (store, gerr, unit) gom" where
  "AddDatabase db dbs = (Ok (), dbs(db_name db \<mapsto> db))"

definition databases_DropDatabase :: "'x store_env_scheme \<Rightarrow> database \<Rightarrow> (store, gerr, unit) gom" where
  "databases_DropDatabase E db dbs = (case dbs (db_name db) of
       None \<Rightarrow> (Err (sql_ErrDatabaseNotExist E (db_name db)), dbs)
     | Some _ \<Rightarrow> (Ok (), dbs(db_name db := None)))"

definition LookupDatabase :: "string \<Rightarrow> store \<Rightarrow> database option" where
  "LookupDatabase name dbs = dbs name"

definition LookupTableWithDatabase :: "string \<Rightarrow> string \<Rightarrow> store \<Rightarrow> table option" where
  "LookupTableWithDatabase dbName tableName dbs = (case LookupDatabase dbName dbs of
       None \<Rightarrow> None | Some db \<Rightarrow> LookupTable tableName db)"

definition LookupDatabaseTable :: "'x store_env_scheme \<Rightarrow> string \<Rightarrow> string \<Rightarrow> store \<Rightarrow> (database \<times> table) go" where
  "LookupDatabaseTable E dbName tblName dbs = (case LookupDatabase dbName dbs of
       None \<Rightarrow> Err (sql_ErrDatabaseNotExist E dbName)
     | Some db \<Rightarrow> (case LookupTable tblName db of
         None \<Rightarrow> Err (sql_ErrTableNotExist E tblName) | Some tbl \<Rightarrow> Ok (db, tbl)))"

text \<open>Working on a table through the pointers that were looked up\<close>

definition put_table :: "string \<Rightarrow> string \<Rightarrow> table \<Rightarrow> store \<Rightarrow> store" where
  "put_table dbName tblName tbl dbs = (case dbs dbName of
       None \<Rightarrow> dbs
     | Some db \<Rightarrow> dbs(dbName \<mapsto> db\<lparr>db_tables := (db_tables db)(tblName \<mapsto> tbl)\<rparr>))"

definition on_table ::
    "'x store_env_scheme \<Rightarrow> string \<Rightarrow> string \<Rightarrow> (table, gerr, 'r) gom \<Rightarrow> (store, gerr, 'r) gom" where
  "on_table E dbName tblName m dbs = (case LookupDatabaseTable E dbName tblName dbs of
       Ok (_, tbl) \<Rightarrow> (case m tbl of (x, tbl') \<Rightarrow> (x, put_table dbName tblName tbl' dbs))
     | Err e \<Rightarrow> (Err e, dbs)
     | Panic p \<Rightarrow> (Panic p, dbs))"

section \<open>Statements\<close>

text \<open>Transactions are accepted and do nothing.\<close>

definition store_Begin :: "(store, gerr, unit) gom" where "store_Begin = ret ()"
definition store_Commit :: "(store, gerr, unit) gom" where "store_Commit = ret ()"
definition store_Rollback :: "(store, gerr, unit) gom" where "store_Rollback = ret ()"

definition store_Use :: "string \<Rightarrow> unit cm" where
  "store_Use dbName = SetDatabase dbName"

definition store_CreateDatabase :: "'x store_env_scheme \<Rightarrow> string \<Rightarrow> bool \<Rightarrow> (store, gerr, unit) gom" where
  "store_CreateDatabase E dbName ifNotExists dbs = (case LookupDatabase dbName dbs of
       Some _ \<Rightarrow> if ifNotExists then (Ok (), dbs) else (Err (sql_ErrDatabaseExist E dbName), dbs)
     | None \<Rightarrow> AddDatabase (NewDatabaseWithName dbName) dbs)"

definition store_AlterDatabase :: "'x store_env_scheme \<Rightarrow> (store, gerr, unit) gom" where
  "store_AlterDatabase E = fail (sql_ErrNotImplemented E)"

definition store_DropDatabase :: "'x store_env_scheme \<Rightarrow> string \<Rightarrow> bool \<Rightarrow> (store, gerr, unit) gom" where
  "store_DropDatabase E dbName ifExists dbs = (case LookupDatabase dbName dbs of
       None \<Rightarrow> if ifExists then (Ok (), dbs) else (Err (sql_ErrDatabaseNotExist E dbName), dbs)
     | Some db \<Rightarrow> databases_DropDatabase E db dbs)"

definition store_CreateTable ::
    "'x store_env_scheme \<Rightarrow> string \<Rightarrow> string \<Rightarrow> schema \<Rightarrow> bool \<Rightarrow> (store, gerr, unit) gom" where
  "store_CreateTable E dbName tableName sch ifNotExists dbs = (case LookupDatabase dbName dbs of
       None \<Rightarrow> (Err (sql_ErrDatabaseNotExist E dbName), dbs)
     | Some db \<Rightarrow> (case LookupTable tableName db of
         None \<Rightarrow> (Ok (), dbs(dbName \<mapsto> AddTable (NewTableWith tableName sch) db))
       | Some _ \<Rightarrow> if \<not> ifNotExists then (Err (sql_ErrTableExist E tableName), dbs) else (Ok (), dbs)))"

text \<open>\<open>Schema.Alter\<close> belongs to the parser package; it works on the schema in place.\<close>

definition store_AlterTable ::
    "'x store_env_scheme \<Rightarrow> (schema, gerr, unit) gom \<Rightarrow> string \<Rightarrow> string \<Rightarrow> (store, gerr, unit) gom" where
  "store_AlterTable E alter dbName tableName dbs = (case LookupDatabase dbName dbs of
       None \<Rightarrow> (Err (sql_ErrDatabaseNotExist E dbName), dbs)
     | Some db \<Rightarrow> (case LookupTable tableName db of
         None \<Rightarrow> (Err (sql_ErrTableExist E tableName), dbs)
       | Some tbl \<Rightarrow> (case alter (tb_Schema tbl) of (x, sch') \<Rightarrow>
           (x, put_table dbName tableName (tbl\<lparr>tb_Schema := sch'\<rparr>) dbs))))"

text \<open>The loop over the tables to drop; those before the one that fails are gone.\<close>

fun drop_tables :: "'x store_env_scheme \<Rightarrow> bool \<Rightarrow> string list \<Rightarrow> (database, gerr, unit) gom" where
  "drop_tables E ifExists [] db = (Ok (), db)"
| "drop_tables E ifExists (tableName # names) db = (case LookupTable tableName db of
       None \<Rightarrow> if ifExists then drop_tables E ifExists names db
               else (Err (sql_ErrTableNotExist E tableName), db)
     | Some tbl \<Rightarrow> (case database_DropTable tbl db of (dropped, db') \<Rightarrow>
         if \<not> dropped
         then (Err (GoError (sch_TableName (tb_Schema tbl) @ '' could not deleted'') []), db')
         else drop_tables E ifExists names db'))"

definition store_DropTable ::
    "'x store_env_scheme \<Rightarrow> bool \<Rightarrow> string list \<Rightarrow> string \<Rightarrow> (store, gerr, unit) gom" where
  "store_DropTable E ifExists tables dbName dbs = (case LookupDatabase dbName dbs of
       None \<Rightarrow> (Err (sql_ErrDatabaseNotExist E dbName), dbs)
     | Some db \<Rightarrow> (case drop_tables E ifExists tables db of (x, db') \<Rightarrow> (x, dbs(dbName \<mapsto> db'))))"

text \<open>The rows of an INSERT are appended one by one; those before the one that fails stay.\<close>

definition store_Insert ::
    "'x store_env_scheme \<Rightarrow> string \<Rightarrow> string \<Rightarrow> column list list \<Rightarrow> (store, gerr, unit) gom" where
  "store_Insert E dbName tableName vals dbs = (case LookupTableWithDatabase dbName tableName dbs of
       None \<Rightarrow> (Err (sql_ErrTableNotExist E tableName), dbs)
     | Some tbl \<Rightarrow> (case for_each (table_Insert E) vals tbl of (x, tbl') \<Rightarrow>
         (x, put_table dbName tableName tbl' dbs)))"

definition store_Update ::
    "'x store_env_scheme \<Rightarrow> string \<Rightarrow> string \<Rightarrow> column list \<Rightarrow> condition \<Rightarrow> (store, gerr, nat) gom" where
  "store_Update E dbName tableName cols cond = on_table E dbName tableName (table_Update E cols cond)"

definition store_Delete ::
    "'x store_env_scheme \<Rightarrow> string \<Rightarrow> string \<Rightarrow> condition \<Rightarrow> (store, gerr, nat) gom" where
  "store_Delete E dbName tableName cond = on_table E dbName tableName (table_Delete E cond)"

section \<open>Select\<close>

text \<open>What the parser package makes of rows; \<open>'rr\<close> are its rows, \<open>'l\<close> the limit and the offset.\<close>

record ('rr, 'l) result_package =
  NewRowsFromMapRows :: "store_row list \<Rightarrow> 'rr list go"
  NewResultSetFrom :: "'l \<Rightarrow> string \<Rightarrow> schema \<Rightarrow> string list \<Rightarrow> 'rr list \<Rightarrow> resultset go"
  NewAggregatedSource :: "string \<Rightarrow> schema \<Rightarrow> string list \<Rightarrow> 'rr list \<Rightarrow> resultset go"
  NewAggregatedResultSetFrom :: "schema \<Rightarrow> string list \<Rightarrow> string \<Rightarrow> resultset \<Rightarrow> resultset go"
  NewSchemaColumnsResultSetFromSchemas :: "schema list \<Rightarrow> resultset go"

text \<open>A SELECT as the store reads it\<close>

record 'l select_stmt =
  sel_FromTables :: "string list"
  sel_FromString :: string
  sel_Selectors :: "string list"
  sel_IsAsterisk :: bool
  sel_HasAggregator :: bool
  sel_Where :: condition
  sel_GroupBy :: string
  sel_Limit :: 'l

definition store_Select ::
    "'x store_env_scheme \<Rightarrow> ('rr, 'l) result_package \<Rightarrow> string \<Rightarrow> 'l select_stmt \<Rightarrow> (store, gerr, resultset) gom" where
  "store_Select E R dbName stmt dbs =
     (if length (sel_FromTables stmt) \<noteq> 1 then (Err (sql_ErrMultipleTable E (sel_FromString stmt)), dbs)
      else
        (sequence_res (LookupDatabaseTable E dbName (sel_FromTables stmt ! 0) dbs) (\<lambda>(_, tbl).
         let selectors = (if sel_IsAsterisk stmt then sch_Selectors (tb_Schema tbl) else sel_Selectors stmt);
             aggregated = (if sel_IsAsterisk stmt then False else sel_HasAggregator stmt)
         in sequence_res (NewRowsFromMapRows R (table_Select E (sel_Where stmt) tbl)) (\<lambda>rsRows.
            if \<not> aggregated
            then NewResultSetFrom R (sel_Limit stmt) dbName (tb_Schema tbl) selectors rsRows
            else sequence_res (NewAggregatedSource R dbName (tb_Schema tbl) (sch_Selectors (tb_Schema tbl)) rsRows)
              (NewAggregatedResultSetFrom R (tb_Schema tbl) selectors (sel_GroupBy stmt)))), dbs))"

text \<open>
  \<open>system.IsSchemaColumsQuery\<close> and \<open>NewSchemaColumnsStatement\<close> are the parser package's: \<open>None\<close> when the
  statement is not such a query, else the database and the tables it asks for, or an error.
\<close>

definition store_SystemSelect ::
    "'x store_env_scheme \<Rightarrow> ('rr, 'l) result_package \<Rightarrow> (string \<times> string list) go option \<Rightarrow> string \<Rightarrow>
     (store, gerr, resultset) gom" where
  "store_SystemSelect E R columnsQuery stmtString dbs =
     (case columnsQuery of
        None \<Rightarrow> Err (sql_NewErrNotImplemented E (''SystemSelect: '' @ stmtString))
      | Some sysStmt \<Rightarrow> sequence_res sysStmt (\<lambda>(dbName, tblNames).
          sequence_res (map_go (\<lambda>tblName. map_res (\<lambda>(_, tbl). tb_Schema tbl) (LookupDatabaseTable E dbName tblName dbs)) tblNames)
            (NewSchemaColumnsResultSetFromSchemas R)), dbs)"

end
