(* ===== verification/Store_Proofs.thy ===== *)
theory Store_Proofs
  imports Store
begin

text \<open>
  Correctness of the store of the example server: the invariant all statements keep, and what INSERT,
  SELECT and DROP do to the tables by name, with a lookup by database and table name as the interface.
\<close>

section \<open>The invariant\<close>

definition table_wf :: "string \<Rightarrow> table \<Rightarrow> bool" where
  "table_wf name tbl \<longleftrightarrow> tb_Name tbl = name \<and> sch_TableName (tb_Schema tbl) = name \<and> list_all row_ok (tb_Rows tbl)"

definition database_wf :: "string \<Rightarrow> database \<Rightarrow> bool" where
  "database_wf name db \<longleftrightarrow> db_name db = name \<and> (\<forall>t tbl. db_tables db t = Some tbl \<longrightarrow> table_wf t tbl)"

definition store_wf :: "store \<Rightarrow> bool" where
  "store_wf dbs \<longleftrightarrow> (\<forall>n db. dbs n = Some db \<longrightarrow> database_wf n db)"

lemma store_wf_empty: "store_wf NewDatabases"
  by (simp add: store_wf_def NewDatabases_def)

lemma store_wf_upd: "store_wf dbs \<Longrightarrow> database_wf n db \<Longrightarrow> store_wf (dbs(n \<mapsto> db))"
  by (simp add: store_wf_def)

lemma store_wf_del: "store_wf dbs \<Longrightarrow> store_wf (dbs(n := None))"
  by (simp add: store_wf_def)

lemma store_wf_put_table: "store_wf dbs \<Longrightarrow> table_wf t tbl \<Longrightarrow> store_wf (put_table d t tbl dbs)"
  by (auto simp: put_table_def store_wf_def database_wf_def split: option.splits)

lemma LookupDatabaseTable_wf:
  "store_wf dbs \<Longrightarrow> LookupDatabaseTable E d t dbs = Ok (db, tbl) \<Longrightarrow> table_wf t tbl"
  by (auto simp: LookupDatabaseTable_def LookupDatabase_def LookupTable_def store_wf_def database_wf_def
      split: option.splits)

lemma keeps_on_table:
  assumes "keeps (table_wf t) m"
  shows "keeps store_wf (on_table E d t m)"
proof (rule keepsI)
  fix dbs assume wf: "store_wf dbs"
  show "store_wf (snd (on_table E d t m dbs))"
  proof (cases "LookupDatabaseTable E d t dbs")
    case (Ok p)
    obtain db tbl where p: "p = (db, tbl)" by fastforce
    obtain x tbl' where m: "m tbl = (x, tbl')" by fastforce
    have "table_wf t tbl'"
      by (rule keepsD [OF assms LookupDatabaseTable_wf [OF wf Ok [unfolded p]] m])
    then show ?thesis using wf Ok p m by (simp add: on_table_def store_wf_put_table)
  qed (use wf in \<open>simp_all add: on_table_def\<close>)
qed

lemma row_ok_row_Update: "row_ok row \<Longrightarrow> row_ok (snd (row_Update cols row))"
proof -
  have set: "row_ok row \<Longrightarrow> row_ok (set_values cols row)" for row
    by (induction cols arbitrary: row) (auto simp: row_ok_update)
  have "row_ok row \<Longrightarrow> row_ok (snd (apply_functions cs row))" for row cs
    by (induction cs arbitrary: row) (auto simp: row_ok_update split: option.split res.split)
  then show "row_ok row \<Longrightarrow> row_ok (snd (row_Update cols row))" by (simp add: row_Update_def set)
qed

lemma update_rows_ok: "list_all row_ok rows \<Longrightarrow> list_all row_ok (snd (update_rows E cols cond rows))"
proof (induction rows)
  case (Cons row rows)
  then show ?case
    using row_ok_row_Update [of row cols]
    by (auto split: prod.splits res.splits)
qed simp

lemma keeps_table_Update: "keeps (table_wf t) (table_Update E cols cond)"
proof (rule keepsI)
  fix tbl assume wf: "table_wf t tbl"
  obtain x rows where "update_rows E cols cond (tb_Rows tbl) = (x, rows)" by fastforce
  with wf update_rows_ok [of "tb_Rows tbl" E cols cond] show "table_wf t (snd (table_Update E cols cond tbl))"
    by (simp add: table_Update_def table_wf_def)
qed

text \<open>The array of a slice never gets a row it did not have.\<close>

lemma keeps_slice_remove: "keeps (\<lambda>s. set (fst s) \<subseteq> A) (slice_remove n)"
  by (rule keepsI)
    (auto simp: slice_remove_def dest!: in_set_takeD in_set_dropD split: prod.splits)

lemma keeps_delete_equal: "keeps (\<lambda>s. set (fst s) \<subseteq> A) (delete_equal row ns)"
proof (induction ns)
  case (Cons n ns)
  have "keeps (\<lambda>s. set (fst s) \<subseteq> A) (goseq (slice_remove n) (\<lambda>_. delete_equal row ns))"
    by (rule keeps_goseq [OF keeps_slice_remove Cons])
  with Cons show ?case unfolding keeps_def delete_equal.simps by presburger
qed (simp add: keeps_def)

lemma keeps_delete_rows: "keeps (\<lambda>s. set (fst s) \<subseteq> A) (delete_rows aliased rows idx)"
proof (induction idx)
  case (Cons i idx)
  have "keeps (\<lambda>s. set (fst s) \<subseteq> A) (goseq (delete_equal row ns) (\<lambda>_. delete_rows aliased rows idx))" for row ns
    by (rule keeps_goseq [OF keeps_delete_equal Cons])
  then show ?case unfolding keeps_def delete_rows.simps by blast
qed (simp add: keeps_def)

lemma keeps_table_Delete: "keeps (table_wf t) (table_Delete E cond)"
proof (rule keepsI)
  fix tbl assume wf: "table_wf t tbl"
  let ?rows = "table_Select E cond tbl"
  obtain x arr len where d: "delete_rows (cond = NoConditions) ?rows [0..<length ?rows]
      (tb_Rows tbl, length (tb_Rows tbl)) = (x, (arr, len))" by (metis surj_pair)
  have "set arr \<subseteq> set (tb_Rows tbl)"
    using keepsD [OF keeps_delete_rows [of "set (tb_Rows tbl)"] _ d] by simp
  then have "list_all row_ok (take len arr)"
    using wf by (auto simp: table_wf_def list_all_iff dest!: in_set_takeD)
  then show "table_wf t (snd (table_Delete E cond tbl))"
    using wf d by (simp add: table_Delete_def table_wf_def Let_def)
qed

lemma keeps_table_Insert: "keeps (table_wf t) (table_Insert E cols)"
proof (rule keepsI)
  fix tbl assume wf: "table_wf t tbl"
  show "table_wf t (snd (table_Insert E cols tbl))"
    using wf row_from_columns_Ok [of E "tb_Schema tbl" cols NewRow]
    by (cases "NewRowFromColumns E (tb_Schema tbl) cols")
      (auto simp: table_Insert_def table_wf_def NewRowFromColumns_def NewRow_def row_ok_def)
qed

lemma database_DropTable_wf: "database_wf d db \<Longrightarrow> database_wf d (snd (database_DropTable tbl db))"
  by (simp add: database_wf_def database_DropTable_def Let_def)

lemma keeps_drop_tables: "keeps (database_wf d) (drop_tables E ifExists names)"
proof (induction names)
  case (Cons t names)
  then have step: "database_wf d db \<Longrightarrow> database_wf d (snd (drop_tables E ifExists names db))" for db
    by (simp add: keeps_def)
  show ?case
    by (rule keepsI) (use step database_DropTable_wf in \<open>auto simp: case_prod_beta split: option.split\<close>)
qed (simp add: keeps_def)

lemma LookupTableWithDatabase_wf:
  "store_wf dbs \<Longrightarrow> LookupTableWithDatabase d t dbs = Some tbl \<Longrightarrow> table_wf t tbl"
  by (auto simp: LookupTableWithDatabase_def LookupDatabase_def LookupTable_def store_wf_def database_wf_def
      split: option.splits)

lemma keeps_store_Insert: "keeps store_wf (store_Insert E d t vals)"
proof (rule keepsI)
  fix dbs assume wf: "store_wf dbs"
  show "store_wf (snd (store_Insert E d t vals dbs))"
  proof (cases "LookupTableWithDatabase d t dbs")
    case (Some tbl)
    obtain x tbl' where m: "for_each (table_Insert E) vals tbl = (x, tbl')" by fastforce
    have "table_wf t tbl'"
      using keepsD [OF keeps_for_each [OF keeps_table_Insert] _ m] LookupTableWithDatabase_wf [OF wf Some] by blast
    then show ?thesis using wf Some m by (simp add: store_Insert_def store_wf_put_table)
  qed (use wf in \<open>simp add: store_Insert_def\<close>)
qed

lemma keeps_store_DropTable: "keeps store_wf (store_DropTable E ifExists names d)"
proof (rule keepsI)
  fix dbs assume wf: "store_wf dbs"
  show "store_wf (snd (store_DropTable E ifExists names d dbs))"
  proof (cases "dbs d")
    case (Some db)
    obtain x db' where m: "drop_tables E ifExists names db = (x, db')" by fastforce
    have "database_wf d db'"
      using keepsD [OF keeps_drop_tables _ m] wf Some by (simp add: store_wf_def)
    then show ?thesis using wf Some m by (simp add: store_DropTable_def LookupDatabase_def store_wf_upd)
  qed (use wf in \<open>simp add: store_DropTable_def LookupDatabase_def\<close>)
qed

text \<open>
  C12: the store is well formed. Every statement keeps that databases and tables are found under their
  own names and that no row has a column twice, provided a new table is given a schema of its name and
  an alteration does not rename it.
\<close>

theorem store_invariant:
  assumes "sch_TableName sch = t" and "\<And>s. sch_TableName (snd (alter s)) = sch_TableName s"
  shows "store_wf NewDatabases \<and>
    keeps store_wf (store_CreateDatabase E d b) \<and> keeps store_wf (store_DropDatabase E d b) \<and>
    keeps store_wf (store_AlterDatabase E) \<and> keeps store_wf (store_CreateTable E d t sch b) \<and>
    keeps store_wf (store_AlterTable E alter d t) \<and> keeps store_wf (store_DropTable E b names d) \<and>
    keeps store_wf (store_Insert E d t vals) \<and> keeps store_wf (store_Update E d t cols cond) \<and>
    keeps store_wf (store_Delete E d t cond)"
proof -
  have "keeps store_wf (store_CreateDatabase E d b)" "keeps store_wf (store_DropDatabase E d b)"
    "keeps store_wf (store_AlterDatabase E)"
    by (auto simp: keeps_def store_CreateDatabase_def store_DropDatabase_def store_AlterDatabase_def fail_def
        AddDatabase_def NewDatabaseWithName_def databases_DropDatabase_def database_wf_def
        intro!: store_wf_upd store_wf_del split: option.split)
  moreover have "keeps store_wf (store_CreateTable E d t sch b)"
    using assms(1)
    by (auto simp: keeps_def store_CreateTable_def AddTable_def NewTableWith_def LookupDatabase_def
        store_wf_def database_wf_def table_wf_def split: option.split)
  moreover have "keeps store_wf (store_AlterTable E alter d t)"
    using assms(2)
    by (auto simp: keeps_def store_AlterTable_def LookupDatabase_def LookupTable_def case_prod_beta
        store_wf_def database_wf_def table_wf_def put_table_def split: option.split)
  moreover have "keeps store_wf (store_Update E d t cols cond)" "keeps store_wf (store_Delete E d t cond)"
    unfolding store_Update_def store_Delete_def
    by (rule keeps_on_table [OF keeps_table_Update], rule keeps_on_table [OF keeps_table_Delete])
  ultimately show ?thesis
    using store_wf_empty keeps_store_Insert keeps_store_DropTable by blast
qed

theorem store_invariant_witness:
  "store_wf (snd (store_CreateTable plain_env ''db'' ''t'' (text_schema ''t'') False
     (snd (store_CreateDatabase plain_env ''db'' False NewDatabases))))"
proof -
  have "sch_TableName (text_schema ''t'') = ''t''" by (simp add: text_schema_def)
  moreover have "\<And>s. sch_TableName (snd ((ret () :: (schema, gerr, unit) gom) s)) = sch_TableName s"
    by (simp add: ret_def)
  ultimately show ?thesis
    using store_invariant [of "text_schema ''t''" "''t''" "ret ()" plain_env "''db''" False] by (simp add: keeps_def)
qed

section \<open>INSERT\<close>

text \<open>
  The tables by their names, as the statements see them: writing through a table that was looked up
  changes what is found under its name and nothing else.
\<close>

locale table_map =
  fixes lookup :: "'d \<Rightarrow> 'n \<Rightarrow> 's \<Rightarrow> 't option" and put :: "'d \<Rightarrow> 'n \<Rightarrow> 't \<Rightarrow> 's \<Rightarrow> 's"
  assumes lookup_put: "lookup d t s = Some x \<Longrightarrow>
    lookup d' t' (put d t y s) = (if d' = d \<and> t' = t then Some y else lookup d' t' s)"
begin

lemma lookup_put_same: "lookup d t s = Some x \<Longrightarrow> lookup d t (put d t y s) = Some y"
  by (simp add: lookup_put)

lemma put_twice:
  assumes "lookup d t s = Some x"
  shows "lookup d' t' (put d t z (put d t y s)) = lookup d' t' (put d t z s)"
  using lookup_put [OF lookup_put_same [OF assms, of y], of d' t' z] assms by (simp add: lookup_put)

end

interpretation tables: table_map LookupTableWithDatabase put_table
  by unfold_locales
    (auto simp: LookupTableWithDatabase_def LookupDatabase_def LookupTable_def put_table_def split: option.splits)

lemma LookupDatabaseTable_Some:
  "LookupTableWithDatabase d t dbs = Some tbl \<Longrightarrow> \<exists>db. LookupDatabaseTable E d t dbs = Ok (db, tbl)"
  by (auto simp: LookupTableWithDatabase_def LookupDatabaseTable_def split: option.splits)

lemma table_Insert_Ok:
  "NewRowFromColumns E (tb_Schema tbl) cols = Ok row \<Longrightarrow>
   table_Insert E cols tbl = (Ok (), tbl\<lparr>tb_Rows := tb_Rows tbl @ [row]\<rparr>)"
  by (simp add: table_Insert_def)

lemma insert_rows_Ok:
  "map_go (NewRowFromColumns E (tb_Schema tbl)) vals = Ok rows \<Longrightarrow>
   for_each (table_Insert E) vals tbl = (Ok (), tbl\<lparr>tb_Rows := tb_Rows tbl @ rows\<rparr>)"
proof (induction vals arbitrary: tbl rows)
  case (Cons cols vals)
  then show ?case
    by (cases "NewRowFromColumns E (tb_Schema tbl) cols"; cases "map_go (NewRowFromColumns E (tb_Schema tbl)) vals")
      (auto simp: goseq_def table_Insert_Ok)
qed (simp add: go_simps)

lemma insert_rows_append:
  "map_go (NewRowFromColumns E (tb_Schema tbl)) vals = Ok rows \<Longrightarrow>
   for_each (table_Insert E) (vals @ more_vals) tbl =
     for_each (table_Insert E) more_vals (tbl\<lparr>tb_Rows := tb_Rows tbl @ rows\<rparr>)"
proof (induction vals arbitrary: tbl rows)
  case (Cons cols vals)
  then show ?case
    by (cases "NewRowFromColumns E (tb_Schema tbl) cols"; cases "map_go (NewRowFromColumns E (tb_Schema tbl)) vals")
      (auto simp: goseq_def table_Insert_Ok)
qed simp

text \<open>
  INSERT appends its rows to the table, in order, and leaves every other table alone: the client
  that looks a table up after the statement finds the old rows followed by the new ones.
\<close>

theorem insert_appends:
  assumes "LookupTableWithDatabase d t dbs = Some tbl"
    and "map_go (NewRowFromColumns E (tb_Schema tbl)) vals = Ok rows"
  shows "fst (store_Insert E d t vals dbs) = Ok () \<and>
    (\<forall>d' t'. LookupTableWithDatabase d' t' (snd (store_Insert E d t vals dbs)) =
       (if d' = d \<and> t' = t then Some (tbl\<lparr>tb_Rows := tb_Rows tbl @ rows\<rparr>) else LookupTableWithDatabase d' t' dbs))"
  using assms by (simp add: store_Insert_def insert_rows_Ok tables.lookup_put)

text \<open>
  a failing INSERT is not undone. When one of the rows cannot be made, the statement reports its
  error and the rows before it stay in the table; those behind it are not tried.
\<close>

theorem insert_partial:
  assumes "LookupTableWithDatabase d t dbs = Some tbl"
    and "map_go (NewRowFromColumns E (tb_Schema tbl)) good = Ok rows"
    and "NewRowFromColumns E (tb_Schema tbl) bad = Err e"
  shows "fst (store_Insert E d t (good @ bad # rest) dbs) = Err e \<and>
    LookupTableWithDatabase d t (snd (store_Insert E d t (good @ bad # rest) dbs)) =
      Some (tbl\<lparr>tb_Rows := tb_Rows tbl @ rows\<rparr>)"
proof -
  have "for_each (table_Insert E) (good @ bad # rest) tbl = (Err e, tbl\<lparr>tb_Rows := tb_Rows tbl @ rows\<rparr>)"
    using assms(2,3) by (simp add: insert_rows_append go_simps table_Insert_def)
  with assms(1) show ?thesis by (simp add: store_Insert_def tables.lookup_put)
qed

text \<open>
  C20: what is inserted is selected. A \<open>SELECT *\<close> without a condition behind a successful INSERT into the
  same table hands the rows of the table, the old ones and then the new ones in order, to the
  result set, with the selectors of the table.
\<close>

theorem insert_then_select:
  assumes "LookupTableWithDatabase d t dbs = Some tbl"
    and "map_go (NewRowFromColumns E (tb_Schema tbl)) vals = Ok rows"
    and "sel_FromTables q = [t]" and "sel_Where q = NoConditions" and "sel_IsAsterisk q"
  shows "fst (store_Select E R d q (snd (store_Insert E d t vals dbs))) =
    sequence_res (NewRowsFromMapRows R (tb_Rows tbl @ rows))
      (NewResultSetFrom R (sel_Limit q) d (tb_Schema tbl) (sch_Selectors (tb_Schema tbl)))"
proof -
  let ?tbl = "tbl\<lparr>tb_Rows := tb_Rows tbl @ rows\<rparr>"
  obtain db where "LookupDatabaseTable E d t (put_table d t ?tbl dbs) = Ok (db, ?tbl)"
    using LookupDatabaseTable_Some [OF tables.lookup_put_same [OF assms(1)]] by blast
  with assms show ?thesis by (simp add: store_Select_def store_Insert_def insert_rows_Ok table_Select_def)
qed

text \<open>A store of one empty table, and columns for it\<close>

definition one_table_store :: store where
  "one_table_store = [''db'' \<mapsto> \<lparr>db_name = ''db'', db_tables = [''t'' \<mapsto> NewTableWith ''t'' (text_schema ''t'')]\<rparr>]"

definition text_column :: "string \<Rightarrow> string \<Rightarrow> column" where
  "text_column name v = \<lparr>col_Name = name, col_HasValue = True, col_Value = VString v, col_Function = None\<rparr>"

lemma lookup_one_table:
  "LookupTableWithDatabase ''db'' ''t'' one_table_store = Some (NewTableWith ''t'' (text_schema ''t''))"
  by (simp add: LookupTableWithDatabase_def LookupDatabase_def LookupTable_def one_table_store_def)

lemma text_column_row:
  "map_go (NewRowFromColumns plain_env (tb_Schema (NewTableWith ''t'' (text_schema ''t''))))
     [[text_column ''a'' ''x'']] = Ok [[(''a'', VString ''x'')]]"
  "NewRowFromColumns plain_env (tb_Schema (NewTableWith ''t'' (text_schema ''t''))) [text_column ''b'' ''x''] =
     Err (GoError ''b'' [])"
  by (simp_all add: NewRowFromColumns_def NewRow_def NewTableWith_def text_schema_def text_column_def
      column_cast_def plain_env_def)

theorem insert_appends_witness:
  "fst (store_Insert plain_env ''db'' ''t'' [[text_column ''a'' ''x'']] one_table_store) = Ok ()"
  using insert_appends [OF lookup_one_table text_column_row(1)] by blast

theorem insert_then_select_witness:
  "\<forall>R :: ('rr, unit) result_package. fst (store_Select plain_env R ''db''
      \<lparr>sel_FromTables = [''t''], sel_FromString = ''t'', sel_Selectors = [], sel_IsAsterisk = True,
       sel_HasAggregator = False, sel_Where = NoConditions, sel_GroupBy = [], sel_Limit = ()\<rparr>
      (snd (store_Insert plain_env ''db'' ''t'' [[text_column ''a'' ''x'']] one_table_store))) =
    sequence_res (NewRowsFromMapRows R [[(''a'', VString ''x'')]])
      (NewResultSetFrom R () ''db'' (text_schema ''t'') [''a''])"
  by (rule allI, rule insert_then_select [OF lookup_one_table text_column_row(1), THEN trans])
    (simp_all add: NewTableWith_def text_schema_def)

theorem insert_partial_witness:
  "map_option tb_Rows (LookupTableWithDatabase ''db'' ''t'' (snd (store_Insert plain_env ''db'' ''t''
     [[text_column ''a'' ''x''], [text_column ''b'' ''x'']] one_table_store))) = Some [[(''a'', VString ''x'')]]"
  using insert_partial [OF lookup_one_table text_column_row, of "[]"] by (simp add: NewTableWith_def)

section \<open>DROP TABLE\<close>

lemma drop_tables_step:
  assumes "LookupTable t db = Some tbl" "sch_TableName (tb_Schema tbl) = t"
  shows "drop_tables E b (t # ts) db = drop_tables E b ts (db\<lparr>db_tables := (db_tables db)(t := None)\<rparr>)"
  using assms by (simp add: database_DropTable_def Let_def)

text \<open>
  DROP TABLE drops the tables it names. On a well-formed store, dropping tables of one database
  with IF EXISTS succeeds whatever the names are; no named table is found any more, every other table
  is as before.
\<close>

theorem drop_table_if_exists:
  assumes "store_wf dbs" and "dbs d = Some db"
  shows "fst (store_DropTable E True names d dbs) = Ok () \<and>
    (\<forall>d' t'. LookupTableWithDatabase d' t' (snd (store_DropTable E True names d dbs)) =
       (if d' = d \<and> t' \<in> set names then None else LookupTableWithDatabase d' t' dbs))"
proof -
  have "drop_tables E True names db = (Ok (), db\<lparr>db_tables := (db_tables db) |` (- set names)\<rparr>)"
    if "database_wf d db" for db
    using that
  proof (induction names arbitrary: db)
    case (Cons t names)
    show ?case
    proof (cases "db_tables db t")
      case None
      then have "(db_tables db) |` (- set (t # names)) = (db_tables db) |` (- set names)"
        by (auto simp: restrict_map_def)
      with None Cons show ?thesis by (simp add: LookupTable_def)
    next
      case (Some tbl)
      let ?db = "db\<lparr>db_tables := (db_tables db)(t := None)\<rparr>"
      have "drop_tables E True (t # names) db = drop_tables E True names ?db"
        using Some Cons.prems by (intro drop_tables_step [of _ _ tbl]) (auto simp: LookupTable_def database_wf_def table_wf_def)
      also have "\<dots> = (Ok (), ?db\<lparr>db_tables := db_tables ?db |` (- set names)\<rparr>)"
        using Cons.prems by (intro Cons.IH) (simp add: database_wf_def)
      also have "db_tables ?db |` (- set names) = db_tables db |` (- set (t # names))"
        by (auto simp: restrict_map_def)
      finally show ?thesis by simp
    qed
  qed (simp add: restrict_map_def)
  then have "drop_tables E True names db = (Ok (), db\<lparr>db_tables := (db_tables db) |` (- set names)\<rparr>)"
    using assms by (simp add: store_wf_def)
  then show ?thesis
    using assms(2)
    by (auto simp: store_DropTable_def LookupDatabase_def LookupTableWithDatabase_def LookupTable_def restrict_map_def)
qed

theorem drop_table_if_exists_witness:
  "LookupTableWithDatabase ''db'' ''t'' (snd (store_DropTable plain_env True [''u'', ''t''] ''db'' one_table_store)) = None"
proof -
  have wf: "store_wf one_table_store"
    by (simp add: store_wf_def one_table_store_def database_wf_def table_wf_def NewTableWith_def text_schema_def)
  show ?thesis
    using drop_table_if_exists [OF wf, of "''db''" _ plain_env "[''u'', ''t'']"]
    by (simp add: one_table_store_def)
qed

end
