(* ===== verification/Dialogues.thy ===== *)
theory Dialogues
  imports Sessions
begin

text \<open>
  Whole dialogues: queries refine a specification over statements and responses, a session of
  pipelined queries runs to its end, and what the startup says to the client.
\<close>

section \<open>The specification of a query\<close>

text \<open>
  What a list of statements answers, given what each one does to the state behind the executor: the
  responses of all statements in order, up to the first that fails, and its error.
\<close>

type_synonym 'a behaviour = "statement \<Rightarrow> 'a \<Rightarrow> (gerr + responses) \<times> 'a"

fun query_spec :: "'a behaviour \<Rightarrow> statement list \<Rightarrow> 'a \<Rightarrow> responses \<times> gerr option \<times> 'a" where
  "query_spec f [] a = ([], None, a)"
| "query_spec f (st # sts) a = (case f st a of
       (Inl e, a1) \<Rightarrow> ([], Some e, a1)
     | (Inr rs, a1) \<Rightarrow> (case query_spec f sts a1 of (rs', e, a2) \<Rightarrow> (rs @ rs', e, a2)))"

text \<open>The handler runs a statement as the behaviour says, and sends nothing while it runs.\<close>

definition behaves :: "('a, 'x) query_server_scheme \<Rightarrow> 'a behaviour \<Rightarrow> statement list \<Rightarrow> bool" where
  "behaves sv f stmts \<longleftrightarrow> (\<forall>st\<in>set stmts. \<forall>s. exec_statement sv st s =
     (case f st (s_app s) of
        (Inl e, a) \<Rightarrow> (Err e, s\<lparr>s_app := a\<rparr>)
      | (Inr rs, a) \<Rightarrow> (Ok rs, s\<lparr>s_app := a\<rparr>)))"

definition speaks :: "'a behaviour \<Rightarrow> bool" where
  "speaks f \<longleftrightarrow> (\<forall>st a rs. fst (f st a) = Inr rs \<longrightarrow> all_sendable rs)"

lemma run_statements_spec:
  assumes "behaves sv f stmts" "speaks f" "fronted (s_conn s)" "query_spec f stmts (s_app s) = (rs, e, a)"
  shows "all_sendable rs \<and> for_each (run_statement sv) stmts s =
    (case e of None \<Rightarrow> Ok () | Some er \<Rightarrow> Err er,
     s\<lparr>s_conn := fold put_out (wire_of rs) (s_conn s), s_app := a\<rparr>)"
  using assms(1,3,4)
proof (induction stmts arbitrary: s rs)
  case Nil
  then show ?case by (auto simp: ret_def)
next
  case (Cons st sts)
  obtain y a1 where y: "f st (s_app s) = (y, a1)" by fastforce
  have exec: "exec_statement sv st s = (case y of Inl e \<Rightarrow> (Err e, s\<lparr>s_app := a1\<rparr>) | Inr rs \<Rightarrow> (Ok rs, s\<lparr>s_app := a1\<rparr>))"
    using Cons.prems(1) y by (simp add: behaves_def)
  show ?case
  proof (cases y)
    case (Inl er)
    with y exec Cons.prems(3) show ?thesis by (auto simp: run_statement_def goseq_def)
  next
    case (Inr rs1)
    obtain rs2 where rs2: "query_spec f sts a1 = (rs2, e, a)" "rs = rs1 @ rs2"
      using Cons.prems(3) y Inr by (auto split: prod.splits)
    have ok: "all_sendable rs1" using assms(2) y Inr by (auto simp: speaks_def) (metis fst_conv)
    let ?c1 = "fold put_out (wire_of rs1) (s_conn s)"
    have w: "writable (s_conn s)" using Cons.prems(2) idle_writable by (simp add: fronted_def)
    have run: "run_statement sv st s = (Ok (), s\<lparr>s_conn := ?c1, s_app := a1\<rparr>)"
      using ResponseMessages_Ok [OF sendable_list_all2 [OF ok] w] exec Inr
      by (cases rs1) (simp_all add: run_statement_def goseq_def ret_def on_conn_def on_part_def)
    have "behaves sv f sts" using Cons.prems(1) by (simp add: behaves_def)
    from Cons.IH [OF this, of "s\<lparr>s_conn := ?c1, s_app := a1\<rparr>" rs2] rs2 ok Cons.prems(2)
    show ?thesis by (simp add: run goseq_def fronted_fold_put_out)
  qed
qed

lemma query_request:
  assumes "fronted (s_conn s)" "no_nul q"
    and "reader_pending (c_reader (s_conn s)) = frame QueryMessage (cstring q) @ rest"
  obtains c msg where "fronted c" "same_side (s_conn s) c" "reader_pending (c_reader c) = rest"
    "query_Query msg = q" "query_BindParams msg = []"
    "receive_step (server_handler sv) s = goseq (gotry (handle_Query sv msg)) finish (s\<lparr>s_conn := c\<rparr>)"
proof -
  let ?len = "of_nat (length (cstring q) + 4) :: 32 word"
  let ?msg = "\<lparr>query_header = Some \<lparr>msg_Type = QueryMessage, msg_Length = ?len\<rparr>, query_Query = q,
    query_BindParams = []\<rparr>"
  have p: "parses front NewQueryWithReader (QueryMessage # Int32ToBytes ?len @ cstring q) ?msg"
    using front.parses_Query [OF assms(2), of QueryMessage ?len] by (simp add: header_def)
  have k: "keeps (rwire out [] False) NewQueryWithReader" for out
    unfolding NewQueryWithReader_def by (intro keeps_intros)
  obtain c where "fronted c" "same_side (s_conn s) c" "reader_pending (c_reader c) = rest"
    "receive_step (server_handler sv) s = goseq (gotry (handle_Query sv ?msg)) finish (s\<lparr>s_conn := c\<rparr>)"
    using read_request [OF p k assms(1), of rest "server_handler sv" "handle_Query sv"] assms(3)
    by (auto simp: frame_def header_def msg_types dispatch_def server_handler_def)
  with that [of c ?msg] show thesis by simp
qed

lemma query_round:
  assumes "fronted (s_conn s)" "no_nul q"
    and "reader_pending (c_reader (s_conn s)) = frame QueryMessage (cstring q) @ rest"
    and "sv_BindStatements sv q [] = Ok stmts" "behaves sv f stmts" "speaks f"
    and "query_spec f stmts (s_app s) = (rs, e, a)"
  shows "\<exists>c'. receive_step (server_handler sv) s = (Ok True, s\<lparr>s_conn := c', s_app := a\<rparr>) \<and> fronted c' \<and>
    sent c' = sent (s_conn s) @ wire_of rs @ error_frames e @
      (if rest = [] then [ready_frame (s_conn s)] else []) \<and>
    reader_pending (c_reader c') = rest \<and> c_txLocked c' = c_txLocked (s_conn s)"
proof -
  obtain c msg where c: "fronted c" "same_side (s_conn s) c" "reader_pending (c_reader c) = rest"
    "query_Query msg = q" "query_BindParams msg = []"
    "receive_step (server_handler sv) s = goseq (gotry (handle_Query sv msg)) finish (s\<lparr>s_conn := c\<rparr>)"
    using query_request [OF assms(1-3)] .
  let ?s2 = "s\<lparr>s_conn := fold put_out (wire_of rs) c, s_app := a\<rparr>"
  have run: "all_sendable rs" "for_each (run_statement sv) stmts (s\<lparr>s_conn := c\<rparr>) =
      (case e of None \<Rightarrow> Ok () | Some er \<Rightarrow> Err er, ?s2)"
    using run_statements_spec [OF assms(5,6), of "s\<lparr>s_conn := c\<rparr>" rs e a] c(1) assms(7) by simp_all
  have m: "gotry (handle_Query sv msg) (s\<lparr>s_conn := c\<rparr>) =
      (Ok (case e of None \<Rightarrow> Inr [] | Some er \<Rightarrow> Inl er), ?s2)"
    using run(2) assms(4) c(4,5) by (cases e) (simp_all add: handle_Query_def gotry_def goseq_def ret_def)
  have w: "writable c" using c(1) idle_writable by (simp add: fronted_def)
  have f2: "fronted (s_conn ?s2)" using c(1) by (simp add: fronted_fold_put_out)
  have "all_sendable (case (case e of None \<Rightarrow> Inr [] | Some er \<Rightarrow> Inl er) of Inr rs \<Rightarrow> rs | Inl _ \<Rightarrow> [])"
    by (cases e) simp_all
  from finish_front [OF m f2 this] obtain c' where c':
    "goseq (gotry (handle_Query sv msg)) finish (s\<lparr>s_conn := c\<rparr>) = (Ok True, ?s2\<lparr>s_conn := c'\<rparr>)"
    "fronted c'" "reader_pending (c_reader c') = rest" "c_txLocked c' = c_txLocked (s_conn s)"
    "sent c' = sent (s_conn ?s2) @ (case e of None \<Rightarrow> [] | Some er \<Rightarrow> error_frames (Some er)) @
      (if rest = [] then [ready_frame (s_conn ?s2)] else [])"
    using c(2,3) by (cases e) (auto simp: same_side_def)
  have "sent c' = sent (s_conn s) @ wire_of rs @ error_frames e @
      (if rest = [] then [ready_frame (s_conn s)] else [])"
    using c'(5) c(2) w by (cases e) (simp_all add: same_side_def ready_frame_def error_frames_def)
  with c' c(6) show ?thesis by (intro exI [of _ c']) simp
qed

text \<open>
  a simple query refines its specification. The client gets the responses of the statements in
  order up to the first that fails, the error of that one, and a ready message when it has sent
  nothing further; the executor's state is the specified one and the stream is in step.
\<close>

theorem simple_query_refines:
  assumes "fronted (s_conn s)" and "no_nul q"
    and "reader_pending (c_reader (s_conn s)) = frame QueryMessage (cstring q) @ rest"
    and "sv_BindStatements sv q [] = Ok stmts" and "behaves sv f stmts" and "speaks f"
    and "query_spec f stmts (s_app s) = (rs, e, a)"
  shows "\<exists>s'. receive_step (server_handler sv) s = (Ok True, s') \<and> s_app s' = a \<and>
    sent (s_conn s') = sent (s_conn s) @ wire_of rs @ error_frames e @
      (if rest = [] then [ready_frame (s_conn s)] else []) \<and>
    reader_pending (c_reader (s_conn s')) = rest"
  using query_round [OF assms] by (elim exE conjE) (intro exI conjI, assumption, simp_all)

text \<open>The INSERTs of the small server, and its DROP DATABASEs without an executor\<close>

definition insert_behaviour :: "nat behaviour" where
  "insert_behaviour st n = (Inr (NewInsertCompleteResponsesWith (int (length (st_Values st)))), Suc n)"

lemma speaks_insert: "speaks insert_behaviour"
  by (auto simp: speaks_def insert_behaviour_def all_sendable_def NewInsertCompleteResponsesWith_def
      Response_Bytes_def case_prod_beta)

lemma behaves_insert:
  "behaves (small_server (Some counting_executor) parser) insert_behaviour
     [statement_of InsertStatement q, statement_of InsertStatement q']"
  by (simp add: behaves_def insert_behaviour_def exec_statement_def small_server_def defaultQueryExecutor_def
      default_Insert_def counting_executor_def statement_of_def plain_insert_def goseq_def ret_def on_app_def
      on_part_def Let_def)

lemma no_nul_I: "no_nul ''I''"
  by (simp add: no_nul_def bytes_of_string_def byte_of_char_def)

theorem simple_query_refines_witness:
  "\<exists>s'. receive_step (server_handler (small_server (Some counting_executor)
        (\<lambda>q. Ok [statement_of InsertStatement q, statement_of InsertStatement q])))
      (client_session 0 (frame QueryMessage (cstring ''I''))) = (Ok True, s') \<and> s_app s' = 2 \<and>
    length (sent (s_conn s')) = 3"
proof -
  let ?sv = "small_server (Some counting_executor) (\<lambda>q. Ok [statement_of InsertStatement q, statement_of InsertStatement q])"
  have "sv_BindStatements ?sv ''I'' [] = Ok [statement_of InsertStatement ''I'', statement_of InsertStatement ''I'']"
    by (simp add: small_server_def)
  from simple_query_refines [OF _ no_nul_I _ this behaves_insert speaks_insert,
      of "client_session 0 (frame QueryMessage (cstring ''I''))" "[]"]
  show ?thesis
    by (auto simp: insert_behaviour_def error_frames_def wire_of_def NewInsertCompleteResponsesWith_def)
qed

section \<open>A session of queries\<close>

text \<open>What a session answers to its queries when all of them are there at once\<close>

fun session_spec :: "'a behaviour \<Rightarrow> (string \<Rightarrow> statement list) \<Rightarrow> string list \<Rightarrow> 'a \<Rightarrow> bytes list \<times> 'a" where
  "session_spec f stmts_of [] a = ([], a)"
| "session_spec f stmts_of (q # qs) a = (case query_spec f (stmts_of q) a of (rs, e, a1) \<Rightarrow>
     (case session_spec f stmts_of qs a1 of (out, a2) \<Rightarrow> (wire_of rs @ error_frames e @ out, a2)))"

definition query_frames :: "string list \<Rightarrow> bytes" where
  "query_frames qs = concat (map (\<lambda>q. frame QueryMessage (cstring q)) qs)"

text \<open>
  a whole session. A client that sends its queries at once, and Terminate behind them, gets the
  answers of all of them in order, errors where a query failed, with no ready message in between,
  and then the loop returns without an error after as many rounds as there were messages.
\<close>

theorem pipelined_session:
  assumes "fronted (s_conn s)" and "list_all no_nul qs"
    and "reader_pending (c_reader (s_conn s)) = query_frames qs @ frame TerminateMessage [] @ rest"
    and "\<And>q. q \<in> set qs \<Longrightarrow> sv_BindStatements sv q [] = Ok (stmts_of q) \<and> behaves sv f (stmts_of q)"
    and "speaks f" and "session_spec f stmts_of qs (s_app s) = (out, a)"
  shows "\<exists>s'. receive_loop (length qs + 1) (server_handler sv) s = Some (Ok (), s') \<and> s_app s' = a \<and>
    sent (s_conn s') = sent (s_conn s) @ out"
  using assms(1-4,6)
proof (induction qs arbitrary: s out)
  case Nil
  then show ?case
    using end_round [OF Nil(1), of rest "server_handler sv"]
    by (auto simp: query_frames_def split: prod.splits res.splits)
next
  case (Cons q qs)
  let ?rest = "query_frames qs @ frame TerminateMessage [] @ rest"
  obtain rs e a1 where qs1: "query_spec f (stmts_of q) (s_app s) = (rs, e, a1)" by (metis surj_pair)
  obtain out2 where out2: "session_spec f stmts_of qs a1 = (out2, a)" "out = wire_of rs @ error_frames e @ out2"
    using Cons.prems(5) qs1 by (auto split: prod.splits)
  have pend: "reader_pending (c_reader (s_conn s)) = frame QueryMessage (cstring q) @ ?rest"
    using Cons.prems(3) by (simp add: query_frames_def)
  have q: "no_nul q" "sv_BindStatements sv q [] = Ok (stmts_of q)" "behaves sv f (stmts_of q)"
    using Cons.prems(2,4) by simp_all
  obtain c' where c': "receive_step (server_handler sv) s = (Ok True, s\<lparr>s_conn := c', s_app := a1\<rparr>)" "fronted c'"
    "sent c' = sent (s_conn s) @ wire_of rs @ error_frames e" "reader_pending (c_reader c') = ?rest"
    using query_round [OF Cons.prems(1) q(1) pend q(2,3) assms(5) qs1] by auto
  have "\<exists>s'. receive_loop (length qs + 1) (server_handler sv) (s\<lparr>s_conn := c', s_app := a1\<rparr>) = Some (Ok (), s') \<and>
      s_app s' = a \<and> sent (s_conn s') = sent c' @ out2"
    using Cons.IH [of "s\<lparr>s_conn := c', s_app := a1\<rparr>" out2] c' Cons.prems(2,4) out2(1) by simp
  with c'(1,3) out2(2) show ?case by simp
qed

theorem pipelined_session_witness:
  "\<exists>s'. receive_loop 3 (server_handler (small_server (Some counting_executor)
        (\<lambda>q. Ok [statement_of InsertStatement q, statement_of InsertStatement q])))
      (client_session 0 (query_frames [''I'', ''I''] @ frame TerminateMessage [])) = Some (Ok (), s') \<and>
    s_app s' = 4 \<and> length (sent (s_conn s')) = 4"
proof -
  let ?st = "\<lambda>q. [statement_of InsertStatement q, statement_of InsertStatement q]"
  let ?sv = "small_server (Some counting_executor) (\<lambda>q. Ok (?st q))"
  let ?s = "client_session 0 (query_frames [''I'', ''I''] @ frame TerminateMessage [])"
  obtain out a where spec: "session_spec insert_behaviour ?st [''I'', ''I''] (s_app ?s) = (out, a)" by fastforce
  then have "a = 4" "length out = 4"
    by (auto simp: insert_behaviour_def wire_of_def error_frames_def NewInsertCompleteResponsesWith_def)
  moreover have "\<And>q. sv_BindStatements ?sv q [] = Ok (?st q) \<and> behaves ?sv insert_behaviour (?st q)"
    using behaves_insert by (simp add: small_server_def)
  moreover have "list_all no_nul [''I'', ''I'']" by (simp add: no_nul_I)
  ultimately show ?thesis
    using pipelined_session [of ?s "[''I'', ''I'']" "[]" ?sv ?st insert_behaviour out a, OF _ _ _ _ speaks_insert spec]
    by (auto simp: numeral_3_eq_3)
qed

end
