(* ===== verification/Pgbench.thy ===== *)
theory Pgbench
  imports System_Tables Server_Setup Dialogues
begin

text \<open>
  The canned answer to the partition query of pgbench (\<open>pgbench.go\<close>), and the parser error handler of
  the example server (\<open>examples/go-postgresqld/server/handler.go\<close>), which gives it.
\<close>

section \<open>The query\<close>

definition pgbenchGetPartitionQuery :: string where
  "pgbenchGetPartitionQuery = ''select o.n, p.partstrat, pg_catalog.count(i.inhparent) from pg_catalog.pg_class''"

text \<open>\<open>q[:len(prefix)] == prefix\<close>; the slice expression panics when the query is shorter.\<close>

definition IsMatchQuery :: "string \<Rightarrow> string \<Rightarrow> bool go" where
  "IsMatchQuery q prefix =
     (if length q < length prefix then Panic SliceBoundsOutOfRange
      else Ok (take (length prefix) q = prefix))"

definition IsPgbenchGetPartitionQuery :: "string \<Rightarrow> bool go" where
  "IsPgbenchGetPartitionQuery q = IsMatchQuery q pgbenchGetPartitionQuery"

section \<open>The answer\<close>

text \<open>
  One column of the row: the field with its data type, and the value appended to the data row. The
  errors of the two calls are not looked at; a missing data type would be a nil pointer.
\<close>

definition pgbench_column :: "safecast \<Rightarrow> nat \<Rightarrow> string \<Rightarrow> ObjectID \<Rightarrow> go_value \<Rightarrow> (DataRow, gerr, unit) gom" where
  "pgbench_column sc n fieldName oid v = (case system_NewDataTypeFrom oid of
       Ok dt \<Rightarrow> goseq (gotry (AppendData sc
         (NewRowFieldWith fieldName [WithRowFieldNumber (of_nat (n + 1)), WithRowFieldDataType dt]) v)) (\<lambda>_. ret ())
     | _ \<Rightarrow> panic NilPointerDereference)"

definition pgbench_row :: "safecast \<Rightarrow> (DataRow, gerr, unit) gom" where
  "pgbench_row sc =
     goseq (pgbench_column sc 0 ''n'' oid_Int4 (VInt 2)) (\<lambda>_.
     goseq (pgbench_column sc 1 ''partstrat'' oid_Char VNil) (\<lambda>_.
     pgbench_column sc 2 ''count'' oid_Int8 (VInt 0)))"

text \<open>The row description is sent as it was made, without a field.\<close>

definition NewGetPartitionResponseForPgbench :: "safecast \<Rightarrow> responses go" where
  "NewGetPartitionResponseForPgbench sc = (case pgbench_row sc NewDataRow of
       (Ok _, dataRow) \<Rightarrow>
         Ok (Responses_Append (Responses_Append (Responses_Append [] (RowDescriptionResponse NewRowDescription))
           (DataRowResponse dataRow)) (MessageResponse (NewSelectCompleteWith 1)))
     | (Err e, _) \<Rightarrow> Err e
     | (Panic p, _) \<Rightarrow> Panic p)"

section \<open>The parser error handler of the example\<close>

definition example_ParserError :: "safecast \<Rightarrow> error_handler" where
  "example_ParserError sc conn q err = (case IsPgbenchGetPartitionQuery q of
       Ok True \<Rightarrow> NewGetPartitionResponseForPgbench sc
     | Ok False \<Rightarrow> Ok [ErrorResponse (NewErrorResponseWith (GoError (''parser error : '' @ err_text err) (err_chain err)))]
     | Err e \<Rightarrow> Err e
     | Panic p \<Rightarrow> Panic p)"

section \<open>Properties\<close>

lemma partition_types:
  "\<exists>dt. system_NewDataTypeFrom oid_Int4 = Ok dt \<and> dt_oid dt = oid_Int4"
  "\<exists>dt. system_NewDataTypeFrom oid_Char = Ok dt \<and> dt_oid dt = oid_Char"
  "\<exists>dt. system_NewDataTypeFrom oid_Int8 = Ok dt \<and> dt_oid dt = oid_Int8"
  using named_oid_lookup [OF used_ids(10)] named_oid_lookup [OF used_ids(5)] named_oid_lookup [OF used_ids(1)] .

lemma pgbench_column_Ok:
  assumes "system_NewDataTypeFrom oid = Ok dt" "dt_oid dt = oid" "oid \<noteq> oid_Bytea"
    "cast_column sc oid v = Ok v1" "format_column sc TextFormat v1 = Ok v2"
  shows "pgbench_column sc n name oid v row = (Ok (), row\<lparr>dr_Data := dr_Data row @ [v2]\<rparr>)"
  using assms
  by (simp add: pgbench_column_def AppendData_def NewRowFieldWith_def WithRowFieldNumber_def
      WithRowFieldDataType_def DataType_FormatCode_def go_simps)

text \<open>
  C40: an unparsable query shorter than the prefix of the pgbench query ends the example server. A
  client whose query the parser rejects, when the query has fewer bytes than that prefix, gets no
  error response: the parser error handler slices past the end of the query and panics.
\<close>

theorem short_query_panics:
  assumes "fronted (s_conn s)" and "no_nul q"
    and "reader_pending (c_reader (s_conn s)) = frame QueryMessage (cstring q) @ rest"
    and "sv_BindStatements sv q [] = Err e" and "\<not> errors_Is e SqlParserErrEmptyQuery"
    and "sv_ParserError sv = example_ParserError sc" and "length q < length pgbenchGetPartitionQuery"
  shows "\<exists>c'. receive_step (server_handler sv) s = (Panic SliceBoundsOutOfRange, s\<lparr>s_conn := c'\<rparr>)"
proof -
  obtain c msg where c: "query_Query msg = q" "query_BindParams msg = []"
    "receive_step (server_handler sv) s = goseq (gotry (handle_Query sv msg)) finish (s\<lparr>s_conn := c\<rparr>)"
    using query_request [OF assms(1-3)] .
  have "Query_String msg = q" using c(1,2) by (simp add: Query_String_def)
  then have "example_ParserError sc conn (Query_String msg) e = Panic SliceBoundsOutOfRange" for conn
    using assms(7) by (simp add: example_ParserError_def IsPgbenchGetPartitionQuery_def IsMatchQuery_def)
  then have "gotry (handle_Query sv msg) (s\<lparr>s_conn := c\<rparr>) = (Panic SliceBoundsOutOfRange, s\<lparr>s_conn := c\<rparr>)"
    using c(1,2) assms(4-6) by (simp add: handle_Query_def go_simps)
  then show ?thesis using c(3) by (intro exI [of _ c]) (simp add: goseq_def)
qed

theorem short_query_panics_witness:
  "\<exists>s'. receive_step (server_handler ((small_server (Some counting_executor) (\<lambda>q. Err (GoError ''syntax'' [])))
       \<lparr>sv_ParserError := example_ParserError strict_casts\<rparr>))
     (client_session 0 (frame QueryMessage (cstring ''I''))) = (Panic SliceBoundsOutOfRange, s')"
proof -
  let ?sv = "(small_server (Some counting_executor) (\<lambda>q. Err (GoError ''syntax'' [])))
       \<lparr>sv_ParserError := example_ParserError strict_casts\<rparr>"
  have "sv_BindStatements ?sv ''I'' [] = Err (GoError ''syntax'' [])" by (simp add: small_server_def)
  from short_query_panics [OF _ no_nul_I _ this, of "client_session 0 (frame QueryMessage (cstring ''I''))" "[]"]
  show ?thesis by (auto simp: errors_Is_def pgbenchGetPartitionQuery_def)
qed

text \<open>
  the row description of the pgbench answer has no field, while its row has three columns: the
  values 2, null and 0 in the text format, given casts that turn these numbers into their texts.
\<close>

theorem pgbench_answer:
  assumes "ToInt32 sc (VInt 2) = Ok 2" and "ToInt64 sc (VInt 0) = Ok 0"
    and "ToString sc (VInt32 2) = Ok ''2''" and "ToString sc (VInt64 0) = Ok ''0''"
  shows "example_ParserError sc conn (pgbenchGetPartitionQuery @ q) err =
    Ok [RowDescriptionResponse NewRowDescription,
        DataRowResponse (NewDataRow\<lparr>dr_Data := [VString ''2'', VNil, VString ''0'']\<rparr>),
        MessageResponse (NewSelectCompleteWith 1)] \<and>
    rd_fileds NewRowDescription = []"
proof -
  obtain d4 dc d8 where d: "system_NewDataTypeFrom oid_Int4 = Ok d4" "dt_oid d4 = oid_Int4"
    "system_NewDataTypeFrom oid_Char = Ok dc" "dt_oid dc = oid_Char"
    "system_NewDataTypeFrom oid_Int8 = Ok d8" "dt_oid d8 = oid_Int8"
    using partition_types by blast
  have ids: "oid_Int4 \<noteq> oid_Bytea" "oid_Char \<noteq> oid_Bytea" "oid_Int8 \<noteq> oid_Bytea"
    and cast: "cast_column sc oid_Int4 (VInt 2) = Ok (VInt32 2)" "cast_column sc oid_Char VNil = Ok VNil"
      "cast_column sc oid_Int8 (VInt 0) = Ok (VInt64 0)"
    and fmt: "format_column sc TextFormat (VInt32 2) = Ok (VString ''2'')"
      "format_column sc TextFormat VNil = Ok VNil" "format_column sc TextFormat (VInt64 0) = Ok (VString ''0'')"
    using assms by (simp_all add: cast_column_def format_column_def object_ids)
  have "pgbench_row sc NewDataRow = (Ok (), NewDataRow\<lparr>dr_Data := [VString ''2'', VNil, VString ''0'']\<rparr>)"
    by (simp add: pgbench_row_def goseq_def pgbench_column_Ok [OF d(1,2) ids(1) cast(1) fmt(1)]
        pgbench_column_Ok [OF d(3,4) ids(2) cast(2) fmt(2)] pgbench_column_Ok [OF d(5,6) ids(3) cast(3) fmt(3)])
      (simp add: NewDataRow_def)
  then show ?thesis
    by (simp add: example_ParserError_def IsPgbenchGetPartitionQuery_def IsMatchQuery_def
        NewGetPartitionResponseForPgbench_def Responses_Append_def NewRowDescription_def)
qed

text \<open>Casts that write numbers in decimal\<close>

definition decimal_casts :: safecast where
  "decimal_casts = strict_casts\<lparr>
     ToInt32 := \<lambda>v. (case v of VInt i \<Rightarrow> Ok (ucast i) | _ \<Rightarrow> Err (NewErrInvalid ''int32'')),
     ToInt64 := \<lambda>v. (case v of VInt i \<Rightarrow> Ok i | _ \<Rightarrow> Err (NewErrInvalid ''int64'')),
     ToString := \<lambda>v. (case v of VInt32 i \<Rightarrow> Ok (show_int (sint i)) | VInt64 i \<Rightarrow> Ok (show_int (sint i))
       | _ \<Rightarrow> Err (NewErrInvalid ''string''))\<rparr>"

lemma digit_chars: "digit_char 2 = CHR ''2''" "digit_char 0 = CHR ''0''"
  by code_simp+

lemma decimal_casts_simps:
  "ToInt32 decimal_casts (VInt 2) = Ok 2" "ToInt64 decimal_casts (VInt 0) = Ok 0"
  "ToString decimal_casts (VInt32 2) = Ok ''2''" "ToString decimal_casts (VInt64 0) = Ok ''0''"
  by (simp_all add: decimal_casts_def show_int_def show_nat.simps digit_chars)

theorem pgbench_answer_witness:
  "\<forall>conn err. \<exists>row rest. example_ParserError decimal_casts conn pgbenchGetPartitionQuery err =
     Ok (RowDescriptionResponse NewRowDescription # DataRowResponse row # rest) \<and> length (dr_Data row) = 3"
  using pgbench_answer [OF decimal_casts_simps, of _ "[]"] by simp

end
