(* ===== verification/Example_Server.thy ===== *)
theory Example_Server
  imports Store_Proofs Copy_Query Pgbench
begin

text \<open>
  The example server (\<open>examples/go-postgresqld/server\<close>): the store as the SQL executor of a server, the
  COPY executor of \<open>executor.go\<close>, and \<open>NewServer\<close>, which puts them together.
\<close>

section \<open>The store as an SQL executor\<close>

text \<open>
  What the store reads off the statements of the parser package, beyond their tables; \<open>sp_Row\<close> is \<open>Columns()\<close> of
  one of the rows of an INSERT.
\<close>

record 'l statement_parts =
  sp_DatabaseName :: "statement \<Rightarrow> string"
  sp_IfExists :: "statement \<Rightarrow> bool"
  sp_IfNotExists :: "statement \<Rightarrow> bool"
  sp_Schema :: "statement \<Rightarrow> schema"
  sp_Alter :: "statement \<Rightarrow> (schema, gerr, unit) gom"
  sp_Row :: "statement \<Rightarrow> column_value list \<Rightarrow> column list"
  sp_Columns :: "statement \<Rightarrow> column list"
  sp_Where :: "statement \<Rightarrow> condition"
  sp_Select :: "statement \<Rightarrow> 'l select_stmt"
  sp_SchemaColumns :: "statement \<Rightarrow> (string \<times> string list) go option"

text \<open>\<open>for _, value := range stmt.Values() { ... value.Columns() ... }\<close>\<close>

definition sp_Values :: "'l statement_parts \<Rightarrow> statement \<Rightarrow> column list list" where
  "sp_Values sp stmt = map (sp_Row sp stmt) (st_Values stmt)"

definition counted :: "(store, gerr, nat) gom \<Rightarrow> (store, gerr, int) gom" where
  "counted m = goseq m (\<lambda>n. ret (int n))"

definition store_SQLExecutor ::
    "'x store_env_scheme \<Rightarrow> ('rr, 'l) result_package \<Rightarrow> 'l statement_parts \<Rightarrow> store SQLExecutor" where
  "store_SQLExecutor E R sp =
     \<lparr>se_Begin = \<lambda>conn stmt. store_Begin,
      se_Commit = \<lambda>conn stmt. store_Commit,
      se_Rollback = \<lambda>conn stmt. store_Rollback,
      se_CreateDatabase = \<lambda>conn stmt. store_CreateDatabase E (sp_DatabaseName sp stmt) (sp_IfNotExists sp stmt),
      se_CreateTable = \<lambda>conn stmt.
        store_CreateTable E (Database conn) (st_TableName stmt) (sp_Schema sp stmt) (sp_IfNotExists sp stmt),
      se_AlterDatabase = \<lambda>conn stmt. store_AlterDatabase E,
      se_AlterTable = \<lambda>conn stmt. store_AlterTable E (sp_Alter sp stmt) (Database conn) (st_TableName stmt),
      se_DropDatabase = \<lambda>conn stmt. store_DropDatabase E (sp_DatabaseName sp stmt) (sp_IfExists sp stmt),
      se_DropTable = \<lambda>conn stmt. store_DropTable E (sp_IfExists sp stmt) (st_Tables stmt) (Database conn),
      se_Insert = \<lambda>conn stmt. store_Insert E (Database conn) (st_TableName stmt) (sp_Values sp stmt),
      se_Select = \<lambda>conn stmt. store_Select E R (Database conn) (sp_Select sp stmt),
      se_Update = \<lambda>conn stmt. counted
        (store_Update E (Database conn) (st_TableName stmt) (sp_Columns sp stmt) (sp_Where sp stmt)),
      se_Delete = \<lambda>conn stmt. counted (store_Delete E (Database conn) (st_TableName stmt) (sp_Where sp stmt)),
      se_SystemSelect = \<lambda>conn stmt. store_SystemSelect E R (sp_SchemaColumns sp stmt) (st_String stmt)\<rparr>"

section \<open>COPY\<close>

definition example_Copy :: "'x store_env_scheme \<Rightarrow> store query_op" where
  "example_Copy E conn q =
     goseq (\<lambda>dbs. (LookupDatabaseTable E (Database conn) (st_TableName q) dbs, dbs)) (\<lambda>(_, tbl).
     lift_res (NewCopyInResponsesFrom (\<lambda>name. map_res (\<lambda>_. ()) (sch_LookupColumn (tb_Schema tbl) name))
       (sch_Columns (tb_Schema tbl)) q))"

text \<open>The rows go through \<open>Insert\<close> of the query executor of the server.\<close>

definition example_CopyData ::
    "'x store_env_scheme \<Rightarrow> (string \<Rightarrow> (string \<times> string) list list \<Rightarrow> statement) \<Rightarrow> store query_op \<Rightarrow>
     statement \<Rightarrow> (store, responses) sm" where
  "example_CopyData E NewInsertWith Insert q s =
     (case LookupDatabaseTable E (Database (s_conn s)) (st_TableName q) (s_app s) of
        Ok (_, tbl) \<Rightarrow> NewCopyCompleteResponsesFrom NewInsertWith (sch_TableName (tb_Schema tbl))
          (sch_Columns (tb_Schema tbl)) Insert q s
      | Err e \<Rightarrow> (Err e, s)
      | Panic p \<Rightarrow> (Panic p, s))"

section \<open>The server\<close>

text \<open>
  \<open>NewServer\<close>: the server is its own SQL executor, error handler and bulk executor. The parser
  package is a parameter; \<open>base\<close> holds its functions and the ids of the process.
\<close>

definition example_executors ::
    "'x store_env_scheme \<Rightarrow> ('rr, 'l) result_package \<Rightarrow> 'l statement_parts \<Rightarrow>
     (string \<Rightarrow> (string \<times> string) list list \<Rightarrow> statement) \<Rightarrow> safecast \<Rightarrow> store server_executors" where
  "example_executors E R sp NewInsertWith sc =
     (let se = Some (store_SQLExecutor E R sp);
          server = SetErrorHandler (Fixed (example_ParserError sc)) (SetSQLExecutor se NewServer_executors)
      in SetBulkQueryExecutor (Fixed \<lparr>be_Copy = example_Copy E,
           be_CopyData = example_CopyData E NewInsertWith (qe_Insert (defaultQueryExecutor sc se))\<rparr>) server)"

definition example_server ::
    "'x store_env_scheme \<Rightarrow> ('rr, 'l) result_package \<Rightarrow> 'l statement_parts \<Rightarrow>
     (string \<Rightarrow> (string \<times> string) list list \<Rightarrow> statement) \<Rightarrow> (statement \<Rightarrow> statement go) \<Rightarrow>
     (string \<Rightarrow> statement) \<Rightarrow> store query_server \<Rightarrow> store query_server" where
  "example_server E R sp NewInsertWith NewAlterTableFrom NewDeleteWith base =
     running_server NewAlterTableFrom NewDeleteWith
       (example_executors E R sp NewInsertWith (sv_safecast base)) base"

lemma example_server_simps:
  "sv_queryExecutor (example_server E R sp ins alt del base) =
     defaultQueryExecutor (sv_safecast base) (Some (store_SQLExecutor E R sp))"
  "sv_exQueryExecutor (example_server E R sp ins alt del base) =
     NewDefaultExQueryExecutorWith alt del (defaultQueryExecutor (sv_safecast base) (Some (store_SQLExecutor E R sp)))"
  "sv_ParserError (example_server E R sp ins alt del base) = example_ParserError (sv_safecast base)"
  "sv_Copy (example_server E R sp ins alt del base) = example_Copy E"
  "sv_CopyData (example_server E R sp ins alt del base) = example_CopyData E ins
     (qe_Insert (defaultQueryExecutor (sv_safecast base) (Some (store_SQLExecutor E R sp))))"
  by (simp_all add: example_server_def example_executors_def running_server_def SetBulkQueryExecutor_def
      SetErrorHandler_def SetSQLExecutor_def NewServer_executors_def Let_def)

section \<open>Properties\<close>

lemma example_insert_runs:
  assumes "st_Type stmt = InsertStatement"
    and "LookupTableWithDatabase (Database (s_conn s)) (st_TableName stmt) (s_app s) = Some tbl"
    and "map_go (NewRowFromColumns E (tb_Schema tbl)) (sp_Values sp stmt) = Ok rows"
  shows "exec_statement (example_server E R sp ins alt del base) stmt s =
    (Ok (NewInsertCompleteResponsesWith (int (length (st_Values stmt)))),
     s\<lparr>s_app := put_table (Database (s_conn s)) (st_TableName stmt) (tbl\<lparr>tb_Rows := tb_Rows tbl @ rows\<rparr>) (s_app s)\<rparr>)"
  using assms
  by (simp add: exec_statement_def example_server_simps defaultQueryExecutor_def default_Insert_def
      store_SQLExecutor_def store_Insert_def insert_rows_Ok on_app_def on_part_def goseq_def ret_def Let_def)

text \<open>
  C10: INSERT through the whole server. The statement is answered with the number of its rows, the
  table holds the old rows and then the new ones, as many, and no other table changes.
\<close>

theorem example_insert:
  assumes "st_Type stmt = InsertStatement"
    and "LookupTableWithDatabase (Database (s_conn s)) (st_TableName stmt) (s_app s) = Some tbl"
    and "map_go (NewRowFromColumns E (tb_Schema tbl)) (sp_Values sp stmt) = Ok rows"
  shows "\<exists>dbs. exec_statement (example_server E R sp ins alt del base) stmt s =
      (Ok (NewInsertCompleteResponsesWith (int (length (st_Values stmt)))), s\<lparr>s_app := dbs\<rparr>) \<and>
    (\<forall>d t. LookupTableWithDatabase d t dbs =
       (if d = Database (s_conn s) \<and> t = st_TableName stmt
        then Some (tbl\<lparr>tb_Rows := tb_Rows tbl @ rows\<rparr>) else LookupTableWithDatabase d t (s_app s))) \<and>
    length rows = length (st_Values stmt)"
  using example_insert_runs [OF assms] map_go_Ok_length [OF assms(3)]
  by (intro exI [of _ "put_table (Database (s_conn s)) (st_TableName stmt) (tbl\<lparr>tb_Rows := tb_Rows tbl @ rows\<rparr>) (s_app s)"])
    (simp add: tables.lookup_put [OF assms(2)] sp_Values_def)

text \<open>
  TRUNCATE through the whole server does not empty the table. It is answered as done, but on a
  table of at least three rows without duplicates the second row is still there.
\<close>

theorem example_truncate:
  assumes "st_Type stmt = TruncateStatement" and "st_Tables stmt = [t]"
    and "st_TableName (del t) = t" and "sp_Where sp (del t) = NoConditions"
    and "LookupTableWithDatabase (Database (s_conn s)) t (s_app s) = Some tbl"
    and "distinct_rows (tb_Rows tbl)" and "3 \<le> length (tb_Rows tbl)"
  shows "\<exists>dbs rest. exec_statement (example_server E R sp ins alt del base) stmt s =
      (Ok (NewCommandCompleteResponsesWith ''TRUNCATE''), s\<lparr>s_app := dbs\<rparr>) \<and>
    LookupTableWithDatabase (Database (s_conn s)) t dbs = Some (tbl\<lparr>tb_Rows := tb_Rows tbl ! 1 # rest\<rparr>)"
proof -
  obtain rest where del: "table_Delete E NoConditions tbl =
      (Ok (length (tb_Rows tbl)), tbl\<lparr>tb_Rows := tb_Rows tbl ! 1 # rest\<rparr>)"
    using table_Delete_all [OF assms(6,7)] by blast
  obtain db where "LookupDatabaseTable E (Database (s_conn s)) t (s_app s) = Ok (db, tbl)"
    using LookupDatabaseTable_Some [OF assms(5)] by blast
  then have "exec_statement (example_server E R sp ins alt del base) stmt s =
      (Ok (NewCommandCompleteResponsesWith ''TRUNCATE''),
       s\<lparr>s_app := put_table (Database (s_conn s)) t (tbl\<lparr>tb_Rows := tb_Rows tbl ! 1 # rest\<rparr>) (s_app s)\<rparr>)"
    using assms(1-4) del
    by (simp add: exec_statement_def example_server_simps NewDefaultExQueryExecutorWith_def ex_default_Truncate_def
        defaultQueryExecutor_def default_Delete_def store_SQLExecutor_def counted_def store_Delete_def on_table_def
        on_app_def on_part_def goseq_def ret_def Let_def)
  then show ?thesis by (intro exI [of _ "put_table (Database (s_conn s)) t (tbl\<lparr>tb_Rows := tb_Rows tbl ! 1 # rest\<rparr>) (s_app s)"] exI [of _ rest]) (simp add: tables.lookup_put [OF assms(5)])
qed

text \<open>A parser package for the witnesses\<close>

definition plain_results :: "(unit, unit) result_package" where
  "plain_results =
     \<lparr>NewRowsFromMapRows = \<lambda>rows. Ok (map (\<lambda>_. ()) rows),
      NewResultSetFrom = \<lambda>_ _ _ _ _. Err (GoError ''resultset'' []),
      NewAggregatedSource = \<lambda>_ _ _ _. Err (GoError ''resultset'' []),
      NewAggregatedResultSetFrom = \<lambda>_ _ _ _. Err (GoError ''resultset'' []),
      NewSchemaColumnsResultSetFromSchemas = \<lambda>_. Err (GoError ''resultset'' [])\<rparr>"

definition plain_parts :: "unit statement_parts" where
  "plain_parts =
     \<lparr>sp_DatabaseName = \<lambda>_. ''db'', sp_IfExists = \<lambda>_. False, sp_IfNotExists = \<lambda>_. False,
      sp_Schema = \<lambda>_. text_schema ''t'', sp_Alter = \<lambda>_. ret (), sp_Row = \<lambda>_ _. [text_column ''a'' ''x''],
      sp_Columns = \<lambda>_. [text_column ''a'' ''x''], sp_Where = \<lambda>_. NoConditions,
      sp_Select = \<lambda>_. \<lparr>sel_FromTables = [''t''], sel_FromString = ''t'', sel_Selectors = [''a''],
        sel_IsAsterisk = True, sel_HasAggregator = False, sel_Where = NoConditions, sel_GroupBy = [], sel_Limit = ()\<rparr>,
      sp_SchemaColumns = \<lambda>_. None\<rparr>"

definition on_db :: "store \<Rightarrow> store session" where
  "on_db dbs = (client_session dbs [])\<lparr>s_conn := snd (SetDatabase ''db'' (s_conn (client_session dbs [])))\<rparr>"

lemma on_db_simps [simp]: "Database (s_conn (on_db dbs)) = ''db''" "s_app (on_db dbs) = dbs"
  by (simp_all add: on_db_def SetDatabase_def Database_def go_simps)

definition plain_server :: "store query_server" where
  "plain_server = example_server plain_env plain_results plain_parts plain_insert Ok (\<lambda>t. plain_insert t [])
     (small_server None (\<lambda>_. Ok []))"

theorem example_insert_witness:
  "\<exists>s'. exec_statement plain_server (plain_insert ''t'' [[]]) (on_db one_table_store) =
     (Ok (NewInsertCompleteResponsesWith 1), s')"
proof -
  let ?stmt = "plain_insert ''t'' [[]]" and ?tbl = "NewTableWith ''t'' (text_schema ''t'')"
  have stmt: "st_Type ?stmt = InsertStatement" "int (length (st_Values ?stmt)) = 1" by (simp_all add: plain_insert_def)
  have tbl: "LookupTableWithDatabase (Database (s_conn (on_db one_table_store))) (st_TableName ?stmt)
      (s_app (on_db one_table_store)) = Some ?tbl"
    by (simp add: lookup_one_table plain_insert_def)
  have rows: "map_go (NewRowFromColumns plain_env (tb_Schema ?tbl)) (sp_Values plain_parts ?stmt) = Ok [[(''a'', VString ''x'')]]"
    unfolding plain_parts_def using text_column_row(1) by (simp add: sp_Values_def plain_insert_def)
  show ?thesis
    using example_insert [OF stmt(1) tbl rows] stmt(2) unfolding plain_server_def by metis
qed

theorem example_truncate_witness:
  "\<exists>s'. exec_statement plain_server ((plain_insert ''t'' [])\<lparr>st_Type := TruncateStatement, st_Tables := [''t'']\<rparr>)
     (on_db [''db'' \<mapsto> \<lparr>db_name = ''db'', db_tables = [''t'' \<mapsto> abc_table]\<rparr>]) =
     (Ok (NewCommandCompleteResponsesWith ''TRUNCATE''), s') \<and>
     (\<exists>tbl. LookupTableWithDatabase ''db'' ''t'' (s_app s') = Some tbl \<and> tb_Rows tbl \<noteq> [])"
proof -
  let ?stmt = "(plain_insert ''t'' [])\<lparr>st_Type := TruncateStatement, st_Tables := [''t'']\<rparr>"
    and ?s = "on_db [''db'' \<mapsto> \<lparr>db_name = ''db'', db_tables = [''t'' \<mapsto> abc_table]\<rparr>]"
  have stmt: "st_Type ?stmt = TruncateStatement" "st_Tables ?stmt = [''t'']" by simp_all
  have del: "st_TableName (plain_insert ''t'' []) = ''t''" "sp_Where plain_parts (plain_insert ''t'' []) = NoConditions"
    by (simp_all add: plain_insert_def plain_parts_def)
  have tbl: "LookupTableWithDatabase (Database (s_conn ?s)) ''t'' (s_app ?s) = Some abc_table" "3 \<le> length (tb_Rows abc_table)"
    by (simp_all add: LookupTableWithDatabase_def LookupDatabase_def LookupTable_def abc_table_def)
  obtain dbs rest where "exec_statement plain_server ?stmt ?s = (Ok (NewCommandCompleteResponsesWith ''TRUNCATE''), ?s\<lparr>s_app := dbs\<rparr>)"
    "LookupTableWithDatabase (Database (s_conn ?s)) ''t'' dbs = Some (abc_table\<lparr>tb_Rows := tb_Rows abc_table ! 1 # rest\<rparr>)"
    using example_truncate [where del = "\<lambda>t. plain_insert t []", OF stmt del tbl(1) distinct_abc tbl(2)]
    unfolding plain_server_def by blast
  then show ?thesis by simp
qed

end
