(* ===== verification/Served_Conversations.thy ===== *)
theory Served_Conversations
  imports Conversations Example_Server
begin

text \<open>
  The executors of the program keep the contract of \<open>Conversations\<close>: they look at nothing of a
  connection but its database. So the example server, like any server over the default executors,
  holds the conversations of its clients as the protocol says.
\<close>

section \<open>Executors that look at the database only\<close>

definition blind :: "(conn \<Rightarrow> 'r) \<Rightarrow> bool" where
  "blind f \<longleftrightarrow> (\<forall>c c'. Database c = Database c' \<longrightarrow> f c = f c')"

lemma blindI: "(\<And>c c'. Database c = Database c' \<Longrightarrow> f c = f c') \<Longrightarrow> blind f"
  unfolding blind_def by blast

lemma blindD: "blind f \<Longrightarrow> Database c = Database c' \<Longrightarrow> f c = f c'"
  unfolding blind_def by blast

definition blind_sql :: "'a SQLExecutor \<Rightarrow> bool" where
  "blind_sql se \<longleftrightarrow> blind (se_Begin se) \<and> blind (se_Commit se) \<and> blind (se_Rollback se) \<and>
     blind (se_CreateDatabase se) \<and> blind (se_CreateTable se) \<and> blind (se_AlterDatabase se) \<and>
     blind (se_AlterTable se) \<and> blind (se_DropDatabase se) \<and> blind (se_DropTable se) \<and> blind (se_Insert se) \<and>
     blind (se_Select se) \<and> blind (se_Update se) \<and> blind (se_Delete se) \<and> blind (se_SystemSelect se)"

definition blind_query :: "'a QueryExecutor \<Rightarrow> bool" where
  "blind_query qe \<longleftrightarrow> blind (qe_Begin qe) \<and> blind (qe_Commit qe) \<and> blind (qe_Rollback qe) \<and>
     blind (qe_CreateDatabase qe) \<and> blind (qe_CreateTable qe) \<and> blind (qe_AlterDatabase qe) \<and>
     blind (qe_AlterTable qe) \<and> blind (qe_DropDatabase qe) \<and> blind (qe_DropTable qe) \<and> blind (qe_Insert qe) \<and>
     blind (qe_Select qe) \<and> blind (qe_Update qe) \<and> blind (qe_Delete qe)"

definition blind_server :: "('a, 'x) query_server_scheme \<Rightarrow> bool" where
  "blind_server sv \<longleftrightarrow> blind_query (sv_queryExecutor sv) \<and>
     blind (ex_CreateIndex (sv_exQueryExecutor sv)) \<and> blind (ex_DropIndex (sv_exQueryExecutor sv)) \<and>
     blind (ex_Vacuum (sv_exQueryExecutor sv)) \<and> blind (ex_Truncate (sv_exQueryExecutor sv)) \<and>
     blind (sv_SystemSelect sv) \<and> blind (sv_ParserError sv)"

lemma blind_sqlD:
  assumes "blind_sql se" "Database c = Database c'"
  shows "se_Begin se c = se_Begin se c'" "se_Commit se c = se_Commit se c'" "se_Rollback se c = se_Rollback se c'"
    "se_CreateDatabase se c = se_CreateDatabase se c'" "se_CreateTable se c = se_CreateTable se c'"
    "se_AlterDatabase se c = se_AlterDatabase se c'" "se_AlterTable se c = se_AlterTable se c'"
    "se_DropDatabase se c = se_DropDatabase se c'" "se_DropTable se c = se_DropTable se c'"
    "se_Insert se c = se_Insert se c'" "se_Select se c = se_Select se c'" "se_Update se c = se_Update se c'"
    "se_Delete se c = se_Delete se c'" "se_SystemSelect se c = se_SystemSelect se c'"
  by (rule blindD [OF _ assms(2)], simp add: assms(1) [unfolded blind_sql_def])+

lemma default_ops_blind:
  assumes "blind_sql se" "Database c = Database c'"
  shows "default_Begin (Some se) c = default_Begin (Some se) c'" "default_Commit (Some se) c = default_Commit (Some se) c'"
    "default_Rollback (Some se) c = default_Rollback (Some se) c'"
    "default_CreateDatabase (Some se) c = default_CreateDatabase (Some se) c'"
    "default_CreateTable (Some se) c = default_CreateTable (Some se) c'"
    "default_AlterDatabase (Some se) c = default_AlterDatabase (Some se) c'"
    "default_AlterTable (Some se) c = default_AlterTable (Some se) c'"
    "default_DropDatabase (Some se) c = default_DropDatabase (Some se) c'"
    "default_DropTable (Some se) c = default_DropTable (Some se) c'" "default_Insert (Some se) c = default_Insert (Some se) c'"
    "default_Select sc (Some se) c = default_Select sc (Some se) c'" "default_Update (Some se) c = default_Update (Some se) c'"
    "default_Delete (Some se) c = default_Delete (Some se) c'"
    "default_SystemSelect sc (Some se) c = default_SystemSelect sc (Some se) c'"
  by (simp_all add: fun_eq_iff default_op_defs default_SystemSelect_def blind_sqlD [OF assms])

lemma blind_default_query:
  assumes "blind_sql se"
  shows "blind_query (defaultQueryExecutor sc (Some se))"
  unfolding blind_query_def by (intro conjI; rule blindI; simp add: defaultQueryExecutor_def; rule default_ops_blind [OF assms])

lemma blind_default_ex:
  assumes "blind_query qe"
  shows "blind (ex_CreateIndex (NewDefaultExQueryExecutorWith alt del qe))"
    "blind (ex_DropIndex (NewDefaultExQueryExecutorWith alt del qe))"
    "blind (ex_Vacuum (NewDefaultExQueryExecutorWith alt del qe))"
    "blind (ex_Truncate (NewDefaultExQueryExecutorWith alt del qe))"
proof -
  have at: "blind (qe_AlterTable qe)" and del: "blind (qe_Delete qe)"
    using assms by (simp_all add: blind_query_def)
  note ex_defs = NewDefaultExQueryExecutorWith_def ex_default_index_def ex_default_Vacuum_def ex_default_Truncate_def
  show "blind (ex_CreateIndex (NewDefaultExQueryExecutorWith alt del qe))"
    by (rule blindI, drule blindD [OF at], simp add: ex_defs, rule ext, simp add: ex_defs)
  show "blind (ex_DropIndex (NewDefaultExQueryExecutorWith alt del qe))"
    by (rule blindI, drule blindD [OF at], simp add: ex_defs, rule ext, simp add: ex_defs)
  show "blind (ex_Vacuum (NewDefaultExQueryExecutorWith alt del qe))"
    by (rule blindI, simp add: ex_defs, rule ext, simp add: ex_defs)
  show "blind (ex_Truncate (NewDefaultExQueryExecutorWith alt del qe))"
    by (rule blindI, drule blindD [OF del], simp add: ex_defs, rule ext, simp add: ex_defs)
qed

lemma blind_default_system: "blind_sql se \<Longrightarrow> blind (default_SystemSelect sc (Some se))"
  by (rule blindI) (rule default_ops_blind)

lemma blind_store: "blind_sql (store_SQLExecutor E R sp)"
  unfolding blind_sql_def by (intro conjI; rule blindI) (simp_all add: store_SQLExecutor_def)

lemma blind_counting: "blind_sql counting_executor"
  unfolding blind_sql_def by (intro conjI; rule blindI) (simp_all add: counting_executor_def)

lemma blind_ParserError: "blind (example_ParserError sc)" "blind null_ParserError"
  by (rule blindI, simp add: example_ParserError_def null_ParserError_def fun_eq_iff)+

lemma blind_example_server: "blind_server (example_server E R sp ins alt del base)"
proof -
  have "sv_SystemSelect (example_server E R sp ins alt del base) =
      default_SystemSelect (sv_safecast base) (Some (store_SQLExecutor E R sp))"
    by (simp add: example_server_def example_executors_def running_server_def SetBulkQueryExecutor_def
        SetErrorHandler_def SetSQLExecutor_def NewServer_executors_def Let_def)
  then show ?thesis
    by (simp add: blind_server_def example_server_simps blind_default_query blind_default_ex blind_default_system
        blind_store blind_ParserError)
qed

lemma blind_small_server: "blind_sql se \<Longrightarrow> blind_server (small_server (Some se) parser)"
  by (simp add: blind_server_def small_server_def blind_default_query blind_default_ex blind_default_system
      blind_ParserError)

section \<open>The meaning of statements, observed on a connection without a network\<close>

definition probe :: "string \<Rightarrow> bool \<Rightarrow> 'a \<Rightarrow> 'a session" where
  "probe db tx a = \<lparr>s_conn = (NewConnWith (new_net_conn []) 0 [WithConnDatabase db])\<lparr>c_txLocked := tx\<rparr>,
     s_prep = NewPreparedManager, s_app = a\<rparr>"

definition observed :: "('a, 'x) query_server_scheme \<Rightarrow> string \<Rightarrow> 'a meaning" where
  "observed sv db =
     \<lparr>exec_of = \<lambda>st (tx, a). (case exec_statement sv st (probe db tx a) of (r, s) \<Rightarrow> (r, c_txLocked (s_conn s), s_app s)),
      ids_of = \<lambda>st a. (case selectObjectIds sv st (probe db False a) of (r, s) \<Rightarrow> (r, s_app s)),
      refusal_of = sv_ParserError sv (NewConnWith (new_net_conn []) 0 [WithConnDatabase db])\<rparr>"

lemma probe_simps [simp]:
  "Database (s_conn (probe db tx a)) = db" "c_txLocked (s_conn (probe db tx a)) = tx" "s_app (probe db tx a) = a"
  by (simp_all add: probe_def NewConnWith_def WithConnDatabase_def Database_def)

lemma on_app_blind:
  assumes "blind f" "Database (s_conn s) = Database c"
  shows "on_app f st s = (case f c st (s_app s) of (r, a) \<Rightarrow> (r, s\<lparr>s_app := a\<rparr>))"
  using blindD [OF assms] by (simp add: on_app_def on_part_def)

lemma Database_txLocked [simp]: "Database (c\<lparr>c_txLocked := tx\<rparr>) = Database c"
  by (simp add: Database_def)

lemma observed_exec:
  assumes "blind_server sv" "st_Type st \<noteq> CopyStatement" "Database (s_conn s) = db"
  shows "exec_statement sv st s = (case exec_of (observed sv db) st (c_txLocked (s_conn s), s_app s) of
    (r, tx, a) \<Rightarrow> (r, s\<lparr>s_conn := (s_conn s)\<lparr>c_txLocked := tx\<rparr>, s_app := a\<rparr>))"
proof -
  let ?c = "NewConnWith (new_net_conn []) 0 [WithConnDatabase db]"
  have db: "Database ?c = db" by (simp add: NewConnWith_def WithConnDatabase_def Database_def)
  have app: "on_app f st s' = (case f ?c st (s_app s') of (r, a) \<Rightarrow> (r, s'\<lparr>s_app := a\<rparr>))"
    if "blind f" "Database (s_conn s') = db" for f and s' :: "'a session" and st
    by (rule on_app_blind) (use that db in simp_all)
  have same: "(s_conn s)\<lparr>c_txLocked := c_txLocked (s_conn s)\<rparr> = s_conn s" by simp
  note defs = exec_statement_def observed_def Let_def goseq_def gotry_def on_conn_def on_part_def
    LockTransaction_def UnlockTransaction_def then_unlock_def ret_def fail_def
  show ?thesis
    using assms
    by (cases "st_Type st")
      (simp_all add: defs app blind_server_def blind_query_def split: prod.splits res.splits)
qed

lemma observed_ids:
  assumes "blind_server sv" "Database (s_conn s) = db"
  shows "selectObjectIds sv st s = (case ids_of (observed sv db) st (s_app s) of (r, a) \<Rightarrow> (r, s\<lparr>s_app := a\<rparr>))"
proof -
  let ?c = "s_conn (probe db False (s_app s))"
  have "blind (sv_SystemSelect sv)" using assms(1) by (simp add: blind_server_def)
  then have app: "on_app (sv_SystemSelect sv) q s' = (case sv_SystemSelect sv ?c q (s_app s') of (r, a) \<Rightarrow> (r, s'\<lparr>s_app := a\<rparr>))"
    if "Database (s_conn s') = db" for q and s' :: "'a session"
    by (rule on_app_blind) (use that in simp)
  show ?thesis
  proof (cases "length (st_FromTables st) \<noteq> 1")
    case True
    then show ?thesis
      by (simp add: selectObjectIds_def newSystemSelectQuery_def observed_def goseq_def fail_def)
  next
    case False
    then show ?thesis
      using app [of s] app [of "probe db False (s_app s)"] assms(2)
      by (cases "sv_NewSchemaColumnsStatement sv db [st_FromTables st ! 0]")
        (simp_all add: selectObjectIds_def newSystemSelectQuery_def observed_def goseq_def gets_def lift_res_def ret_def
          split: prod.splits res.splits)
  qed
qed

definition no_copy :: "statement set" where
  "no_copy = {st. st_Type st \<noteq> CopyStatement}"

lemma observed_semantics:
  assumes "blind_server sv" and "\<And>q ps sts. sv_BindStatements sv q ps = Ok sts \<Longrightarrow> set sts \<subseteq> no_copy"
  shows "server_semantics sv (observed sv db) db no_copy"
proof
  fix c :: conn assume "Database c = db"
  then show "sv_ParserError sv c = refusal_of (observed sv db)"
    using assms(1) blindD [of "sv_ParserError sv" c "NewConnWith (new_net_conn []) 0 [WithConnDatabase db]"]
    by (simp add: blind_server_def observed_def NewConnWith_def WithConnDatabase_def Database_def)
qed (use assms observed_exec [OF assms(1)] observed_ids [OF assms(1)] in \<open>simp_all add: no_copy_def\<close>)

text \<open>
  Statements that do not come from a COPY: a parser package that refuses it. COPY takes over the stream
  of the connection and is no part of the contract.
\<close>

definition refuse_copy :: "(string \<Rightarrow> BindParam list \<Rightarrow> statement list go) \<Rightarrow> string \<Rightarrow> BindParam list \<Rightarrow> statement list go" where
  "refuse_copy parser q ps = (case parser q ps of
       Ok sts \<Rightarrow> if list_all (\<lambda>st. st_Type st \<noteq> CopyStatement) sts then Ok sts else Err (NewErrNotImplemented ''COPY'')
     | r \<Rightarrow> r)"

lemma refuse_copy_no_copy: "refuse_copy parser q ps = Ok sts \<Longrightarrow> set sts \<subseteq> no_copy"
  by (auto simp: refuse_copy_def no_copy_def list_all_iff split: res.splits if_splits)

definition example_talker ::
    "'x store_env_scheme \<Rightarrow> ('rr, 'l) result_package \<Rightarrow> 'l statement_parts \<Rightarrow>
     (string \<Rightarrow> (string \<times> string) list list \<Rightarrow> statement) \<Rightarrow> (statement \<Rightarrow> statement go) \<Rightarrow>
     (string \<Rightarrow> statement) \<Rightarrow> store query_server \<Rightarrow> store query_server" where
  "example_talker E R sp ins alt del base = example_server E R sp ins alt del
     (base\<lparr>sv_BindStatements := refuse_copy (sv_BindStatements base)\<rparr>)"

interpretation talker: server_semantics "example_talker E R sp ins alt del base"
    "observed (example_talker E R sp ins alt del base) db" db no_copy
  unfolding example_talker_def
proof (rule observed_semantics [OF blind_example_server])
  fix q ps sts
  assume "sv_BindStatements (example_server E R sp ins alt del
      (base\<lparr>sv_BindStatements := refuse_copy (sv_BindStatements base)\<rparr>)) q ps = Ok sts"
  then show "set sts \<subseteq> no_copy"
    by (intro refuse_copy_no_copy) (simp add: example_server_def running_server_def Let_def)
qed

section \<open>The refinement\<close>

text \<open>
  C2: the server holds every conversation as the protocol of its clients says. A client sends batches
  of messages, each when the answers to the one before are there, and ends with a last batch and
  Terminate. What it receives, byte for byte and in order, how the session ends, and the state it
  leaves are those of the specification; the loop needs one round for each message.
\<close>

theorem conversation_refines:
  assumes "server_semantics sv sem db S" and "drained c" and "Database c = db"
    and "s_conn s = later (conversation_events bs final rest) c"
    and "\<forall>b \<in> set bs. b \<noteq> [] \<and> list_all valid_client b" and "list_all valid_client final"
    and "conversation_meaning sv sem bs final (view_of s) = (out, r, v)"
  shows "\<exists>s'. receive_loop (length (concat bs) + length final + 1) (server_handler sv) s = Some (r, s') \<and>
    sent (s_conn s') = sent c @ out \<and> view_of s' = v"
  using server_semantics.conversation_held [OF assms(1) _ assms(6,2,4,3,7)] assms(5)
  unfolding list_all_iff by blast

text \<open>The extended protocol in one batch, then the end of the session\<close>

definition inserting_server :: "nat query_server" where
  "inserting_server = small_server (Some counting_executor) (\<lambda>q. Ok [statement_of InsertStatement q])"

lemma inserting_semantics: "server_semantics inserting_server (observed inserting_server []) [] no_copy"
  unfolding inserting_server_def
  by (rule observed_semantics [OF blind_small_server [OF blind_counting]])
    (auto simp: small_server_def no_copy_def statement_of_def)

definition prepared_insert :: "client_msg list" where
  "prepared_insert = [CParse ''s'' ''I'' [], CBind ''p'' ''s'' [] [] [], CExecute ''p'' 0, CSync]"

definition talking_session :: "string \<Rightarrow> 'a \<Rightarrow> net_event list \<Rightarrow> 'a session" where
  "talking_session db a es =
     \<lparr>s_conn = NewConnWith (new_net_conn es) 1 [WithConnDatabase db], s_prep = NewPreparedManager, s_app = a\<rparr>"

lemmas new_conn_defs = NewConnWith_def WithConnDatabase_def NewReaderWithConn_def new_net_conn_def

lemma talking_session_later: "s_conn (talking_session db a es) = later es (s_conn (talking_session db a []))"
  by (simp add: talking_session_def new_conn_defs later_def reader_later_def src_later_def)

lemma talking_session_simps [simp]:
  "drained (s_conn (talking_session db a []))" "Database (s_conn (talking_session db a es)) = db"
  "sent (s_conn (talking_session db a es)) = []" "s_app (talking_session db a es) = a"
  "c_txLocked (s_conn (talking_session db a es)) = False"
  by (simp_all add: talking_session_def new_conn_defs drained_def fronted_def idle_def rwire_def wire_def
      whole_source_def Database_def sent_def)

lemma deliver_sendable: "all_sendable rs \<Longrightarrow> deliver rs = (wire_of rs, Ok ())"
  by (induction rs) (auto simp: all_sendable_def wire_of_def split: res.splits)

lemma inserting_server_simps [simp]:
  "sv_ParseString inserting_server q = Ok [statement_of InsertStatement q]"
  "sv_BindStatements inserting_server q ps = Ok [statement_of InsertStatement q]"
  "exec_of (observed inserting_server db) (statement_of InsertStatement q) (tx, n) = (Ok (NewInsertCompleteResponsesWith 0), tx, Suc n)"
  by (simp_all add: inserting_server_def small_server_def observed_def exec_statement_def statement_of_def
      defaultQueryExecutor_def default_Insert_def counting_executor_def plain_insert_def goseq_def ret_def on_app_def
      on_part_def Let_def)

lemma prepared_insert_meaning:
  "\<exists>b1 b2 b3 v. conversation_meaning inserting_server (observed inserting_server []) [prepared_insert] []
     (view_of (talking_session [] 0 es)) = ([b1, b2, b3, ready_bytes False], Ok (), v) \<and> v_app v = 1"
proof -
  have insert: "all_sendable (NewInsertCompleteResponsesWith 0)" "length (wire_of (NewInsertCompleteResponsesWith 0)) = 1"
    by (simp_all add: all_sendable_def wire_of_def NewInsertCompleteResponsesWith_def Response_Bytes_def case_prod_beta)
  obtain b where b: "wire_of (NewInsertCompleteResponsesWith 0) = [b]" using insert(2) by (metis length_1_nth)
  have one: "fst (Response_Bytes (MessageResponse m)) = Ok (hd (wire_of [MessageResponse m]))" for m
    by (simp add: Response_Bytes_def case_prod_beta wire_of_def)
  show ?thesis
    by (simp add: prepared_insert_def round_meaning_def query_meaning_def deliver_sendable [OF insert(1)] b one
        map_res_def view_of_def talking_session_def new_conn_defs Let_def)
qed

theorem conversation_refines_witness:
  "\<exists>s'. receive_loop 5 (server_handler inserting_server)
      (talking_session [] 0 (conversation_events [prepared_insert] [] [])) = Some (Ok (), s') \<and>
    length (sent (s_conn s')) = 4 \<and> last (sent (s_conn s')) = ready_bytes False \<and> s_app s' = 1"
proof -
  let ?s = "talking_session [] 0 (conversation_events [prepared_insert] [] [])"
  obtain b1 b2 b3 v where m: "conversation_meaning inserting_server (observed inserting_server []) [prepared_insert] [] (view_of ?s) =
      ([b1, b2, b3, ready_bytes False], Ok (), v)" "v_app v = 1"
    using prepared_insert_meaning by blast
  have valid: "\<forall>b \<in> set [prepared_insert]. b \<noteq> [] \<and> list_all valid_client b"
    by (simp add: prepared_insert_def no_nul_def bytes_of_string_def byte_of_char_def)
  have len: "length (concat [prepared_insert]) + length ([] :: client_msg list) + 1 = 5"
    by (simp add: prepared_insert_def)
  obtain s' where "receive_loop 5 (server_handler inserting_server) ?s = Some (Ok (), s')"
    "sent (s_conn s') = [b1, b2, b3, ready_bytes False]" "view_of s' = v"
    using conversation_refines [OF inserting_semantics talking_session_simps(1,2) talking_session_later valid _ m(1)]
    unfolding len by auto
  with m(2) show ?thesis by (auto simp: view_of_def)
qed

section \<open>From the wire to the store\<close>

text \<open>
  C3: a prepared INSERT from the wire to the store. The client sends Parse, Bind, Execute and Sync at once to
  the example server and ends the session when it has its answers: they are the two confirmations,
  the number of rows and one ready message, and the table has the old rows and behind them the rows
  of the statement bound to the parameters of the Bind message; no other table changes.
\<close>

theorem prepared_insert_stored:
  assumes "no_nul name" and "no_nul portal" and "no_nul q" and "length types < 2 ^ 15" and "length fmts < 2 ^ 15"
    and "length vals < 2 ^ 15" and "length resFmts < 2 ^ 15" and "list_all param_ok vals"
    and "sv_ParseString base q = Ok [st]" and "sv_BindStatements base q (bind_params fmts vals) = Ok [stmt]"
    and "st_Type stmt = InsertStatement"
    and "LookupTableWithDatabase db (st_TableName stmt) (s_app s) = Some tbl"
    and "map_go (NewRowFromColumns E (tb_Schema tbl)) (sp_Values sp stmt) = Ok rows"
    and "drained c" and "Database c = db" and "\<not> c_txLocked c"
    and "s_conn s = later (conversation_events [[CParse name q types, CBind portal name fmts vals resFmts,
      CExecute portal n, CSync]] [] []) c"
  shows "\<exists>s'. receive_loop 5 (server_handler (example_talker E R sp ins alt del base)) s = Some (Ok (), s') \<and>
    sent (s_conn s') = sent c @ wire_of ([MessageResponse NewParseComplete, MessageResponse NewBindComplete] @
      NewInsertCompleteResponsesWith (int (length (st_Values stmt)))) @ [ready_bytes False] \<and>
    (\<forall>d t. LookupTableWithDatabase d t (s_app s') = (if d = db \<and> t = st_TableName stmt
      then Some (tbl\<lparr>tb_Rows := tb_Rows tbl @ rows\<rparr>) else LookupTableWithDatabase d t (s_app s)))"
proof -
  let ?sv = "example_talker E R sp ins alt del base" and ?b = "[CParse name q types, CBind portal name fmts vals resFmts, CExecute portal n, CSync]"
  let ?dbs = "put_table db (st_TableName stmt) (tbl\<lparr>tb_Rows := tb_Rows tbl @ rows\<rparr>) (s_app s)"
  let ?done = "NewInsertCompleteResponsesWith (int (length (st_Values stmt)))"
  have parsers: "sv_ParseString ?sv q = Ok [st]" "sv_BindStatements ?sv q (bind_params fmts vals) = Ok [stmt]"
    using assms(9-11) by (simp_all add: example_talker_def example_server_def running_server_def Let_def refuse_copy_def)
  have exec: "exec_of (observed ?sv db) stmt (tx, s_app s) = (Ok ?done, tx, ?dbs)" for tx
    using example_insert_runs [where R = R, of stmt "probe db tx (s_app s)" tbl E sp rows] assms(11-13)
    by (simp add: observed_def example_talker_def)
  have sends: "deliver ?done = (wire_of ?done, Ok ())"
    by (rule deliver_sendable)
      (simp add: all_sendable_def NewInsertCompleteResponsesWith_def Response_Bytes_def case_prod_beta)
  have one: "fst (Response_Bytes (MessageResponse m)) = Ok (hd (wire_of [MessageResponse m]))" for m
    by (simp add: Response_Bytes_def case_prod_beta wire_of_def)
  obtain v where v: "conversation_meaning ?sv (observed ?sv db) [?b] [] (view_of s) =
      (wire_of ([MessageResponse NewParseComplete, MessageResponse NewBindComplete] @ ?done) @ [ready_bytes False], Ok (), v)"
    "v_app v = ?dbs"
    using assms(16,17)
    by (simp add: round_meaning_def query_meaning_def parsers exec sends one map_res_def Let_def view_of_def)
      (simp add: wire_of_def)
  have valid: "list_all (\<lambda>b. b \<noteq> [] \<and> list_all valid_client b) [?b]" using assms(1-8) by simp
  have fuel: "length (concat [?b]) + length ([] :: client_msg list) + 1 = 5" by simp
  obtain s' where "receive_loop 5 (server_handler ?sv) s = Some (Ok (), s')"
    "sent (s_conn s') = sent c @ wire_of ([MessageResponse NewParseComplete, MessageResponse NewBindComplete] @ ?done) @ [ready_bytes False]"
    "view_of s' = v"
    using talker.conversation_held [OF valid _ assms(14,17,15) v(1)] unfolding fuel by auto
  moreover from this v(2) have "s_app s' = ?dbs" by (auto simp: view_of_def)
  ultimately show ?thesis using tables.lookup_put [OF assms(12)] by auto
qed

theorem prepared_insert_stored_witness:
  "\<exists>s'. receive_loop 5 (server_handler (example_talker plain_env plain_results plain_parts plain_insert Ok
        (\<lambda>t. plain_insert t []) (small_server None (\<lambda>_. Ok [plain_insert ''t'' [[]]]))))
      (talking_session ''db'' one_table_store (conversation_events [prepared_insert] [] [])) = Some (Ok (), s') \<and>
    (\<exists>tbl. LookupTableWithDatabase ''db'' ''t'' (s_app s') = Some tbl \<and> length (tb_Rows tbl) = 1)"
proof -
  let ?stmt = "plain_insert ''t'' [[]]" and ?tbl = "NewTableWith ''t'' (text_schema ''t'')"
  let ?base = "small_server None (\<lambda>_. Ok [?stmt])" and ?s = "talking_session ''db'' one_table_store (conversation_events [prepared_insert] [] [])"
  have n: "no_nul ''s''" "no_nul ''p''" "no_nul ''I''" by (simp_all add: no_nul_def bytes_of_string_def byte_of_char_def)
  have stmt: "st_Type ?stmt = InsertStatement" "st_TableName ?stmt = ''t''" by (simp_all add: plain_insert_def)
  have parsers: "sv_ParseString ?base ''I'' = Ok [?stmt]" "sv_BindStatements ?base ''I'' (bind_params [] []) = Ok [?stmt]"
    by (simp_all add: small_server_def)
  have tbl: "LookupTableWithDatabase ''db'' (st_TableName ?stmt) (s_app ?s) = Some ?tbl"
    by (simp add: lookup_one_table stmt)
  have rows: "map_go (NewRowFromColumns plain_env (tb_Schema ?tbl)) (sp_Values plain_parts ?stmt) = Ok [[(''a'', VString ''x'')]]"
    unfolding plain_parts_def using text_column_row(1) by (simp add: sp_Values_def plain_insert_def)
  have conn: "s_conn ?s = later (conversation_events [[CParse ''s'' ''I'' [], CBind ''p'' ''s'' [] [] [], CExecute ''p'' 0, CSync]] [] [])
      (s_conn (talking_session ''db'' one_table_store []))"
    by (subst talking_session_later) (simp add: prepared_insert_def)
  have idle: "\<not> c_txLocked (s_conn (talking_session ''db'' one_table_store []))" by simp
  have small: "length ([] :: 32 word list) < 2 ^ 15" "length ([] :: format_code list) < 2 ^ 15"
    "length ([] :: bytes option list) < 2 ^ 15" "list_all param_ok []" by simp_all
  obtain s' where "receive_loop 5 (server_handler (example_talker plain_env plain_results plain_parts plain_insert Ok
        (\<lambda>t. plain_insert t []) ?base)) ?s = Some (Ok (), s')"
    "LookupTableWithDatabase ''db'' ''t'' (s_app s') = Some (?tbl\<lparr>tb_Rows := tb_Rows ?tbl @ [[(''a'', VString ''x'')]]\<rparr>)"
    using prepared_insert_stored [OF n small(1,2,3,2,4) parsers stmt(1) tbl rows talking_session_simps(1,2) idle conn]
      stmt(2) by (metis (no_types, lifting))
  then show ?thesis by (simp add: NewTableWith_def)
qed

end
