(* ===== verification/Startup_Proofs.thy ===== *)
theory Startup_Proofs
  imports Dialogues
begin

text \<open>
  The dialogue that opens a session: what the server says to a startup message, with and without a
  user, with a right and a wrong password, and before it to a request for TLS.
\<close>

section \<open>Open connections\<close>

definition opened :: "conn \<Rightarrow> bool" where
  "opened c \<longleftrightarrow> rwire (sent c) [] False (c_reader c)"

lemma opened_writable: "opened c \<Longrightarrow> writable c"
  by (auto simp: opened_def rwire_def wire_def writable_def)

lemma opened_patient: "opened c \<Longrightarrow> reader_patient (c_reader c)"
  by (auto simp: opened_def rwire_def wire_def reader_patient_def src_patient_def conn_patient_def)

lemma opened_put_out: "opened c \<Longrightarrow> opened (put_out b c)"
  by (auto simp: opened_def rwire_def wire_def put_out_def sent_def)

lemma opened_fold_put_out: "opened c \<Longrightarrow> opened (fold put_out bs c)"
  by (induction bs arbitrary: c) (simp_all add: opened_put_out)

lemma rwire_opened: "rwire out [] False (c_reader c) \<Longrightarrow> opened c \<and> sent c = out"
  by (auto simp: opened_def rwire_def wire_def sent_def)

lemma opened_step:
  assumes "parses (\<lambda>_. True) m bs x" "\<And>out. keeps (rwire out [] False) m" "opened c"
    "reader_pending (c_reader c) = bs @ rest"
  shows "\<exists>c'. on_reader m c = (Ok x, c') \<and> opened c' \<and> same_side c c' \<and> reader_pending (c_reader c') = rest"
proof -
  obtain r' where r': "on_reader m c = (Ok x, c\<lparr>c_reader := r'\<rparr>)" "reader_pending r' = rest"
    using on_reader_parses [OF assms(1) opened_patient [OF assms(3)] assms(4)] by blast
  then have "m (c_reader c) = (Ok x, r')"
    by (auto simp: on_reader_def on_part_def split: prod.splits) (metis conn.select_convs(2) conn.surjective conn.update_convs(2))
  from keepsD [OF assms(2) _ this] assms(3) have "rwire (sent c) [] False r'" by (simp add: opened_def)
  then have "opened (c\<lparr>c_reader := r'\<rparr>)" "sent (c\<lparr>c_reader := r'\<rparr>) = sent c"
    using rwire_opened [of "sent c" "c\<lparr>c_reader := r'\<rparr>"] by simp_all
  with r' show ?thesis by (intro exI [of _ "c\<lparr>c_reader := r'\<rparr>"]) (simp add: same_side_def)
qed

lemma keeps_startup_loop:
  assumes "keeps I ReadString"
  shows "keeps I (startup_loop msgLen readLen params)"
proof (induction msgLen readLen params rule: startup_loop.induct)
  case (1 msgLen readLen params)
  have "keeps I (if length k = 0 then ret params
      else goseq ReadString (\<lambda>v. startup_loop msgLen
        (readLen + (int (length k) + 1) + (int (length v) + 1)) (params(k \<mapsto> v))))"
    if "readLen < msgLen" for k
  proof (cases "length k = 0")
    case False
    show ?thesis
      by (simp only: False if_False) (rule keeps_goseq [OF assms], rule 1 [OF that False])
  qed (simp add: keeps_ret)
  then show ?case
    by (cases "readLen < msgLen")
      (auto simp: startup_loop.simps [of msgLen] intro!: keeps_goseq assms keeps_ret)
qed

lemma keeps_wire_NewStartupWithReader [keeps_intros]: "keeps (rwire out fails dl) NewStartupWithReader"
  unfolding NewStartupWithReader_def Let_def by (intro keeps_intros keeps_startup_loop)

lemma keeps_wire_SSLRequest [keeps_intros]: "keeps (rwire out fails dl) NewSSLRequestWithReader"
  unfolding NewSSLRequestWithReader_def by (intro keeps_intros)

text \<open>Looking at the length of the first message\<close>

lemma peek_length:
  assumes "opened c" "peekBuf (c_reader c) = []" "reader_pending (c_reader c) = Int32ToBytes n @ rest"
  shows "\<exists>c'. on_reader PeekInt32 c = (Ok n, c') \<and> opened c' \<and> same_side c c' \<and>
    reader_pending (c_reader c') = Int32ToBytes n @ rest"
proof -
  obtain r' where pk: "PeekInt32 (c_reader c) = (Ok n, r')" "reader_pending r' = Int32ToBytes n @ rest"
    using PeekInt32_full [OF opened_patient [OF assms(1)] assms(2,3)] by blast
  from keepsD [OF keeps_wire_PeekInt32 _ pk(1)] assms(1) have "rwire (sent c) [] False r'" by (simp add: opened_def)
  then have "opened (c\<lparr>c_reader := r'\<rparr>)" "sent (c\<lparr>c_reader := r'\<rparr>) = sent c"
    using rwire_opened [of "sent c" "c\<lparr>c_reader := r'\<rparr>"] by simp_all
  with pk show ?thesis
    by (intro exI [of _ "c\<lparr>c_reader := r'\<rparr>"]) (simp add: on_reader_def on_part_def same_side_def)
qed

section \<open>What the server sends\<close>

lemma send_step:
  assumes "opened (s_conn s)" "all_sendable [res]"
  shows "send res s = (Ok (), s\<lparr>s_conn := fold put_out (wire_of [res]) (s_conn s)\<rparr>)"
  using ResponseMessage_Ok [of res _ "s_conn s"] opened_writable [OF assms(1)] assms(2)
  by (auto simp: send_def on_conn_def on_part_def all_sendable_def wire_of_def split: res.splits)

lemma sendable_message: "all_sendable [MessageResponse m]" "all_sendable [ErrorResponse m]"
  by (simp_all add: all_sendable_def Response_Bytes_def case_prod_beta)

lemma sendable_statuses: "all_sendable (ParameterStatuses sv c)" "all_sendable [BackendKeyData sv]"
proof -
  have "all_sendable (NewParameterStatusesWith entries)" for entries
    by (induction entries) (auto simp: all_sendable_def NewParameterStatusesWith_def Response_Bytes_def split: prod.split)
  then show "all_sendable (ParameterStatuses sv c)" by (simp add: ParameterStatuses_def)
qed (simp add: all_sendable_def BackendKeyData_def Response_Bytes_def case_prod_beta)

text \<open>What follows the answer to the credentials, whatever that answer was\<close>

definition greeting :: "('a, 'x) query_server_scheme \<Rightarrow> conn \<Rightarrow> bytes list" where
  "greeting sv c = wire_of (ParameterStatuses sv c @ [BackendKeyData sv]) @ [ready_frame c]"

lemma greeting_cong: "c_txLocked c = c_txLocked c' \<Longrightarrow> c_uuid c = c_uuid c' \<Longrightarrow> greeting sv c = greeting sv c'"
  by (simp add: greeting_def ready_frame_def ParameterStatuses_def)

lemma greeting_step:
  assumes "authenticateStartup p msg s = (Ok res, s1)" "opened (s_conn s1)" "all_sendable [res]"
    "ps_MessageHandler p = server_handler sv"
  shows "handleStartupMessage p msg s = (Ok (), s1\<lparr>s_conn :=
    fold put_out (wire_of [res] @ greeting sv (s_conn s1)) (s_conn s1)\<rparr>)"
proof -
  let ?c1 = "fold put_out (wire_of [res]) (s_conn s1)"
  let ?c2 = "fold put_out (wire_of (ParameterStatuses sv (s_conn s1))) ?c1"
  let ?c3 = "fold put_out (wire_of [BackendKeyData sv]) ?c2"
  have o: "opened ?c1" "opened ?c2" "opened ?c3" using assms(2) by (simp_all add: opened_fold_put_out)
  have "ResponseMessages (ParameterStatuses sv (s_conn s1)) ?c1 = (Ok (), ?c2)"
    by (rule ResponseMessages_Ok [OF sendable_list_all2 [OF sendable_statuses(1)] opened_writable [OF o(1)]])
  moreover have "ParameterStatuses sv ?c1 = ParameterStatuses sv (s_conn s1)"
    by (simp add: ParameterStatuses_def)
  moreover have "ReadyForMessage ?c3 = (Ok (), put_out (ready_frame (s_conn s1)) ?c3)"
    using ready_message [OF opened_writable [OF o(3)]] by (simp add: ready_frame_def)
  moreover have send3: "send (BackendKeyData sv) (s1\<lparr>s_conn := ?c2\<rparr>) = (Ok (), s1\<lparr>s_conn := ?c3\<rparr>)"
    using send_step [of "s1\<lparr>s_conn := ?c2\<rparr>" "BackendKeyData sv"] o(2) by (simp add: sendable_statuses)
  ultimately show ?thesis
    using send_step [OF assms(2,3)] send3
    by (simp add: handleStartupMessage_def assms(1,4) goseq_def server_handler_def ret_def gets_def on_conn_def
        on_part_def greeting_def)
qed

section \<open>The dialogue\<close>

text \<open>A protocol server over the small server, with an authenticator and without TLS\<close>

definition any_user_server :: "(string \<Rightarrow> string \<Rightarrow> bool go) \<Rightarrow> nat protocol_server" where
  "any_user_server verify =
     \<lparr>ps_MessageHandler = server_handler (small_server (Some counting_executor) (\<lambda>q. Ok [])),
      ps_VerifyCredential = \<lambda>c. verify, ps_TLSConfig = Ok False, ps_Handshake = fail EOF,
      ps_VerifyCertificate = \<lambda>_. (False, None), ps_tls_uuid = 2\<rparr>"

lemma client_session_opened:
  "opened (s_conn (client_session a bs))" "peekBuf (c_reader (s_conn (client_session a bs))) = []"
  by (simp_all add: client_session_def NewConnWith_def NewReaderWithConn_def new_net_conn_def opened_def
      rwire_def wire_def sent_def)

lemma peek_ready: "opened c \<Longrightarrow> peekBuf (c_reader c) = [] \<Longrightarrow>
    reader_pending (c_reader c) = enc_startup params @ rest \<Longrightarrow> length (enc_params params) + 9 < 2 ^ 31 \<Longrightarrow>
    \<exists>c' n. on_reader PeekInt32 c = (Ok n, c') \<and> n \<noteq> 8 \<and> opened c' \<and> same_side c c' \<and>
      reader_pending (c_reader c') = enc_startup params @ rest"
proof -
  assume c: "opened c" "peekBuf (c_reader c) = []" "reader_pending (c_reader c) = enc_startup params @ rest"
    and len: "length (enc_params params) + 9 < 2 ^ 31"
  let ?n = "of_nat (length (enc_params params) + 9) :: 32 word"
  have n: "sint ?n = int (length (enc_params params) + 9)" using len by (rule sint_of_nat_small)
  have "?n \<noteq> 8"
  proof
    assume "?n = 8"
    have "sint ?n = sint (8 :: 32 word)" by (rule arg_cong [OF \<open>?n = 8\<close>])
    with n show False by simp
  qed
  moreover obtain c' where "on_reader PeekInt32 c = (Ok ?n, c')" "opened c'" "same_side c c'"
    "reader_pending (c_reader c') = enc_startup params @ rest"
    using peek_length [OF c(1,2), of ?n "Int32ToBytes protocol_3_0 @ enc_params params @ [0] @ rest"] c(3)
    by (auto simp: enc_startup_def)
  ultimately show ?thesis by blast
qed

text \<open>Without a request for TLS, the startup phase is the startup message and its answer.\<close>

lemma startup_phase_plain:
  assumes "opened (s_conn s)" "peekBuf (c_reader (s_conn s)) = []" "startup_ok params"
    "length (enc_params params) + 9 < 2 ^ 31"
    "reader_pending (c_reader (s_conn s)) = enc_startup params @ rest"
  obtains c msg where "opened c" "same_side (s_conn s) c" "reader_pending (c_reader c) = rest"
    "su_Parameters msg = map_of (rev params)"
    "startup_phase p s = goseq (or_report (handleStartupMessage p msg)) (\<lambda>_.
       goseq (on_conn (SetDatabase (case Startup_Database msg of None \<Rightarrow> [] | Some db \<Rightarrow> db))) (\<lambda>_. ret True))
       (s\<lparr>s_conn := c\<rparr>)"
proof -
  obtain c1 n where c1: "on_reader PeekInt32 (s_conn s) = (Ok n, c1)" "n \<noteq> 8" "opened c1" "same_side (s_conn s) c1"
    "reader_pending (c_reader c1) = enc_startup params @ rest"
    using peek_ready [OF assms(1,2,5,4)] by blast
  obtain msg c2 where c2: "on_reader NewStartupWithReader c1 = (Ok msg, c2)" "su_Parameters msg = map_of (rev params)"
    "opened c2" "same_side c1 c2" "reader_pending (c_reader c2) = rest"
    using opened_step [OF any_reader.parses_Startup [OF assms(3,4)] keeps_wire_NewStartupWithReader c1(3,5)]
    by force
  have "negotiateSSL p s = (Ok True, s\<lparr>s_conn := c1\<rparr>)"
    using c1(1,2)
    by (simp add: negotiateSSL_def or_report_def goseq_def gotry_def on_conn_def on_part_def ret_def)
  moreover have "or_report (on_conn (on_reader NewStartupWithReader)) (s\<lparr>s_conn := c1\<rparr>) =
      (Ok msg, s\<lparr>s_conn := c2\<rparr>)"
    using c2(1) by (simp add: or_report_def goseq_def gotry_def on_conn_def on_part_def ret_def)
  ultimately show thesis
    using that [OF c2(3) same_side_trans [OF c1(4) c2(4)] c2(5,2)]
    by (simp add: startup_phase_def goseq_def)
qed

lemma sent_db [simp]: "sent (c\<lparr>c_db := db\<rparr>) = sent c"
  by (simp add: sent_def)

lemma startup_phase_end:
  assumes "authenticateStartup p msg s = (Ok res, s1)" "opened (s_conn s1)" "all_sendable [res]"
    "ps_MessageHandler p = server_handler sv"
  shows "\<exists>c'. goseq (or_report (handleStartupMessage p msg)) (\<lambda>_.
       goseq (on_conn (SetDatabase db)) (\<lambda>_. ret True)) s = (Ok True, s1\<lparr>s_conn := c'\<rparr>) \<and>
     sent c' = sent (s_conn s1) @ wire_of [res] @ greeting sv (s_conn s1) \<and> Database c' = db \<and>
     reader_pending (c_reader c') = reader_pending (c_reader (s_conn s1))"
  using greeting_step [OF assms] opened_writable [OF assms(2)]
  by (intro exI [of _ "(fold put_out (wire_of [res] @ greeting sv (s_conn s1)) (s_conn s1))\<lparr>c_db := db\<rparr>"])
    (simp add: or_report_def goseq_def gotry_def on_conn_def on_part_def ret_def SetDatabase_def modify_def
      Database_def)

text \<open>
  C24: a client that names no user gets an error message, and then a session. The server reports the
  error and goes on with the parameters, the key and the ready message; the database the client asked
  for is set, and the requests it sends next are served. No credential was ever asked for.
\<close>

theorem startup_without_user:
  assumes "opened (s_conn s)" and "peekBuf (c_reader (s_conn s)) = []" and "startup_ok params"
    and "length (enc_params params) + 9 < 2 ^ 31"
    and "reader_pending (c_reader (s_conn s)) = enc_startup params @ rest"
    and "map_of (rev params) StartUpUser = None" and "ps_MessageHandler p = server_handler sv"
  shows "\<exists>s'. startup_phase p s = (Ok True, s') \<and>
    sent (s_conn s') = sent (s_conn s) @ wire_of [ErrorResponse NewErrorResponse] @ greeting sv (s_conn s) \<and>
    Database (s_conn s') = (case map_of (rev params) StartUpDatabase of None \<Rightarrow> [] | Some db \<Rightarrow> db) \<and>
    reader_pending (c_reader (s_conn s')) = rest"
proof -
  obtain c msg where c: "opened c" "same_side (s_conn s) c" "reader_pending (c_reader c) = rest"
    "su_Parameters msg = map_of (rev params)"
    "startup_phase p s = goseq (or_report (handleStartupMessage p msg)) (\<lambda>_.
       goseq (on_conn (SetDatabase (case Startup_Database msg of None \<Rightarrow> [] | Some db \<Rightarrow> db))) (\<lambda>_. ret True))
       (s\<lparr>s_conn := c\<rparr>)"
    using startup_phase_plain [OF assms(1-5)] .
  have "authenticateStartup p msg (s\<lparr>s_conn := c\<rparr>) = (Ok (ErrorResponse NewErrorResponse), s\<lparr>s_conn := c\<rparr>)"
    using c(4) assms(6)
    by (simp add: authenticateStartup_def authenticate_def Startup_User_def goseq_def ret_def)
  moreover have "greeting sv c = greeting sv (s_conn s)" using c(2) by (auto simp: same_side_def intro: greeting_cong)
  ultimately show ?thesis
    using startup_phase_end [of p msg "s\<lparr>s_conn := c\<rparr>", OF _ _ sendable_message(2) assms(7)] c
    by (fastforce simp: same_side_def Startup_Database_def)
qed

theorem startup_without_user_witness:
  "let p = (any_user_server (\<lambda>u pw. Ok False));
       s = client_session 0 (enc_startup [(''database'', ''db'')] @ frame QueryMessage [68, 0])
   in \<exists>s'. startup_phase p s = (Ok True, s') \<and> Database (s_conn s') = ''db'' \<and>
        reader_pending (c_reader (s_conn s')) = frame QueryMessage [68, 0]"
proof -
  let ?s = "client_session 0 (enc_startup [(''database'', ''db'')] @ frame QueryMessage [68, 0]) :: nat session"
  have "startup_ok [(''database'', ''db'')]"
    by (simp add: startup_ok_def no_nul_def bytes_of_string_def byte_of_char_def)
  moreover have "length (enc_params [(''database'', ''db'')]) + 9 < 2 ^ 31" by (simp add: enc_params_def)
  ultimately show ?thesis
    using startup_without_user [of ?s "[(''database'', ''db'')]" "frame QueryMessage [68, 0]"
        "any_user_server (\<lambda>u pw. Ok False)" "small_server (Some counting_executor) (\<lambda>q. Ok [])"]
    by (auto simp: client_session_opened Let_def any_user_server_def StartUpUser_def StartUpDatabase_def)
qed

text \<open>
  a client whose password is refused gets an error message where the others get their
  authentication confirmed, and nothing else differs: it has a session like them.
\<close>

theorem startup_with_password:
  assumes "opened (s_conn s)" and "peekBuf (c_reader (s_conn s)) = []" and "startup_ok params"
    and "length (enc_params params) + 9 < 2 ^ 31"
    and "reader_pending (c_reader (s_conn s)) = enc_startup params @ frame PasswordMessage (cstring pw) @ rest"
    and "map_of (rev params) StartUpUser = Some user" and "no_nul pw"
    and "\<And>c. ps_VerifyCredential p c user pw = Ok ok" and "ps_MessageHandler p = server_handler sv"
  shows "\<exists>s'. startup_phase p s = (Ok True, s') \<and>
    sent (s_conn s') = sent (s_conn s) @ wire_of [MessageResponse NewAuthenticationCleartextPassword,
        if ok then MessageResponse NewAuthenticationOk else ErrorResponse NewErrorResponse] @
      greeting sv (s_conn s) \<and>
    Database (s_conn s') = (case map_of (rev params) StartUpDatabase of None \<Rightarrow> [] | Some db \<Rightarrow> db) \<and>
    reader_pending (c_reader (s_conn s')) = rest"
proof -
  let ?ask = "MessageResponse NewAuthenticationCleartextPassword"
  let ?res = "if ok then MessageResponse NewAuthenticationOk else ErrorResponse NewErrorResponse"
  obtain c msg where c: "opened c" "same_side (s_conn s) c"
    "reader_pending (c_reader c) = frame PasswordMessage (cstring pw) @ rest"
    "su_Parameters msg = map_of (rev params)"
    "startup_phase p s = goseq (or_report (handleStartupMessage p msg)) (\<lambda>_.
       goseq (on_conn (SetDatabase (case Startup_Database msg of None \<Rightarrow> [] | Some db \<Rightarrow> db))) (\<lambda>_. ret True))
       (s\<lparr>s_conn := c\<rparr>)"
    using startup_phase_plain [OF assms(1-5)] .
  let ?c1 = "fold put_out (wire_of [?ask]) c"
  have o: "opened ?c1" using c(1) by (rule opened_fold_put_out)
  obtain m c2 where c2: "on_reader NewPasswordWithReader ?c1 = (Ok m, c2)" "password_Password m = pw"
    "opened c2" "same_side ?c1 c2" "reader_pending (c_reader c2) = rest"
  proof -
    have "reader_pending (c_reader ?c1) = (header PasswordMessage (of_nat (length (cstring pw) + 4)) @ cstring pw) @ rest"
      using c(3) by (simp add: frame_def)
    from opened_step [OF any_reader.parses_Password [OF assms(7)] keeps_wire_NewPasswordWithReader o this]
    show thesis using that by force
  qed
  have send: "send ?ask (s\<lparr>s_conn := c\<rparr>) = (Ok (), s\<lparr>s_conn := ?c1\<rparr>)"
    using send_step [of "s\<lparr>s_conn := c\<rparr>" ?ask] c(1) sendable_message by simp
  have auth: "authenticateStartup p msg (s\<lparr>s_conn := c\<rparr>) = (Ok ?res, s\<lparr>s_conn := c2\<rparr>)"
    using c(4) assms(6,8) send c2(1,2)
    by (simp add: authenticateStartup_def authenticate_def Startup_User_def goseq_def ret_def gets_def
        lift_res_def on_conn_def on_part_def)
  have res: "all_sendable [?res]" by (simp add: sendable_message)
  have sent2: "sent c2 = sent (s_conn s) @ wire_of [?ask]"
    using c2(4) c(2) opened_writable [OF c(1)] by (simp add: same_side_def)
  have split: "wire_of [?ask, ?res] = wire_of [?ask] @ wire_of [?res]" by (simp add: wire_of_def)
  have "greeting sv c2 = greeting sv (s_conn s)"
    using c2(4) c(2) by (auto simp: same_side_def intro: greeting_cong)
  with startup_phase_end [OF auth _ res assms(9)] c2 sent2 c(4,5) show ?thesis
    by (fastforce simp: split Startup_Database_def)
qed

theorem startup_with_password_witness:
  "\<exists>s'. startup_phase (any_user_server (\<lambda>u pw. Ok (pw = ''right'')))
      (client_session 0 (enc_startup [(''user'', ''u'')] @ frame PasswordMessage (cstring ''wrong''))) = (Ok True, s') \<and>
    sent (s_conn s') ! 1 = hd (wire_of [ErrorResponse NewErrorResponse]) \<and>
    last (sent (s_conn s')) = frame ReadyForQueryMessage [TransactionIdle]"
proof -
  let ?s = "client_session 0 (enc_startup [(''user'', ''u'')] @ frame PasswordMessage (cstring ''wrong''))"
  have "startup_ok [(''user'', ''u'')]" "no_nul ''wrong''"
    by (simp_all add: startup_ok_def no_nul_def bytes_of_string_def byte_of_char_def)
  moreover have "length (enc_params [(''user'', ''u'')]) + 9 < 2 ^ 31" by (simp add: enc_params_def)
  ultimately show ?thesis
    using startup_with_password [of ?s "[(''user'', ''u'')]" "''wrong''" "[]" "''u''"
        "any_user_server (\<lambda>u pw. Ok (pw = ''right''))" False "small_server (Some counting_executor) (\<lambda>q. Ok [])"]
    by (auto simp: client_session_opened any_user_server_def StartUpUser_def wire_of_def greeting_def ready_frame_def)
qed

end
