(* ===== verification/Whole_Connections.thy ===== *)
theory Whole_Connections
  imports Served_Conversations Startup_Proofs
begin

text \<open>
  A connection from its first byte to its last: startup message, password, the conversation, and the
  end. The client waits for each answer before it goes on, as clients do.
\<close>

section \<open>Segments that are read to their end\<close>

text \<open>At most one segment has arrived, and it has bytes left.\<close>

definition solid :: "reader \<Rightarrow> bool" where
  "solid r \<longleftrightarrow> (\<exists>nc. rsrc r = NetConn nc \<and> (inbox nc = [] \<or> (\<exists>b. inbox nc = [Arrive b] \<and> b \<noteq> [])))"

definition solid_source :: "io_source \<Rightarrow> bool" where
  "solid_source src \<longleftrightarrow> solid \<lparr>rsrc = src, peekBuf = []\<rparr>"

lemma solid_iff: "solid r \<longleftrightarrow> solid_source (rsrc r)"
  by (simp add: solid_def solid_source_def)

lemma solid_src_Read: "src_Read n src = (x, src') \<Longrightarrow> solid_source src \<Longrightarrow> solid_source src'"
proof -
  assume read: "src_Read n src = (x, src')" and "solid_source src"
  then obtain nc where nc: "src = NetConn nc" "inbox nc = [] \<or> (\<exists>b. inbox nc = [Arrive b] \<and> b \<noteq> [])"
    by (auto simp: solid_source_def solid_def)
  with read show ?thesis
    by (auto simp: solid_source_def solid_def src_Read_def conn_Read_def split: if_splits)
qed

lemma solid_read_loop:
  "read_loop src_Read fuel need src = Some (x, src') \<Longrightarrow> solid_source src \<Longrightarrow> solid_source src'"
proof (induction fuel arbitrary: need src x)
  case (Suc fuel)
  then show ?case
    by (auto split: if_splits prod.splits option.splits dest: solid_src_Read)
qed (auto split: if_splits)

lemma keeps_solid_ReadBytes [keeps_intros]: "keeps solid (ReadBytes n)"
  by (rule keepsI)
    (auto simp: solid_iff ReadBytes_def Let_def ReadAtLeast_def split: prod.splits option.splits if_splits
      dest: solid_read_loop)

lemma keeps_solid_peeked [keeps_intros]: "keeps solid (modify (\<lambda>r. r\<lparr>peekBuf := peekBuf r @ buf\<rparr>))"
  by (rule keepsI) (simp add: solid_iff modify_def)

lemma keeps_solid_ReadByte [keeps_intros]: "keeps solid ReadByte"
  unfolding ReadByte_def by (intro keeps_intros)

lemma keeps_solid_ReadInt32 [keeps_intros]: "keeps solid ReadInt32"
  unfolding ReadInt32_def by (intro keeps_intros)

lemma keeps_solid_PeekInt32 [keeps_intros]: "keeps solid PeekInt32"
  unfolding PeekInt32_def PeekBytes_def by (intro keeps_intros)

lemma solid_ReadBytesUntil_loop: "solid r \<Longrightarrow> solid (snd (ReadBytesUntil_loop delim buf r))"
proof (induction delim buf r rule: ReadBytesUntil_loop.induct)
  case (1 delim buf r)
  obtain x r1 where rb: "ReadByte r = (x, r1)" by fastforce
  with keepsD [OF keeps_solid_ReadByte 1(2)] have "solid r1" by blast
  then show ?case
    using 1(1) [OF rb [symmetric]] rb by (cases x) (simp_all add: ReadBytesUntil_loop.simps [of delim buf r])
qed

lemma keeps_solid_ReadString [keeps_intros]: "keeps solid ReadString"
  unfolding ReadString_def ReadBytesUntil_def
  by (intro keeps_intros) (simp add: keeps_def solid_ReadBytesUntil_loop)

lemma keeps_solid_NewPasswordWithReader [keeps_intros]: "keeps solid NewPasswordWithReader"
  unfolding NewPasswordWithReader_def NewRequestMessageWithReader_def NewMessageWithReader_def ReadType_def
    ReadLength_def by (intro keeps_intros)

lemma keeps_solid_NewStartupWithReader [keeps_intros]: "keeps solid NewStartupWithReader"
  unfolding NewStartupWithReader_def Let_def by (intro keeps_intros keeps_startup_loop)

lemma prompt_startup_loop [prompt_intros]: "prompt (startup_loop msgLen readLen params)"
proof (induction msgLen readLen params rule: startup_loop.induct)
  case (1 msgLen readLen params)
  have "prompt (if length k = 0 then ret params
      else goseq ReadString (\<lambda>v. startup_loop msgLen
        (readLen + (int (length k) + 1) + (int (length v) + 1)) (params(k \<mapsto> v))))"
    if "readLen < msgLen" for k
  proof (cases "length k = 0")
    case False
    show ?thesis
      by (simp only: False if_False) (rule prompt_goseq [OF prompt_ReadString], rule 1 [OF that False])
  qed (simp add: prompt_ret)
  then show ?case
    by (cases "readLen < msgLen")
      (auto simp: startup_loop.simps [of msgLen] intro!: prompt_goseq prompt_ReadString prompt_ret)
qed

lemma prompt_startup [prompt_intros]: "prompt NewStartupWithReader" "prompt PeekInt32" "prompt NewPasswordWithReader"
  unfolding NewStartupWithReader_def Let_def PeekInt32_def PeekBytes_def NewPasswordWithReader_def
  by (intro prompt_intros)+

text \<open>An open connection without a segment is drained, and a segment makes it solid.\<close>

lemma drained_when_read: "opened c \<Longrightarrow> solid (c_reader c) \<Longrightarrow> reader_pending (c_reader c) = [] \<Longrightarrow> drained c"
  by (auto simp: drained_def opened_def solid_def fronted_def idle_def rwire_def wire_def whole_source_def
      reader_pending_def src_pending_def conn_pending_def)

lemma drained_segment:
  assumes "drained c" "b \<noteq> []"
  shows "opened (later [Arrive b] c)" "solid (c_reader (later [Arrive b] c))" "peekBuf (c_reader (later [Arrive b] c)) = []"
    "reader_pending (c_reader (later [Arrive b] c)) = b"
  using assms drained_later [OF assms(1), of b]
  by (auto simp: drained_def opened_def solid_def fronted_def idle_def rwire_def wire_def later_def reader_later_def
      src_later_def sent_def split: io_source.splits)

lemma segment_step:
  assumes "parses (\<lambda>_. True) m bs x" "\<And>out. keeps (rwire out [] False) m" "keeps solid m"
    and "opened c" "solid (c_reader c)" "reader_pending (c_reader c) = bs"
  shows "\<exists>c'. on_reader m c = (Ok x, c') \<and> drained c' \<and> same_side c c'"
proof -
  obtain c' where c': "on_reader m c = (Ok x, c')" "opened c'" "same_side c c'" "reader_pending (c_reader c') = []"
    using opened_step [OF assms(1,2,4), of "[]"] assms(6) by auto
  then obtain r' where "m (c_reader c) = (Ok x, r')" "c_reader c' = r'"
    by (auto simp: on_reader_def on_part_def split: prod.splits)
  with keepsD [OF assms(3,5)] c' drained_when_read show ?thesis by blast
qed

section \<open>A silence before a blocking read\<close>

lemma src_Read_silence:
  assumes "drained c" "0 < n"
  shows "src_Read n (rsrc (c_reader (later (Silence # es) c))) = src_Read n (rsrc (c_reader (later es c)))"
proof -
  obtain nc where "rsrc (c_reader c) = NetConn nc" "inbox nc = []" "\<not> read_deadline nc" "\<not> conn_closed nc"
    using assms(1) by (auto simp: drained_def fronted_def idle_def rwire_def wire_def split: io_source.splits)
  then show ?thesis using assms(2) by (simp add: src_Read_def conn_Read_def src_later_def)
qed

lemma ReadBytes_silence:
  assumes "drained c" "0 < n"
  shows "on_reader (ReadBytes n) (later (Silence # es) c) = on_reader (ReadBytes n) (later es c)"
proof -
  obtain m where n: "n = Suc m" using assms(2) by (cases n) simp_all
  have "ReadAtLeast src_Read n (rsrc (c_reader (later (Silence # es) c))) = ReadAtLeast src_Read n (rsrc (c_reader (later es c)))"
  proof -
    have "read_loop src_Read n n (rsrc (c_reader (later (Silence # es) c))) = read_loop src_Read n n (rsrc (c_reader (later es c)))"
      using src_Read_silence [OF assms, of es] by (simp add: n)
    moreover have "read_loop src_Read n n (rsrc (c_reader (later es c))) \<noteq> None" by (rule src_io.enough_fuel) simp
    ultimately show ?thesis by (auto simp: ReadAtLeast_def)
  qed
  moreover have "peekBuf (c_reader c) = []" using assms(1) by (simp add: drained_def)
  ultimately show ?thesis
    using assms(2)
    by (simp add: on_reader_def on_part_def ReadBytes_def Let_def later_def reader_later_def split: prod.split option.split)
qed

lemma on_reader_goseq: "on_reader (goseq m f) = goseq (on_reader m) (\<lambda>x. on_reader (f x))"
  by (rule ext) (simp add: on_reader_def on_part_def goseq_def split: prod.split res.split)

lemma reads_silence:
  assumes "drained c"
  shows "on_reader PeekType (later (Silence # es) c) = on_reader PeekType (later es c)"
    and "on_reader NewPasswordWithReader (later (Silence # es) c) = on_reader NewPasswordWithReader (later es c)"
  unfolding PeekType_def PeekBytes_def NewPasswordWithReader_def NewRequestMessageWithReader_def NewMessageWithReader_def
    ReadType_def ReadByte_def on_reader_goseq goseq_assoc
  by (rule goseq_start, rule ReadBytes_silence [OF assms], simp)+

lemma receive_step_silence:
  assumes "drained c" "s_conn s = later (Silence # es) c"
  shows "receive_step h s = receive_step h (s\<lparr>s_conn := later es c\<rparr>)"
  unfolding receive_step_def
  by (rule goseq_start)
    (use assms reads_silence(1) [OF assms(1), of es] in \<open>simp add: gotry_def on_conn_def on_part_def split: prod.split\<close>)

lemma receive_loop_silence:
  assumes "drained c" "s_conn s = later (Silence # es) c"
  shows "receive_loop n h s = receive_loop n h (s\<lparr>s_conn := later es c\<rparr>)"
  using receive_step_silence [OF assms] by (cases n) simp_all

section \<open>The startup\<close>

lemma opened_later [simp]: "opened (later es c) \<longleftrightarrow> opened c"
  by (auto simp: opened_def rwire_def wire_def later_def reader_later_def src_later_def sent_def split: io_source.splits)

lemma drained_opened: "drained c \<Longrightarrow> opened c"
  by (auto simp: drained_def fronted_def idle_def rwire_def wire_def opened_def sent_def)

lemma drained_fold_put_out: "drained c \<Longrightarrow> drained (fold put_out bs c)"
  by (induction bs arbitrary: c) (simp_all add: drained_put_out)

lemma drained_db [simp]: "drained (c\<lparr>c_db := db\<rparr>) \<longleftrightarrow> drained c"
  by (simp add: drained_def fronted_def idle_def)

lemma later_db: "(later es c)\<lparr>c_db := db\<rparr> = later es (c\<lparr>c_db := db\<rparr>)"
  by (simp add: later_def)

text \<open>What the client sends before the conversation\<close>

definition opening_events :: "(string \<times> string) list \<Rightarrow> string \<Rightarrow> net_event list \<Rightarrow> net_event list" where
  "opening_events params pw es =
     Arrive (enc_startup params) # Silence # Arrive (frame PasswordMessage (cstring pw)) # Silence # es"

definition database_of :: "(string \<times> string) list \<Rightarrow> string" where
  "database_of params = (case map_of (rev params) StartUpDatabase of None \<Rightarrow> [] | Some db \<Rightarrow> db)"

lemma startup_read:
  assumes "drained c" "s_conn s = later (Arrive (enc_startup params) # es) c" "startup_ok params"
    and "length (enc_params params) + 9 < 2 ^ 31"
  obtains c' msg where "drained c'" "same_side c c'" "su_Parameters msg = map_of (rev params)"
    "startup_phase p s = goseq (or_report (handleStartupMessage p msg)) (\<lambda>_.
       goseq (on_conn (SetDatabase (case Startup_Database msg of None \<Rightarrow> [] | Some db \<Rightarrow> db))) (\<lambda>_. ret True))
       (s\<lparr>s_conn := later es c'\<rparr>)"
proof -
  let ?c = "later [Arrive (enc_startup params)] c"
  have "enc_startup params \<noteq> []" by (simp add: enc_startup_def)
  note c = drained_segment [OF assms(1) this]
  have same: "same_side c ?c" by (simp add: same_side_def)
  obtain c1 n where c1: "on_reader PeekInt32 ?c = (Ok n, c1)" "n \<noteq> 8" "opened c1" "same_side ?c c1"
    "reader_pending (c_reader c1) = enc_startup params @ []"
    using peek_ready [OF c(1,3) _ assms(4), of "[]"] c(4) by auto
  then obtain r' where "PeekInt32 (c_reader ?c) = (Ok n, r')" "c_reader c1 = r'"
    by (auto simp: on_reader_def on_part_def split: prod.splits)
  with keepsD [OF keeps_solid_PeekInt32 c(2)] have "solid (c_reader c1)" by simp
  from segment_step [OF any_reader.parses_Startup [OF assms(3,4)] keeps_wire_NewStartupWithReader
      keeps_solid_NewStartupWithReader c1(3) this] c1(5)
  obtain msg c2 where c2: "on_reader NewStartupWithReader c1 = (Ok msg, c2)" "su_Parameters msg = map_of (rev params)"
    "drained c2" "same_side c1 c2" by fastforce
  have conn: "s_conn s = later es ?c" using assms(2) by simp
  have "negotiateSSL p s = (Ok True, s\<lparr>s_conn := later es c1\<rparr>)"
    using on_reader_later [OF prompt_startup(2) c1(1), of es] c1(2) conn
    by (simp add: negotiateSSL_def or_report_def goseq_def gotry_def on_conn_def on_part_def ret_def)
  moreover have "or_report (on_conn (on_reader NewStartupWithReader)) (s\<lparr>s_conn := later es c1\<rparr>) =
      (Ok msg, s\<lparr>s_conn := later es c2\<rparr>)"
    using on_reader_later [OF prompt_startup(1) c2(1), of es]
    by (simp add: or_report_def goseq_def gotry_def on_conn_def on_part_def ret_def)
  ultimately show thesis
    using that [OF c2(3) same_side_trans [OF same same_side_trans [OF c1(4) c2(4)]] c2(2)]
    by (simp add: startup_phase_def goseq_def)
qed

abbreviation authentication_answers :: "bool \<Rightarrow> responses" where
  "authentication_answers ok \<equiv> [MessageResponse NewAuthenticationCleartextPassword,
     if ok then MessageResponse NewAuthenticationOk else ErrorResponse NewErrorResponse]"

text \<open>What follows the startup message, from the request for the password to the ready message\<close>

definition greeted_startup :: "'a protocol_server \<Rightarrow> startup \<Rightarrow> ('a, bool) sm" where
  "greeted_startup p msg = goseq (or_report (handleStartupMessage p msg)) (\<lambda>_.
     goseq (on_conn (SetDatabase (case Startup_Database msg of None \<Rightarrow> [] | Some db \<Rightarrow> db))) (\<lambda>_. ret True))"

lemma greeted_startup_held:
  assumes "drained c1" "su_Parameters msg = map_of (rev params)" "map_of (rev params) StartUpUser = Some user" "no_nul pw"
    and "\<And>c. ps_VerifyCredential p c user pw = Ok ok" "ps_MessageHandler p = server_handler sv"
  shows "\<exists>c'. greeted_startup p msg (s\<lparr>s_conn := later (Silence # Arrive (frame PasswordMessage (cstring pw)) # Silence # es) c1\<rparr>) =
      (Ok True, s\<lparr>s_conn := later (Silence # es) c'\<rparr>) \<and> drained c' \<and>
    sent c' = sent c1 @ wire_of (authentication_answers ok) @ greeting sv c1 \<and> Database c' = database_of params \<and>
    c_txLocked c' = c_txLocked c1 \<and> c_uuid c' = c_uuid c1 \<and> c_tls c' = c_tls c1"
proof -
  let ?ask = "MessageResponse NewAuthenticationCleartextPassword"
  let ?res = "if ok then MessageResponse NewAuthenticationOk else ErrorResponse NewErrorResponse"
  let ?pwf = "frame PasswordMessage (cstring pw)"
  let ?s1 = "s\<lparr>s_conn := later (Silence # Arrive ?pwf # Silence # es) c1\<rparr>"
  let ?c2 = "fold put_out (wire_of [?ask]) c1"
  have d2: "drained ?c2" using assms(1) by (rule drained_fold_put_out)
  have "opened (s_conn ?s1)" using drained_opened [OF assms(1)] by simp
  from send_step [OF this] have send: "send ?ask ?s1 = (Ok (), s\<lparr>s_conn := later (Silence # Arrive ?pwf # Silence # es) ?c2\<rparr>)"
    by (simp add: sendable_message fold_put_out_later)
  have "?pwf \<noteq> []" by simp
  note seg = drained_segment [OF d2 this]
  have "reader_pending (c_reader (later [Arrive ?pwf] ?c2)) = header PasswordMessage (of_nat (length (cstring pw) + 4)) @ cstring pw"
    using seg(4) by (simp only: frame_def)
  from segment_step [OF any_reader.parses_Password [OF assms(4)] keeps_wire_NewPasswordWithReader
      keeps_solid_NewPasswordWithReader seg(1,2) this]
  obtain m c3 where c3: "on_reader NewPasswordWithReader (later [Arrive ?pwf] ?c2) = (Ok m, c3)" "password_Password m = pw"
    "drained c3" "same_side (later [Arrive ?pwf] ?c2) c3" by fastforce
  have read: "on_reader NewPasswordWithReader (later (Silence # Arrive ?pwf # Silence # es) ?c2) =
      (Ok m, later (Silence # es) c3)"
    using reads_silence(2) [OF d2, of "Arrive ?pwf # Silence # es"]
      on_reader_later [OF prompt_startup(3) c3(1), of "Silence # es"] by simp
  let ?s3 = "s\<lparr>s_conn := later (Silence # es) c3\<rparr>"
  have auth: "authenticateStartup p msg ?s1 = (Ok ?res, ?s3)"
    using assms(2,3,5) send read c3(2)
    by (simp add: authenticateStartup_def authenticate_def Startup_User_def goseq_def ret_def gets_def
        lift_res_def on_conn_def on_part_def)
  have same3: "sent c3 = sent c1 @ wire_of [?ask]" "c_txLocked c3 = c_txLocked c1" "c_uuid c3 = c_uuid c1" "c_tls c3 = c_tls c1"
    using c3(4) opened_writable [OF drained_opened [OF assms(1)]] by (simp_all add: same_side_def)
  have o3: "opened (s_conn ?s3)" using drained_opened [OF c3(3)] by simp
  have "all_sendable [?res]" by (simp add: sendable_message)
  note greeted = greeting_step [OF auth o3 this assms(6)]
  define answer where "answer = wire_of [?res] @ greeting sv c1"
  have "wire_of [?res] @ greeting sv (s_conn ?s3) = answer"
    using same3(2,3) greeting_cong [of "s_conn ?s3" c1 sv] by (simp add: answer_def)
  with greeted have hs: "handleStartupMessage p msg ?s1 = (Ok (), s\<lparr>s_conn := later (Silence # es) (fold put_out answer c3)\<rparr>)"
    by (simp only:) (simp add: fold_put_out_later)
  let ?c4 = "(fold put_out answer c3)\<lparr>c_db := database_of params\<rparr>"
  have "greeted_startup p msg ?s1 = (Ok True, s\<lparr>s_conn := later (Silence # es) ?c4\<rparr>)"
    unfolding greeted_startup_def using hs assms(2)
    by (simp add: or_report_def goseq_def gotry_def on_conn_def on_part_def ret_def SetDatabase_def modify_def
        Startup_Database_def database_of_def later_db)
  moreover have "drained ?c4" using drained_fold_put_out [OF c3(3)] by simp
  moreover have "sent ?c4 = sent c1 @ wire_of (authentication_answers ok) @ greeting sv c1"
    using same3(1) opened_writable [OF drained_opened [OF c3(3)]] by (simp add: wire_of_def answer_def)
  ultimately show ?thesis
    using same3(2-4) by (intro exI [of _ ?c4]) (simp add: Database_def)
qed

lemma startup_held:
  assumes "drained c" "s_conn s = later (opening_events params pw es) c" "startup_ok params"
    and "length (enc_params params) + 9 < 2 ^ 31" "map_of (rev params) StartUpUser = Some user" "no_nul pw"
    and "\<And>c. ps_VerifyCredential p c user pw = Ok ok" "ps_MessageHandler p = server_handler sv"
  shows "\<exists>c'. startup_phase p s = (Ok True, s\<lparr>s_conn := later (Silence # es) c'\<rparr>) \<and> drained c' \<and>
    sent c' = sent c @ wire_of (authentication_answers ok) @ greeting sv c \<and> Database c' = database_of params \<and>
    c_txLocked c' = c_txLocked c \<and> c_uuid c' = c_uuid c \<and> c_tls c' = c_tls c"
proof -
  obtain c1 msg where c1: "drained c1" "same_side c c1" "su_Parameters msg = map_of (rev params)"
    "startup_phase p s = greeted_startup p msg
       (s\<lparr>s_conn := later (Silence # Arrive (frame PasswordMessage (cstring pw)) # Silence # es) c1\<rparr>)"
    using startup_read [OF assms(1) assms(2) [unfolded opening_events_def] assms(3,4), where p = p]
    unfolding greeted_startup_def by metis
  have "greeting sv c1 = greeting sv c" using c1(2) by (auto simp: same_side_def intro: greeting_cong)
  with greeted_startup_held [OF c1(1,3) assms(5-8), of es s] c1(2,4) show ?thesis by (simp add: same_side_def)
qed

section \<open>The whole connection\<close>

lemma close_session_view [simp]: "view_of (close_session s) = view_of s"
  by (simp add: view_of_def)

lemma sent_below_close [simp]: "sent_below (snd (conn_impl_Close c)) = sent_below c"
  by (simp add: sent_below_def)

lemma loop_served:
  assumes "drained c" "s_conn s = later (Silence # conversation_events bs final rest) c" "Database c = db"
    and "server_semantics sv sem db S"
    and "\<forall>b \<in> set bs. b \<noteq> [] \<and> list_all valid_client b" "list_all valid_client final"
    and "conversation_meaning sv sem bs final (view_of s) = (out, r, v)"
  shows "\<exists>s'. receive_loop (length (concat bs) + length final + 1) (server_handler sv) s = Some (r, s') \<and>
    view_of s' = v \<and> sent (s_conn s') = sent c @ out \<and> c_tls (s_conn s') = c_tls c"
proof -
  let ?s = "s\<lparr>s_conn := later (conversation_events bs final rest) c\<rparr>"
  have "view_of ?s = view_of s" using assms(2) by (simp add: view_of_def)
  with assms(7) have m: "conversation_meaning sv sem bs final (view_of ?s) = (out, r, v)" by simp
  have valid: "list_all (\<lambda>b. b \<noteq> [] \<and> list_all valid_client b) bs" using assms(5) by (simp add: list_all_iff)
  have "s_conn ?s = later (conversation_events bs final rest) c" by simp
  from server_semantics.conversation_held [OF assms(4) valid assms(6,1) this assms(3) m]
  show ?thesis unfolding receive_loop_silence [OF assms(1,2)] by blast
qed

text \<open>
  C4: a connection from its first byte to its last. The client sends its startup message, its password
  when asked, then its conversation; it gets the request for the password, the confirmation, the
  greeting, and then exactly what the protocol says of the conversation, on the database it named. A
  client whose password is refused differs in nothing but that it reads an error where the others
  read the confirmation: it is served the same conversation on the same data.
\<close>

theorem connection_served:
  assumes "drained c" and "s_conn s = later (opening_events params pw (conversation_events bs final rest)) c"
    and "startup_ok params" and "length (enc_params params) + 9 < 2 ^ 31"
    and "map_of (rev params) StartUpUser = Some user" and "no_nul pw"
    and "\<And>c. ps_VerifyCredential p c user pw = Ok ok" and "ps_MessageHandler p = server_handler sv"
    and "server_semantics sv sem (database_of params) S"
    and "\<forall>b \<in> set bs. b \<noteq> [] \<and> list_all valid_client b" and "list_all valid_client final"
    and "conversation_meaning sv sem bs final (view_of s) = (out, r, v)"
  shows "\<exists>s'. receive (length (concat bs) + length final + 1) p s = Some (r, s') \<and> view_of s' = v \<and>
    sent (s_conn s') = sent c @ wire_of (authentication_answers ok) @ greeting sv c @ out"
proof -
  let ?es = "conversation_events bs final rest"
  obtain c1 where c1: "startup_phase p s = (Ok True, s\<lparr>s_conn := later (Silence # ?es) c1\<rparr>)" "drained c1"
    "sent c1 = sent c @ wire_of (authentication_answers ok) @ greeting sv c" "Database c1 = database_of params"
    "c_txLocked c1 = c_txLocked c" "c_uuid c1 = c_uuid c"
    using startup_held [OF assms(1-8)] by blast
  let ?s1 = "s\<lparr>s_conn := later (Silence # ?es) c1\<rparr>"
  have conn: "s_conn ?s1 = later (Silence # ?es) c1" by simp
  have "view_of ?s1 = view_of s" using assms(2) c1(5,6) by (simp add: view_of_def)
  with assms(12) have "conversation_meaning sv sem bs final (view_of ?s1) = (out, r, v)" by simp
  from loop_served [OF c1(2) conn c1(4) assms(9-11) this] obtain s' where
    s': "receive_loop (length (concat bs) + length final + 1) (server_handler sv) ?s1 = Some (r, s')"
    "view_of s' = v" "sent (s_conn s') = sent c1 @ out" by blast
  then have "receive (length (concat bs) + length final + 1) p s = Some (r, close_session s')"
    unfolding receive_def c1(1) using assms(8) by (simp del: receive_loop.simps One_nat_def add_Suc_right)
  with s'(2,3) c1(3) show ?thesis by (intro exI [of _ "close_session s'"]) simp
qed

theorem connection_served_witness:
  "\<exists>s'. receive 5 ((any_user_server (\<lambda>u pw. Ok False))\<lparr>ps_MessageHandler := server_handler inserting_server\<rparr>)
      (talking_session [] 0 (opening_events [(''user'', ''u'')] ''wrong'' (conversation_events [prepared_insert] [] []))) =
      Some (Ok (), s') \<and>
    s_app s' = 1 \<and> sent (s_conn s') ! 1 = hd (wire_of [ErrorResponse NewErrorResponse]) \<and> last (sent (s_conn s')) = ready_bytes False"
proof -
  let ?p = "(any_user_server (\<lambda>u pw. Ok False))\<lparr>ps_MessageHandler := server_handler inserting_server\<rparr>"
  let ?es = "opening_events [(''user'', ''u'')] ''wrong'' (conversation_events [prepared_insert] [] [])"
  let ?s = "talking_session [] (0 :: nat) ?es"
  have params: "startup_ok [(''user'', ''u'')]" "no_nul ''wrong''" "length (enc_params [(''user'', ''u'')]) + 9 < 2 ^ 31"
    "map_of (rev [(''user'', ''u'')]) StartUpUser = Some ''u''"
    by (simp_all add: startup_ok_def no_nul_def bytes_of_string_def byte_of_char_def enc_params_def StartUpUser_def)
  have handler: "ps_MessageHandler ?p = server_handler inserting_server" "ps_VerifyCredential ?p c ''u'' ''wrong'' = Ok False" for c
    by (simp_all add: any_user_server_def)
  have sem: "server_semantics inserting_server (observed inserting_server []) (database_of [(''user'', ''u'')]) no_copy"
    using inserting_semantics by (simp add: database_of_def StartUpDatabase_def)
  obtain b1 b2 b3 v where m: "conversation_meaning inserting_server (observed inserting_server []) [prepared_insert] [] (view_of ?s) =
      ([b1, b2, b3, ready_bytes False], Ok (), v)" "v_app v = 1"
    using prepared_insert_meaning by blast
  have valid: "\<forall>b \<in> set [prepared_insert]. b \<noteq> [] \<and> list_all valid_client b"
    by (simp add: prepared_insert_def no_nul_def bytes_of_string_def byte_of_char_def)
  have len: "length (concat [prepared_insert]) + length ([] :: client_msg list) + 1 = 5"
    by (simp add: prepared_insert_def)
  obtain s' where "receive 5 ?p ?s = Some (Ok (), s')" "view_of s' = v"
    "sent (s_conn s') = wire_of (authentication_answers False) @ greeting inserting_server (s_conn (talking_session [] (0 :: nat) [])) @
      [b1, b2, b3, ready_bytes False]"
    using connection_served [OF talking_session_simps(1) talking_session_later params(1,3,4,2) handler(2,1) sem valid _ m(1)]
    unfolding len by auto
  with m(2) show ?thesis by (auto simp: view_of_def wire_of_def)
qed

end
