(* ===== verification/Copy_Store.thy ===== *)
theory Copy_Store
  imports Example_Server Dialogues
begin

text \<open>
  COPY through the whole example server, from the bytes of the query and of the rows to the table: the
  handler's COPY, the stream, the loop over the rows and the store are put together.
\<close>

section \<open>The rows reach the store\<close>

text \<open>
  What the parser package makes of the INSERT of a row: it names the table, and its columns convert to the
  row \<open>f\<close> says.
\<close>

definition row_insert :: "(string \<Rightarrow> (string \<times> string) list list \<Rightarrow> statement) \<Rightarrow> string \<Rightarrow> string list \<Rightarrow> string list \<Rightarrow> statement" where
  "row_insert NewInsertWith t cols vals =
     NewInsertWith t [map (\<lambda>(name, d). (name, if length d = 0 then ''NULL'' else d)) (zip cols vals)]"

definition row_converts ::
    "'x store_env_scheme \<Rightarrow> 'l statement_parts \<Rightarrow> (string \<Rightarrow> (string \<times> string) list list \<Rightarrow> statement) \<Rightarrow>
     schema \<Rightarrow> string \<Rightarrow> string list \<Rightarrow> (string list \<Rightarrow> store_row) \<Rightarrow> string list \<Rightarrow> bool" where
  "row_converts E sp NewInsertWith sch t cols f vals \<longleftrightarrow>
     length vals = length cols \<and> st_TableName (row_insert NewInsertWith t cols vals) = t \<and>
     map_go (NewRowFromColumns E sch) (sp_Values sp (row_insert NewInsertWith t cols vals)) = Ok [f vals]"

lemma copy_query_row:
  "row_converts E sp ins sch t cols f vals \<Longrightarrow> NewCopyQueryFrom ins t cols vals = Ok (row_insert ins t cols vals)"
  by (simp add: row_converts_def NewCopyQueryFrom_def row_insert_def)

lemma copy_query_no_panic: "\<not> is_panic (NewCopyQueryFrom ins t cols vals)"
  by (simp add: NewCopyQueryFrom_def)

text \<open>
  A copy whose rows all go in, under an invariant of the rows so far and the executor's state
\<close>

context peeking
begin

lemma copy_loop_invariant:
  assumes "list_all row_fits rows" "P r" "reader_patient r"
    "reader_pending r = concat (map enc_row rows) @ header CopyDoneMessage len @ rest"
    and step: "\<And>before fs a. fs \<in> set rows \<Longrightarrow> J before a \<Longrightarrow>
      \<exists>q rs a'. mk (map string_of_bytes fs) = Ok q \<and> ins q a = (Ok rs, a') \<and> J (before @ [map string_of_bytes fs]) a'"
    and "J before a"
  shows "\<exists>r' a'. copy_loop mk ins c f r a = (Ok (c + length rows, f, EOF), r', a') \<and>
    J (before @ map (map string_of_bytes) rows) a' \<and> P r' \<and> reader_patient r' \<and> reader_pending r' = rest"
  using assms(1-4,6) step
proof (induction rows arbitrary: r c a before)
  case Nil
  obtain r' where "CopyStream_Next r = (Err EOF, r')" "P r'" "reader_patient r'" "reader_pending r' = rest"
    using Next_done [OF Nil(2,3)] Nil(4) by auto
  with Nil(5) show ?case by (simp add: copy_loop.simps [of mk ins c f r a])
next
  case (Cons fs rows)
  then have fits: "row_fits fs" "list_all row_fits rows" by simp_all
  obtain r1 where r1: "CopyStream_Next r = (Ok (row_msg fs), r1)" "P r1" "reader_patient r1"
      "reader_pending r1 = concat (map enc_row rows) @ header CopyDoneMessage len @ rest"
    using parsesE [OF parses_Next [OF fits(1)] Cons.prems(2,3), of "concat (map enc_row rows) @ header CopyDoneMessage len @ rest"]
      Cons.prems(4) by auto
  have data: "copy_Data (row_msg fs) = map string_of_bytes fs" by (simp add: row_msg_def)
  obtain q rs a1 where q: "mk (map string_of_bytes fs) = Ok q" "ins q a = (Ok rs, a1)" "J (before @ [map string_of_bytes fs]) a1"
    using Cons.prems(6) [of fs before a] Cons.prems(5) by auto
  have "\<exists>r' a'. copy_loop mk ins (Suc c) f r1 a1 = (Ok (Suc c + length rows, f, EOF), r', a') \<and>
      J ((before @ [map string_of_bytes fs]) @ map (map string_of_bytes) rows) a' \<and> P r' \<and> reader_patient r' \<and> reader_pending r' = rest"
    by (rule Cons.IH [OF fits(2) r1(2-4) q(3)]) (use Cons.prems(6) in auto)
  with r1(1) data q(1,2) show ?case by (simp add: copy_loop.simps [of mk ins c f r a])
qed

end

interpretation fronting: peeking front
  by unfold_locales (meson peek_front)

lemma default_Insert_row:
  assumes "row_converts E sp ins (tb_Schema tbl) t cols f vals" "LookupTableWithDatabase (Database conn) t dbs = Some tbl"
  shows "\<exists>rs. default_Insert (Some (store_SQLExecutor E R sp)) conn (row_insert ins t cols vals) dbs =
    (Ok rs, put_table (Database conn) t (tbl\<lparr>tb_Rows := tb_Rows tbl @ [f vals]\<rparr>) dbs)"
  using assms
  by (simp add: row_converts_def default_Insert_def store_SQLExecutor_def store_Insert_def insert_rows_Ok goseq_def ret_def)

text \<open>The tables after a copy of some rows into \<open>t\<close>\<close>

definition copied :: "string \<Rightarrow> string \<Rightarrow> table \<Rightarrow> (string list \<Rightarrow> store_row) \<Rightarrow> store \<Rightarrow> string list list \<Rightarrow> store \<Rightarrow> bool" where
  "copied d t tbl f dbs rows dbs' \<longleftrightarrow> (\<forall>d' t'. LookupTableWithDatabase d' t' dbs' =
     (if d' = d \<and> t' = t then Some (tbl\<lparr>tb_Rows := tb_Rows tbl @ map f rows\<rparr>) else LookupTableWithDatabase d' t' dbs))"

lemma copied_row:
  assumes "copied d t tbl f dbs rows dbs'"
  shows "copied d t tbl f dbs (rows @ [vals]) (put_table d t (tbl\<lparr>tb_Rows := tb_Rows tbl @ map f rows @ [f vals]\<rparr>) dbs')"
  using assms tables.lookup_put [of d t dbs'] unfolding copied_def by simp

lemma keeps_wire_CopyStream_Next [keeps_intros]: "keeps (rwire out fails dl) CopyStream_Next"
  unfolding CopyStream_Next_def NewCopyDataWithReader_def skipCopyDone_def NewCopyDoneWithReader_def IsPeekType_def Let_def
  by (intro keeps_intros) (auto intro!: keeps_intros split: sum.split)

lemma copy_loop_wire:
  "rwire out fails dl r \<Longrightarrow> rwire out fails dl (fst (snd (copy_loop mk ins c f r a)))"
proof (induction mk ins c f r a rule: copy_loop.induct)
  case (1 mk ins c f r a)
  obtain x r' where nx: "CopyStream_Next r = (x, r')" by fastforce
  have "rwire out fails dl r'" using keepsD [OF keeps_wire_CopyStream_Next 1(4) nx] .
  with 1(1-3) nx show ?case
    by (cases x) (auto simp: copy_loop.simps [of mk ins c f r a] split: res.splits prod.splits)
qed

section \<open>The statement\<close>

definition copy_in :: "string list \<Rightarrow> responses" where
  "copy_in cols = [CopyInResponse (fold (\<lambda>_. AppendFormatCode TextFormat) cols (NewCopyInResponseWith TextCopy))]"

lemma copy_in_message:
  "ci_message (fold (\<lambda>_. AppendFormatCode TextFormat) cols m) = ci_message m"
  by (induction cols arbitrary: m) (simp_all add: AppendFormatCode_def)

lemma copy_in_sendable: "all_sendable (copy_in cols)" "\<not> HasErrorResponse (copy_in cols)"
  by (simp_all add: copy_in_def all_sendable_def Response_Bytes_def HasErrorResponse_def case_prod_beta Response_Type_def
      copy_in_message NewCopyInResponseWith_def appending_def NewResponseMessageWith_def msg_types)

lemma copy_complete_sendable: "all_sendable (NewCopyCompleteResponsesWith n)" "NewCopyCompleteResponsesWith n \<noteq> []"
  by (simp_all add: NewCopyCompleteResponsesWith_def all_sendable_def Response_Bytes_def case_prod_beta)

definition copy_columns :: "schema \<Rightarrow> statement \<Rightarrow> string list" where
  "copy_columns sch stmt = (if st_Columns stmt = [] then sch_Columns sch else st_Columns stmt)"

lemma example_Copy_runs:
  assumes "LookupTableWithDatabase (Database conn) (st_TableName stmt) dbs = Some tbl"
    and "\<forall>name\<in>set (st_Columns stmt). \<exists>x. sch_LookupColumn (tb_Schema tbl) name = Ok x"
  shows "example_Copy E conn stmt dbs = (Ok (copy_in (copy_columns (tb_Schema tbl) stmt)), dbs)"
proof -
  obtain db where db: "LookupDatabaseTable E (Database conn) (st_TableName stmt) dbs = Ok (db, tbl)"
    using LookupDatabaseTable_Some [OF assms(1)] by blast
  have "\<exists>xs. map_go (\<lambda>name. map_res (\<lambda>_. ()) (sch_LookupColumn (tb_Schema tbl) name)) names = Ok xs"
    if "\<forall>name\<in>set names. \<exists>x. sch_LookupColumn (tb_Schema tbl) name = Ok x" for names
    using that by (induction names) (auto simp: map_res_def)
  with assms(2) obtain xs where "map_go (\<lambda>name. map_res (\<lambda>_. ()) (sch_LookupColumn (tb_Schema tbl) name)) (st_Columns stmt) = Ok xs"
    by blast
  with db show ?thesis
    by (simp add: example_Copy_def NewCopyInResponsesFrom_def copy_in_def copy_columns_def go_simps map_res_def)
qed

lemma exec_copy:
  assumes "fronted (s_conn s)" and "st_Type stmt = CopyStatement" and "st_TableName stmt = t"
    and "LookupTableWithDatabase (Database (s_conn s)) t (s_app s) = Some tbl" and "sch_TableName (tb_Schema tbl) = t"
    and "\<forall>name\<in>set (st_Columns stmt). \<exists>x. sch_LookupColumn (tb_Schema tbl) name = Ok x"
    and "reader_pending (c_reader (s_conn s)) = concat (map enc_row rows) @ header CopyDoneMessage len @ rest"
    and "rows \<noteq> []" and "list_all row_fits rows"
    and "\<forall>fs\<in>set rows. row_converts E sp ins (tb_Schema tbl) t (copy_columns (tb_Schema tbl) stmt) f (map string_of_bytes fs)"
  obtains c' dbs' where "exec_statement (example_server E R sp ins alt del base) stmt s =
      (Ok (NewCopyCompleteResponsesWith (int (length rows))), s\<lparr>s_conn := c', s_app := dbs'\<rparr>)"
    "fronted c'" "same_side (fold put_out (wire_of (copy_in (copy_columns (tb_Schema tbl) stmt))) (s_conn s)) c'"
    "reader_pending (c_reader c') = rest"
    "copied (Database (s_conn s)) t tbl f (s_app s) (map (map string_of_bytes) rows) dbs'"
proof -
  let ?cols = "copy_columns (tb_Schema tbl) stmt"
  let ?c1 = "fold put_out (wire_of (copy_in ?cols)) (s_conn s)"
  have w: "writable (s_conn s)" using assms(1) idle_writable by (simp add: fronted_def)
  have c1: "fronted ?c1" "reader_pending (c_reader ?c1) = concat (map enc_row rows) @ header CopyDoneMessage len @ rest"
    "Database ?c1 = Database (s_conn s)"
    using assms(1,7) w by (simp_all add: fronted_fold_put_out Database_def)
  have out: "ResponseMessages (copy_in ?cols) (s_conn s) = (Ok (), ?c1)"
    by (rule ResponseMessages_Ok [OF sendable_list_all2 [OF copy_in_sendable(1)] w])
  obtain ts where ts: "concat (map enc_row rows) @ header CopyDoneMessage len @ rest = CopyDataMessage # ts"
    using assms(8) by (cases rows) (auto simp: enc_row_def frame_def header_def)
  obtain c2 where c2: "on_reader PeekType ?c1 = (Ok CopyDataMessage, c2)" "fronted c2" "same_side ?c1 c2"
    "reader_pending (c_reader c2) = CopyDataMessage # ts"
    using PeekType_front [OF c1(1)] c1(2) ts by auto
  have peek: "on_reader (IsPeekType CopyDataMessage) ?c1 = (Ok True, c2)"
    using c2(1) by (auto simp: IsPeekType_def on_reader_def on_part_def goseq_def ret_def split: prod.splits res.splits)
  have db2: "Database c2 = Database (s_conn s)" using c2(3) c1(3) by (simp add: same_side_def Database_def)
  have r2: "front (c_reader c2)" "reader_patient (c_reader c2)"
    using c2(2) fronted_front idle_patient by (auto simp: fronted_def)
  let ?ins = "default_Insert (Some (store_SQLExecutor E R sp)) c2"
  let ?J = "copied (Database (s_conn s)) t tbl f (s_app s)"
  have step: "\<exists>q rs a'. NewCopyQueryFrom ins t ?cols (map string_of_bytes fs) = Ok q \<and> ?ins q a = (Ok rs, a') \<and>
      ?J (before @ [map string_of_bytes fs]) a'" if "fs \<in> set rows" "?J before a" for before fs a
  proof -
    let ?tbl = "tbl\<lparr>tb_Rows := tb_Rows tbl @ map f before\<rparr>"
    have row: "row_converts E sp ins (tb_Schema ?tbl) t ?cols f (map string_of_bytes fs)" using assms(10) that(1) by simp
    have "LookupTableWithDatabase (Database c2) t a = Some ?tbl" using that(2) db2 by (simp add: copied_def)
    from default_Insert_row [OF row this] copied_row [OF that(2)] copy_query_row [OF row] db2 show ?thesis by fastforce
  qed
  have start: "?J [] (s_app s)" using assms(4) by (simp add: copied_def)
  from fronting.copy_loop_invariant [where J = ?J and mk = "NewCopyQueryFrom ins t ?cols" and ins = ?ins and c = 0 and f = 0,
      OF assms(9) r2 c2(4) [folded ts] step start]
  obtain r' dbs' where loop: "copy_loop (NewCopyQueryFrom ins t ?cols) ?ins 0 0 (c_reader c2) (s_app s) = (Ok (length rows, 0, EOF), r', dbs')"
    "?J (map (map string_of_bytes) rows) dbs'" "front r'" "reader_patient r'" "reader_pending r' = rest"
    by auto
  let ?c3 = "c2\<lparr>c_reader := r'\<rparr>"
  have "rwire (sent c2) [] False r'"
    using copy_loop_wire [OF idle_wire, of c2 "NewCopyQueryFrom ins t ?cols" ?ins 0 0 "s_app s"] c2(2) loop(1) by (simp add: fronted_def)
  then have c3: "fronted ?c3" "same_side c2 ?c3"
    using loop(3) by (auto simp: fronted_def idle_def front_def rwire_def wire_def sent_def same_side_def)
  obtain db where "LookupDatabaseTable E (Database c2) t (s_app s) = Ok (db, tbl)"
    using LookupDatabaseTable_Some [OF assms(4)] db2 by metis
  then have data: "example_CopyData E ins (default_Insert (Some (store_SQLExecutor E R sp))) stmt (s\<lparr>s_conn := c2\<rparr>) =
      (Ok (NewCopyCompleteResponsesWith (int (length rows))), s\<lparr>s_conn := ?c3, s_app := dbs'\<rparr>)"
    using loop(1) assms(3,5)
    by (simp add: example_CopyData_def NewCopyCompleteResponsesFrom_def copy_columns_def Let_def errors_Is_def EOF_def
        split: if_splits)
  have "exec_statement (example_server E R sp ins alt del base) stmt s =
      (Ok (NewCopyCompleteResponsesWith (int (length rows))), s\<lparr>s_conn := ?c3, s_app := dbs'\<rparr>)"
    using assms(2,3,4,6) example_Copy_runs [of "s_conn s" stmt "s_app s" tbl E] copy_in_sendable(2) out peek data
    by (simp add: exec_statement_def handleCopyQuery_def example_server_simps defaultQueryExecutor_def on_app_def
        on_conn_def on_part_def goseq_def Let_def)
  with that c3 same_side_trans [OF c2(3)] loop(2,5) show thesis by fastforce
qed

section \<open>The whole round\<close>

text \<open>
  C6: COPY from the client's bytes to the table. On a COPY query with its rows and the end of the copy behind it,
  the server announces the copy, inserts every row in order, reports their number, and is ready exactly
  when nothing further has arrived; no other table changes and the next message is the next request.
\<close>

theorem copy_round:
  assumes "fronted (s_conn s)" and "no_nul q"
    and "reader_pending (c_reader (s_conn s)) =
      frame QueryMessage (cstring q) @ concat (map enc_row rows) @ header CopyDoneMessage len @ rest"
    and "sv_BindStatements base q [] = Ok [stmt]" and "st_Type stmt = CopyStatement" and "st_TableName stmt = t"
    and "LookupTableWithDatabase (Database (s_conn s)) t (s_app s) = Some tbl" and "sch_TableName (tb_Schema tbl) = t"
    and "\<forall>name\<in>set (st_Columns stmt). \<exists>x. sch_LookupColumn (tb_Schema tbl) name = Ok x"
    and "rows \<noteq> []" and "list_all row_fits rows"
    and "\<forall>fs\<in>set rows. row_converts E sp ins (tb_Schema tbl) t (copy_columns (tb_Schema tbl) stmt) f (map string_of_bytes fs)"
  shows "\<exists>s'. receive_step (server_handler (example_server E R sp ins alt del base)) s = (Ok True, s') \<and>
    copied (Database (s_conn s)) t tbl f (s_app s) (map (map string_of_bytes) rows) (s_app s') \<and>
    sent (s_conn s') = sent (s_conn s) @ wire_of (copy_in (copy_columns (tb_Schema tbl) stmt)) @
      wire_of (NewCopyCompleteResponsesWith (int (length rows))) @
      (if rest = [] then [ready_frame (s_conn s)] else []) \<and>
    reader_pending (c_reader (s_conn s')) = rest \<and> fronted (s_conn s')"
proof -
  let ?sv = "example_server E R sp ins alt del base" and ?cols = "copy_columns (tb_Schema tbl) stmt"
    and ?done = "NewCopyCompleteResponsesWith (int (length rows))"
  obtain c msg where c: "fronted c" "same_side (s_conn s) c"
    "reader_pending (c_reader c) = concat (map enc_row rows) @ header CopyDoneMessage len @ rest"
    "query_Query msg = q" "query_BindParams msg = []"
    "receive_step (server_handler ?sv) s = goseq (gotry (handle_Query ?sv msg)) finish (s\<lparr>s_conn := c\<rparr>)"
    using query_request [OF assms(1-3)] .
  have db: "Database c = Database (s_conn s)" using c(2) by (simp add: same_side_def Database_def)
  have w: "writable c" using c(1) idle_writable by (simp add: fronted_def)
  let ?s0 = "s\<lparr>s_conn := c\<rparr>"
  have s0: "fronted (s_conn ?s0)" "LookupTableWithDatabase (Database (s_conn ?s0)) t (s_app ?s0) = Some tbl"
    "reader_pending (c_reader (s_conn ?s0)) = concat (map enc_row rows) @ header CopyDoneMessage len @ rest"
    using c(1,3) db assms(7) by simp_all
  from exec_copy [OF s0(1) assms(5,6) s0(2) assms(8,9) s0(3) assms(10-12), of R alt del base]
  obtain c1 dbs where raw: "exec_statement ?sv stmt ?s0 = (Ok ?done, ?s0\<lparr>s_conn := c1, s_app := dbs\<rparr>)"
    and c1: "fronted c1" "same_side (fold put_out (wire_of (copy_in ?cols)) (s_conn ?s0)) c1" "reader_pending (c_reader c1) = rest"
      and dbs: "copied (Database (s_conn ?s0)) t tbl f (s_app ?s0) (map (map string_of_bytes) rows) dbs" .
  have exec: "exec_statement ?sv stmt (s\<lparr>s_conn := c\<rparr>) = (Ok ?done, s\<lparr>s_conn := c1, s_app := dbs\<rparr>)"
    and dbs: "copied (Database (s_conn s)) t tbl f (s_app s) (map (map string_of_bytes) rows) dbs"
    using raw dbs db by simp_all
  let ?c2 = "fold put_out (wire_of ?done) c1"
  have w1: "writable c1" using c1(1) idle_writable by (simp add: fronted_def)
  have run: "handle_Query ?sv msg (s\<lparr>s_conn := c\<rparr>) = (Ok [], s\<lparr>s_conn := ?c2, s_app := dbs\<rparr>)"
    using exec assms(4) c(4,5) ResponseMessages_Ok [OF sendable_list_all2 [OF copy_complete_sendable(1)] w1]
      copy_complete_sendable(2) [of "int (length rows)"]
    by (simp add: handle_Query_def run_statement_def example_server_def running_server_def on_conn_def on_part_def
        goseq_def ret_def Let_def)
  then have m: "gotry (handle_Query ?sv msg) (s\<lparr>s_conn := c\<rparr>) = (Ok (Inr []), s\<lparr>s_conn := ?c2, s_app := dbs\<rparr>)"
    by (simp add: gotry_def)
  let ?s2 = "s\<lparr>s_conn := ?c2, s_app := dbs\<rparr>"
  have f2: "fronted (s_conn ?s2)" "all_sendable (case Inr [] :: gerr + responses of Inr rs \<Rightarrow> rs | Inl _ \<Rightarrow> [])"
    using c1(1) by (simp_all add: fronted_fold_put_out)
  from finish_front [OF m f2] obtain c' where "goseq (gotry (handle_Query ?sv msg)) finish (s\<lparr>s_conn := c\<rparr>) =
      (Ok True, ?s2\<lparr>s_conn := c'\<rparr>)" "fronted c'"
    "sent c' = sent (s_conn ?s2) @ (case Inr [] :: gerr + responses of Inr rs \<Rightarrow> wire_of rs | Inl e \<Rightarrow> error_frames (Some e)) @
      (if reader_pending (c_reader (s_conn ?s2)) = [] then [ready_frame (s_conn ?s2)] else [])"
    "reader_pending (c_reader c') = reader_pending (c_reader (s_conn ?s2))"
    by blast
  then have c': "goseq (gotry (handle_Query ?sv msg)) finish (s\<lparr>s_conn := c\<rparr>) = (Ok True, ?s2\<lparr>s_conn := c'\<rparr>)" "fronted c'"
    "sent c' = sent ?c2 @ (if reader_pending (c_reader ?c2) = [] then [ready_frame ?c2] else [])"
    "reader_pending (c_reader c') = reader_pending (c_reader ?c2)"
    by simp_all
  have "sent ?c2 = sent (s_conn s) @ wire_of (copy_in ?cols) @ wire_of ?done" "ready_frame ?c2 = ready_frame (s_conn s)"
    using c1(2) c(2) w w1 by (simp_all add: same_side_def ready_frame_def)
  with c' c(6) c1(3) dbs w1 show ?thesis
    by (intro exI [of _ "?s2\<lparr>s_conn := c'\<rparr>"]) simp
qed

text \<open>
  C29: a COPY of no rows is refused. When the client ends the copy at once, the handler returns without an
  answer and leaves the CopyDone message on the stream, where the request loop takes it for a request of
  an unknown type: the client sees the announcement of the copy and an error.
\<close>

theorem empty_copy_refused:
  assumes "fronted (s_conn s)" and "no_nul q"
    and "reader_pending (c_reader (s_conn s)) = frame QueryMessage (cstring q) @ frame CopyDoneMessage [] @ rest"
    and "sv_BindStatements base q [] = Ok [stmt]" and "st_Type stmt = CopyStatement"
    and "LookupTableWithDatabase (Database (s_conn s)) (st_TableName stmt) (s_app s) = Some tbl"
    and "\<forall>name\<in>set (st_Columns stmt). \<exists>x. sch_LookupColumn (tb_Schema tbl) name = Ok x"
  shows "\<exists>s1 s2. receive_step (server_handler (example_server E R sp ins alt del base)) s = (Ok True, s1) \<and>
    receive_step (server_handler (example_server E R sp ins alt del base)) s1 = (Ok True, s2) \<and> s_app s2 = s_app s \<and>
    sent (s_conn s2) = sent (s_conn s) @ wire_of (copy_in (copy_columns (tb_Schema tbl) stmt)) @
      error_frames (Some (NewErrMessageNotSuppoted CopyDoneMessage)) @ (if rest = [] then [ready_frame (s_conn s)] else [])"
proof -
  let ?sv = "example_server E R sp ins alt del base" and ?cols = "copy_columns (tb_Schema tbl) stmt"
  obtain c msg where c: "fronted c" "same_side (s_conn s) c" "reader_pending (c_reader c) = frame CopyDoneMessage [] @ rest"
    "query_Query msg = q" "query_BindParams msg = []"
    "receive_step (server_handler ?sv) s = goseq (gotry (handle_Query ?sv msg)) finish (s\<lparr>s_conn := c\<rparr>)"
    using query_request [OF assms(1-3)] .
  have db: "Database c = Database (s_conn s)" using c(2) by (simp add: same_side_def Database_def)
  have w: "writable c" using c(1) idle_writable by (simp add: fronted_def)
  let ?c1 = "fold put_out (wire_of (copy_in ?cols)) c"
  have out: "ResponseMessages (copy_in ?cols) c = (Ok (), ?c1)"
    by (rule ResponseMessages_Ok [OF sendable_list_all2 [OF copy_in_sendable(1)] w])
  obtain ts where ts: "frame CopyDoneMessage [] @ rest = CopyDoneMessage # ts" by (simp add: frame_def header_def)
  obtain c2 where c2: "on_reader PeekType ?c1 = (Ok CopyDoneMessage, c2)" "fronted c2" "same_side ?c1 c2"
    "reader_pending (c_reader c2) = frame CopyDoneMessage [] @ rest"
    using PeekType_front [of ?c1 CopyDoneMessage ts] c(1,3) w ts by (auto simp: fronted_fold_put_out)
  have "on_reader (IsPeekType CopyDataMessage) ?c1 = (Ok False, c2)"
    using c2(1) by (auto simp: IsPeekType_def on_reader_def on_part_def goseq_def ret_def msg_types split: prod.splits res.splits)
  then have "exec_statement ?sv stmt (s\<lparr>s_conn := c\<rparr>) = (Ok [], s\<lparr>s_conn := c2\<rparr>)"
    using assms(5-7) db out copy_in_sendable(2) example_Copy_runs [of c stmt "s_app s" tbl E]
    by (simp add: exec_statement_def handleCopyQuery_def example_server_simps on_app_def on_conn_def on_part_def
        goseq_def ret_def Let_def)
  then have m: "gotry (handle_Query ?sv msg) (s\<lparr>s_conn := c\<rparr>) = (Ok (Inr []), s\<lparr>s_conn := c2\<rparr>)"
    using assms(4) c(4,5)
    by (simp add: handle_Query_def run_statement_def example_server_def running_server_def gotry_def goseq_def ret_def Let_def)
  obtain c3 where c3: "goseq (gotry (handle_Query ?sv msg)) finish (s\<lparr>s_conn := c\<rparr>) = (Ok True, s\<lparr>s_conn := c3\<rparr>)" "fronted c3"
    "sent c3 = sent c2" "reader_pending (c_reader c3) = frame CopyDoneMessage [] @ rest" "c_txLocked c3 = c_txLocked c2"
    using finish_front [OF m] c2(2,4) by auto
  have unknown: "CopyDoneMessage \<notin> {ParseMessage, BindMessage, DescribeMessage, QueryMessage, ExecuteMessage, CloseMessage,
      SyncMessage, FlushMessage, TerminateMessage}"
    by (simp add: msg_types)
  let ?s3 = "s\<lparr>s_conn := c3\<rparr>"
  have s3: "fronted (s_conn ?s3)" "reader_pending (c_reader (s_conn ?s3)) = frame CopyDoneMessage [] @ rest"
    "length ([] :: bytes) < 2 ^ 31"
    using c3(2,4) by simp_all
  from unknown_message_round [OF s3 unknown, of "server_handler ?sv"] obtain c4 where
    "receive_step (server_handler ?sv) ?s3 = (Ok True, ?s3\<lparr>s_conn := c4\<rparr>)"
    "sent c4 = sent (s_conn ?s3) @ error_frames (Some (NewErrMessageNotSuppoted CopyDoneMessage)) @
      (if rest = [] then [ready_frame (s_conn ?s3)] else [])" by blast
  then have "receive_step (server_handler ?sv) ?s3 = (Ok True, s\<lparr>s_conn := c4\<rparr>)"
    "sent c4 = sent c3 @ error_frames (Some (NewErrMessageNotSuppoted CopyDoneMessage)) @
      (if rest = [] then [ready_frame c3] else [])"
    by simp_all
  moreover have "sent c3 = sent (s_conn s) @ wire_of (copy_in ?cols)" "ready_frame c3 = ready_frame (s_conn s)"
    using c3(3,5) c2(3) c(2) w by (simp_all add: same_side_def ready_frame_def)
  ultimately show ?thesis
    using c(6) c3(1) by (intro exI [of _ "s\<lparr>s_conn := c3\<rparr>"] exI [of _ "s\<lparr>s_conn := c4\<rparr>"]) simp
qed

text \<open>A COPY of one column of text into a table, and a session of a client that sends it\<close>

definition copy_parts :: "unit statement_parts" where
  "copy_parts = plain_parts\<lparr>sp_Row := \<lambda>stmt.
     map (\<lambda>v. text_column ''a'' (case v of Plain (VString x) \<Rightarrow> x | _ \<Rightarrow> []))\<rparr>"

definition copy_statement :: statement where
  "copy_statement = (plain_insert ''t'' [])\<lparr>st_Type := CopyStatement\<rparr>"

definition copy_server :: "store query_server" where
  "copy_server = example_server plain_env plain_results copy_parts plain_insert Ok (\<lambda>t. plain_insert t [])
     (small_server None (\<lambda>_. Ok [copy_statement]))"

definition copy_session :: "bytes \<Rightarrow> store session" where
  "copy_session bs = (client_session one_table_store bs)\<lparr>s_conn :=
     snd (SetDatabase ''db'' (s_conn (client_session one_table_store bs)))\<rparr>"

lemma copy_session_simps [simp]:
  "fronted (s_conn (copy_session bs))" "reader_pending (c_reader (s_conn (copy_session bs))) = bs"
  "Database (s_conn (copy_session bs)) = ''db''" "s_app (copy_session bs) = one_table_store"
  "sent (s_conn (copy_session bs)) = []"
  using client_session_simps [of one_table_store bs]
  by (simp_all add: copy_session_def SetDatabase_def Database_def modify_def fronted_def idle_def sent_def)

lemma copy_row_converts:
  assumes "c \<noteq> []"
  shows "row_converts plain_env copy_parts plain_insert (text_schema ''t'') ''t'' [''a''] (\<lambda>vals. [(''a'', VString (hd vals))]) [c]"
  using assms
  by (simp add: row_converts_def row_insert_def copy_parts_def sp_Values_def plain_insert_def NewRowFromColumns_def NewRow_def
      text_schema_def text_column_def column_cast_def plain_env_def)

lemma copy_statement_simps [simp]:
  "st_Type copy_statement = CopyStatement" "st_TableName copy_statement = ''t''" "st_Columns copy_statement = []"
  "copy_columns (text_schema ''t'') copy_statement = [''a'']"
  by (simp_all add: copy_statement_def plain_insert_def copy_columns_def text_schema_def)

theorem copy_round_witness:
  "\<exists>s' tbl. receive_step (server_handler copy_server)
      (copy_session (frame QueryMessage (cstring ''COPY'') @ enc_row [[49]] @ enc_row [[50]] @ header CopyDoneMessage 4)) =
      (Ok True, s') \<and> LookupTableWithDatabase ''db'' ''t'' (s_app s') = Some tbl \<and>
    tb_Rows tbl = [[(''a'', VString ''1'')], [(''a'', VString ''2'')]] \<and> length (sent (s_conn s')) = 3"
proof -
  let ?rows = "[[[49]], [[50]]] :: bytes list list" and ?tbl = "NewTableWith ''t'' (text_schema ''t'')"
  let ?s = "copy_session (frame QueryMessage (cstring ''COPY'') @ concat (map enc_row ?rows) @ header CopyDoneMessage 4 @ [])"
  have schema: "tb_Schema ?tbl = text_schema ''t''" "sch_TableName (tb_Schema ?tbl) = ''t''"
    by (simp_all add: NewTableWith_def text_schema_def)
  have fits: "list_all row_fits ?rows"
    by (simp add: row_fits_def row_ok_def joined_def isEOFData_def tabSep_def)
  have digits: "map (map string_of_bytes) ?rows = [[''1''], [''2'']]" by code_simp
  have nn: "no_nul ''COPY''" by (simp add: no_nul_def bytes_of_string_def byte_of_char_def)
  have conv: "\<forall>fs\<in>set ?rows. row_converts plain_env copy_parts plain_insert (tb_Schema ?tbl) ''t''
      (copy_columns (tb_Schema ?tbl) copy_statement) (\<lambda>vals. [(''a'', VString (hd vals))]) (map string_of_bytes fs)"
    using copy_row_converts digits by (auto simp: schema)
  have look: "LookupTableWithDatabase (Database (s_conn ?s)) ''t'' (s_app ?s) = Some ?tbl"
    by (simp add: lookup_one_table)
  from copy_round [where s = ?s and q = "''COPY''" and rows = ?rows and len = 4 and rest = "[]" and stmt = copy_statement
      and t = "''t''" and base = "small_server None (\<lambda>_. Ok [copy_statement])" and R = plain_results and alt = Ok and
      del = "\<lambda>t. plain_insert t []", OF _ nn _ _ _ _ look schema(2) _ _ fits conv]
  obtain s' where s': "receive_step (server_handler copy_server) ?s = (Ok True, s')"
    "copied ''db'' ''t'' ?tbl (\<lambda>vals. [(''a'', VString (hd vals))]) one_table_store (map (map string_of_bytes) ?rows) (s_app s')"
    "length (sent (s_conn s')) = 3"
    by (auto simp: copy_server_def small_server_def wire_of_def copy_in_def NewCopyCompleteResponsesWith_def)
  then show ?thesis
    unfolding digits by (auto simp: copied_def NewTableWith_def)
qed

theorem empty_copy_refused_witness:
  "\<exists>s1 s2. receive_step (server_handler copy_server)
      (copy_session (frame QueryMessage (cstring ''COPY'') @ frame CopyDoneMessage [] @ [])) = (Ok True, s1) \<and>
    receive_step (server_handler copy_server) s1 = (Ok True, s2) \<and> s_app s2 = one_table_store \<and> length (sent (s_conn s2)) = 3"
proof -
  have nn: "no_nul ''COPY''" by (simp add: no_nul_def bytes_of_string_def byte_of_char_def)
  show ?thesis
    using empty_copy_refused [of "copy_session (frame QueryMessage (cstring ''COPY'') @ frame CopyDoneMessage [] @ [])" "''COPY''" "[]"
        "small_server None (\<lambda>_. Ok [copy_statement])" copy_statement "NewTableWith ''t'' (text_schema ''t'')" plain_env plain_results
        copy_parts plain_insert Ok "\<lambda>t. plain_insert t []"] nn
    by (auto simp: copy_server_def lookup_one_table small_server_def wire_of_def copy_in_def error_frames_def)
qed

end
