(* ===== verification/Capture_Dump.thy ===== *)
theory Capture_Dump
  imports Progress Client_Protocol
begin

text \<open>
  The dump of a packet capture (\<open>bin/pgpcapdump/main.go\<close>): the payloads of the packets to and from the
  server are collected in two buffers, and the messages of the client are printed. Reading the
  capture and printing a packet belong to the gopacket library and are parameters.
\<close>

section \<open>Buffers\<close>

text \<open>
  \<open>bytes.Buffer\<close>: its bytes and the capacity behind them. A first small write takes 64 bytes; a buffer that is
  full at least doubles, and the run-time system rounds the size up, which is a parameter.
\<close>

record Buffer =
  bf_bytes :: bytes
  bf_cap :: nat

definition empty_Buffer :: Buffer where
  "empty_Buffer = \<lparr>bf_bytes = [], bf_cap = 0\<rparr>"

definition Buffer_Write :: "(nat \<Rightarrow> nat) \<Rightarrow> bytes \<Rightarrow> Buffer \<Rightarrow> Buffer" where
  "Buffer_Write rounded p b =
     (let m = length (bf_bytes b); n = length p in
      \<lparr>bf_bytes = bf_bytes b @ p,
       bf_cap = (if m + n \<le> bf_cap b then bf_cap b
                 else if bf_cap b = 0 \<and> n \<le> 64 then 64
                 else rounded (max (m + n) (2 * bf_cap b)))\<rparr>)"

text \<open>\<open>b.Bytes()[:n]\<close> may reach beyond the length of the slice, into the zeros up to its capacity.\<close>

definition first_bytes :: "nat \<Rightarrow> Buffer \<Rightarrow> bytes go" where
  "first_bytes n b = (if n \<le> bf_cap b then Ok (take n (bf_bytes b @ replicate n 0)) else Panic SliceBoundsOutOfRange)"

section \<open>Packets\<close>

text \<open>
  What the program reads off a packet: its text, the destination and source port of its TCP layer if it has
  one, and the payload of its application layer if it has one.
\<close>

record packet =
  pk_text :: string
  pk_tcp :: "(nat \<times> nat) option"
  pk_app :: "bytes option"

definition DefaultPort :: nat where "DefaultPort = 5432"

datatype dump_line = Stdout string | Stderr string

datatype dump_end = Exit nat | Crash go_panic

definition hex_byte :: "byte \<Rightarrow> string" where
  "hex_byte b = (let digit = (\<lambda>d. if d < 10 then char_of (48 + d) else char_of (87 + d))
     in [digit (unat b div 16), digit (unat b mod 16)])"

definition EncodeToString :: "bytes \<Rightarrow> string" where
  "EncodeToString bs = concat (map hex_byte bs)"

definition newline :: string where "newline = [CHR 0x0A]"

text \<open>One packet: the buffers of requests and responses behind it, and what is printed\<close>

definition dump_packet :: "(nat \<Rightarrow> nat) \<Rightarrow> packet \<Rightarrow> Buffer \<times> Buffer \<Rightarrow> (Buffer \<times> Buffer) \<times> dump_line list" where
  "dump_packet rounded pkt bufs = (case bufs of (reqWriter, resWriter) \<Rightarrow>
     (let printed = [Stdout (pk_text pkt)] in
      case pk_tcp pkt of
        None \<Rightarrow> (bufs, printed)
      | Some (dstPort, srcPort) \<Rightarrow>
          if dstPort \<noteq> DefaultPort \<and> srcPort \<noteq> DefaultPort then (bufs, printed)
          else case pk_app pkt of
            None \<Rightarrow> (bufs, printed)
          | Some payload \<Rightarrow>
              (if dstPort = DefaultPort then (Buffer_Write rounded payload reqWriter, resWriter)
               else (reqWriter, Buffer_Write rounded payload resWriter),
               printed @ [Stdout (''Payload = ['' @ show_nat (length payload) @ ''] '' @ EncodeToString payload @ newline)])))"

fun dump_packets :: "(nat \<Rightarrow> nat) \<Rightarrow> packet list \<Rightarrow> Buffer \<times> Buffer \<Rightarrow> (Buffer \<times> Buffer) \<times> dump_line list" where
  "dump_packets rounded [] bufs = (bufs, [])"
| "dump_packets rounded (pkt # pkts) bufs = (case dump_packet rounded pkt bufs of (bufs1, out1) \<Rightarrow>
     (case dump_packets rounded pkts bufs1 of (bufs2, out2) \<Rightarrow> (bufs2, out1 @ out2)))"

section \<open>Messages\<close>

definition dump_skipMessage :: "unit rd" where
  "dump_skipMessage = goseq NewMessageWithReader (\<lambda>msg. goseq (ReadMessageData msg) (\<lambda>_. ret ()))"

definition dump_exit :: "gerr \<Rightarrow> dump_line list" where
  "dump_exit err = [Stderr (''Error: '' @ err_text err @ newline)]"

definition type_line :: "msg_type \<Rightarrow> dump_line" where
  "type_line t = Stdout (Type_String t @ '' ('' @ EncodeToString [t] @ '')'' @ newline)"

lemma peeked_advance:
  assumes "advancing m" "(Ok t, r1) = PeekType r" "(x, r2) = m r1"
  shows "left r2 < left r"
  using advancingD [OF assms(1) assms(3) [symmetric]] PeekType_Ok_peeked [OF assms(2) [symmetric]] by simp

lemma nongrowing_dump_rest: "nongrowing (goseq (ReadMessageData msg) (\<lambda>_. ret ()))"
  by (intro nongrowing_intros)

lemma advancing_dump_skipMessage: "advancing dump_skipMessage"
  unfolding dump_skipMessage_def by (rule advancing_goseq [OF advancing_NewMessageWithReader nongrowing_dump_rest])

text \<open>
  The loop. A query that cannot be parsed is passed over, any other message ends the program with its
  error. Every round consumes the byte that was peeked, so the loop ends.
\<close>

function dump_loop :: "bool \<Rightarrow> reader \<Rightarrow> dump_end \<times> dump_line list" where
  "dump_loop isQueryEnabled r = (case PeekType r of
       (Err _, _) \<Rightarrow> (Exit 0, [])
     | (Panic p, _) \<Rightarrow> (Crash p, [])
     | (Ok msgType, r1) \<Rightarrow>
         (if msgType = QueryMessage \<and> isQueryEnabled then
            (case NewQueryWithReader r1 of
               (Ok q, r2) \<Rightarrow> (case dump_loop isQueryEnabled r2 of (x, out) \<Rightarrow>
                  (x, [type_line msgType, Stderr (query_Query q @ newline)] @ out))
             | (Err _, r2) \<Rightarrow> (case dump_loop isQueryEnabled r2 of (x, out) \<Rightarrow> (x, type_line msgType # out))
             | (Panic p, _) \<Rightarrow> (Crash p, [type_line msgType]))
          else
            (case dump_skipMessage r1 of
               (Ok _, r2) \<Rightarrow> (case dump_loop isQueryEnabled r2 of (x, out) \<Rightarrow> (x, type_line msgType # out))
             | (Err e, _) \<Rightarrow> (Exit 1, type_line msgType # dump_exit e)
             | (Panic p, _) \<Rightarrow> (Crash p, [type_line msgType]))))"
  by pat_completeness auto
termination
  by (relation "measure (\<lambda>(_, r). left r)")
    (auto intro: peeked_advance [OF advancing_dump_skipMessage] peeked_advance [OF advancing_requests(4)])

declare dump_loop.simps [simp del]

section \<open>The program\<close>

text \<open>Behind the command line: the arguments that are no options, and the packets of the file or the error of opening it\<close>

definition usage_lines :: "dump_line list" where
  "usage_lines = map (\<lambda>s. Stderr (s @ newline))
     [''Usage:'', ''  pgpcapdump [OPTIONS] FILE'', [], ''Options:'', ''  -q      : Extract queries.'', [],
      ''Return Value:'', ''  Return EXIT_SUCCESS or EXIT_FAILURE'']"

definition writer_line :: "string \<Rightarrow> bytes \<Rightarrow> bytes \<Rightarrow> dump_line" where
  "writer_line name bs start = Stdout (name @ '' = '' @ show_nat (length bs) @ '' '' @ EncodeToString start @ newline)"

definition dump_messages :: "bool \<Rightarrow> Buffer \<times> Buffer \<Rightarrow> dump_end \<times> dump_line list" where
  "dump_messages isQueryEnabled bufs = (case bufs of (reqWriter, resWriter) \<Rightarrow>
     (case first_bytes 128 reqWriter of
        Panic p \<Rightarrow> (Crash p, [])
      | Err e \<Rightarrow> (Exit 1, dump_exit e)
      | Ok req \<Rightarrow> (case first_bytes 128 resWriter of
          Panic p \<Rightarrow> (Crash p, [writer_line ''reqWriter'' (bf_bytes reqWriter) req])
        | Err e \<Rightarrow> (Exit 1, dump_exit e)
        | Ok res \<Rightarrow>
            (let written = [writer_line ''reqWriter'' (bf_bytes reqWriter) req, writer_line ''resWriter'' (bf_bytes resWriter) res] in
             case NewStartupWithReader (NewReaderWithBytes (bf_bytes reqWriter)) of
               (Panic p, _) \<Rightarrow> (Crash p, written)
             | (Err e, _) \<Rightarrow> (Exit 1, written @ dump_exit e)
             | (Ok _, r) \<Rightarrow> (case dump_loop isQueryEnabled r of (x, out) \<Rightarrow>
                 (x, written @ [Stdout (''startup'' @ newline)] @ out))))))"

definition pgpcapdump :: "(nat \<Rightarrow> nat) \<Rightarrow> bool \<Rightarrow> string list \<Rightarrow> (string \<Rightarrow> packet list go) \<Rightarrow> dump_end \<times> dump_line list" where
  "pgpcapdump rounded isQueryEnabled args OpenOffline = (case args of
       [] \<Rightarrow> (Exit 1, usage_lines)
     | pcapFilename # _ \<Rightarrow> (case OpenOffline pcapFilename of
         Panic p \<Rightarrow> (Crash p, [])
       | Err e \<Rightarrow> (Exit 1, dump_exit e)
       | Ok pkts \<Rightarrow> (case dump_packets rounded pkts (empty_Buffer, empty_Buffer) of (bufs, out) \<Rightarrow>
           (case dump_messages isQueryEnabled bufs of (x, out') \<Rightarrow> (x, out @ out')))))"

section \<open>What the dump shows\<close>

text \<open>The payloads that go to the server, and those that come from it\<close>

definition request_payload :: "packet \<Rightarrow> bytes" where
  "request_payload pkt = (case (pk_tcp pkt, pk_app pkt) of
     (Some (dst, src), Some payload) \<Rightarrow> if dst = DefaultPort then payload else [] | _ \<Rightarrow> [])"

definition response_payload :: "packet \<Rightarrow> bytes" where
  "response_payload pkt = (case (pk_tcp pkt, pk_app pkt) of
     (Some (dst, src), Some payload) \<Rightarrow> if dst \<noteq> DefaultPort \<and> src = DefaultPort then payload else [] | _ \<Rightarrow> [])"

lemma Buffer_Write_bytes [simp]: "bf_bytes (Buffer_Write rounded p b) = bf_bytes b @ p"
  by (simp add: Buffer_Write_def Let_def)

lemma dump_packets_bytes:
  "dump_packets rounded pkts (rq, rs) = ((rq', rs'), out) \<Longrightarrow>
   bf_bytes rq' = bf_bytes rq @ concat (map request_payload pkts) \<and>
   bf_bytes rs' = bf_bytes rs @ concat (map response_payload pkts)"
proof (induction pkts arbitrary: rq rs out)
  case (Cons pkt pkts)
  obtain rq1 rs1 out1 where one: "dump_packet rounded pkt (rq, rs) = ((rq1, rs1), out1)" by (metis surj_pair)
  then have "bf_bytes rq1 = bf_bytes rq @ request_payload pkt" "bf_bytes rs1 = bf_bytes rs @ response_payload pkt"
    by (auto simp: dump_packet_def request_payload_def response_payload_def Let_def
        split: option.splits prod.splits if_splits)
  with Cons.IH [of rq1 rs1] Cons.prems one show ?case by (auto split: prod.splits)
qed simp

text \<open>A buffer that nothing is written to has no capacity.\<close>

lemma dump_packets_no_response:
  "dump_packets rounded pkts (rq, empty_Buffer) = ((rq', rs'), out) \<Longrightarrow> concat (map response_payload pkts) = [] \<Longrightarrow>
   rs' = empty_Buffer"
proof (induction pkts arbitrary: rq out)
  case (Cons pkt pkts)
  obtain rq1 rs1 out1 where one: "dump_packet rounded pkt (rq, empty_Buffer) = ((rq1, rs1), out1)" by (metis surj_pair)
  then have "rs1 = empty_Buffer"
    using Cons.prems(2)
    by (auto simp: dump_packet_def response_payload_def Buffer_Write_def empty_Buffer_def Let_def
        split: option.splits prod.splits if_splits)
  with Cons.IH [of rq1] Cons.prems one show ?case by (auto split: prod.splits)
qed simp

lemma peek_nothing:
  assumes "reader_patient r" "reader_pending r = []"
  shows "\<exists>e r1. PeekType r = (Err e, r1)"
proof -
  obtain e r1 where "ReadBytes 1 r = (Err e, r1)" using ReadBytes_short [of r 1] assms by auto
  then show ?thesis by (simp add: PeekType_def PeekBytes_def go_simps)
qed

lemma parses_dump_skipMessage:
  assumes "length payload < 2 ^ 31"
  shows "parses front dump_skipMessage (frame t payload) ()"
proof -
  let ?msg = "\<lparr>msg_Type = t, msg_Length = of_nat (length payload + 4)\<rparr> :: message"
  have "parses front (goseq (ReadMessageData ?msg) (\<lambda>_. ret ())) payload ()"
    by (rule parses_goseq_ret [OF front.parses_ReadMessageData]) (use assms in simp_all)
  then show ?thesis
    unfolding dump_skipMessage_def frame_def by (rule parses_goseq [OF front.parses_NewMessageWithReader])
qed

text \<open>The lines of a message, and of the end of the session\<close>

definition client_lines :: "bool \<Rightarrow> client_msg \<Rightarrow> dump_line list" where
  "client_lines isQueryEnabled m = type_line (type_of_client m) # (case m of
     CQuery q \<Rightarrow> if isQueryEnabled then [Stderr (q @ newline)] else [] | _ \<Rightarrow> [])"

lemma dump_round:
  assumes "front r" "reader_patient r" "reader_pending r = client_frame m @ rest" "valid_client m"
    and "length (payload_of_client m) < 2 ^ 31"
  obtains r2 where "front r2" "reader_patient r2" "reader_pending r2 = rest"
    "dump_loop b r = (case dump_loop b r2 of (x, out) \<Rightarrow> (x, client_lines b m @ out))"
proof -
  let ?t = "type_of_client m"
  obtain r1 where r1: "PeekType r = (Ok ?t, r1)" "front r1" "reader_patient r1" "reader_pending r1 = client_frame m @ rest"
    using peek_front [OF assms(1,2), of ?t] assms(3) by (auto simp: client_frame_def frame_def header_def)
  show thesis
  proof (cases "?t = QueryMessage \<and> b")
    case True
    with assms(4) obtain q where m: "m = CQuery q" by (cases m) (auto simp: msg_types)
    have pending: "reader_pending r1 = (header QueryMessage (of_nat (length (cstring q) + 4)) @ cstring q) @ rest"
      using r1(4) by (simp only: m client_frame_def frame_def type_of_client.simps payload_of_client.simps)
    have "no_nul q" using assms(4) m by simp
    from parsesE [OF front.parses_Query [OF this] r1(2,3) pending]
    obtain r2 where "NewQueryWithReader r1 = (Ok \<lparr>query_header = Some \<lparr>msg_Type = QueryMessage,
        msg_Length = of_nat (length (cstring q) + 4)\<rparr>, query_Query = q, query_BindParams = []\<rparr>, r2)"
      "front r2" "reader_patient r2" "reader_pending r2 = rest" .
    with r1(1) True m that [of r2] show thesis
      by (simp add: dump_loop.simps [of _ r] client_lines_def split: prod.splits)
  next
    case False
    obtain r2 where "dump_skipMessage r1 = (Ok (), r2)" "front r2" "reader_patient r2" "reader_pending r2 = rest"
      using parsesE [OF parses_dump_skipMessage [OF assms(5), of ?t] r1(2,3), of rest] r1(4)
      by (auto simp: client_frame_def)
    with r1(1) False that [of r2] show thesis
      by (cases m) (auto simp: dump_loop.simps [of _ r] client_lines_def split: prod.splits)
  qed
qed

lemma dump_loop_lines:
  assumes "front r" "reader_patient r" "reader_pending r = client_frames ms @ (if fin then frame TerminateMessage [] else [])"
    and "list_all (\<lambda>m. valid_client m \<and> length (payload_of_client m) < 2 ^ 31) ms"
  shows "dump_loop b r = (Exit 0, concat (map (client_lines b) ms) @ (if fin then [type_line TerminateMessage] else []))"
  using assms
proof (induction ms arbitrary: r)
  case Nil
  show ?case
  proof (cases fin)
    case False
    then show ?thesis using peek_nothing [of r] Nil by (auto simp: dump_loop.simps [of _ r])
  next
    case True
    obtain r1 where r1: "PeekType r = (Ok TerminateMessage, r1)" "front r1" "reader_patient r1"
      "reader_pending r1 = frame TerminateMessage [] @ []"
      using peek_front [OF Nil(1,2), of TerminateMessage] Nil(3) True by (auto simp: frame_def header_def)
    obtain r2 where r2: "dump_skipMessage r1 = (Ok (), r2)" "reader_patient r2" "reader_pending r2 = []"
      using parsesE [OF parses_dump_skipMessage [of "[]" TerminateMessage] r1(2-4)] by auto
    obtain e r3 where "PeekType r2 = (Err e, r3)" using peek_nothing [OF r2(2,3)] by blast
    with r1(1) r2(1) True show ?thesis
      by (simp add: dump_loop.simps [of _ r] dump_loop.simps [of _ r2] msg_types)
  qed
next
  case (Cons m ms)
  obtain r2 where r2: "front r2" "reader_patient r2"
    "reader_pending r2 = client_frames ms @ (if fin then frame TerminateMessage [] else [])"
    "dump_loop b r = (case dump_loop b r2 of (x, out) \<Rightarrow> (x, client_lines b m @ out))"
    using dump_round [OF Cons.prems(1,2), of m "client_frames ms @ (if fin then frame TerminateMessage [] else [])" b]
      Cons.prems(3,4) by auto
  with Cons.IH [OF r2(1-3)] Cons.prems(4) show ?case by simp
qed

text \<open>Under a run-time system that rounds sizes up, a buffer has room for what was written.\<close>

lemma dump_packets_capacity:
  assumes "\<And>n. n \<le> rounded n"
  shows "dump_packets rounded pkts (rq, rs) = ((rq', rs'), out) \<Longrightarrow> length (bf_bytes rq) \<le> bf_cap rq \<Longrightarrow>
    length (bf_bytes rs) \<le> bf_cap rs \<Longrightarrow> length (bf_bytes rq') \<le> bf_cap rq' \<and> length (bf_bytes rs') \<le> bf_cap rs'"
proof (induction pkts arbitrary: rq rs out)
  case (Cons pkt pkts)
  have room: "length (bf_bytes (Buffer_Write rounded p b)) \<le> bf_cap (Buffer_Write rounded p b)"
    if "length (bf_bytes b) \<le> bf_cap b" for p b
    using that assms [of "max (length (bf_bytes b) + length p) (2 * bf_cap b)"]
    by (auto simp: Buffer_Write_def Let_def simp del: Buffer_Write_bytes)
  obtain rq1 rs1 out1 where one: "dump_packet rounded pkt (rq, rs) = ((rq1, rs1), out1)" by (metis surj_pair)
  then have "length (bf_bytes rq1) \<le> bf_cap rq1" "length (bf_bytes rs1) \<le> bf_cap rs1"
    using room [of rq] room [of rs] Cons.prems(2,3)
    by (auto simp: dump_packet_def Let_def simp del: Buffer_Write_bytes split: option.splits prod.splits if_splits)
  with Cons.IH [of rq1 rs1] Cons.prems(1) one show ?case by (auto split: prod.splits)
qed simp

text \<open>
  C9: the dump shows the conversation. However the client's bytes were cut into packets and mixed
  with others, once 128 bytes went either way the dump prints the types of the client's messages in
  order, the text of each query behind its type, and ends without an error.
\<close>

theorem dump_shows_conversation:
  assumes "\<And>n. n \<le> rounded n" and "OpenOffline f = Ok pkts"
    and "concat (map request_payload pkts) = req" and "concat (map response_payload pkts) = res"
    and "128 \<le> length req" and "128 \<le> length res"
    and "req = enc_startup params @ client_frames ms @ (if fin then frame TerminateMessage [] else [])"
    and "startup_ok params" and "length (enc_params params) + 9 < 2 ^ 31"
    and "list_all (\<lambda>m. valid_client m \<and> length (payload_of_client m) < 2 ^ 31) ms"
  shows "pgpcapdump rounded b (f # args) OpenOffline =
    (Exit 0, snd (dump_packets rounded pkts (empty_Buffer, empty_Buffer)) @
      [writer_line ''reqWriter'' req (take 128 req), writer_line ''resWriter'' res (take 128 res),
       Stdout (''startup'' @ newline)] @
      concat (map (client_lines b) ms) @ (if fin then [type_line TerminateMessage] else []))"
proof -
  let ?msgs = "client_frames ms @ (if fin then frame TerminateMessage [] else [])"
  obtain rq rs out where d: "dump_packets rounded pkts (empty_Buffer, empty_Buffer) = ((rq, rs), out)" by (metis surj_pair)
  have bytes: "bf_bytes rq = req" "bf_bytes rs = res"
    using dump_packets_bytes [OF d] assms(3,4) by (simp_all add: empty_Buffer_def)
  have cap: "128 \<le> bf_cap rq" "128 \<le> bf_cap rs"
    using dump_packets_capacity [OF assms(1) d] bytes assms(5,6) by (auto simp: empty_Buffer_def)
  let ?r = "NewReaderWithBytes (bf_bytes rq)"
  have r: "front ?r" "reader_patient ?r" "reader_pending ?r = enc_startup params @ ?msgs"
    using bytes assms(7) by (simp_all add: NewReaderWithBytes_def front_def whole_source_def reader_patient_def
        src_patient_def reader_pending_def src_pending_def)
  obtain msg r1 where r1: "NewStartupWithReader ?r = (Ok msg, r1)" "front r1" "reader_patient r1" "reader_pending r1 = ?msgs"
    using parsesE [OF front.parses_Startup [OF assms(8,9)] r] by metis
  from dump_loop_lines [OF r1(2-4) assms(10)] have
    "dump_loop b r1 = (Exit 0, concat (map (client_lines b) ms) @ (if fin then [type_line TerminateMessage] else []))" .
  with assms(2,5,6) d cap bytes r1(1) show ?thesis
    by (simp add: pgpcapdump_def dump_messages_def first_bytes_def Let_def)
qed

text \<open>A capture of a start-up message, a query, a termination and an answer of 128 bytes\<close>

definition captured_query :: string where "captured_query = replicate 128 CHR ''x''"

definition captured_requests :: bytes where
  "captured_requests = enc_startup [(''user'', ''bob'')] @ client_frames [CQuery captured_query] @ frame TerminateMessage []"

definition captured_answer :: bytes where "captured_answer = replicate 128 0"

definition captured :: "packet list" where
  "captured = [
     \<lparr>pk_text = ''ARP'', pk_tcp = None, pk_app = None\<rparr>,
     \<lparr>pk_text = ''to'', pk_tcp = Some (5432, 40000), pk_app = Some (take 40 captured_requests)\<rparr>,
     \<lparr>pk_text = ''from'', pk_tcp = Some (40000, 5432), pk_app = Some captured_answer\<rparr>,
     \<lparr>pk_text = ''to'', pk_tcp = Some (5432, 40000), pk_app = Some (drop 40 captured_requests)\<rparr>]"

theorem dump_shows_conversation_witness:
  "pgpcapdump (\<lambda>n. n) True [''f''] (\<lambda>_. Ok captured) =
    (Exit 0, snd (dump_packets (\<lambda>n. n) captured (empty_Buffer, empty_Buffer)) @
      [writer_line ''reqWriter'' captured_requests (take 128 captured_requests),
       writer_line ''resWriter'' captured_answer (take 128 captured_answer), Stdout (''startup'' @ newline)] @
      [type_line QueryMessage, Stderr (captured_query @ newline), type_line TerminateMessage])"
proof -
  have query: "no_nul captured_query" by (simp add: captured_query_def no_nul_def bytes_of_string_def byte_of_char_def)
  have long: "128 \<le> length captured_requests" "length captured_query = 128"
    by (simp_all add: captured_requests_def captured_query_def client_frame_def frame_def)
  have short: "length (enc_params [(''user'', ''bob'')]) + 9 < 2 ^ 31" by (simp add: enc_params_def)
  have params: "startup_ok [(''user'', ''bob'')]"
    by (simp add: startup_ok_def no_nul_def bytes_of_string_def byte_of_char_def)
  show ?thesis
    using dump_shows_conversation [of "\<lambda>n. n" "\<lambda>_. Ok captured" "''f''" captured captured_requests captured_answer
        "[(''user'', ''bob'')]" "[CQuery captured_query]" True True "[]", OF _ _ _ _ _ _ _ params short]
      query long
    by (simp add: captured_def request_payload_def response_payload_def DefaultPort_def client_lines_def
        captured_answer_def captured_requests_def del: take_append drop_append)
qed

text \<open>
  C30: a capture without a byte from the server stops the dump. The program prints the first 128 bytes of both
  buffers, and a buffer nothing was written to has no room for them: slicing it panics before any
  message is read.
\<close>

theorem dump_without_responses_crashes:
  assumes "OpenOffline f = Ok pkts" and "concat (map response_payload pkts) = []"
  shows "fst (pgpcapdump rounded b (f # args) OpenOffline) = Crash SliceBoundsOutOfRange"
proof -
  obtain rq rs out where d: "dump_packets rounded pkts (empty_Buffer, empty_Buffer) = ((rq, rs), out)" by (metis surj_pair)
  with dump_packets_no_response [OF d assms(2)] assms(1) show ?thesis
    by (simp add: pgpcapdump_def dump_messages_def first_bytes_def empty_Buffer_def Let_def split: prod.splits)
qed

theorem dump_without_responses_crashes_witness:
  "fst (pgpcapdump (\<lambda>n. n) True [''f''] (\<lambda>_. Ok (take 2 captured))) = Crash SliceBoundsOutOfRange"
  by (rule dump_without_responses_crashes [of _ _ "take 2 captured"])
    (simp_all add: captured_def response_payload_def DefaultPort_def)

end
