(* ===== verification/Tracing.thy ===== *)
theory Tracing
  imports Server_Loop
begin

text \<open>
  Tracing (\<open>protocol/conn_impl.go\<close>, \<open>protocol/server_impl.go\<close>, \<open>server_query_handler.go\<close>): the tracer context
  of a connection, the spans the request loop starts and finishes around each step, and the one around
  parsing. The tracing library is another package; here is the sequence of calls made to it, each with
  the context it is made on. Its calls neither panic nor touch the connection.
\<close>

section \<open>The calls to the tracer\<close>

text \<open>
  \<open>Tracer.StartSpan\<close> makes a new context, whose stack holds the span it is named after; \<open>StartSpan\<close>
  and \<open>FinishSpan\<close> of a context push and pop, and \<open>Span().Finish()\<close> finishes the span on top.
\<close>

datatype trace_event =
    Started nat string
  | Pushed nat string
  | Popped nat
  | Finished nat

text \<open>A session with the tracer context of its connection; contexts are numbered as they are made.\<close>

record 'a traced =
  td_session :: "'a session"
  td_context :: "nat option"
  td_events :: "trace_event list"
  td_next :: nat

type_synonym ('a, 'r) tm = "('a traced, gerr, 'r) gom"

definition NewConn_traced :: "'a session \<Rightarrow> 'a traced" where
  "NewConn_traced s = \<lparr>td_session = s, td_context = None, td_events = [], td_next = 0\<rparr>"

definition WithConnTracer :: "nat option \<Rightarrow> 'a traced \<Rightarrow> 'a traced" where
  "WithConnTracer t ts = ts\<lparr>td_context := t\<rparr>"

definition untraced :: "('a, 'r) sm \<Rightarrow> ('a, 'r) tm" where
  "untraced = on_part td_session (\<lambda>s ts. ts\<lparr>td_session := s\<rparr>)"

definition tell :: "trace_event \<Rightarrow> ('a, unit) tm" where
  "tell e = modify (\<lambda>ts. ts\<lparr>td_events := td_events ts @ [e]\<rparr>)"

definition Tracer_StartSpan :: "string \<Rightarrow> ('a, nat) tm" where
  "Tracer_StartSpan name ts =
     (Ok (td_next ts), ts\<lparr>td_events := td_events ts @ [Started (td_next ts) name], td_next := Suc (td_next ts)\<rparr>)"

definition SetSpanContext :: "nat option \<Rightarrow> ('a, unit) tm" where
  "SetSpanContext ctx = modify (\<lambda>ts. ts\<lparr>td_context := ctx\<rparr>)"

definition SpanContext :: "('a, nat option) tm" where
  "SpanContext = gets td_context"

text \<open>A connection without a context: a method of a nil interface is called.\<close>

definition StartSpan :: "string \<Rightarrow> ('a, unit) tm" where
  "StartSpan name = goseq SpanContext (\<lambda>ctx. case ctx of
       None \<Rightarrow> panic NilPointerDereference
     | Some k \<Rightarrow> tell (Pushed k name))"

definition FinishSpan :: "('a, unit) tm" where
  "FinishSpan = goseq SpanContext (\<lambda>ctx. case ctx of
       None \<Rightarrow> panic NilPointerDereference
     | Some k \<Rightarrow> tell (Popped k))"

text \<open>\<open>conn.Span()\<close> is the span on top of the context's stack, which is known by its context.\<close>

definition Span :: "('a, nat) tm" where
  "Span = goseq SpanContext (\<lambda>ctx. case ctx of None \<Rightarrow> panic NilPointerDereference | Some k \<Rightarrow> ret k)"

section \<open>The request loop with its spans\<close>

definition t_handle_Query :: "('a, 'x) query_server_scheme \<Rightarrow> Query_msg \<Rightarrow> ('a, responses) tm" where
  "t_handle_Query sv msg =
     goseq (StartSpan ''parse'') (\<lambda>_.
     case sv_BindStatements sv (query_Query msg) (query_BindParams msg) of
       Panic p \<Rightarrow> panic p
     | _ \<Rightarrow> goseq FinishSpan (\<lambda>_. untraced (handle_Query sv msg)))"

definition t_handle_Execute :: "('a, 'x) query_server_scheme \<Rightarrow> Execute_msg \<Rightarrow> ('a, responses) tm" where
  "t_handle_Execute sv msg =
     goseq (untraced (on_prep (\<lambda>uuid mgr. (PreparedPortal uuid (execute_PortalName msg) mgr, mgr)))) (\<lambda>q.
     t_handle_Query sv q)"

definition t_request :: "'m rd \<Rightarrow> ('m \<Rightarrow> ('a, responses) tm) \<Rightarrow> ('a, responses) tm" where
  "t_request parser handler = goseq (untraced (on_conn (on_reader parser))) handler"

definition t_dispatch :: "('a, 'x) query_server_scheme \<Rightarrow> msg_type \<Rightarrow> ('a, responses) tm" where
  "t_dispatch sv reqType =
     (if reqType = QueryMessage then t_request NewQueryWithReader (t_handle_Query sv)
      else if reqType = ExecuteMessage then t_request NewExecuteWithReader (t_handle_Execute sv)
      else untraced (dispatch (server_handler sv) reqType))"

text \<open>\<open>if err := m(); err != nil { loopSpan.Span().Finish(); return err }\<close>\<close>

definition or_finish :: "nat \<Rightarrow> gerr + 'r \<Rightarrow> ('a, 'r) tm" where
  "or_finish loopSpan x = (case x of
       Inl e \<Rightarrow> goseq (tell (Finished loopSpan)) (\<lambda>_. fail e)
     | Inr r \<Rightarrow> ret r)"

definition t_after_request :: "nat \<Rightarrow> responses \<Rightarrow> gerr option \<Rightarrow> ('a, bool) tm" where
  "t_after_request loopSpan resMsgs reqErr =
     goseq FinishSpan (\<lambda>_.
     goseq (StartSpan ''response'') (\<lambda>_.
     goseq (gotry (untraced (on_conn (ResponseMessages resMsgs)))) (\<lambda>x.
     goseq FinishSpan (\<lambda>_.
     goseq (or_finish loopSpan x) (\<lambda>_.
     goseq (gotry (untraced (on_conn (ResponseError reqErr)))) (\<lambda>x.
     goseq (or_finish loopSpan x) (\<lambda>_.
     goseq (gotry (untraced (on_conn (on_reader PeekTypeNonBlocking)))) (\<lambda>peeked.
     case peeked of
       Inr _ \<Rightarrow> ret True
     | Inl _ \<Rightarrow>
         goseq (StartSpan ''ready'') (\<lambda>_.
         goseq (gotry (untraced (on_conn ReadyForMessage))) (\<lambda>x.
         goseq FinishSpan (\<lambda>_.
         goseq (or_finish loopSpan x) (\<lambda>_.
         goseq (tell (Finished loopSpan)) (\<lambda>_. ret True)))))))))))))"

text \<open>A round behind the type of its request, from the span of that type on\<close>

definition t_round :: "('a, 'x) query_server_scheme \<Rightarrow> msg_type \<Rightarrow> nat \<Rightarrow> ('a, bool) tm" where
  "t_round sv reqType loopSpan =
     goseq (StartSpan (Type_String reqType)) (\<lambda>_.
     if reqType = TerminateMessage then
       goseq (gotry (untraced (on_conn (on_reader NewTerminateWithReader)))) (\<lambda>x. case x of
         Inr _ \<Rightarrow> goseq FinishSpan (\<lambda>_. goseq (tell (Finished loopSpan)) (\<lambda>_. ret False))
       | Inl reqErr \<Rightarrow> t_after_request loopSpan [] (Some reqErr))
     else
       goseq (gotry (t_dispatch sv reqType)) (\<lambda>x. case x of
         Inr resMsgs \<Rightarrow> t_after_request loopSpan resMsgs None
       | Inl reqErr \<Rightarrow> t_after_request loopSpan [] (Some reqErr)))"

definition t_receive_step :: "string \<Rightarrow> ('a, 'x) query_server_scheme \<Rightarrow> ('a, bool) tm" where
  "t_receive_step product sv =
     goseq (gotry (untraced (on_conn (on_reader PeekType)))) (\<lambda>peeked.
     case peeked of
       Inl reqErr \<Rightarrow> goseq (gotry (untraced (on_conn (ResponseError (Some reqErr))))) (\<lambda>_. ret False)
     | Inr reqType \<Rightarrow>
         goseq (Tracer_StartSpan product) (\<lambda>loopSpan.
         goseq (SetSpanContext (Some loopSpan)) (\<lambda>_.
         t_round sv reqType loopSpan)))"

fun t_receive_loop :: "nat \<Rightarrow> string \<Rightarrow> ('a, 'x) query_server_scheme \<Rightarrow> 'a traced \<Rightarrow> (unit go \<times> 'a traced) option" where
  "t_receive_loop 0 product sv ts = None"
| "t_receive_loop (Suc fuel) product sv ts = (case t_receive_step product sv ts of
       (Ok True, ts') \<Rightarrow> t_receive_loop fuel product sv ts'
     | (Ok False, ts') \<Rightarrow> Some (Ok (), ts')
     | (Err e, ts') \<Rightarrow> Some (Err e, ts')
     | (Panic p, ts') \<Rightarrow> Some (Panic p, ts'))"

section \<open>Tracing leaves the server alone\<close>

text \<open>Without the events, on a connection with a context, \<open>m\<close> does what \<open>n\<close> does.\<close>

definition erases :: "('a, 'r) tm \<Rightarrow> ('a, 'r) sm \<Rightarrow> bool" where
  "erases m n \<longleftrightarrow> (\<forall>ts. td_context ts \<noteq> None \<longrightarrow>
     (case m ts of (x, ts') \<Rightarrow> n (td_session ts) = (x, td_session ts') \<and> td_context ts' \<noteq> None))"

named_theorems erases_intros \<open>rules that tracing calls leave a computation as it is\<close>

lemma erases_untraced [erases_intros]: "erases (untraced m) m"
  by (simp add: erases_def untraced_def on_part_def split: prod.split)

lemma erases_ret [erases_intros]: "erases (ret x) (ret x)"
  by (simp add: erases_def ret_def)

lemma erases_fail [erases_intros]: "erases (fail e) (fail e)"
  by (simp add: erases_def fail_def)

lemma erases_panic [erases_intros]: "erases (panic p) (panic p)"
  by (simp add: erases_def panic_def)

lemma erases_goseq [erases_intros]:
  "erases m n \<Longrightarrow> (\<And>x. erases (f x) (g x)) \<Longrightarrow> erases (goseq m f) (goseq n g)"
  by (fastforce simp: erases_def goseq_def split: prod.splits res.splits)

lemma erases_gotry [erases_intros]: "erases m n \<Longrightarrow> erases (gotry m) (gotry n)"
  by (fastforce simp: erases_def gotry_def split: prod.splits res.splits)

lemma erasesD:
  "erases m n \<Longrightarrow> td_context ts \<noteq> None \<Longrightarrow> m ts = (x, ts') \<Longrightarrow>
     n (td_session ts) = (x, td_session ts') \<and> td_context ts' \<noteq> None"
  unfolding erases_def by (drule spec [of _ ts]) simp

lemma erasesI:
  "(\<And>ts x ts'. td_context ts \<noteq> None \<Longrightarrow> m ts = (x, ts') \<Longrightarrow>
     n (td_session ts) = (x, td_session ts') \<and> td_context ts' \<noteq> None) \<Longrightarrow> erases m n"
  unfolding erases_def by (auto split: prod.split)

lemma tell_step: "goseq (tell e) f ts = f () (ts\<lparr>td_events := td_events ts @ [e]\<rparr>)"
  by (simp add: tell_def goseq_def modify_def)

lemma spans_step:
  "td_context ts = Some k \<Longrightarrow> goseq (StartSpan name) f ts = f () (ts\<lparr>td_events := td_events ts @ [Pushed k name]\<rparr>)"
  "td_context ts = Some k \<Longrightarrow> goseq FinishSpan f ts = f () (ts\<lparr>td_events := td_events ts @ [Popped k]\<rparr>)"
  by (simp_all add: StartSpan_def FinishSpan_def SpanContext_def tell_def go_simps)

lemma erases_spans [erases_intros]:
  assumes "erases m n"
  shows "erases (goseq (tell e) (\<lambda>_. m)) n"
    and "erases (goseq (StartSpan name) (\<lambda>_. m)) n"
    and "erases (goseq FinishSpan (\<lambda>_. m)) n"
proof -
  have told: "erases (goseq (tell e) (\<lambda>_. m)) n" for e
    by (rule erasesI) (auto simp: tell_step dest: erasesD [OF assms, rotated])
  show "erases (goseq (tell e) (\<lambda>_. m)) n" by (rule told)
  have "goseq (StartSpan name) (\<lambda>_. m) ts = goseq (tell (Pushed (the (td_context ts)) name)) (\<lambda>_. m) ts"
    "goseq FinishSpan (\<lambda>_. m) ts = goseq (tell (Popped (the (td_context ts)))) (\<lambda>_. m) ts"
    if "td_context ts \<noteq> None" for ts
    using that by (auto simp: spans_step tell_step)
  with erasesD [OF told] show "erases (goseq (StartSpan name) (\<lambda>_. m)) n" "erases (goseq FinishSpan (\<lambda>_. m)) n"
    by (metis (no_types, lifting) erasesI)+
qed

text \<open>A call whose error ends the round after the loop span is finished\<close>

lemma goseq_try: "goseq (gotry m) (\<lambda>x. case x of Inl e \<Rightarrow> fail e | Inr r \<Rightarrow> f r) = goseq m f"
  by (rule ext) (simp add: go_simps split: prod.split res.split)

lemma goseq_fail: "goseq (fail e) f = fail e"
  by (rule ext) (simp add: go_simps)

lemma erases_or_finish:
  "(\<And>r. erases (f r) (g r)) \<Longrightarrow> erases (goseq (or_finish k x) f) (case x of Inl e \<Rightarrow> fail e | Inr r \<Rightarrow> g r)"
  by (cases x) (auto simp: or_finish_def goseq_assoc goseq_fail erases_intros)

lemma erases_handle_Query: "erases (t_handle_Query sv msg) (handle_Query sv msg)"
proof (cases "sv_BindStatements sv (query_Query msg) (query_BindParams msg)")
  case (Panic p)
  then have "handle_Query sv msg = panic p" by (simp add: handle_Query_def)
  with Panic show ?thesis unfolding t_handle_Query_def by (simp add: erases_intros)
qed (simp_all add: t_handle_Query_def erases_intros)

lemma erases_handle_Execute: "erases (t_handle_Execute sv msg) (handle_Execute sv msg)"
  unfolding t_handle_Execute_def handle_Execute_def by (intro erases_intros erases_handle_Query)

lemma erases_dispatch: "erases (t_dispatch sv reqType) (dispatch (server_handler sv) reqType)"
proof -
  have "erases (t_request NewQueryWithReader (t_handle_Query sv)) (request NewQueryWithReader (handle_Query sv))"
    and "erases (t_request NewExecuteWithReader (t_handle_Execute sv)) (request NewExecuteWithReader (handle_Execute sv))"
    unfolding t_request_def request_def by (intro erases_intros erases_handle_Query erases_handle_Execute)+
  moreover have "dispatch (server_handler sv) QueryMessage = request NewQueryWithReader (handle_Query sv)"
    "dispatch (server_handler sv) ExecuteMessage = request NewExecuteWithReader (handle_Execute sv)"
    by (simp_all add: dispatch_def server_handler_def msg_types)
  ultimately show ?thesis unfolding t_dispatch_def by (auto intro: erases_untraced)
qed

lemma erases_after_request: "erases (t_after_request k resMsgs reqErr) (after_request resMsgs reqErr)"
proof -
  have plain: "after_request resMsgs reqErr =
     goseq (gotry (on_conn (ResponseMessages resMsgs))) (\<lambda>x. case x of Inl e \<Rightarrow> fail e | Inr _ \<Rightarrow>
     goseq (gotry (on_conn (ResponseError reqErr))) (\<lambda>x. case x of Inl e \<Rightarrow> fail e | Inr _ \<Rightarrow>
     goseq (gotry (on_conn (on_reader PeekTypeNonBlocking))) (\<lambda>peeked. case peeked of
       Inr _ \<Rightarrow> ret True
     | Inl _ \<Rightarrow> goseq (gotry (on_conn ReadyForMessage)) (\<lambda>x. case x of Inl e \<Rightarrow> fail e | Inr _ \<Rightarrow> ret True))))"
    by (simp add: after_request_def goseq_try)
  show ?thesis
    unfolding t_after_request_def plain
    by (intro erases_intros erases_or_finish) (auto split: sum.split intro!: erases_intros erases_or_finish)
qed

text \<open>The same round without spans\<close>

definition plain_round :: "('a, 'x) query_server_scheme \<Rightarrow> msg_type \<Rightarrow> ('a, bool) sm" where
  "plain_round sv reqType =
     (if reqType = TerminateMessage then
       goseq (gotry (on_conn (on_reader NewTerminateWithReader))) (\<lambda>x. case x of
         Inr _ \<Rightarrow> ret False
       | Inl reqErr \<Rightarrow> after_request [] (Some reqErr))
     else
       goseq (gotry (dispatch (server_handler sv) reqType)) (\<lambda>x. case x of
         Inr resMsgs \<Rightarrow> after_request resMsgs None
       | Inl reqErr \<Rightarrow> after_request [] (Some reqErr)))"

lemma erases_round: "erases (t_round sv reqType k) (plain_round sv reqType)"
  unfolding t_round_def plain_round_def
  by (cases "reqType = TerminateMessage")
    (auto split: sum.split intro!: erases_intros erases_dispatch erases_after_request)

text \<open>The state in which the round behind the peeked type starts\<close>

definition round_start :: "string \<Rightarrow> 'a session \<Rightarrow> 'a traced \<Rightarrow> 'a traced" where
  "round_start product s ts =
     ts\<lparr>td_session := s, td_events := td_events ts @ [Started (td_next ts) product],
       td_next := Suc (td_next ts), td_context := Some (td_next ts)\<rparr>"

lemma t_receive_step_cases:
  "t_receive_step product sv ts = (case on_conn (on_reader PeekType) (td_session ts) of
       (Ok reqType, s) \<Rightarrow> t_round sv reqType (td_next ts) (round_start product s ts)
     | (Err e, s) \<Rightarrow> (case on_conn (ResponseError (Some e)) s of (x, s') \<Rightarrow>
         (case x of Panic p \<Rightarrow> Panic p | _ \<Rightarrow> Ok False, ts\<lparr>td_session := s'\<rparr>))
     | (Panic p, s) \<Rightarrow> (Panic p, ts\<lparr>td_session := s\<rparr>))"
  by (simp add: t_receive_step_def round_start_def untraced_def Tracer_StartSpan_def SetSpanContext_def
      on_part_def goseq_def gotry_def modify_def ret_def split: prod.split res.split)

lemma receive_step_cases:
  "receive_step (server_handler sv) s = (case on_conn (on_reader PeekType) s of
       (Ok reqType, s1) \<Rightarrow> plain_round sv reqType s1
     | (Err e, s1) \<Rightarrow> (case on_conn (ResponseError (Some e)) s1 of (x, s2) \<Rightarrow>
         (case x of Panic p \<Rightarrow> Panic p | _ \<Rightarrow> Ok False, s2))
     | (Panic p, s1) \<Rightarrow> (Panic p, s1))"
proof -
  have "receive_step (server_handler sv) = goseq (gotry (on_conn (on_reader PeekType))) (\<lambda>peeked. case peeked of
      Inl reqErr \<Rightarrow> goseq (gotry (on_conn (ResponseError (Some reqErr)))) (\<lambda>_. ret False)
    | Inr reqType \<Rightarrow> plain_round sv reqType)"
    by (simp only: receive_step_def plain_round_def)
  then show ?thesis by (simp add: goseq_def gotry_def ret_def split: prod.split res.split)
qed

lemma traced_step:
  assumes "t_receive_step product sv ts = (x, ts')"
  shows "receive_step (server_handler sv) (td_session ts) = (x, td_session ts')"
proof (cases "on_conn (on_reader PeekType) (td_session ts)")
  case (Pair y s)
  show ?thesis
  proof (cases y)
    case (Ok reqType)
    have "td_context (round_start product s ts) \<noteq> None" "td_session (round_start product s ts) = s"
      by (simp_all add: round_start_def)
    with erasesD [OF erases_round, of "round_start product s ts"] assms Pair Ok show ?thesis
      by (fastforce simp: t_receive_step_cases receive_step_cases)
  qed (use assms Pair in \<open>auto simp: t_receive_step_cases receive_step_cases split: prod.splits\<close>)
qed

text \<open>
  C7: tracing leaves the server alone. Whatever the tracer is, the request loop with its spans sends,
  reads, returns and panics as the loop without them; no span is started on a missing context.
\<close>

theorem tracing_erased:
  "map_option (\<lambda>(x, ts'). (x, td_session ts')) (t_receive_loop fuel product sv ts) =
     receive_loop fuel (server_handler sv) (td_session ts)"
proof (induction fuel arbitrary: ts)
  case (Suc fuel)
  obtain x ts' where step: "t_receive_step product sv ts = (x, ts')" by fastforce
  from traced_step [OF step] Suc.IH [of ts'] step show ?case
    by (simp split: res.split bool.split)
qed simp

section \<open>The spans of a round\<close>

text \<open>The calls behind the ones of the request itself, up to where the round ended\<close>

definition answer_log :: "nat \<Rightarrow> trace_event list" where
  "answer_log k = [Popped k, Pushed k ''response'', Popped k]"

definition end_logs :: "nat \<Rightarrow> trace_event list list" where
  "end_logs k = [[Finished k], [Pushed k ''ready'', Popped k, Finished k]]"

definition parse_logs :: "nat \<Rightarrow> trace_event list list" where
  "parse_logs k = [[], [Pushed k ''parse'', Popped k]]"

text \<open>The next request has been peeked already: its type is in the peek buffer.\<close>

definition next_peeked :: "'a traced \<Rightarrow> bool" where
  "next_peeked ts \<longleftrightarrow> peekBuf (c_reader (s_conn (td_session ts))) \<noteq> []"

lemma untraced_same:
  "untraced m ts = (x, ts') \<Longrightarrow> td_events ts' = td_events ts \<and> td_context ts' = td_context ts \<and> td_next ts' = td_next ts"
  by (auto simp: untraced_def on_part_def split: prod.splits)

lemma untraced_session: "untraced m ts = (x, ts') \<Longrightarrow> m (td_session ts) = (x, td_session ts')"
  by (auto simp: untraced_def on_part_def split: prod.splits)

lemma untraced_goseq:
  "goseq (untraced m) (\<lambda>q. goseq (untraced (n q)) f) = goseq (untraced (goseq m n)) f"
  by (rule ext) (simp add: untraced_def on_part_def goseq_def split: prod.split res.split)

lemma on_conn_part: "on_conn m s = (x, s') \<Longrightarrow> m (s_conn s) = (x, s_conn s')"
  by (auto simp: on_conn_def on_part_def split: prod.splits)

lemma on_reader_part: "on_reader m c = (x, c') \<Longrightarrow> m (c_reader c) = (x, c_reader c')"
  by (auto simp: on_reader_def on_part_def split: prod.splits)

lemma PeekBytes_peeked: "PeekBytes n r = (Ok bs, r') \<Longrightarrow> bs \<noteq> [] \<Longrightarrow> peekBuf r' \<noteq> []"
  by (auto simp: PeekBytes_def go_simps split: prod.splits res.splits if_splits)

lemma PeekType_peeked:
  "PeekType r = (Ok t, r') \<Longrightarrow> peekBuf r' \<noteq> []"
  "PeekType r = (Err e, r') \<Longrightarrow> peekBuf r' = []"
proof -
  show "PeekType r = (Ok t, r') \<Longrightarrow> peekBuf r' \<noteq> []"
    using PeekBytes_peeked [of 1 r] by (fastforce simp: PeekType_def go_simps split: prod.splits res.splits if_splits)
  show "PeekType r = (Err e, r') \<Longrightarrow> peekBuf r' = []"
    using ReadBytes_Err(2) [of 1 r] ReadBytes_Ok(2) [of 1 r]
    by (auto simp: PeekType_def PeekBytes_def go_simps split: prod.splits res.splits if_splits)
qed

lemma SetReadDeadline_peekBuf [simp]: "peekBuf (snd (SetReadDeadline b r)) = peekBuf r"
  by (auto simp: SetReadDeadline_def split: io_source.split prod.split)

text \<open>A peek that fails on a connection that still takes the ready message found nothing.\<close>

lemma on_net_Write_peekBuf: "peekBuf (c_reader (snd (on_net (conn_Write bs) c))) = peekBuf (c_reader c)"
  by (auto simp: on_net_def split: io_source.split prod.split)

lemma ReadyForMessage_peekBuf: "peekBuf (c_reader (snd (ReadyForMessage c))) = peekBuf (c_reader c)"
  by (auto simp: ReadyForMessage_def ResponseMessage_def go_simps on_net_Write_peekBuf split: res.split)

lemma ReadyForMessage_open:
  assumes "ReadyForMessage c = (Ok (), c')"
  obtains nc where "rsrc (c_reader c) = NetConn nc" "\<not> conn_closed nc"
proof -
  from assms obtain bs where "on_net (conn_Write bs) c = (Ok (), c')"
    by (auto simp: ReadyForMessage_def ResponseMessage_def go_simps split: res.splits)
  then show thesis
    using that by (auto simp: on_net_def conn_Write_def split: io_source.splits prod.splits if_splits)
qed

lemma PeekTypeNonBlocking_nothing:
  assumes "PeekTypeNonBlocking r = (Err e, r')" "rsrc r' = NetConn nc" "\<not> conn_closed nc"
  shows "peekBuf r' = []"
proof (cases "SetReadDeadline True r")
  case (Pair x r1)
  show ?thesis
  proof (cases x)
    case (Ok u)
    with assms(1) Pair obtain r2 where "PeekType r1 = (Err e, r2)" "r' = snd (SetReadDeadline False r2)"
      by (auto simp: PeekTypeNonBlocking_def goseq_def split: prod.splits)
    with PeekType_peeked(2) show ?thesis by simp
  next
    case (Err e')
    with assms Pair show ?thesis
      by (auto simp: PeekTypeNonBlocking_def goseq_def SetReadDeadline_def conn_SetReadDeadline_def
          split: io_source.splits if_splits)
  next
    case (Panic p)
    with assms Pair show ?thesis by (simp add: PeekTypeNonBlocking_def goseq_def)
  qed
qed

lemma PeekTypeNonBlocking_peeked: "PeekTypeNonBlocking r = (Ok t, r') \<Longrightarrow> peekBuf r' \<noteq> []"
  using PeekType_peeked(1)
  by (auto simp: PeekTypeNonBlocking_def goseq_def split: prod.splits res.splits)

text \<open>The parts of the answer: what is behind the responses, and the ready message\<close>

definition t_ready :: "nat \<Rightarrow> ('a, bool) tm" where
  "t_ready k =
     goseq (StartSpan ''ready'') (\<lambda>_.
     goseq (gotry (untraced (on_conn ReadyForMessage))) (\<lambda>x.
     goseq FinishSpan (\<lambda>_.
     goseq (or_finish k x) (\<lambda>_.
     goseq (tell (Finished k)) (\<lambda>_. ret True)))))"

lemma ready_log:
  assumes "t_ready k ts = (x, ts')" "td_context ts = Some k" "\<not> is_panic x"
  shows "td_events ts' = td_events ts @ [Pushed k ''ready'', Popped k, Finished k]"
    and "td_next ts' = td_next ts" and "td_context ts' = Some k"
    and "x = Ok True \<Longrightarrow> \<exists>u. untraced (on_conn ReadyForMessage) (ts\<lparr>td_events := td_events ts @ [Pushed k ''ready'']\<rparr>) =
      (Ok u, ts'\<lparr>td_events := td_events ts @ [Pushed k ''ready'']\<rparr>)" and "\<exists>e. x = Err e \<or> x = Ok True"
proof -
  obtain y ts1 where u: "untraced (on_conn ReadyForMessage) (ts\<lparr>td_events := td_events ts @ [Pushed k ''ready'']\<rparr>) = (y, ts1)"
    by fastforce
  note same = untraced_same [OF u]
  have "t_ready k ts = (case y of Panic p \<Rightarrow> (Panic p, ts1)
    | Ok _ \<Rightarrow> (Ok True, ts1\<lparr>td_events := td_events ts1 @ [Popped k, Finished k]\<rparr>)
    | Err e \<Rightarrow> (Err e, ts1\<lparr>td_events := td_events ts1 @ [Popped k, Finished k]\<rparr>))"
    using assms(2) same u
    by (simp add: t_ready_def spans_step goseq_def [of "gotry _"] gotry_def or_finish_def goseq_assoc tell_step
        goseq_fail fail_def ret_def split: res.split)
  with assms same u show "td_events ts' = td_events ts @ [Pushed k ''ready'', Popped k, Finished k]"
    "td_next ts' = td_next ts" "td_context ts' = Some k"
    "x = Ok True \<Longrightarrow> \<exists>u. untraced (on_conn ReadyForMessage) (ts\<lparr>td_events := td_events ts @ [Pushed k ''ready'']\<rparr>) =
      (Ok u, ts'\<lparr>td_events := td_events ts @ [Pushed k ''ready'']\<rparr>)" "\<exists>e. x = Err e \<or> x = Ok True"
    by (auto split: res.splits)
qed

lemma t_after_request_ready:
  "t_after_request k resMsgs reqErr =
     goseq FinishSpan (\<lambda>_.
     goseq (StartSpan ''response'') (\<lambda>_.
     goseq (gotry (untraced (on_conn (ResponseMessages resMsgs)))) (\<lambda>x.
     goseq FinishSpan (\<lambda>_.
     goseq (or_finish k x) (\<lambda>_.
     goseq (gotry (untraced (on_conn (ResponseError reqErr)))) (\<lambda>x.
     goseq (or_finish k x) (\<lambda>_.
     goseq (gotry (untraced (on_conn (on_reader PeekTypeNonBlocking)))) (\<lambda>peeked.
     case peeked of Inr _ \<Rightarrow> ret True | Inl _ \<Rightarrow> t_ready k))))))))"
  by (simp only: t_after_request_def t_ready_def)

text \<open>A ready message is sent exactly when nothing was peeked.\<close>

lemma ready_not_peeked:
  assumes "untraced (on_conn (on_reader PeekTypeNonBlocking)) ts = (Err e, ts1)" "td_context ts1 = Some k"
    and "t_ready k ts1 = (Ok True, ts')"
  shows "\<not> next_peeked ts'"
proof -
  obtain u where ready: "untraced (on_conn ReadyForMessage) (ts1\<lparr>td_events := td_events ts1 @ [Pushed k ''ready'']\<rparr>) =
      (Ok u, ts'\<lparr>td_events := td_events ts1 @ [Pushed k ''ready'']\<rparr>)"
    using ready_log(4) [OF assms(3,2)] by auto
  let ?c = "s_conn (td_session ts1)"
  obtain c' where c': "ReadyForMessage ?c = (Ok (), c')" "s_conn (td_session ts') = c'"
    using on_conn_part [OF untraced_session [OF ready]] by simp
  obtain nc where nc: "rsrc (c_reader ?c) = NetConn nc" "\<not> conn_closed nc" using ReadyForMessage_open [OF c'(1)] .
  obtain r' where "PeekTypeNonBlocking (c_reader (s_conn (td_session ts))) = (Err e, r')" "c_reader ?c = r'"
    using on_reader_part [OF on_conn_part [OF untraced_session [OF assms(1)]]] by simp
  with PeekTypeNonBlocking_nothing nc have "peekBuf (c_reader ?c) = []" by blast
  with ReadyForMessage_peekBuf [of ?c] c' show ?thesis by (simp add: next_peeked_def)
qed

lemma peeked_next:
  assumes "untraced (on_conn (on_reader PeekTypeNonBlocking)) ts = (Ok t, ts1)"
  shows "next_peeked ts1"
  using PeekTypeNonBlocking_peeked [OF on_reader_part [OF on_conn_part [OF untraced_session [OF assms]]]]
  by (simp add: next_peeked_def)

lemma after_log:
  assumes "t_after_request k resMsgs reqErr ts = (x, ts')" "td_context ts = Some k" "\<not> is_panic x"
  obtains tail where "td_events ts' = td_events ts @ answer_log k @ tail" "td_next ts' = td_next ts"
    "td_context ts' = Some k" "x \<noteq> Ok False"
    "if x = Ok True \<and> next_peeked ts' then tail = [] else tail \<in> set (end_logs k)"
proof -
  let ?ts1 = "ts\<lparr>td_events := td_events ts @ [Popped k, Pushed k ''response'']\<rparr>"
  obtain y ts2 where u2: "untraced (on_conn (ResponseMessages resMsgs)) ?ts1 = (y, ts2)" by fastforce
  let ?ts3 = "ts2\<lparr>td_events := td_events ts @ answer_log k\<rparr>"
  obtain z ts4 where u4: "untraced (on_conn (ResponseError reqErr)) ?ts3 = (z, ts4)" by fastforce
  obtain w ts5 where u5: "untraced (on_conn (on_reader PeekTypeNonBlocking)) ts4 = (w, ts5)" by fastforce
  note same = untraced_same [OF u2] untraced_same [OF u4] untraced_same [OF u5]
  let ?stop = "\<lambda>e ts. (Err e :: bool go, ts\<lparr>td_events := td_events ts @ [Finished k]\<rparr>)"
  have "t_after_request k resMsgs reqErr ts = (case y of Panic p \<Rightarrow> (Panic p, ts2) | Err e \<Rightarrow> ?stop e ?ts3
    | Ok _ \<Rightarrow> (case z of Panic p \<Rightarrow> (Panic p, ts4) | Err e \<Rightarrow> ?stop e ts4
    | Ok _ \<Rightarrow> (case w of Panic p \<Rightarrow> (Panic p, ts5) | Ok _ \<Rightarrow> (Ok True, ts5) | Err _ \<Rightarrow> t_ready k ts5)))"
    using assms(2) same u2 u4 u5
    by (simp add: t_after_request_ready spans_step goseq_def [of "gotry _"] gotry_def or_finish_def goseq_assoc
        tell_step goseq_fail fail_def ret_def answer_log_def split: res.split)
  with assms(1) have result: "(x, ts') = \<dots>" by simp
  show thesis
  proof (cases "\<exists>u v. y = Ok u \<and> z = Ok v")
    case False
    with result assms(2,3) same show thesis
      by (intro that [of "[Finished k]"]) (auto simp: end_logs_def split: res.splits)
  next
    case True
    show thesis
    proof (cases w)
      case (Ok t)
      with True result same peeked_next u5 assms(2) show thesis by (intro that [of "[]"]) auto
    next
      case (Err e)
      with True result have ready: "t_ready k ts5 = (x, ts')" by simp
      have ctx: "td_context ts5 = Some k" using same assms(2) by simp
      note log = ready_log [OF ready ctx assms(3)]
      have "\<not> next_peeked ts'" if "x = Ok True" using ready_not_peeked [OF u5 [unfolded Err] ctx] ready that by simp
      with log same show thesis
        by (intro that [of "[Pushed k ''ready'', Popped k, Finished k]"]) (auto simp: end_logs_def)
    qed (use True result assms(3) in simp)
  qed
qed

lemma query_log:
  assumes "t_handle_Query sv msg ts = (x, ts')" "td_context ts = Some k" "\<not> is_panic x"
  shows "td_events ts' = td_events ts @ [Pushed k ''parse'', Popped k] \<and> td_next ts' = td_next ts \<and> td_context ts' = Some k"
proof -
  let ?ts1 = "ts\<lparr>td_events := td_events ts @ [Pushed k ''parse'', Popped k]\<rparr>"
  have "untraced (handle_Query sv msg) ?ts1 = (x, ts')"
    using assms by (cases "sv_BindStatements sv (query_Query msg) (query_BindParams msg)")
      (auto simp: t_handle_Query_def spans_step panic_def)
  from untraced_same [OF this] assms(2) show ?thesis by simp
qed

lemma dispatch_log:
  assumes "t_dispatch sv reqType ts = (x, ts')" "td_context ts = Some k" "\<not> is_panic x"
  obtains parsing where "td_events ts' = td_events ts @ parsing" "parsing \<in> set (parse_logs k)"
    "td_next ts' = td_next ts" "td_context ts' = Some k"
proof -
  have wrapped: "\<exists>parsing \<in> set (parse_logs k). td_events ts' = td_events ts @ parsing \<and> td_next ts' = td_next ts \<and> td_context ts' = Some k"
    if "goseq (untraced m) f ts = (x, ts')"
      and f: "\<And>q ts1. f q ts1 = (x, ts') \<Longrightarrow> td_context ts1 = Some k \<Longrightarrow>
        td_events ts' = td_events ts1 @ [Pushed k ''parse'', Popped k] \<and> td_next ts' = td_next ts1 \<and> td_context ts' = Some k"
    for m :: "('a, 'q) sm" and f
  proof (cases "untraced m ts")
    case (Pair y ts1)
    with that(1) f [of _ ts1] untraced_same [OF Pair] assms(2) show ?thesis
      by (cases y) (auto simp: goseq_def parse_logs_def)
  qed
  note query = query_log [OF _ _ assms(3), of sv]
  have "\<exists>parsing \<in> set (parse_logs k). td_events ts' = td_events ts @ parsing \<and> td_next ts' = td_next ts \<and> td_context ts' = Some k"
  proof (cases "reqType = QueryMessage")
    case True
    with assms(1) have "goseq (untraced (on_conn (on_reader NewQueryWithReader))) (t_handle_Query sv) ts = (x, ts')"
      by (simp add: t_dispatch_def t_request_def)
    then show ?thesis by (rule wrapped) (rule query)
  next
    case False
    show ?thesis
    proof (cases "reqType = ExecuteMessage")
      case True
      with assms(1) False have
        "goseq (untraced (goseq (on_conn (on_reader NewExecuteWithReader)) (\<lambda>msg. on_prep (\<lambda>uuid mgr. (PreparedPortal uuid (execute_PortalName msg) mgr, mgr)))))
          (t_handle_Query sv) ts = (x, ts')"
        by (simp add: t_dispatch_def t_request_def t_handle_Execute_def [abs_def] untraced_goseq)
      then show ?thesis by (rule wrapped) (rule query)
    next
      case other: False
      with assms(1) False have "untraced (dispatch (server_handler sv) reqType) ts = (x, ts')" by (simp add: t_dispatch_def)
      from untraced_same [OF this] assms(2) show ?thesis by (simp add: parse_logs_def)
    qed
  qed
  with that show thesis by blast
qed

text \<open>The calls of a round: its loop span, the span of the request with its parsing, and the answer\<close>

lemma round_log:
  assumes "t_round sv reqType k ts = (x, ts')" "td_context ts = Some k" "\<not> is_panic x"
  obtains body where "td_events ts' = td_events ts @ Pushed k (Type_String reqType) # body"
    "td_next ts' = td_next ts" "td_context ts' = Some k"
    "(\<exists>parsing\<in>set (parse_logs k). \<exists>tail. body = parsing @ answer_log k @ tail \<and>
       (if x = Ok True \<and> next_peeked ts' then tail = [] else tail \<in> set (end_logs k))) \<or>
     x = Ok False \<and> body = [Popped k, Finished k]"
proof -
  let ?ts1 = "ts\<lparr>td_events := td_events ts @ [Pushed k (Type_String reqType)]\<rparr>"
  have nil: "[] \<in> set (parse_logs k)" by (simp add: parse_logs_def)
  show thesis
  proof (cases "reqType = TerminateMessage")
    case True
    obtain y ts2 where u2: "untraced (on_conn (on_reader NewTerminateWithReader)) ?ts1 = (y, ts2)" by fastforce
    note same = untraced_same [OF u2]
    have step: "(x, ts') = (case y of Ok _ \<Rightarrow> (Ok False, ts2\<lparr>td_events := td_events ts2 @ [Popped k, Finished k]\<rparr>)
      | Err e \<Rightarrow> t_after_request k [] (Some e) ts2 | Panic p \<Rightarrow> (Panic p, ts2))"
      using assms(1,2) True u2 same
      by (simp add: t_round_def spans_step tell_step goseq_def [of "gotry _"] gotry_def ret_def split: res.splits)
    show thesis
    proof (cases y)
      case (Ok u)
      with step same assms(2) show thesis by (intro that [of "[Popped k, Finished k]"]) simp_all
    next
      case (Err e)
      with step have "t_after_request k [] (Some e) ts2 = (x, ts')" by simp
      from after_log [OF this _ assms(3)] same assms(2) obtain tail where
        log: "td_events ts' = td_events ts2 @ answer_log k @ tail" "td_next ts' = td_next ts2" "td_context ts' = Some k"
        and tail: "if x = Ok True \<and> next_peeked ts' then tail = [] else tail \<in> set (end_logs k)" by auto
      have "\<exists>parsing\<in>set (parse_logs k). \<exists>t. answer_log k @ tail = parsing @ answer_log k @ t \<and>
          (if x = Ok True \<and> next_peeked ts' then t = [] else t \<in> set (end_logs k))"
        using nil tail by (intro bexI [of _ "[]"] exI [of _ tail]) simp_all
      with log same show thesis by (intro that [of "answer_log k @ tail"]) simp_all
    qed (use step assms(3) in simp)
  next
    case False
    obtain y ts2 where u2: "t_dispatch sv reqType ?ts1 = (y, ts2)" by fastforce
    have step: "(x, ts') = (case y of Ok rs \<Rightarrow> t_after_request k rs None ts2
      | Err e \<Rightarrow> t_after_request k [] (Some e) ts2 | Panic p \<Rightarrow> (Panic p, ts2))"
      using assms(1,2) False u2
      by (simp add: t_round_def spans_step goseq_def [of "gotry _"] gotry_def split: res.splits)
    with assms(3) have y: "\<not> is_panic y" by (cases y) auto
    from dispatch_log [OF u2 _ y] assms(2) obtain parsing where parsing:
      "td_events ts2 = td_events ?ts1 @ parsing" "parsing \<in> set (parse_logs k)" "td_next ts2 = td_next ts" "td_context ts2 = Some k"
      by auto
    from step y obtain rs err where "t_after_request k rs err ts2 = (x, ts')" by (cases y) auto
    from after_log [OF this parsing(4) assms(3)] obtain tail where
      log: "td_events ts' = td_events ts2 @ answer_log k @ tail" "td_next ts' = td_next ts2" "td_context ts' = Some k"
      and tail: "if x = Ok True \<and> next_peeked ts' then tail = [] else tail \<in> set (end_logs k)" .
    have "\<exists>p\<in>set (parse_logs k). \<exists>t. parsing @ answer_log k @ tail = p @ answer_log k @ t \<and>
        (if x = Ok True \<and> next_peeked ts' then t = [] else t \<in> set (end_logs k))"
      using parsing(2) tail by (intro bexI [of _ parsing] exI [of _ tail]) simp_all
    with log parsing show thesis by (intro that [of "parsing @ answer_log k @ tail"]) simp_all
  qed
qed

section \<open>The stack of spans\<close>

text \<open>
  What the calls on one context amount to: the names on its stack, and the stacks whose top span was
  finished, by \<open>FinishSpan\<close> or by \<open>Finish\<close>.
\<close>

fun replay_event :: "trace_event \<Rightarrow> string list \<times> string list list \<Rightarrow> string list \<times> string list list" where
  "replay_event (Started k name) (stack, finished) = ([name], finished)"
| "replay_event (Pushed k name) (stack, finished) = (name # stack, finished)"
| "replay_event (Popped k) (stack, finished) = (tl stack, finished @ [stack])"
| "replay_event (Finished k) (stack, finished) = (stack, finished @ [stack])"

fun event_context :: "trace_event \<Rightarrow> nat" where
  "event_context (Started k name) = k"
| "event_context (Pushed k name) = k"
| "event_context (Popped k) = k"
| "event_context (Finished k) = k"

definition replay :: "nat \<Rightarrow> trace_event list \<Rightarrow> string list \<times> string list list" where
  "replay k es = fold replay_event (filter (\<lambda>e. event_context e = k) es) ([], [])"

text \<open>Contexts are numbered in the order they are made.\<close>

definition fresh_contexts :: "'a traced \<Rightarrow> bool" where
  "fresh_contexts ts \<longleftrightarrow> list_all (\<lambda>e. event_context e < td_next ts) (td_events ts)"

lemma replay_other: "list_all (\<lambda>e. event_context e \<noteq> k) es' \<Longrightarrow> replay k (es @ es') = replay k es"
  by (simp add: replay_def filter_False list_all_iff)

lemma replay_fresh:
  assumes "fresh_contexts ts"
  shows "replay (td_next ts) (td_events ts @ es) = replay (td_next ts) es"
proof -
  have "filter (\<lambda>e. event_context e = td_next ts) (td_events ts) = []"
    using assms by (auto simp: fresh_contexts_def list_all_iff filter_empty_conv)
  then show ?thesis by (simp add: replay_def)
qed

text \<open>
  the spans of a round. Every round of the request loop that ends without a panic opens a context of
  its own, starts its loop span there, and finishes every other span it starts; the loop span itself
  is finished exactly when the round does not go on to a request that has already been peeked.
\<close>

lemma step_spans:
  assumes "t_receive_step product sv ts = (x, ts')" and "\<not> is_panic x" and "fresh_contexts ts"
  obtains "td_events ts' = td_events ts" "td_next ts' = td_next ts" "x = Ok False"
  | es where "td_events ts' = td_events ts @ es" "list_all (\<lambda>e. event_context e = td_next ts) es"
      "td_next ts' = Suc (td_next ts)" "fst (replay (td_next ts) (td_events ts')) = [product]"
      "[product] \<in> set (snd (replay (td_next ts) (td_events ts'))) \<longleftrightarrow> \<not> (x = Ok True \<and> next_peeked ts')"
proof (cases "on_conn (on_reader PeekType) (td_session ts)")
  case (Pair y s)
  show thesis
  proof (cases y)
    case (Ok t)
    let ?k = "td_next ts"
    have r: "t_round sv t ?k (round_start product s ts) = (x, ts')" using assms(1) Pair Ok by (simp add: t_receive_step_cases)
    have start: "td_context (round_start product s ts) = Some ?k" "td_next (round_start product s ts) = Suc ?k"
      "td_events (round_start product s ts) = td_events ts @ [Started ?k product]"
      by (simp_all add: round_start_def)
    from round_log [OF r start(1) assms(2)] obtain body where raw:
      "td_events ts' = td_events (round_start product s ts) @ Pushed ?k (Type_String t) # body"
      "td_next ts' = td_next (round_start product s ts)"
      and body: "(\<exists>parsing\<in>set (parse_logs ?k). \<exists>tail. body = parsing @ answer_log ?k @ tail \<and>
         (if x = Ok True \<and> next_peeked ts' then tail = [] else tail \<in> set (end_logs ?k))) \<or>
       x = Ok False \<and> body = [Popped ?k, Finished ?k]" .
    note log = raw [unfolded start append.assoc append_Cons append_Nil]
    have rp: "replay ?k (td_events ts') = replay ?k (Started ?k product # Pushed ?k (Type_String t) # body)"
      by (simp only: log(1) replay_fresh [OF assms(3)])
    have "fst (replay ?k (td_events ts')) = [product]" "list_all (\<lambda>e. event_context e = ?k) body"
      "[product] \<in> set (snd (replay ?k (td_events ts'))) \<longleftrightarrow> \<not> (x = Ok True \<and> next_peeked ts')"
      unfolding rp using body
      by (auto simp: replay_def parse_logs_def answer_log_def end_logs_def split: if_splits)
    with log show thesis
      by (intro that(2) [of "Started ?k product # Pushed ?k (Type_String t) # body"]) simp_all
  qed (use assms(1,2) Pair that(1) in \<open>auto simp: t_receive_step_cases split: prod.splits res.splits\<close>)
qed

lemma fresh_contexts_step:
  assumes "t_receive_step product sv ts = (x, ts')" "\<not> is_panic x" "fresh_contexts ts"
  shows "fresh_contexts ts'"
  by (rule step_spans [OF assms]) (use assms(3) in \<open>auto simp: fresh_contexts_def list_all_iff less_Suc_eq\<close>)

lemma spans_of_loop:
  assumes "t_receive_loop fuel product sv ts = Some (x, ts')" and "\<not> is_panic x" and "fresh_contexts ts"
  shows "(\<forall>k. td_next ts \<le> k \<and> k < td_next ts' \<longrightarrow> fst (replay k (td_events ts')) = [product]) \<and>
    (\<forall>k < td_next ts. replay k (td_events ts') = replay k (td_events ts))"
  using assms
proof (induction fuel arbitrary: ts)
  case (Suc fuel)
  obtain y ts1 where step: "t_receive_step product sv ts = (y, ts1)" by fastforce
  have y: "\<not> is_panic y" using Suc.prems(1,2) step by (cases y) auto
  note fresh = fresh_contexts_step [OF step y Suc.prems(3)]
  have here: "(\<forall>k. td_next ts \<le> k \<and> k < td_next ts1 \<longrightarrow> fst (replay k (td_events ts1)) = [product]) \<and>
      (\<forall>k < td_next ts. replay k (td_events ts1) = replay k (td_events ts)) \<and> td_next ts \<le> td_next ts1"
    by (rule step_spans [OF step y Suc.prems(3)])
      (auto simp: less_Suc_eq_le intro!: replay_other elim: list.pred_mono_strong)
  have "(\<forall>k. td_next ts1 \<le> k \<and> k < td_next ts' \<longrightarrow> fst (replay k (td_events ts')) = [product]) \<and>
      (\<forall>k < td_next ts1. replay k (td_events ts') = replay k (td_events ts1))"
  proof (cases "y = Ok True")
    case True
    with Suc.prems(1) step have "t_receive_loop fuel product sv ts1 = Some (x, ts')" by simp
    from Suc.IH [OF this Suc.prems(2) fresh] show ?thesis by blast
  next
    case False
    with Suc.prems(1) step have "ts' = ts1" by (cases y) (auto split: if_splits bool.splits)
    then show ?thesis by auto
  qed
  with here show ?case by (metis not_le order_less_le_trans)
qed simp_all

text \<open>
  C28: the loop span of a pipelined request stays open. Every context of a connection ends with its loop
  span on the stack and every other span finished; the loop span of a round is finished exactly when
  no further request had been peeked at its end, and no later round of the connection makes up for it.
\<close>

theorem loop_span_finished_iff:
  assumes "t_receive_step product sv ts = (Ok True, ts1)" and "fresh_contexts ts"
    and "t_receive_loop fuel product sv ts1 = Some (x, ts2)" and "\<not> is_panic x"
  shows "fst (replay (td_next ts) (td_events ts2)) = [product] \<and>
    ([product] \<in> set (snd (replay (td_next ts) (td_events ts2))) \<longleftrightarrow> \<not> next_peeked ts1)"
proof -
  have fresh: "fresh_contexts ts1" by (rule fresh_contexts_step [OF assms(1) _ assms(2)]) simp
  show ?thesis
    by (rule step_spans [OF assms(1) _ assms(2)])
      (use spans_of_loop [OF assms(3,4) fresh] in auto)
qed

text \<open>A flush and a termination sent together\<close>

definition traced_pipeline :: "nat traced" where
  "traced_pipeline = NewConn_traced
     \<lparr>s_conn = NewConnWith (new_net_conn [Arrive (frame FlushMessage [] @ frame TerminateMessage [])]) 0 [],
      s_prep = NewPreparedManager, s_app = 0\<rparr>"

theorem loop_span_finished_iff_witness:
  "\<exists>ts1 ts2. t_receive_step ''server'' (small_server None (\<lambda>_. Ok [])) traced_pipeline = (Ok True, ts1) \<and>
    t_receive_loop 1 ''server'' (small_server None (\<lambda>_. Ok [])) ts1 = Some (Ok (), ts2) \<and>
    [''server''] \<notin> set (snd (replay 0 (td_events ts2)))"
proof -
  have "case t_receive_step ''server'' (small_server None (\<lambda>_. Ok [])) traced_pipeline of
      (Ok True, ts1) \<Rightarrow> next_peeked ts1 \<and> (case t_receive_loop 1 ''server'' (small_server None (\<lambda>_. Ok [])) ts1 of
        Some (Ok u, ts2) \<Rightarrow> True | _ \<Rightarrow> False)
    | _ \<Rightarrow> False"
    by code_simp
  then obtain ts1 ts2 where
    run: "t_receive_step ''server'' (small_server None (\<lambda>_. Ok [])) traced_pipeline = (Ok True, ts1)" "next_peeked ts1"
      "t_receive_loop 1 ''server'' (small_server None (\<lambda>_. Ok [])) ts1 = Some (Ok (), ts2)"
    by (auto split: prod.splits res.splits bool.splits option.splits)
  have "fresh_contexts traced_pipeline" "td_next traced_pipeline = 0"
    by (simp_all add: traced_pipeline_def NewConn_traced_def fresh_contexts_def)
  with loop_span_finished_iff [OF run(1) _ run(3)] run show ?thesis by auto
qed

end
