(* ===== verification/Prepared_Races.thy ===== *)
theory Prepared_Races
  imports Prepared
begin

text \<open>
  The map of prepared statements under concurrent use (\<open>stmt/prepared_manager.go\<close>). The goroutines of all
  connections share it without a lock, and a Go map must not be read or written while it is written. Here
  \<open>SetPreparedStatement\<close> is cut into its accesses to the shared map, each with a beginning and an end;
  in between the other goroutines run. The inner map of a connection is used by its goroutine alone.
\<close>

section \<open>The accesses\<close>

text \<open>
  Where a goroutine is: outside, reading the map for its connection, behind that with what it found, or
  writing the new entry.
\<close>

datatype preparing = Outside | Looking | Found bool | Registering

record 'st shared_statements =
  sh_mgr :: "'st PreparedManager"
  sh_at :: "nat \<Rightarrow> preparing"

definition going :: "nat \<Rightarrow> preparing \<Rightarrow> 'st shared_statements \<Rightarrow> 'st shared_statements" where
  "going i p s = s\<lparr>sh_at := (sh_at s)(i := p)\<rparr>"

definition put_statements :: "nat \<Rightarrow> 'st PreparedStatementMap \<Rightarrow> 'st shared_statements \<Rightarrow> 'st shared_statements" where
  "put_statements i m s = s\<lparr>sh_mgr := (sh_mgr s)\<lparr>stateMap := (stateMap (sh_mgr s))(i \<mapsto> m)\<rparr>\<rparr>"

text \<open>A step of the goroutine of connection \<open>i\<close>, one of \<open>C\<close>, which prepares the message \<open>P i\<close>\<close>

inductive prepare_step ::
    "(string \<Rightarrow> 'st list go) \<Rightarrow> (nat \<Rightarrow> Parse_msg) \<Rightarrow> nat set \<Rightarrow> 'st shared_statements \<Rightarrow> 'st shared_statements \<Rightarrow> bool"
  for ParseString P C where
  looks: "i \<in> C \<Longrightarrow> sh_at s i = Outside \<Longrightarrow> prepare_step ParseString P C s (going i Looking s)"
| found: "i \<in> C \<Longrightarrow> sh_at s i = Looking \<Longrightarrow>
    prepare_step ParseString P C s (going i (Found (stateMap (sh_mgr s) i \<noteq> None)) s)"
| registers: "i \<in> C \<Longrightarrow> sh_at s i = Found False \<Longrightarrow> prepare_step ParseString P C s (going i Registering s)"
| registered: "i \<in> C \<Longrightarrow> sh_at s i = Registering \<Longrightarrow>
    prepare_step ParseString P C s (going i (Found True) (put_statements i NewPreparedStatementMap s))"
| prepares: "i \<in> C \<Longrightarrow> sh_at s i = Found True \<Longrightarrow> stateMap (sh_mgr s) i = Some m \<Longrightarrow>
    prepare_step ParseString P C s
      (going i Outside (put_statements i (snd (map_SetPreparedStatement ParseString (P i) m)) s))"

inductive_cases prepare_stepE: "prepare_step ParseString P C s s'"

text \<open>Two accesses at once, one of which writes\<close>

definition racing :: "'st shared_statements \<Rightarrow> bool" where
  "racing s \<longleftrightarrow> (\<exists>i j. i \<noteq> j \<and> sh_at s i = Registering \<and> sh_at s j \<in> {Looking, Registering})"

lemma going_simps [simp]:
  "sh_at (going i p s) = (sh_at s)(i := p)" "sh_mgr (going i p s) = sh_mgr s"
  "sh_at (put_statements i m s) = sh_at s"
  "stateMap (sh_mgr (put_statements i m s)) = (stateMap (sh_mgr s))(i \<mapsto> m)"
  by (simp_all add: going_def put_statements_def)

section \<open>When connections race\<close>

text \<open>Among connections that have prepared before, nobody writes the shared map.\<close>

definition only_reads :: "nat set \<Rightarrow> 'st shared_statements \<Rightarrow> bool" where
  "only_reads C s \<longleftrightarrow> (\<forall>i\<in>C. stateMap (sh_mgr s) i \<noteq> None) \<and> (\<forall>i. sh_at s i \<noteq> Registering \<and> sh_at s i \<noteq> Found False)"

lemma only_reads_step: "prepare_step ParseString P C s s' \<Longrightarrow> only_reads C s \<Longrightarrow> only_reads C s'"
  by (erule prepare_stepE) (auto simp: only_reads_def)

lemma only_reads_run: "(prepare_step ParseString P C)\<^sup>*\<^sup>* s s' \<Longrightarrow> only_reads C s \<Longrightarrow> only_reads C s'"
  by (induction rule: rtranclp_induct) (auto intro: only_reads_step)

lemma race_of_first:
  assumes "i \<in> C" "j \<in> C" "i \<noteq> j" "stateMap (sh_mgr s) i = None" "sh_at s i = Outside" "sh_at s j = Outside"
  shows "\<exists>s'. (prepare_step ParseString P C)\<^sup>*\<^sup>* s s' \<and> racing s'"
proof -
  let ?R = "prepare_step ParseString P C"
  define s1 where "s1 = going i Looking s"
  define s2 where "s2 = going i (Found False) s1"
  define s3 where "s3 = going i Registering s2"
  define s4 where "s4 = going j Looking s3"
  have 1: "?R s s1" unfolding s1_def by (rule prepare_step.looks [OF assms(1,5)])
  have "?R s1 (going i (Found (stateMap (sh_mgr s1) i \<noteq> None)) s1)"
    by (rule prepare_step.found [OF assms(1)]) (simp add: s1_def)
  then have 2: "?R s1 s2" using assms(4) by (simp add: s2_def s1_def)
  have 3: "?R s2 s3" unfolding s3_def by (rule prepare_step.registers [OF assms(1)]) (simp add: s2_def)
  have "sh_at s3 j = Outside" using assms(3,6) by (simp add: s3_def s2_def s1_def)
  from prepare_step.looks [OF assms(2) this] have 4: "?R s3 s4" unfolding s4_def .
  have "sh_at s4 i = Registering" "sh_at s4 j = Looking" using assms(3) by (simp_all add: s4_def s3_def)
  with assms(3) have "racing s4" unfolding racing_def by blast
  moreover have "?R\<^sup>*\<^sup>* s s4"
    by (rule rtranclp.rtrancl_into_rtrancl [OF rtranclp.rtrancl_into_rtrancl [OF
          rtranclp.rtrancl_into_rtrancl [OF r_into_rtranclp [where r = ?R, OF 1] 2] 3] 4])
  ultimately show ?thesis by blast
qed

text \<open>
  C32: the first statement of a connection races with every other connection. Of two or more connections that
  prepare statements, two can be at the shared map at once with one of them writing, exactly when one of
  them has not prepared a statement before.
\<close>

theorem prepare_race_iff:
  assumes "\<forall>k. sh_at s k = Outside" and "i \<in> C" and "j \<in> C" and "i \<noteq> j"
  shows "(\<exists>s'. (prepare_step ParseString P C)\<^sup>*\<^sup>* s s' \<and> racing s') \<longleftrightarrow> (\<exists>k\<in>C. stateMap (sh_mgr s) k = None)"
proof
  assume "\<exists>k\<in>C. stateMap (sh_mgr s) k = None"
  then obtain k where k: "k \<in> C" "stateMap (sh_mgr s) k = None" by blast
  obtain l where "l \<in> C" "k \<noteq> l" using assms(2-4) by metis
  from race_of_first [OF k(1) this k(2)] assms(1) show "\<exists>s'. (prepare_step ParseString P C)\<^sup>*\<^sup>* s s' \<and> racing s'" by blast
next
  assume "\<exists>s'. (prepare_step ParseString P C)\<^sup>*\<^sup>* s s' \<and> racing s'"
  then obtain s' where s': "(prepare_step ParseString P C)\<^sup>*\<^sup>* s s'" "racing s'" by blast
  show "\<exists>k\<in>C. stateMap (sh_mgr s) k = None"
  proof (rule ccontr)
    assume "\<not> (\<exists>k\<in>C. stateMap (sh_mgr s) k = None)"
    then have "only_reads C s" using assms(1) by (simp add: only_reads_def)
    from only_reads_run [OF s'(1) this] s'(2) show False by (auto simp: only_reads_def racing_def)
  qed
qed

definition two_new_connections :: "nat shared_statements" where
  "two_new_connections = \<lparr>sh_mgr = NewPreparedManager, sh_at = \<lambda>_. Outside\<rparr>"

theorem prepare_race_iff_witness:
  "\<forall>P. \<exists>s'. (prepare_step (\<lambda>q. Ok [0]) P {1, 2})\<^sup>*\<^sup>* two_new_connections s' \<and> racing s'"
proof
  fix P
  have new: "\<exists>k\<in>{1, 2}. stateMap (sh_mgr two_new_connections) k = None" "\<forall>k. sh_at two_new_connections k = Outside"
    by (intro bexI [of _ 1], simp_all add: two_new_connections_def NewPreparedManager_def)
  show "\<exists>s'. (prepare_step (\<lambda>q. Ok [0]) P {1, 2})\<^sup>*\<^sup>* two_new_connections s' \<and> racing s'"
    by (rule prepare_race_iff [OF new(2), of 1 "{1, 2}" 2, THEN iffD2, OF _ _ _ new(1)]) simp_all
qed

section \<open>One goroutine\<close>

text \<open>The accesses of one goroutine alone add up to the operation.\<close>

theorem prepare_alone:
  assumes "sh_at s i = Outside" and "i \<in> C"
  shows "\<exists>s'. (prepare_step ParseString P C)\<^sup>+\<^sup>+ s s' \<and> sh_at s' = sh_at s \<and>
    sh_mgr s' = snd (SetPreparedStatement ParseString i (P i) (sh_mgr s))"
proof -
  let ?R = "prepare_step ParseString P C"
  define s1 where "s1 = going i Looking s"
  define s2 where "s2 = going i (Found (stateMap (sh_mgr s1) i \<noteq> None)) s1"
  have 1: "?R s s1" unfolding s1_def by (rule prepare_step.looks) (use assms in simp_all)
  have 2: "?R s1 s2" unfolding s2_def by (rule prepare_step.found) (use assms in \<open>simp_all add: s1_def\<close>)
  show ?thesis
  proof (cases "stateMap (sh_mgr s) i")
    case None
    define s3 where "s3 = going i Registering s2"
    define s4 where "s4 = going i (Found True) (put_statements i NewPreparedStatementMap s3)"
    define s5 where "s5 = going i Outside (put_statements i (snd (map_SetPreparedStatement ParseString (P i) NewPreparedStatementMap)) s4)"
    have 3: "?R s2 s3" unfolding s3_def by (rule prepare_step.registers) (use assms None in \<open>simp_all add: s2_def s1_def\<close>)
    have 4: "?R s3 s4" unfolding s4_def by (rule prepare_step.registered) (use assms in \<open>simp_all add: s3_def\<close>)
    have 5: "?R s4 s5" unfolding s5_def by (rule prepare_step.prepares) (use assms in \<open>simp_all add: s4_def\<close>)
    have run: "?R\<^sup>+\<^sup>+ s s5"
      by (rule tranclp.trancl_into_trancl [OF tranclp.trancl_into_trancl [OF tranclp.trancl_into_trancl [OF
            tranclp.trancl_into_trancl [OF tranclp.r_into_trancl [where r = ?R, OF 1] 2] 3] 4] 5])
    have "sh_mgr s5 = snd (SetPreparedStatement ParseString i (P i) (sh_mgr s))" "sh_at s5 = sh_at s"
      using None assms(1)
      by (simp_all add: s5_def s4_def s3_def s2_def s1_def SetPreparedStatement_def put_statements_def going_def case_prod_beta
          fun_upd_idem)
    with run show ?thesis by blast
  next
    case (Some m)
    define s3 where "s3 = going i Outside (put_statements i (snd (map_SetPreparedStatement ParseString (P i) m)) s2)"
    have 3: "?R s2 s3" unfolding s3_def by (rule prepare_step.prepares) (use assms Some in \<open>simp_all add: s2_def s1_def\<close>)
    have run: "?R\<^sup>+\<^sup>+ s s3"
      by (rule tranclp.trancl_into_trancl [OF tranclp.trancl_into_trancl [OF
            tranclp.r_into_trancl [where r = ?R, OF 1] 2] 3])
    have "sh_mgr s3 = snd (SetPreparedStatement ParseString i (P i) (sh_mgr s))" "sh_at s3 = sh_at s"
      using Some assms(1)
      by (simp_all add: s3_def s2_def s1_def SetPreparedStatement_def put_statements_def going_def case_prod_beta fun_upd_idem)
    with run show ?thesis by blast
  qed
qed

end
