(* ===== verification/Test_Support.thy ===== *)
theory Test_Support
  imports Go_Errors
begin

text \<open>
  Code the tests of the repository are run with (\<open>postgresqltest/\<close>): the runner of the YCSB benchmark
  (\<open>ycsb/ycsb.go\<close>), with the environment, the file system and the processes it starts as arguments, and
  the credential store of the test server (\<open>server/server.go\<close>).
\<close>

section \<open>Paths\<close>

text \<open>\<open>filepath.Clean\<close> on its path elements, and \<open>filepath.Join\<close>\<close>

fun path_elements :: "string \<Rightarrow> string \<Rightarrow> string list" where
  "path_elements e [] = [e]"
| "path_elements e (c # cs) = (if c = CHR ''/'' then e # path_elements [] cs else path_elements (e @ [c]) cs)"

text \<open>The elements kept so far are in reverse order.\<close>

definition clean_element :: "bool \<Rightarrow> string \<Rightarrow> string list \<Rightarrow> string list" where
  "clean_element rooted e out =
     (if e = [] \<or> e = ''.'' then out
      else if e = ''..'' then
        (case out of o1 # out' \<Rightarrow> if o1 = ''..'' then e # out else out' | [] \<Rightarrow> if rooted then [] else [e])
      else e # out)"

fun strings_Join :: "string list \<Rightarrow> string \<Rightarrow> string" where
  "strings_Join [] sep = []"
| "strings_Join [s] sep = s"
| "strings_Join (s # t # ss) sep = s @ sep @ strings_Join (t # ss) sep"

definition filepath_Clean :: "string \<Rightarrow> string" where
  "filepath_Clean p = (let rooted = (take 1 p = ''/''); out = rev (fold (clean_element rooted) (path_elements [] p) []) in
     if rooted then ''/'' @ strings_Join out ''/'' else if out = [] then ''.'' else strings_Join out ''/'')"

definition filepath_Join :: "string list \<Rightarrow> string" where
  "filepath_Join es = (case dropWhile (\<lambda>e. e = []) es of [] \<Rightarrow> [] | es' \<Rightarrow> filepath_Clean (strings_Join es' ''/''))"

fun strings_Contains :: "string \<Rightarrow> string \<Rightarrow> bool" where
  "strings_Contains [] sub = (sub = [])"
| "strings_Contains (c # cs) sub = (take (length sub) (c # cs) = sub \<or> strings_Contains cs sub)"

section \<open>The benchmark runner\<close>

text \<open>What a test leaves behind: lines of its log, errors, sub-tests, and the processes it started\<close>

datatype test_event = Logged string | Failed string | Sub_Test string | Started "string list"

record testing_T =
  t_events :: "test_event list"
  t_failed :: bool
  t_skipped :: bool

definition t_event :: "test_event \<Rightarrow> testing_T \<Rightarrow> testing_T" where
  "t_event e t = t\<lparr>t_events := t_events t @ [e]\<rparr>"

definition t_Logf :: "string \<Rightarrow> testing_T \<Rightarrow> testing_T" where
  "t_Logf s = t_event (Logged s)"

definition t_Error :: "string \<Rightarrow> testing_T \<Rightarrow> testing_T" where
  "t_Error s t = (t_event (Failed s) t)\<lparr>t_failed := True\<rparr>"

text \<open>
  Environment variables, \<open>os.Stat\<close>, and what the process started with a command prints and how it ends,
  which depends on what was started before
\<close>

record test_env =
  LookupEnv :: "string \<Rightarrow> string option"
  os_Stat :: "string \<Rightarrow> gerr option"
  CombinedOutput :: "test_event list \<Rightarrow> string list \<Rightarrow> string \<times> gerr option"

definition ycsbEnvs :: "string list" where
  "ycsbEnvs = [''YCSB_ROOT'', ''YCSB_DB_PROPERTIES'', ''YCSB_WORKLOAD'']"

definition outputYcsbParams :: "string list \<Rightarrow> string list \<Rightarrow> testing_T \<Rightarrow> testing_T" where
  "outputYcsbParams envs params = fold (\<lambda>(e, p). t_Logf (e @ '' = '' @ p)) (zip envs params)"

text \<open>The loop over the variables; the second result is the first of them without a value.\<close>

fun ycsb_params :: "(string \<Rightarrow> string option) \<Rightarrow> string list \<Rightarrow> nat \<Rightarrow> string list \<Rightarrow> string list \<times> string option" where
  "ycsb_params lookup [] n params = (params, None)"
| "ycsb_params lookup (env # envs) n params =
     (let params = (case lookup env of Some v \<Rightarrow> params[n := v] | None \<Rightarrow> params) in
      if params ! n = [] then (params, Some env) else ycsb_params lookup envs (n + 1) params)"

definition ycsb_command :: "test_env \<Rightarrow> string list \<Rightarrow> string \<Rightarrow> testing_T \<Rightarrow> testing_T" where
  "ycsb_command E ycsbArgs ycsbWorkloadCmd t =
     (let args = ycsbArgs[1 := ycsbWorkloadCmd];
          t = t_Logf (strings_Join args '' '') (t_event (Sub_Test ycsbWorkloadCmd) t);
          (out, err) = CombinedOutput E (t_events t) args;
          t = t_event (Started args) t
      in case err of
           Some e \<Rightarrow> t_Error (err_text e) t
         | None \<Rightarrow> if strings_Contains out ''FAILED'' then t_Error out t else t_Logf out t)"

definition ycsb_args :: "string list \<Rightarrow> string list" where
  "ycsb_args params = [filepath_Join [params ! 0, ''bin/ycsb.sh''], '''', ''jdbc'', ''-P'',
     filepath_Join [filepath_Join [params ! 0, ''workloads''], params ! 2], ''-P'', params ! 1]"

text \<open>\<open>Skipf\<close> ends the goroutine of the test: nothing is returned.\<close>

definition RunYCSBWorkload :: "test_env \<Rightarrow> string \<Rightarrow> testing_T \<Rightarrow> gerr option option \<times> testing_T" where
  "RunYCSBWorkload E defaultWorkload t =
     (let (ycsbParams, missing) = ycsb_params (LookupEnv E) ycsbEnvs 0 ['''', ''db.properties'', defaultWorkload];
          t = outputYcsbParams ycsbEnvs ycsbParams t
      in case missing of
           Some ycsbEnv \<Rightarrow> (None, (t_Logf (ycsbEnv @ '' is not specified'') t)\<lparr>t_skipped := True\<rparr>)
         | None \<Rightarrow>
             let ycsbArgs = ycsb_args ycsbParams in
             (case os_Stat E (hd ycsbArgs) of
                Some err \<Rightarrow> (Some (Some err), t_Error (err_text err) t)
              | None \<Rightarrow> (Some None, fold (ycsb_command E ycsbArgs) [''load'', ''run''] t)))"

section \<open>What the runner does\<close>

lemma t_event_simps [simp]:
  "t_events (t_event e t) = t_events t @ [e]" "t_failed (t_event e t) = t_failed t" "t_skipped (t_event e t) = t_skipped t"
  "t_events (t_Logf s t) = t_events t @ [Logged s]" "t_failed (t_Logf s t) = t_failed t"
  "t_skipped (t_Logf s t) = t_skipped t"
  "t_events (t_Error s t) = t_events t @ [Failed s]" "t_failed (t_Error s t)" "t_skipped (t_Error s t) = t_skipped t"
  by (simp_all add: t_event_def t_Logf_def t_Error_def)

fun started :: "test_event list \<Rightarrow> string list list" where
  "started [] = []"
| "started (Started args # es) = args # started es"
| "started (_ # es) = started es"

lemma started_append [simp]: "started (es @ es') = started es @ started es'"
  by (induction es rule: started.induct) simp_all

lemma started_output [simp]:
  "started (t_events (outputYcsbParams envs params t)) = started (t_events t)"
  "t_failed (outputYcsbParams envs params t) = t_failed t" "t_skipped (outputYcsbParams envs params t) = t_skipped t"
proof -
  have "started (t_events (fold (\<lambda>(e, p). t_Logf (e @ '' = '' @ p)) eps t)) = started (t_events t) \<and>
      t_failed (fold (\<lambda>(e, p). t_Logf (e @ '' = '' @ p)) eps t) = t_failed t \<and>
      t_skipped (fold (\<lambda>(e, p). t_Logf (e @ '' = '' @ p)) eps t) = t_skipped t" for eps
    by (induction eps arbitrary: t) (auto simp: case_prod_beta)
  then show "started (t_events (outputYcsbParams envs params t)) = started (t_events t)"
    "t_failed (outputYcsbParams envs params t) = t_failed t" "t_skipped (outputYcsbParams envs params t) = t_skipped t"
    by (simp_all add: outputYcsbParams_def)
qed

lemma started_command [simp]:
  "started (t_events (ycsb_command E args cmd t)) = started (t_events t) @ [args[1 := cmd]]"
  "t_skipped (ycsb_command E args cmd t) = t_skipped t" "t_failed t \<Longrightarrow> t_failed (ycsb_command E args cmd t)"
  by (auto simp: ycsb_command_def Let_def case_prod_beta split: option.splits)

text \<open>
  When a root is given and the script is there, the benchmark is loaded and run, in this order. The run
  is started also when loading fails, and the error that is returned is nil in any case: only the
  state of the test shows the failure.
\<close>

lemma ycsb_loads_then_runs:
  assumes "LookupEnv E ''YCSB_ROOT'' = Some root" "root \<noteq> []"
    and "LookupEnv E ''YCSB_DB_PROPERTIES'' = None" "LookupEnv E ''YCSB_WORKLOAD'' = None" "workload \<noteq> []"
    and "os_Stat E (filepath_Join [root, ''bin/ycsb.sh'']) = None" "started (t_events t) = []"
  shows "fst (RunYCSBWorkload E workload t) = Some None"
    and "started (t_events (snd (RunYCSBWorkload E workload t))) =
      map (\<lambda>cmd. (ycsb_args [root, ''db.properties'', workload])[1 := cmd]) [''load'', ''run'']"
  using assms by (simp_all add: RunYCSBWorkload_def ycsbEnvs_def ycsb_args_def Let_def)

lemma ycsb_without_root:
  assumes "LookupEnv E ''YCSB_ROOT'' = None"
  shows "fst (RunYCSBWorkload E workload t) = None" "t_skipped (snd (RunYCSBWorkload E workload t))"
    and "started (t_events (snd (RunYCSBWorkload E workload t))) = started (t_events t)"
  using assms by (simp_all add: RunYCSBWorkload_def ycsbEnvs_def Let_def)

lemma filepath_Join_example:
  "filepath_Join [''/opt/../ycsb/'', ''bin/ycsb.sh''] = ''/ycsb/bin/ycsb.sh''" "filepath_Join [''..'', ''.'', ''''] = ''..''"
  by code_simp+

section \<open>The credential store\<close>

text \<open>Credentials and queries are those of the authenticator package, seen through their user names.\<close>

type_synonym 'c credStore = "string \<rightharpoonup> 'c"

definition SetCredential :: "('c \<Rightarrow> string) \<Rightarrow> 'c \<Rightarrow> 'c credStore \<Rightarrow> 'c credStore" where
  "SetCredential Username cred store = store(Username cred \<mapsto> cred)"

definition LookupCredential :: "('q \<Rightarrow> string) \<Rightarrow> 'q \<Rightarrow> 'c credStore \<Rightarrow> 'c option go" where
  "LookupCredential Username q store = (let user = Username q in Ok (store user))"

lemma lookup_after_set:
  "LookupCredential uq q (SetCredential uc cred store) =
     (if uq q = uc cred then Ok (Some cred) else LookupCredential uq q store)"
  by (simp add: LookupCredential_def SetCredential_def)

end
