(* ===== verification/Fair_Serving.thy ===== *)
theory Fair_Serving
  imports Interleaving Startup_Proofs
begin

text \<open>
  The server with all its connections (\<open>serve\<close> and \<open>receive\<close> of \<open>protocol/server_impl.go\<close>): each connection
  has a goroutine that goes through the startup, the rounds of the request loop and the deferred calls.
  A schedule says whose turn is next. When it is fair, every connection comes to its end. A turn is the whole
  startup or a whole round: rounds that overlap are not described here, and the code does not keep them apart
  (\<open>Prepared_Races\<close>, \<open>Store_Races\<close>).
\<close>

section \<open>Goroutines\<close>

text \<open>
  The registry of connections is the connection manager of another package; what it is asked is recorded.
\<close>

datatype phase = Starting | Looping | Gone

datatype registry_call = AddConn nat | RemoveConn nat

record 'a serving_state =
  sg_server :: "'a server_state"
  sg_phase :: "nat \<Rightarrow> phase"
  sg_registry :: "registry_call list"
  sg_crashed :: bool

definition fresh_serving :: "'a server_state \<Rightarrow> 'a serving_state" where
  "fresh_serving S = \<lparr>sg_server = S, sg_phase = \<lambda>_. Starting, sg_registry = [], sg_crashed = False\<rparr>"

text \<open>The deferred calls: a connection that was added is removed, then it is closed, and the one that was accepted.\<close>

definition ends :: "nat \<Rightarrow> 'a session \<Rightarrow> 'a serving_state \<Rightarrow> 'a serving_state" where
  "ends i s R = R\<lparr>sg_server := put_session i (close_session s) (sg_server R), sg_phase := (sg_phase R)(i := Gone),
     sg_registry := sg_registry R @ (if sg_phase R i = Looping then [RemoveConn i] else [])\<rparr>"

definition enters_loop :: "nat \<Rightarrow> 'a session \<Rightarrow> 'a serving_state \<Rightarrow> 'a serving_state" where
  "enters_loop i s R = R\<lparr>sg_server := put_session i s (sg_server R), sg_phase := (sg_phase R)(i := Looping),
     sg_registry := sg_registry R @ [AddConn i]\<rparr>"

definition goes_on :: "nat \<Rightarrow> 'a session \<Rightarrow> 'a serving_state \<Rightarrow> 'a serving_state" where
  "goes_on i s R = R\<lparr>sg_server := put_session i s (sg_server R)\<rparr>"

text \<open>A turn of the goroutine of connection \<open>i\<close>; a panic of one of them ends the process.\<close>

definition take_turn :: "'a protocol_server \<Rightarrow> nat \<Rightarrow> 'a serving_state \<Rightarrow> 'a serving_state" where
  "take_turn ps i R = (if sg_crashed R then R else
     (case sg_phase R i of
        Gone \<Rightarrow> R
      | Starting \<Rightarrow> (case startup_phase ps (session_at i (sg_server R)) of
            (Ok True, s) \<Rightarrow> enters_loop i s R
          | (Ok False, s) \<Rightarrow> ends i s R
          | (Err e, s) \<Rightarrow> ends i s R
          | (Panic p, s) \<Rightarrow> (ends i s R)\<lparr>sg_crashed := True\<rparr>)
      | Looping \<Rightarrow> (case receive_step (ps_MessageHandler ps) (session_at i (sg_server R)) of
            (Ok True, s) \<Rightarrow> goes_on i s R
          | (Ok False, s) \<Rightarrow> ends i s R
          | (Err e, s) \<Rightarrow> ends i s R
          | (Panic p, s) \<Rightarrow> (ends i s R)\<lparr>sg_crashed := True\<rparr>)))"

fun serving_run :: "'a protocol_server \<Rightarrow> (nat \<Rightarrow> nat) \<Rightarrow> 'a serving_state \<Rightarrow> nat \<Rightarrow> 'a serving_state" where
  "serving_run ps sched R 0 = R"
| "serving_run ps sched R (Suc n) = take_turn ps (sched n) (serving_run ps sched R n)"

lemma session_at_put [simp]: "session_at i (put_session i s S) = s" "ss_conns (put_session i s S) j = (if j = i then s_conn s else ss_conns S j)"
  "put_session i s (put_session i s' S) = put_session i s S"
  by (simp_all add: session_at_def put_session_def)

lemma serving_parts [simp]:
  "sg_server (ends i s R) = put_session i (close_session s) (sg_server R)"
  "sg_phase (ends i s R) = (sg_phase R)(i := Gone)" "sg_crashed (ends i s R) = sg_crashed R"
  "sg_registry (ends i s R) = sg_registry R @ (if sg_phase R i = Looping then [RemoveConn i] else [])"
  "sg_server (enters_loop i s R) = put_session i s (sg_server R)"
  "sg_phase (enters_loop i s R) = (sg_phase R)(i := Looping)" "sg_crashed (enters_loop i s R) = sg_crashed R"
  "sg_registry (enters_loop i s R) = sg_registry R @ [AddConn i]"
  "sg_server (goes_on i s R) = put_session i s (sg_server R)" "sg_phase (goes_on i s R) = sg_phase R"
  "sg_crashed (goes_on i s R) = sg_crashed R" "sg_registry (goes_on i s R) = sg_registry R"
  by (simp_all add: ends_def enters_loop_def goes_on_def)

lemmas turn_splits = phase.splits prod.splits res.splits bool.splits if_splits

section \<open>Turns of the others\<close>

text \<open>What a connection is: its phase, its stream, and what the registry was asked about it\<close>

definition about :: "nat \<Rightarrow> registry_call \<Rightarrow> bool" where
  "about i c = (case c of AddConn j \<Rightarrow> j = i | RemoveConn j \<Rightarrow> j = i)"

definition one_of :: "nat \<Rightarrow> 'a serving_state \<Rightarrow> phase \<times> conn \<times> registry_call list" where
  "one_of i R = (sg_phase R i, ss_conns (sg_server R) i, filter (about i) (sg_registry R))"

lemma one_of_other: "j \<noteq> i \<Longrightarrow> one_of i (take_turn ps j R) = one_of i R"
  by (auto simp: take_turn_def one_of_def about_def split: turn_splits)

lemma one_of_still:
  assumes "\<And>k. n \<le> k \<Longrightarrow> k < m \<Longrightarrow> sched k \<noteq> i" and "n \<le> m"
  shows "one_of i (serving_run ps sched R m) = one_of i (serving_run ps sched R n)"
  using assms(2,1)
proof (induction m rule: dec_induct)
  case (step m)
  then show ?case by (simp add: one_of_other)
qed simp

section \<open>Turns of its own\<close>

definition over :: "nat \<Rightarrow> 'a serving_state \<Rightarrow> bool" where
  "over i R \<longleftrightarrow> sg_crashed R \<or> sg_phase R i = Gone"

lemma over_stays: "over i R \<Longrightarrow> over i (take_turn ps j R)"
  by (auto simp: over_def take_turn_def split: turn_splits)

lemma over_run: "n \<le> m \<Longrightarrow> over i (serving_run ps sched R n) \<Longrightarrow> over i (serving_run ps sched R m)"
  by (induction m rule: dec_induct) (simp_all add: over_stays)

lemma starting_turn: "sg_phase R i = Starting \<Longrightarrow> over i (take_turn ps i R) \<or> sg_phase (take_turn ps i R) i = Looping"
  by (auto simp: over_def take_turn_def split: turn_splits)

lemma looping_turn:
  assumes "calm_handler (ps_MessageHandler ps)" "sg_phase R i = Looping" "\<not> over i (take_turn ps i R)"
  shows "sg_phase (take_turn ps i R) i = Looping \<and>
    left (c_reader (ss_conns (sg_server (take_turn ps i R)) i)) < left (c_reader (ss_conns (sg_server R) i))"
proof -
  obtain x s where step: "receive_step (ps_MessageHandler ps) (session_at i (sg_server R)) = (x, s)" by fastforce
  have running: "\<not> sg_crashed R" using assms(3) by (auto simp: over_def take_turn_def)
  have "x = Ok True" using assms(2,3) step running by (auto simp: over_def take_turn_def split: turn_splits)
  moreover from receive_step_consumes [OF assms(1) step [unfolded this]]
  have "left (c_reader (s_conn s)) < left (c_reader (ss_conns (sg_server R) i))" by (simp add: s_left_def session_at_def)
  ultimately show ?thesis using assms(2) step running by (simp add: take_turn_def)
qed

lemma next_turn:
  fixes sched :: "nat \<Rightarrow> nat"
  assumes "\<And>n. \<exists>m\<ge>n. sched m = i"
  obtains m where "n \<le> m" "sched m = i" "\<And>k. n \<le> k \<Longrightarrow> k < m \<Longrightarrow> sched k \<noteq> i"
proof -
  let ?P = "\<lambda>m. n \<le> m \<and> sched m = i"
  have "?P (LEAST m. ?P m)" by (rule LeastI_ex [of ?P]) (rule assms)
  moreover have "sched k \<noteq> i" if "n \<le> k" "k < (LEAST m. ?P m)" for k using that not_less_Least by blast
  ultimately show thesis using that by blast
qed

lemma looping_ends:
  assumes "calm_handler (ps_MessageHandler ps)" and "\<And>n. \<exists>m\<ge>n. sched m = i"
    and "sg_phase (serving_run ps sched R n) i = Looping"
  shows "\<exists>m. over i (serving_run ps sched R m)"
  using assms(3)
proof (induction "left (c_reader (ss_conns (sg_server (serving_run ps sched R n)) i))" arbitrary: n rule: less_induct)
  case less
  obtain m where m: "n \<le> m" "sched m = i" "\<And>k. n \<le> k \<Longrightarrow> k < m \<Longrightarrow> sched k \<noteq> i"
    using next_turn [OF assms(2)] by blast
  from one_of_still [of n m sched i ps R, OF m(3,1)] less.prems
  have same: "sg_phase (serving_run ps sched R m) i = Looping"
    "ss_conns (sg_server (serving_run ps sched R m)) i = ss_conns (sg_server (serving_run ps sched R n)) i"
    by (simp_all add: one_of_def)
  show ?case
  proof (cases "over i (serving_run ps sched R (Suc m))")
    case False
    with looping_turn [OF assms(1) same(1)] m(2) same(2) show ?thesis
      by (intro less.hyps [of "Suc m"]) simp_all
  qed blast
qed

lemma fair_ends:
  assumes "calm_handler (ps_MessageHandler ps)" and "\<And>n. \<exists>m\<ge>n. sched m = i"
  shows "\<exists>m. over i (serving_run ps sched R m)"
proof -
  obtain m where m: "sched m = i" "\<And>k. 0 \<le> k \<Longrightarrow> k < m \<Longrightarrow> sched k \<noteq> i"
    using next_turn [OF assms(2), where n = 0] by blast
  show ?thesis
  proof (cases "sg_phase (serving_run ps sched R m) i")
    case Starting
    from starting_turn [OF this, of ps] m(1)
    have "over i (serving_run ps sched R (Suc m)) \<or> sg_phase (serving_run ps sched R (Suc m)) i = Looping" by simp
    with looping_ends [OF assms] show ?thesis by blast
  next
    case Looping
    with looping_ends [OF assms] show ?thesis by blast
  next
    case Gone
    then show ?thesis by (auto simp: over_def)
  qed
qed

section \<open>The registry\<close>

text \<open>What the registry has been asked about a connection, by its phase\<close>

definition registry_ok :: "nat \<Rightarrow> 'a serving_state \<Rightarrow> bool" where
  "registry_ok i R \<longleftrightarrow> filter (about i) (sg_registry R) \<in>
     (case sg_phase R i of Starting \<Rightarrow> {[]} | Looping \<Rightarrow> {[AddConn i]} | Gone \<Rightarrow> {[], [AddConn i, RemoveConn i]})"

lemma registry_ok_turn: "registry_ok i R \<Longrightarrow> registry_ok i (take_turn ps j R)"
proof (cases "j = i")
  case False
  then show "registry_ok i R \<Longrightarrow> registry_ok i (take_turn ps j R)"
    using one_of_other [OF False, of ps R] by (simp add: registry_ok_def one_of_def)
next
  case True
  then show "registry_ok i R \<Longrightarrow> registry_ok i (take_turn ps j R)"
    by (auto simp: registry_ok_def take_turn_def about_def split: turn_splits)
qed

lemma registry_ok_run: "registry_ok i R \<Longrightarrow> registry_ok i (serving_run ps sched R n)"
  by (induction n) (simp_all add: registry_ok_turn)

section \<open>The end of every connection\<close>

text \<open>A connection that is gone has hung up.\<close>

definition gone_hung_up :: "nat \<Rightarrow> 'a serving_state \<Rightarrow> bool" where
  "gone_hung_up i R \<longleftrightarrow> (sg_phase R i = Gone \<longrightarrow> hung_up (ss_conns (sg_server R) i))"

lemma gone_hung_up_turn: "gone_hung_up i R \<Longrightarrow> gone_hung_up i (take_turn ps j R)"
proof (cases "j = i")
  case False
  then show "gone_hung_up i R \<Longrightarrow> gone_hung_up i (take_turn ps j R)"
    using one_of_other [OF False, of ps R] by (simp add: gone_hung_up_def one_of_def)
next
  case True
  then show "gone_hung_up i R \<Longrightarrow> gone_hung_up i (take_turn ps j R)"
    by (auto simp: gone_hung_up_def take_turn_def split: turn_splits)
qed

lemma gone_hung_up_run: "gone_hung_up i R \<Longrightarrow> gone_hung_up i (serving_run ps sched R n)"
  by (induction n) (simp_all add: gone_hung_up_turn)

text \<open>
  C8: every connection comes to its end. Under every schedule that lets a connection take its turn again and
  again, whatever the clients send and however the rounds of the other connections fall between its own, from
  some point on the connection takes no more turns, the network connection it was accepted on is closed, and
  the registry has been asked to remove it exactly if it had been asked to add it, once and in this order;
  unless a panic has ended the process. The turns are whole startups and whole rounds, one after the other.
\<close>

theorem every_connection_ends:
  assumes "ps_MessageHandler ps = server_handler sv" and "\<And>stmt. calm (sv_CopyData sv stmt)"
    and "\<And>n. \<exists>m\<ge>n. sched m = i"
  shows "\<exists>n. \<forall>m\<ge>n. let R = serving_run ps sched (fresh_serving S) m in
    sg_crashed R \<or> sg_phase R i = Gone \<and> hung_up (ss_conns (sg_server R) i) \<and>
      filter (about i) (sg_registry R) \<in> {[], [AddConn i, RemoveConn i]}"
proof -
  have "calm_handler (ps_MessageHandler ps)" using calm_server_handler [of sv] assms(1,2) by simp
  from fair_ends [OF this assms(3)] obtain n where n: "over i (serving_run ps sched (fresh_serving S) n)" by blast
  have "sg_crashed R \<or> sg_phase R i = Gone \<and> hung_up (ss_conns (sg_server R) i) \<and>
      filter (about i) (sg_registry R) \<in> {[], [AddConn i, RemoveConn i]}"
    if R: "R = serving_run ps sched (fresh_serving S) m" "n \<le> m" for R m
  proof -
    have "registry_ok i R" unfolding R(1) by (rule registry_ok_run) (simp add: registry_ok_def fresh_serving_def)
    moreover have "gone_hung_up i R"
      unfolding R(1) by (rule gone_hung_up_run) (simp add: gone_hung_up_def fresh_serving_def)
    ultimately show ?thesis using over_run [OF R(2) n] by (auto simp: R(1) over_def registry_ok_def gone_hung_up_def)
  qed
  then show ?thesis by (auto simp: Let_def)
qed

text \<open>Two clients with the same bytes that take turns\<close>

definition two_clients :: "nat server_state" where
  "two_clients = same_clients 0 (enc_startup [(''database'', ''db'')] @ frame TerminateMessage [])"

theorem every_connection_ends_witness:
  "\<exists>n. \<forall>m\<ge>n. let R = serving_run (any_user_server (\<lambda>u pw. Ok True)) (\<lambda>k. k mod 2) (fresh_serving two_clients) m in
     sg_crashed R \<or> sg_phase R 1 = Gone \<and> hung_up (ss_conns (sg_server R) 1) \<and>
       filter (about 1) (sg_registry R) \<in> {[], [AddConn 1, RemoveConn 1]}"
proof (rule every_connection_ends)
  show "ps_MessageHandler (any_user_server (\<lambda>u pw. Ok True)) = server_handler (small_server (Some counting_executor) (\<lambda>q. Ok []))"
    by (simp add: any_user_server_def)
  show "calm (sv_CopyData (small_server (Some counting_executor) (\<lambda>q. Ok [])) stmt)" for stmt
    by (simp add: small_server_def calm_on_app)
  show "\<exists>m\<ge>n. m mod 2 = 1" for n :: nat
    by (rule exI [of _ "2 * n + 1"]) simp
qed

section \<open>One goroutine\<close>

text \<open>The turns of one connection alone add up to \<open>receive\<close>.\<close>

definition alone :: "nat \<Rightarrow> unit go \<Rightarrow> 'a session \<Rightarrow> 'a serving_state \<Rightarrow> 'a serving_state \<Rightarrow> bool" where
  "alone i x s R R' \<longleftrightarrow> sg_server R' = put_session i s (sg_server R) \<and> sg_phase R' = (sg_phase R)(i := Gone) \<and>
     sg_crashed R' = is_panic x"

lemma alone_later: "alone i x s R' R'' \<Longrightarrow> sg_server R' = put_session i s1 (sg_server R) \<Longrightarrow>
    sg_phase R' = (sg_phase R)(i := ph) \<Longrightarrow> alone i x s R R''"
  by (simp add: alone_def)

lemma turns_of_loop:
  assumes "receive_loop fuel (ps_MessageHandler ps) s = Some (x, s')" and "s = session_at i (sg_server R)"
    and "sg_phase R i = Looping" and "\<not> sg_crashed R"
  shows "\<exists>n \<le> fuel. alone i x (close_session s') R ((take_turn ps i ^^ n) R)"
  using assms
proof (induction fuel arbitrary: s R)
  case (Suc fuel)
  obtain y s1 where step: "receive_step (ps_MessageHandler ps) s = (y, s1)" by fastforce
  show ?case
  proof (cases "y = Ok True")
    case True
    have turn: "take_turn ps i R = goes_on i s1 R" using Suc.prems step True by (simp add: take_turn_def)
    have "\<exists>n \<le> fuel. alone i x (close_session s') (goes_on i s1 R) ((take_turn ps i ^^ n) (goes_on i s1 R))"
      by (rule Suc.IH [of s1]) (use Suc.prems step True in simp_all)
    then obtain n where n: "n \<le> fuel" "alone i x (close_session s') (goes_on i s1 R) ((take_turn ps i ^^ n) (goes_on i s1 R))"
      by blast
    from alone_later [OF n(2), of s1 R Looping] have "alone i x (close_session s') R ((take_turn ps i ^^ Suc n) R)"
      using Suc.prems(3) by (simp add: funpow_swap1 turn fun_upd_idem)
    with n(1) show ?thesis by (intro exI [of _ "Suc n"]) simp
  next
    case False
    then have "alone i x (close_session s') R (take_turn ps i R)"
      using Suc.prems step by (cases y) (auto simp: take_turn_def alone_def)
    then show ?thesis by (intro exI [of _ 1]) simp
  qed
qed simp

theorem turns_add_up:
  assumes "receive fuel ps (session_at i (sg_server R)) = Some (x, s')" and "sg_phase R i = Starting" and "\<not> sg_crashed R"
  shows "\<exists>n \<le> Suc fuel. alone i x s' R ((take_turn ps i ^^ n) R)"
proof -
  obtain y s1 where y: "startup_phase ps (session_at i (sg_server R)) = (y, s1)" by fastforce
  show ?thesis
  proof (cases "y = Ok True")
    case True
    have turn: "take_turn ps i R = enters_loop i s1 R" using assms(2,3) y True by (simp add: take_turn_def)
    from assms(1) y True obtain s2 where s2: "receive_loop fuel (ps_MessageHandler ps) s1 = Some (x, s2)" "s' = close_session s2"
      by (auto simp: receive_def)
    obtain n where n: "n \<le> fuel" "alone i x s' (enters_loop i s1 R) ((take_turn ps i ^^ n) (enters_loop i s1 R))"
      using turns_of_loop [OF s2(1), of i "enters_loop i s1 R"] assms(3) s2(2) by auto
    from alone_later [OF n(2), of s1 R Looping] have "alone i x s' R ((take_turn ps i ^^ Suc n) R)"
      by (simp add: funpow_swap1 turn)
    with n(1) show ?thesis by (intro exI [of _ "Suc n"]) simp
  next
    case False
    then have "alone i x s' R (take_turn ps i R)"
      using assms y by (cases y) (auto simp: take_turn_def alone_def receive_def)
    then show ?thesis by (intro exI [of _ 1]) simp
  qed
qed

end
