(* ===== verification/Many_Clients.thy ===== *)
theory Many_Clients
  imports Fair_Serving Whole_Connections
begin

text \<open>
  Many clients on one server. Each has its own database, user, password and conversation, and they share
  the data. What the server does with all its connections, readers and buffers is described by a world in
  which a client's next message takes effect at once, in the order of the turns. The turns are whole startups
  and whole rounds, one after the other, as in \<open>Fair_Serving\<close>.
\<close>

section \<open>The world of the clients\<close>

text \<open>What a client does from its startup message to the end, and whether its password is accepted\<close>

record client =
  cl_params :: "(string \<times> string) list"
  cl_user :: string
  cl_password :: string
  cl_accepted :: bool
  cl_batches :: "client_msg list list"
  cl_final :: "client_msg list"
  cl_rest :: bytes

definition valid_plan :: "client \<Rightarrow> bool" where
  "valid_plan k \<longleftrightarrow> startup_ok (cl_params k) \<and> length (enc_params (cl_params k)) + 9 < 2 ^ 31 \<and>
     map_of (rev (cl_params k)) StartUpUser = Some (cl_user k) \<and> no_nul (cl_password k) \<and>
     list_all (\<lambda>b. b \<noteq> [] \<and> list_all valid_client b) (cl_batches k) \<and> list_all valid_client (cl_final k)"

definition planned :: "'a protocol_server \<Rightarrow> client \<Rightarrow> bool" where
  "planned ps k \<longleftrightarrow> valid_plan k \<and>
     (\<forall>c. ps_VerifyCredential ps c (cl_user k) (cl_password k) = Ok (cl_accepted k))"

text \<open>Messages, each with whether more has arrived behind it\<close>

type_synonym script = "(client_msg \<times> bool) list"

fun marked :: "bool \<Rightarrow> client_msg list \<Rightarrow> script" where
  "marked further [] = []"
| "marked further (m # ms) = (m, further \<or> ms \<noteq> []) # marked further ms"

lemma marked_Nil [simp]: "marked further ms = [] \<longleftrightarrow> ms = []" "[] = marked further ms \<longleftrightarrow> ms = []"
  by (cases ms; simp)+

fun script_of :: "client_msg list list \<Rightarrow> client_msg list \<Rightarrow> script" where
  "script_of [] final = marked True final"
| "script_of (b # bs) final = marked False b @ script_of bs final"

datatype progress = Opens | Talks script | Hung_Up

record 'a world =
  w_progress :: "nat \<Rightarrow> progress"
  w_view :: "nat \<Rightarrow> 'a view"
  w_app :: 'a
  w_received :: "nat \<Rightarrow> bytes list"
  w_crashed :: bool

definition new_world :: "'a \<Rightarrow> 'a world" where
  "new_world a = \<lparr>w_progress = \<lambda>_. Opens,
     w_view = \<lambda>_. \<lparr>v_tx = False, v_stmts = Map.empty, v_portals = Map.empty, v_app = a\<rparr>,
     w_app = a, w_received = \<lambda>_. [], w_crashed = False\<rparr>"

text \<open>The view of a client: its own statements, portals and transaction, and the data of all\<close>

definition seen_by :: "nat \<Rightarrow> 'a world \<Rightarrow> 'a view" where
  "seen_by i W = (w_view W i)\<lparr>v_app := w_app W\<rparr>"

definition opening_bytes :: "('a, 'x) query_server_scheme \<Rightarrow> nat \<Rightarrow> bool \<Rightarrow> bytes list" where
  "opening_bytes sv i ok = wire_of (authentication_answers ok) @
     wire_of (NewParameterStatusesWith (sv_MapOrder sv i [(ClientEncoding, EncodingUTF8), (ServerEncoding, EncodingUTF8)]) @
       [BackendKeyData sv]) @ [ready_bytes False]"

definition world_turn :: "('a, 'x) query_server_scheme \<Rightarrow> (string \<Rightarrow> 'a meaning) \<Rightarrow> (nat \<Rightarrow> client) \<Rightarrow> nat \<Rightarrow> 'a world \<Rightarrow> 'a world" where
  "world_turn sv sem cl i W = (if w_crashed W then W else
     (case w_progress W i of
        Hung_Up \<Rightarrow> W
      | Opens \<Rightarrow> W\<lparr>w_progress := (w_progress W)(i := Talks (script_of (cl_batches (cl i)) (cl_final (cl i)))),
          w_received := (w_received W)(i := w_received W i @ opening_bytes sv i (cl_accepted (cl i)))\<rparr>
      | Talks [] \<Rightarrow> W\<lparr>w_progress := (w_progress W)(i := Hung_Up)\<rparr>
      | Talks ((m, further) # ms) \<Rightarrow> (case round_meaning sv (sem (database_of (cl_params (cl i)))) further m (seen_by i W) of (out, r, v) \<Rightarrow>
          \<lparr>w_progress = (w_progress W)(i := if r = Ok () then Talks ms else Hung_Up),
           w_view = (w_view W)(i := v), w_app = v_app v,
           w_received = (w_received W)(i := w_received W i @ out), w_crashed = is_panic r\<rparr>)))"

fun world_run :: "('a, 'x) query_server_scheme \<Rightarrow> (string \<Rightarrow> 'a meaning) \<Rightarrow> (nat \<Rightarrow> client) \<Rightarrow> (nat \<Rightarrow> nat) \<Rightarrow> 'a world \<Rightarrow> nat \<Rightarrow> 'a world" where
  "world_run sv sem cl sched W 0 = W"
| "world_run sv sem cl sched W (Suc n) = world_turn sv sem cl (sched n) (world_run sv sem cl sched W n)"

lemma world_turns:
  "\<not> w_crashed W \<Longrightarrow> w_progress W i = Opens \<Longrightarrow> world_turn sv sem cl i W =
     W\<lparr>w_progress := (w_progress W)(i := Talks (script_of (cl_batches (cl i)) (cl_final (cl i)))),
       w_received := (w_received W)(i := w_received W i @ opening_bytes sv i (cl_accepted (cl i)))\<rparr>"
  "\<not> w_crashed W \<Longrightarrow> w_progress W i = Talks [] \<Longrightarrow> world_turn sv sem cl i W = W\<lparr>w_progress := (w_progress W)(i := Hung_Up)\<rparr>"
  "\<not> w_crashed W \<Longrightarrow> w_progress W i = Talks ((m, further) # ms) \<Longrightarrow>
     round_meaning sv (sem (database_of (cl_params (cl i)))) further m (seen_by i W) = (out, r, v) \<Longrightarrow> world_turn sv sem cl i W =
     \<lparr>w_progress = (w_progress W)(i := if r = Ok () then Talks ms else Hung_Up), w_view = (w_view W)(i := v), w_app = v_app v,
      w_received = (w_received W)(i := w_received W i @ out), w_crashed = is_panic r\<rparr>"
  by (simp_all add: world_turn_def)

section \<open>The server they have dialled\<close>

definition client_events :: "client \<Rightarrow> net_event list" where
  "client_events k = opening_events (cl_params k) (cl_password k)
     (conversation_events (cl_batches k) (cl_final k) (cl_rest k))"

definition dialled :: "(nat \<Rightarrow> client) \<Rightarrow> 'a \<Rightarrow> 'a serving_state" where
  "dialled cl a = fresh_serving \<lparr>ss_conns = \<lambda>i. NewConnWith (new_net_conn (client_events (cl i))) i [],
     ss_prep = NewPreparedManager, ss_app = a\<rparr>"

section \<open>A conversation on its way\<close>

text \<open>
  The state of a connection with a script before it: in the middle of a batch, in the last batch, or
  waiting for the next batch.
\<close>

inductive talks :: "string \<Rightarrow> script \<Rightarrow> conn \<Rightarrow> bool" for db where
  batch: "fronted c \<Longrightarrow> Database c = db \<Longrightarrow> reader_pending (c_reader c) = client_frames ms \<Longrightarrow> ms \<noteq> [] \<Longrightarrow>
    list_all valid_client ms \<Longrightarrow> list_all (\<lambda>b. b \<noteq> [] \<and> list_all valid_client b) bs \<Longrightarrow> list_all valid_client final \<Longrightarrow>
    talks db (marked False ms @ script_of bs final) (later (Silence # conversation_events bs final rest) c)"
| last: "fronted c \<Longrightarrow> Database c = db \<Longrightarrow> reader_pending (c_reader c) = client_frames ms @ frame TerminateMessage [] @ rest \<Longrightarrow>
    list_all valid_client ms \<Longrightarrow> talks db (marked True ms) c"
| waiting: "drained c \<Longrightarrow> Database c = db \<Longrightarrow> list_all (\<lambda>b. b \<noteq> [] \<and> list_all valid_client b) bs \<Longrightarrow>
    list_all valid_client final \<Longrightarrow>
    talks db (script_of bs final) (later (Silence # conversation_events bs final rest) c)"

lemma talks_start:
  assumes "drained c" "Database c = db" "list_all (\<lambda>b. b \<noteq> [] \<and> list_all valid_client b) bs" "list_all valid_client final"
  shows "talks db (script_of bs final) (later (conversation_events bs final rest) c)"
proof (cases bs)
  case Nil
  show ?thesis
    using drained_later [OF assms(1)] assms(2,4)
    by (auto simp: Nil Database_def intro!: talks.last [of _ _ _ rest])
next
  case (Cons b bs')
  have "talks db (marked False b @ script_of bs' final)
      (later (Silence # conversation_events bs' final rest) (later [Arrive (client_frames b)] c))"
    using drained_later [OF assms(1), of "client_frames b"] assms(2-4) Cons
    by (intro talks.batch) (simp_all add: Database_def)
  then show ?thesis by (simp add: Cons)
qed

lemma batch_round:
  assumes "server_semantics sv sem db S" "fronted c" "Database c = db" "s_conn s = later (Silence # conversation_events bs final rest) c"
    and "reader_pending (c_reader c) = client_frames (m # ms)" "list_all valid_client (m # ms)"
    and "list_all (\<lambda>b. b \<noteq> [] \<and> list_all valid_client b) bs" "list_all valid_client final"
    and "round_meaning sv sem (ms \<noteq> []) m (view_of s) = (out, r, v)"
  shows "\<exists>s'. receive_step (server_handler sv) s = (map_res (\<lambda>_. True) r, s') \<and> view_of s' = v \<and>
    sent (s_conn s') = sent (s_conn s) @ out \<and> (r = Ok () \<longrightarrow> talks db (marked False ms @ script_of bs final) (s_conn s'))"
proof -
  let ?es = "Silence # conversation_events bs final rest"
  have further: "(client_frames ms \<noteq> []) = (ms \<noteq> [])" by (cases ms) (simp_all add: client_frame_def)
  have valid: "valid_client m" "lull ?es" "reader_pending (c_reader c) = client_frame m @ client_frames ms"
    using assms(5,6) by (simp_all add: lull_def)
  from server_semantics.round_held [OF assms(1) valid(1) assms(2,4) valid(2) assms(3) valid(3), of out r v] assms(9)
  obtain s' where s': "receive_step (server_handler sv) s = (map_res (\<lambda>_. True) r, s')" "view_of s' = v"
    "sent (s_conn s') = sent c @ out"
    "r = Ok () \<Longrightarrow> \<exists>c'. s_conn s' = later (if client_frames ms = [] then tl ?es else ?es) c' \<and> Database c' = db \<and>
      (if client_frames ms = [] then drained c' else fronted c' \<and> reader_pending (c_reader c') = client_frames ms)"
    unfolding further by blast
  have "talks db (marked False ms @ script_of bs final) (s_conn s')" if "r = Ok ()"
  proof (cases "ms = []")
    case True
    with s'(4) [OF that] obtain c' where "s_conn s' = later (conversation_events bs final rest) c'" "Database c' = db" "drained c'"
      by auto
    with True show ?thesis using talks_start [OF _ _ assms(7,8)] by simp
  next
    case False
    with s'(4) [OF that] further obtain c' where "s_conn s' = later ?es c'" "Database c' = db" "fronted c'"
      "reader_pending (c_reader c') = client_frames ms" by auto
    with False assms(6-8) show ?thesis by (auto intro: talks.batch)
  qed
  moreover have "sent (s_conn s) = sent c" using assms(4) by simp
  ultimately show ?thesis using s'(1-3) by auto
qed

lemma last_round:
  assumes "server_semantics sv sem db S" "fronted (s_conn s)" "Database (s_conn s) = db"
    and "reader_pending (c_reader (s_conn s)) = client_frames (m # ms) @ frame TerminateMessage [] @ rest"
    and "list_all valid_client (m # ms)" "round_meaning sv sem True m (view_of s) = (out, r, v)"
  shows "\<exists>s'. receive_step (server_handler sv) s = (map_res (\<lambda>_. True) r, s') \<and> view_of s' = v \<and>
    sent (s_conn s') = sent (s_conn s) @ out \<and> (r = Ok () \<longrightarrow> talks db (marked True ms) (s_conn s'))"
proof -
  let ?rest = "client_frames ms @ frame TerminateMessage [] @ rest"
  have c: "s_conn s = later [] (s_conn s)" "lull []" "reader_pending (c_reader (s_conn s)) = client_frame m @ ?rest"
    "?rest \<noteq> []" "valid_client m" using assms(4,5) by (simp_all add: lull_def)
  from server_semantics.round_held [OF assms(1) c(5) assms(2) c(1,2) assms(3) c(3), of out r v] assms(6) c(4)
  obtain s' where s': "receive_step (server_handler sv) s = (map_res (\<lambda>_. True) r, s')" "view_of s' = v"
    "sent (s_conn s') = sent (s_conn s) @ out"
    "r = Ok () \<Longrightarrow> \<exists>c'. s_conn s' = later [] c' \<and> Database c' = db \<and> fronted c' \<and> reader_pending (c_reader c') = ?rest"
    by (auto split: if_splits)
  have "talks db (marked True ms) (s_conn s')" if "r = Ok ()"
    using s'(4) [OF that] assms(5) by (auto intro!: talks.last [of _ _ _ rest])
  with s'(1-3) show ?thesis by blast
qed

lemma talks_round:
  assumes "server_semantics sv sem db S" "talks db ((m, further) # script) (s_conn s)"
    and "round_meaning sv sem further m (view_of s) = (out, r, v)"
  shows "\<exists>s'. receive_step (server_handler sv) s = (map_res (\<lambda>_. True) r, s') \<and> view_of s' = v \<and>
    sent (s_conn s') = sent (s_conn s) @ out \<and> (r = Ok () \<longrightarrow> talks db script (s_conn s'))"
  using assms(2)
proof cases
  case (batch c ms bs final rest)
  then obtain ms' where ms: "ms = m # ms'" "further = (ms' \<noteq> [])" "script = marked False ms' @ script_of bs final"
    by (cases ms) auto
  with batch assms(3) batch_round [OF assms(1) batch(3,4,2), of m ms' out r v] show ?thesis by simp
next
  case (last ms rest)
  then obtain ms' where ms: "ms = m # ms'" "further" "script = marked True ms'" by (cases ms) auto
  with last assms(3) last_round [OF assms(1) last(2,3), of m ms' rest out r v] show ?thesis by simp
next
  case (waiting c bs final rest)
  let ?s = "s\<lparr>s_conn := later (conversation_events bs final rest) c\<rparr>"
  have same: "receive_step (server_handler sv) s = receive_step (server_handler sv) ?s" "view_of ?s = view_of s"
    "sent (s_conn ?s) = sent (s_conn s)"
    using receive_step_silence [OF waiting(3,2)] waiting(2) by (simp_all add: view_of_def)
  show ?thesis
  proof (cases bs)
    case Nil
    with waiting(1) obtain ms' where ms: "final = m # ms'" "further" "script = marked True ms'" by (cases final) auto
    note c = drained_later [OF waiting(3), of "client_frames final @ frame TerminateMessage [] @ rest"]
    with last_round [OF assms(1), of ?s m ms' rest out r v] waiting(4,6) assms(3) same ms Nil show ?thesis
      by (simp add: Database_def)
  next
    case (Cons b bs')
    with waiting(1,5) obtain ms' where ms: "b = m # ms'" "further = (ms' \<noteq> [])" "script = marked False ms' @ script_of bs' final"
      by (cases b) auto
    let ?c = "later [Arrive (client_frames b)] c"
    from batch_round [OF assms(1), of ?c ?s bs' final rest m ms' out r v] drained_later [OF waiting(3), of "client_frames b"]
      waiting(4-6) assms(3) same ms Cons show ?thesis by (simp add: Database_def)
  qed
qed

lemma talks_end:
  assumes "talks db [] (s_conn s)"
  shows "\<exists>s'. receive_step h s = (Ok False, s') \<and> s_app s' = s_app s \<and> s_prep s' = s_prep s \<and>
    c_uuid (s_conn s') = c_uuid (s_conn s) \<and> sent (s_conn s') = sent (s_conn s)"
  using assms
proof cases
  case (batch c ms bs final rest)
  then show ?thesis by (cases ms) simp_all
next
  case (last ms rest)
  then have "reader_pending (c_reader (s_conn s)) = frame TerminateMessage [] @ rest" by (cases ms) simp_all
  with end_round [OF last(2), of rest h] show ?thesis by auto
next
  case (waiting c bs final rest)
  have "bs = []" using waiting(1,5) by (cases bs) simp_all
  with waiting(1) have final: "final = []" "bs = []" by simp_all
  let ?s = "s\<lparr>s_conn := later (conversation_events bs final rest) c\<rparr>"
  have "fronted (s_conn ?s)" "reader_pending (c_reader (s_conn ?s)) = frame TerminateMessage [] @ rest"
    using drained_later [OF waiting(3), of "frame TerminateMessage [] @ rest"] by (simp_all add: final)
  with end_round [of ?s rest h] receive_step_silence [OF waiting(3,2), of h] waiting(2) show ?thesis by auto
qed

section \<open>The server and the world\<close>

text \<open>
  A client of the world and its connection: how far it has come, and what it sees. The views of two
  clients are told apart by the ids of their connections.
\<close>

definition client_held :: "(nat \<Rightarrow> client) \<Rightarrow> nat \<Rightarrow> 'a serving_state \<Rightarrow> 'a world \<Rightarrow> bool" where
  "client_held cl i R W \<longleftrightarrow> (case w_progress W i of
       Opens \<Rightarrow> sg_phase R i = Starting \<and> (\<exists>c. drained c \<and> ss_conns (sg_server R) i = later (client_events (cl i)) c \<and> \<not> c_txLocked c)
     | Talks script \<Rightarrow> sg_phase R i = Looping \<and> talks (database_of (cl_params (cl i))) script (ss_conns (sg_server R) i)
     | Hung_Up \<Rightarrow> sg_phase R i = Gone) \<and>
   (w_progress W i \<noteq> Hung_Up \<longrightarrow> view_of (session_at i (sg_server R)) = seen_by i W)"

definition held :: "(nat \<Rightarrow> client) \<Rightarrow> 'a serving_state \<Rightarrow> 'a world \<Rightarrow> bool" where
  "held cl R W \<longleftrightarrow> sg_crashed R = w_crashed W \<and> ss_app (sg_server R) = w_app W \<and>
     (\<forall>i. c_uuid (ss_conns (sg_server R) i) = i \<and> sent (ss_conns (sg_server R) i) = w_received W i \<and>
       (sg_phase R i = Gone \<longleftrightarrow> w_progress W i = Hung_Up)) \<and>
     (\<not> w_crashed W \<longrightarrow> (\<forall>i. client_held cl i R W))"

lemma put_session_parts [simp]: "ss_app (put_session i s S) = s_app s" "ss_prep (put_session i s S) = s_prep s"
  by (simp_all add: put_session_def)

lemma session_at_parts [simp]:
  "s_conn (session_at i S) = ss_conns S i" "s_prep (session_at i S) = ss_prep S" "s_app (session_at i S) = ss_app S"
  by (simp_all add: session_at_def)

text \<open>What a turn of client \<open>i\<close> leaves of another client: its connection, and its statements in the shared maps\<close>

lemma client_held_other:
  assumes "client_held cl j R W" "j \<noteq> i" "c_uuid (ss_conns (sg_server R) j) = j"
    and "ss_conns (sg_server R') j = ss_conns (sg_server R) j" "sg_phase R' j = sg_phase R j"
    and "stateMap (ss_prep (sg_server R')) j = stateMap (ss_prep (sg_server R)) j"
    and "potalMap (ss_prep (sg_server R')) j = potalMap (ss_prep (sg_server R)) j"
    and "w_progress W' j = w_progress W j" "w_view W' j = w_view W j" "ss_app (sg_server R') = w_app W'"
  shows "client_held cl j R' W'"
proof -
  have "view_of (session_at j (sg_server R')) = (view_of (session_at j (sg_server R)))\<lparr>v_app := w_app W'\<rparr>"
    using assms(3,4,6,7,10)
    by (simp add: view_of_def view_stmts_def view_portals_def PreparedStatement_def PreparedPortal_def fun_eq_iff)
  with assms(1,4,5,8,9) show ?thesis by (auto simp: client_held_def seen_by_def split: progress.splits)
qed

lemma step_aside:
  assumes "aside_handler h" "receive_step h (session_at i S) = (x, s)" "c_uuid (ss_conns S i) = i"
  shows "c_uuid (s_conn s) = i \<and> (\<forall>u. u \<noteq> i \<longrightarrow> stateMap (s_prep s) u = stateMap (ss_prep S) u \<and> potalMap (s_prep s) u = potalMap (ss_prep S) u)"
proof -
  have "mine u i (ss_prep S) s" if "u \<noteq> i" for u
  proof -
    have "keeps (mine u i (ss_prep S)) (receive_step h)" using aside_receive_step [OF assms(1)] that by (simp add: aside_def)
    moreover have "mine u i (ss_prep S) (session_at i S)" using assms(3) by (simp add: mine_def)
    ultimately show ?thesis using assms(2) keepsD by metis
  qed
  from this [of "Suc i"] this show ?thesis by (auto simp: mine_def)
qed

lemma held_after:
  assumes "held cl R W" "\<not> w_crashed W"
    and "\<And>j. j \<noteq> i \<Longrightarrow> one_of j R' = one_of j R"
    and "\<And>j. j \<noteq> i \<Longrightarrow> w_progress W' j = w_progress W j \<and> w_view W' j = w_view W j \<and> w_received W' j = w_received W j"
    and "\<And>j. j \<noteq> i \<Longrightarrow> stateMap (ss_prep (sg_server R')) j = stateMap (ss_prep (sg_server R)) j \<and>
      potalMap (ss_prep (sg_server R')) j = potalMap (ss_prep (sg_server R)) j"
    and "sg_crashed R' = w_crashed W'" "ss_app (sg_server R') = w_app W'"
    and "c_uuid (ss_conns (sg_server R') i) = i" "sent (ss_conns (sg_server R') i) = w_received W' i"
    and "sg_phase R' i = Gone \<longleftrightarrow> w_progress W' i = Hung_Up" "\<not> w_crashed W' \<Longrightarrow> client_held cl i R' W'"
  shows "held cl R' W'"
proof -
  have others: "sg_phase R' j = sg_phase R j" "ss_conns (sg_server R') j = ss_conns (sg_server R) j" if "j \<noteq> i" for j
    using assms(3) [OF that] by (simp_all add: one_of_def)
  have "client_held cl j R' W'" if "\<not> w_crashed W'" for j
  proof (cases "j = i")
    case False
    have "client_held cl j R W" "c_uuid (ss_conns (sg_server R) j) = j" using assms(1,2) unfolding held_def by blast+
    from client_held_other [OF this(1) False this(2) others(2,1) [OF False]] assms(4,5) [OF False] assms(7) show ?thesis
      by blast
  qed (simp add: assms(11) that)
  moreover have "c_uuid (ss_conns (sg_server R') j) = j \<and> sent (ss_conns (sg_server R') j) = w_received W' j \<and>
      (sg_phase R' j = Gone \<longleftrightarrow> w_progress W' j = Hung_Up)" for j
    using assms(1,8-10) others [of j] assms(4) [of j] by (cases "j = i") (simp_all add: held_def)
  ultimately show ?thesis using assms(6,7) by (simp add: held_def)
qed

lemma one_of_moves:
  "j \<noteq> i \<Longrightarrow> one_of j (ends i s R) = one_of j R" "j \<noteq> i \<Longrightarrow> one_of j (enters_loop i s R) = one_of j R"
  "j \<noteq> i \<Longrightarrow> one_of j (goes_on i s R) = one_of j R" "one_of j (R\<lparr>sg_crashed := b\<rparr>) = one_of j R"
  by (simp_all add: one_of_def about_def)

section \<open>Turns of server and world\<close>

text \<open>
  A server whose statements have a meaning on every database, and whose COPY leaves the prepared statements
  of other connections alone
\<close>

locale client_server =
  fixes ps :: "'a protocol_server" and sv :: "('a, 'x) query_server_scheme" and sem :: "string \<Rightarrow> 'a meaning"
    and S :: "statement set"
  assumes handler: "ps_MessageHandler ps = server_handler sv"
    and semantics: "server_semantics sv (sem db) db S"
    and copies_aside: "aside (sv_CopyData sv stmt)"
begin

lemma aside_server: "aside_handler (ps_MessageHandler ps)"
  unfolding handler by (rule aside_server_handler) (simp add: copy_aside_def copies_aside)

lemma opens_held:
  assumes "held cl R W" "\<not> w_crashed W" "w_progress W i = Opens" and "planned ps (cl i)"
  shows "held cl (take_turn ps i R) (world_turn sv sem cl i W)"
proof -
  let ?k = "cl i" and ?s = "session_at i (sg_server R)"
  let ?es = "conversation_events (cl_batches ?k) (cl_final ?k) (cl_rest ?k)"
  from assms(1,2) have k: "client_held cl i R W" "sg_crashed R = w_crashed W" by (simp_all add: held_def)
  then have i: "sg_phase R i = Starting" "\<not> sg_crashed R" "view_of ?s = seen_by i W"
    using assms(2,3) by (simp_all add: client_held_def)
  from assms(1) have j: "c_uuid (ss_conns (sg_server R) i) = i" "sent (ss_conns (sg_server R) i) = w_received W i"
    "ss_app (sg_server R) = w_app W" unfolding held_def by blast+
  from k(1) obtain c where c: "drained c" "ss_conns (sg_server R) i = later (client_events ?k) c" "\<not> c_txLocked c"
    using assms(3) by (auto simp: client_held_def)
  have plan: "startup_ok (cl_params ?k)" "length (enc_params (cl_params ?k)) + 9 < 2 ^ 31"
    "map_of (rev (cl_params ?k)) StartUpUser = Some (cl_user ?k)" "no_nul (cl_password ?k)"
    "list_all (\<lambda>b. b \<noteq> [] \<and> list_all valid_client b) (cl_batches ?k)" "list_all valid_client (cl_final ?k)"
    using assms(4) by (simp_all add: planned_def valid_plan_def)
  have verify: "ps_VerifyCredential ps c (cl_user ?k) (cl_password ?k) = Ok (cl_accepted ?k)" for c
    using assms(4) by (simp add: planned_def)
  have conn: "s_conn ?s = later (opening_events (cl_params ?k) (cl_password ?k) ?es) c"
    using c(2) by (simp add: client_events_def)
  obtain c' where c': "startup_phase ps ?s = (Ok True, ?s\<lparr>s_conn := later (Silence # ?es) c'\<rparr>)" "drained c'"
    "sent c' = sent c @ wire_of (authentication_answers (cl_accepted ?k)) @ greeting sv c"
    "Database c' = database_of (cl_params ?k)" "c_txLocked c' = c_txLocked c" "c_uuid c' = c_uuid c"
    using startup_held [OF c(1) conn plan(1-4) verify handler] by blast
  let ?s' = "?s\<lparr>s_conn := later (Silence # ?es) c'\<rparr>" and ?W = "world_turn sv sem cl i W"
  have R': "take_turn ps i R = enters_loop i ?s' R" using i(1,2) c'(1) by (simp add: take_turn_def)
  have W': "?W = W\<lparr>w_progress := (w_progress W)(i := Talks (script_of (cl_batches ?k) (cl_final ?k))),
      w_received := (w_received W)(i := w_received W i @ opening_bytes sv i (cl_accepted ?k))\<rparr>"
    using assms(2,3) by (simp add: world_turn_def)
  have "talks (database_of (cl_params ?k)) (script_of (cl_batches ?k) (cl_final ?k)) (later (Silence # ?es) c')"
    by (rule talks.waiting [OF c'(2,4) plan(5,6)])
  moreover have "view_of ?s' = view_of ?s" using c'(5,6) c(2) by (simp add: view_of_def)
  ultimately have "client_held cl i (enters_loop i ?s' R) ?W"
    using i(3) by (simp add: W' client_held_def seen_by_def)
  moreover have "sent c' = sent c @ opening_bytes sv i (cl_accepted ?k)"
    using c(2,3) c'(3) j(1)
    by (simp add: greeting_def ready_frame_def ready_bytes_def opening_bytes_def ParameterStatuses_def)
  ultimately show ?thesis
    unfolding R' using assms(2) i(2) j c(2) c'(6)
    by (intro held_after [OF assms(1,2), of i]) (simp_all add: W' one_of_moves)
qed

lemma held_parts:
  assumes "held cl R W" "\<not> w_crashed W"
  shows "client_held cl i R W" "\<not> sg_crashed R" "c_uuid (ss_conns (sg_server R) i) = i"
    "sent (ss_conns (sg_server R) i) = w_received W i" "ss_app (sg_server R) = w_app W"
  using assms unfolding held_def by blast+

lemma hangs_up_held:
  assumes "held cl R W" "\<not> w_crashed W" "w_progress W i = Talks []"
  shows "held cl (take_turn ps i R) (world_turn sv sem cl i W)"
proof -
  let ?s = "session_at i (sg_server R)"
  note parts = held_parts(1) [OF assms(1,2), of i] held_parts(2) [OF assms(1,2)] held_parts(3,4) [OF assms(1,2), of i]
    held_parts(5) [OF assms(1,2)]
  from parts(1) assms(3) have i: "sg_phase R i = Looping" "talks (database_of (cl_params (cl i))) [] (s_conn ?s)"
    by (simp_all add: client_held_def)
  obtain s where s: "receive_step (ps_MessageHandler ps) ?s = (Ok False, s)" "s_app s = s_app ?s" "s_prep s = s_prep ?s"
    "c_uuid (s_conn s) = c_uuid (s_conn ?s)" "sent (s_conn s) = sent (s_conn ?s)"
    using talks_end [OF i(2)] by blast
  have R': "take_turn ps i R = ends i s R" using i(1) parts(2) s(1) by (simp add: take_turn_def)
  have W': "world_turn sv sem cl i W = W\<lparr>w_progress := (w_progress W)(i := Hung_Up)\<rparr>"
    using assms(2,3) by (simp add: world_turn_def)
  show ?thesis
    unfolding R' W' using assms(2) parts s(2-5)
    by (intro held_after [OF assms(1,2), of i]) (simp_all add: one_of_moves client_held_def)
qed

lemma talks_held:
  assumes "held cl R W" "\<not> w_crashed W" "w_progress W i = Talks ((m, further) # script)"
  shows "held cl (take_turn ps i R) (world_turn sv sem cl i W)"
proof -
  let ?s = "session_at i (sg_server R)" and ?W = "world_turn sv sem cl i W"
  note parts = held_parts(1) [OF assms(1,2), of i] held_parts(2) [OF assms(1,2)] held_parts(3,4) [OF assms(1,2), of i]
    held_parts(5) [OF assms(1,2)]
  from parts(1) assms(3) have i: "sg_phase R i = Looping" "view_of ?s = seen_by i W"
    "talks (database_of (cl_params (cl i))) ((m, further) # script) (s_conn ?s)"
    by (simp_all add: client_held_def)
  obtain out r v where meaning: "round_meaning sv (sem (database_of (cl_params (cl i)))) further m (seen_by i W) = (out, r, v)" by (metis surj_pair)
  then obtain s where s: "receive_step (ps_MessageHandler ps) ?s = (map_res (\<lambda>_. True) r, s)" "view_of s = v"
    "sent (s_conn s) = sent (s_conn ?s) @ out"
    "r = Ok () \<Longrightarrow> talks (database_of (cl_params (cl i))) script (s_conn s)"
    using talks_round [OF semantics i(3), of out r v] unfolding i(2) handler by blast
  from step_aside [OF aside_server s(1) parts(3)]
  have aside: "c_uuid (s_conn s) = i" "j \<noteq> i \<Longrightarrow> stateMap (s_prep s) j = stateMap (ss_prep (sg_server R)) j"
    "j \<noteq> i \<Longrightarrow> potalMap (s_prep s) j = potalMap (ss_prep (sg_server R)) j" for j by blast+
  have app: "s_app s = v_app v" using s(2) by (auto simp: view_of_def)
  have W': "?W = \<lparr>w_progress = (w_progress W)(i := if r = Ok () then Talks script else Hung_Up),
      w_view = (w_view W)(i := v), w_app = v_app v,
      w_received = (w_received W)(i := w_received W i @ out), w_crashed = is_panic r\<rparr>"
    using assms(2,3) meaning by (simp add: world_turn_def)
  have moved: ?thesis if R': "take_turn ps i R = R'" and d: "\<And>j. j \<noteq> i \<Longrightarrow> one_of j R' = one_of j R"
      "ss_prep (sg_server R') = s_prep s" "sg_crashed R' = is_panic r" "ss_app (sg_server R') = s_app s"
      "c_uuid (ss_conns (sg_server R') i) = i" "sent (ss_conns (sg_server R') i) = sent (s_conn s)"
      "sg_phase R' i = (if r = Ok () then Looping else Gone)"
      "r = Ok () \<Longrightarrow> session_at i (sg_server R') = s \<and> ss_conns (sg_server R') i = s_conn s" for R'
    unfolding R' using d s(2-4) parts(4) aside app assms(2)
    by (intro held_after [OF assms(1,2), of i]) (auto simp: W' client_held_def seen_by_def)
  show ?thesis
  proof (cases r)
    case (Ok u)
    then have R': "take_turn ps i R = goes_on i s R" using i(1) parts(2) s(1) by (simp add: take_turn_def map_res_def)
    show ?thesis by (rule moved [OF R']) (use Ok i(1) parts(2) aside(1) in \<open>simp_all add: one_of_moves\<close>)
  next
    case (Err e)
    then have R': "take_turn ps i R = ends i s R" using i(1) parts(2) s(1) by (simp add: take_turn_def map_res_def)
    show ?thesis by (rule moved [OF R']) (use Err parts(2) aside(1) in \<open>simp_all add: one_of_moves\<close>)
  next
    case (Panic p)
    then have R': "take_turn ps i R = (ends i s R)\<lparr>sg_crashed := True\<rparr>"
      using i(1) parts(2) s(1) by (simp add: take_turn_def map_res_def)
    show ?thesis by (rule moved [OF R']) (use Panic aside(1) in \<open>simp_all add: one_of_moves\<close>)
  qed
qed

lemma turn_held:
  assumes "held cl R W" and "planned ps (cl i)"
  shows "held cl (take_turn ps i R) (world_turn sv sem cl i W)"
proof (cases "w_crashed W")
  case True
  with assms(1) have "sg_crashed R" by (simp add: held_def)
  with True assms(1) show ?thesis by (simp add: take_turn_def world_turn_def)
next
  case False
  show ?thesis
  proof (cases "w_progress W i")
    case Opens
    from opens_held [OF assms(1) False this assms(2)] show ?thesis .
  next
    case (Talks script)
    with hangs_up_held [OF assms(1) False] talks_held [OF assms(1) False] show ?thesis
      by (cases script) (auto simp: prod_eq_iff)
  next
    case Hung_Up
    with assms(1) have "sg_phase R i = Gone" by (simp add: held_def)
    with Hung_Up False assms(1) show ?thesis by (simp add: take_turn_def world_turn_def)
  qed
qed

lemma run_held: "held cl R W \<Longrightarrow> \<forall>i. planned ps (cl i) \<Longrightarrow> held cl (serving_run ps sched R n) (world_run sv sem cl sched W n)"
  by (induction n) (simp_all add: turn_held)

end

lemma dialled_held: "held cl (dialled cl a) (new_world a)"
proof -
  let ?c = "\<lambda>i. NewConnWith (new_net_conn []) i []"
  have conn: "ss_conns (sg_server (dialled cl a)) i = later (client_events (cl i)) (?c i)" for i
    by (simp add: dialled_def fresh_serving_def new_conn_defs later_def reader_later_def src_later_def)
  have drained: "drained (?c i)" for i
    by (simp add: new_conn_defs drained_def fronted_def idle_def rwire_def wire_def whole_source_def)
  moreover have "view_of (session_at i (sg_server (dialled cl a))) = seen_by i (new_world a)" for i
    by (simp add: view_of_def seen_by_def new_world_def dialled_def fresh_serving_def session_at_def new_conn_defs
        view_stmts_def view_portals_def NewPreparedManager_def PreparedStatement_def PreparedPortal_def fun_eq_iff)
  moreover have ids: "c_uuid (?c i) = i" "sent (?c i) = []" "\<not> c_txLocked (?c i)" for i
    by (simp_all add: new_conn_defs sent_def)
  moreover have "\<exists>c. drained c \<and> later (client_events (cl i)) (?c i) = later (client_events (cl i)) c \<and> \<not> c_txLocked c" for i
    using drained ids(3) by blast
  moreover have "w_progress (new_world a) i = Opens" "sg_phase (dialled cl a) i = Starting" for i
    by (simp_all add: new_world_def dialled_def fresh_serving_def)
  ultimately have "client_held cl i (dialled cl a) (new_world a)" for i
    unfolding client_held_def conn by simp
  moreover have "sent (later es c) = sent c" "c_uuid (later es c) = c_uuid c" for es c by simp_all
  ultimately show ?thesis
    unfolding held_def conn by (simp add: ids) (simp add: new_world_def dialled_def fresh_serving_def)
qed

section \<open>Many clients\<close>

text \<open>
  C1: the server serves all its clients as the world says, as long as their rounds do not overlap. Any number of
  clients open their connections, say who they are and hold their conversations, simple and extended
  protocol, in batches; their startups and their rounds of the request loop are taken one after the other, in any
  order. After every number of turns, each client has received, byte for byte, what it would have if its
  messages had taken effect at once, in the order of the turns, on data that all share and on statements,
  portals and transactions of its own; the data are those of this world, and a round that ends the process
  is one that ends the world. Rounds that overlap are another matter: the maps of statements, databases and tables
  have no lock, and UPDATE and DELETE let go of theirs half-way.
\<close>

theorem many_clients_served:
  assumes "client_server ps sv sem S" and "\<forall>i. planned ps (cl i)"
    and "R = serving_run ps sched (dialled cl a) n" and "W = world_run sv sem cl sched (new_world a) n"
  shows "(\<forall>i. sent (ss_conns (sg_server R) i) = w_received W i \<and> (sg_phase R i = Gone \<longleftrightarrow> w_progress W i = Hung_Up)) \<and>
    ss_app (sg_server R) = w_app W \<and> sg_crashed R = w_crashed W"
  using client_server.run_held [OF assms(1) dialled_held assms(2)] unfolding held_def assms(3,4) by blast

text \<open>Two clients of the counting server who insert a row each, taking turns\<close>

definition inserting_client :: client where
  "inserting_client = \<lparr>cl_params = [(''user'', ''u'')], cl_user = ''u'', cl_password = ''p'', cl_accepted = True,
     cl_batches = [[CQuery ''I'']], cl_final = [], cl_rest = []\<rparr>"

definition inserting_protocol :: "nat protocol_server" where
  "inserting_protocol = (any_user_server (\<lambda>u pw. Ok True))\<lparr>ps_MessageHandler := server_handler inserting_server\<rparr>"

lemma inserting_client_script:
  "cl_batches inserting_client = [[CQuery ''I'']]" "cl_final inserting_client = []"
  by (simp_all add: inserting_client_def)

lemma planned_inserting: "planned inserting_protocol inserting_client"
  by (simp add: planned_def valid_plan_def inserting_client_def inserting_protocol_def any_user_server_def startup_ok_def
      no_nul_def bytes_of_string_def byte_of_char_def enc_params_def StartUpUser_def)

interpretation inserting: client_server inserting_protocol inserting_server "observed inserting_server" no_copy
proof (rule client_server.intro)
  show "server_semantics inserting_server (observed inserting_server db) db no_copy" for db
    unfolding inserting_server_def
    by (rule observed_semantics [OF blind_small_server [OF blind_counting]])
      (auto simp: small_server_def no_copy_def statement_of_def)
qed (simp_all add: inserting_protocol_def inserting_server_def small_server_def aside_on_app)

lemma insert_round:
  "round_meaning inserting_server (observed inserting_server db) further (CQuery q) v =
     (wire_of (NewInsertCompleteResponsesWith 0) @ (if further then [] else [ready_bytes (v_tx v)]), Ok (), v\<lparr>v_app := Suc (v_app v)\<rparr>)"
proof -
  have "all_sendable (NewInsertCompleteResponsesWith 0)"
    by (simp add: all_sendable_def NewInsertCompleteResponsesWith_def Response_Bytes_def case_prod_beta)
  from deliver_sendable [OF this] show ?thesis by (simp add: round_meaning_def query_meaning_def map_res_def)
qed

lemma insert_turn:
  assumes "\<not> w_crashed W" "w_progress W i = Talks ((CQuery q, further) # ms)"
  shows "world_turn inserting_server (observed inserting_server) cl i W =
     \<lparr>w_progress = (w_progress W)(i := Talks ms), w_view = (w_view W)(i := (seen_by i W)\<lparr>v_app := Suc (w_app W)\<rparr>),
      w_app = Suc (w_app W), w_received = (w_received W)(i := w_received W i @
        wire_of (NewInsertCompleteResponsesWith 0) @ (if further then [] else [ready_bytes (v_tx (w_view W i))])),
      w_crashed = False\<rparr>"
  using world_turns(3) [OF assms insert_round] by (simp add: seen_by_def)

theorem many_clients_served_witness:
  "let R = serving_run inserting_protocol (\<lambda>k. if even k then 0 else 1) (dialled (\<lambda>_. inserting_client) 0) 6 in
     \<not> sg_crashed R \<and> sg_phase R 0 = Gone \<and> sg_phase R 1 = Gone \<and> ss_app (sg_server R) = 2 \<and>
     last (sent (ss_conns (sg_server R) 1)) = ready_bytes False"
proof -
  let ?cl = "\<lambda>_ :: nat. inserting_client" and ?sched = "\<lambda>k :: nat. if even k then 0 else 1 :: nat"
  let ?R = "serving_run inserting_protocol ?sched (dialled ?cl 0) 6"
  let ?W = "world_run inserting_server (observed inserting_server) ?cl ?sched (new_world 0) 6"
  let ?t = "world_turn inserting_server (observed inserting_server) ?cl"
  define W0 W1 W2 W3 W4 W5 W6 where "W0 = (new_world 0 :: nat world)" and "W1 = ?t 0 W0" and "W2 = ?t 1 W1" and "W3 = ?t 0 W2"
    and "W4 = ?t 1 W3" and "W5 = ?t 0 W4" and "W6 = ?t 1 W5"
  have six: "(6 :: nat) = Suc (Suc (Suc (Suc (Suc (Suc 0)))))" by simp
  have W: "?W = W6" unfolding six world_run.simps by (simp add: W0_def W1_def W2_def W3_def W4_def W5_def W6_def)
  note plan = world_turns(1,2) insert_turn [where q = "''I''" and further = False and ms = "[]"] inserting_client_script
  have "\<not> w_crashed W0 \<and> w_progress W0 0 = Opens \<and> w_progress W0 1 = Opens \<and> w_app W0 = 0 \<and> \<not> v_tx (w_view W0 1)"
    by (simp add: W0_def new_world_def)
  then have "\<not> w_crashed W1 \<and> w_progress W1 0 = Talks [(CQuery ''I'', False)] \<and> w_progress W1 1 = Opens \<and> w_app W1 = 0 \<and> \<not> v_tx (w_view W1 1)"
    by (simp add: W1_def plan)
  then have "\<not> w_crashed W2 \<and> w_progress W2 0 = Talks [(CQuery ''I'', False)] \<and> w_progress W2 1 = Talks [(CQuery ''I'', False)] \<and> w_app W2 = 0 \<and> \<not> v_tx (w_view W2 1)"
    by (simp add: W2_def plan)
  then have "\<not> w_crashed W3 \<and> w_progress W3 0 = Talks [] \<and> w_progress W3 1 = Talks [(CQuery ''I'', False)] \<and> w_app W3 = 1 \<and> \<not> v_tx (w_view W3 1)"
    by (simp add: W3_def plan)
  then have "\<not> w_crashed W4 \<and> w_progress W4 0 = Talks [] \<and> w_progress W4 1 = Talks [] \<and> w_app W4 = 2 \<and> last (w_received W4 1) = ready_bytes False"
    by (simp add: W4_def plan)
  then have "\<not> w_crashed W5 \<and> w_progress W5 0 = Hung_Up \<and> w_progress W5 1 = Talks [] \<and> w_app W5 = 2 \<and> last (w_received W5 1) = ready_bytes False"
    by (simp add: W5_def plan)
  then have W6: "\<not> w_crashed W6 \<and> w_progress W6 0 = Hung_Up \<and> w_progress W6 1 = Hung_Up \<and> w_app W6 = 2 \<and> last (w_received W6 1) = ready_bytes False"
    by (simp add: W6_def plan)
  have "\<forall>i. planned inserting_protocol (?cl i)" by (simp add: planned_inserting)
  from many_clients_served [OF inserting.client_server_axioms this refl refl, of ?sched 0 6] W6 show ?thesis
    unfolding Let_def W by metis
qed

text \<open>The example server keeps the contract, whatever authenticates its clients.\<close>

lemma example_copy_aside: "aside (example_CopyData E ins Insert stmt)"
proof -
  have "keeps (mine u v M) (example_CopyData E ins Insert stmt)" if "u \<noteq> v" for u v M
  proof -
    have "keeps (mine u v M) (NewCopyCompleteResponsesFrom mk table cols Insert stmt)" for mk table cols
      using aside_copy_data that unfolding aside_def by blast
    then show ?thesis by (auto simp: keeps_def example_CopyData_def split: res.split)
  qed
  then show ?thesis by (rule asideI)
qed

interpretation example: client_server "SetMessageHandler (server_handler (example_talker E R sp ins alt del base)) ps"
    "example_talker E R sp ins alt del base" "observed (example_talker E R sp ins alt del base)" no_copy
  by unfold_locales (simp_all add: SetMessageHandler_def talker.server_semantics_axioms example_copy_aside
      example_server_simps [folded example_talker_def] example_talker_def)

end
