(* ===== verification/Ssl_Connections.thy ===== *)
theory Ssl_Connections
  imports Whole_Connections
begin

text \<open>
  Connections that ask for TLS first (\<open>receive\<close> of \<open>protocol/server_impl.go\<close>, as most clients do): the server
  declines and goes on in the clear, or it answers, shakes hands and serves the tunnel on a new connection.
\<close>

section \<open>The request and its answers\<close>

definition ssl_request :: bytes where
  "ssl_request = Int32ToBytes 8 @ Int32ToBytes SSLRequestCode"

text \<open>What the server does about the request once it is read\<close>

definition ssl_answer :: "'a protocol_server \<Rightarrow> ('a, bool) sm" where
  "ssl_answer ps =
     goseq (or_report (lift_res (ps_TLSConfig ps))) (\<lambda>tlsConfig.
     if \<not> tlsConfig
     then goseq (send (SSLResponseResponse (NewSSLResponseWith SSLDisabled))) (\<lambda>_. ret True)
     else
       goseq (send (SSLResponseResponse (NewSSLResponseWith SSLEnabled))) (\<lambda>_.
       goseq (or_report (on_conn (ps_Handshake ps))) (\<lambda>tlsConn.
       case ps_VerifyCertificate ps tlsConn of
         (True, _) \<Rightarrow>
           goseq (modify (\<lambda>s. s\<lparr>s_conn := NewConnWith tlsConn (ps_tls_uuid ps) [WithConnTLSConn (rsrc (c_reader (s_conn s)))]\<rparr>)) (\<lambda>_. ret True)
       | (False, Some e) \<Rightarrow> or_report (fail e)
       | (False, None) \<Rightarrow> ret False)))"

lemma negotiateSSL_answer:
  "negotiateSSL ps = goseq (or_report (on_conn (on_reader PeekInt32))) (\<lambda>len.
     if len \<noteq> 8 then ret True else goseq (or_report (on_conn (on_reader NewSSLRequestWithReader))) (\<lambda>_. ssl_answer ps))"
  unfolding negotiateSSL_def ssl_answer_def by (rule refl)

lemma startup_phase_greeted:
  "startup_phase ps = goseq (negotiateSSL ps) (\<lambda>go_on. if \<not> go_on then ret False
     else goseq (or_report (on_conn (on_reader NewStartupWithReader))) (greeted_startup ps))"
  unfolding startup_phase_def greeted_startup_def [abs_def] by (rule refl)

lemma keeps_solid_SSLRequest: "keeps solid NewSSLRequestWithReader"
  unfolding NewSSLRequestWithReader_def by (intro keeps_intros)

lemma prompt_SSLRequest: "prompt NewSSLRequestWithReader"
  unfolding NewSSLRequestWithReader_def by (intro prompt_intros)

lemma reported_read:
  "on_reader m (s_conn s) = (Ok x, c) \<Longrightarrow> or_report (on_conn (on_reader m)) s = (Ok x, s\<lparr>s_conn := c\<rparr>)"
  by (simp add: or_report_def goseq_def gotry_def on_conn_def on_part_def ret_def)

lemma ssl_asked:
  assumes "drained c" "s_conn s = later (Arrive ssl_request # es) c"
  obtains c' where "drained c'" "same_side c c'" "negotiateSSL p s = ssl_answer p (s\<lparr>s_conn := later es c'\<rparr>)"
proof -
  let ?c = "later [Arrive ssl_request] c"
  have "ssl_request \<noteq> []" by (simp add: ssl_request_def Int32ToBytes_def)
  note c = drained_segment [OF assms(1) this]
  have same: "same_side c ?c" by (simp add: same_side_def)
  obtain c1 where c1: "on_reader PeekInt32 ?c = (Ok 8, c1)" "opened c1" "same_side ?c c1"
    "reader_pending (c_reader c1) = ssl_request"
    using peek_length [OF c(1,3), of 8 "Int32ToBytes SSLRequestCode"] c(4) by (auto simp: ssl_request_def)
  then obtain r' where "PeekInt32 (c_reader ?c) = (Ok 8, r')" "c_reader c1 = r'"
    by (auto simp: on_reader_def on_part_def split: prod.splits)
  with keepsD [OF keeps_solid_PeekInt32 c(2)] have "solid (c_reader c1)" by simp
  from segment_step [OF parses_SSLRequest keeps_wire_SSLRequest keeps_solid_SSLRequest c1(2) this] c1(4)
  obtain c2 where c2: "on_reader NewSSLRequestWithReader c1 = (Ok SSLRequestCode, c2)" "drained c2" "same_side c1 c2"
    by (auto simp: ssl_request_def)
  have "s_conn s = later es ?c" using assms(2) by simp
  then have "negotiateSSL p s = ssl_answer p (s\<lparr>s_conn := later es c2\<rparr>)"
    using on_reader_later [OF prompt_startup(2) c1(1), of es] on_reader_later [OF prompt_SSLRequest c2(1), of es]
    by (simp add: negotiateSSL_answer goseq_def reported_read)
  with that [OF c2(2) same_side_trans [OF same same_side_trans [OF c1(3) c2(3)]]] show thesis .
qed

text \<open>The startup message is read without a peek once the request was answered.\<close>

lemma startup_after_ssl:
  assumes "drained c" "s_conn s = later (opening_events params pw es) c" "startup_ok params"
    and "length (enc_params params) + 9 < 2 ^ 31" "map_of (rev params) StartUpUser = Some user" "no_nul pw"
    and "\<And>c. ps_VerifyCredential p c user pw = Ok ok" "ps_MessageHandler p = server_handler sv"
  shows "\<exists>c'. goseq (or_report (on_conn (on_reader NewStartupWithReader))) (greeted_startup p) s =
      (Ok True, s\<lparr>s_conn := later (Silence # es) c'\<rparr>) \<and> drained c' \<and>
    sent c' = sent c @ wire_of (authentication_answers ok) @ greeting sv c \<and> Database c' = database_of params \<and>
    c_txLocked c' = c_txLocked c \<and> c_uuid c' = c_uuid c \<and> c_tls c' = c_tls c"
proof -
  let ?c = "later [Arrive (enc_startup params)] c"
    and ?es = "Silence # Arrive (frame PasswordMessage (cstring pw)) # Silence # es"
  have "enc_startup params \<noteq> []" by (simp add: enc_startup_def)
  note seg = drained_segment [OF assms(1) this]
  from segment_step [OF any_reader.parses_Startup [OF assms(3,4)] keeps_wire_NewStartupWithReader
      keeps_solid_NewStartupWithReader seg(1,2,4)]
  obtain msg c1 where c1: "on_reader NewStartupWithReader ?c = (Ok msg, c1)" "su_Parameters msg = map_of (rev params)"
    "drained c1" "same_side ?c c1" by fastforce
  have "s_conn s = later ?es ?c" using assms(2) by (simp add: opening_events_def)
  then have "or_report (on_conn (on_reader NewStartupWithReader)) s = (Ok msg, s\<lparr>s_conn := later ?es c1\<rparr>)"
    using on_reader_later [OF prompt_startup(1) c1(1), of ?es] by (simp add: reported_read)
  then have "goseq (or_report (on_conn (on_reader NewStartupWithReader))) (greeted_startup p) s =
      greeted_startup p msg (s\<lparr>s_conn := later ?es c1\<rparr>)" by (simp add: goseq_def)
  moreover have same: "sent c1 = sent c" "c_txLocked c1 = c_txLocked c" "c_uuid c1 = c_uuid c" "c_tls c1 = c_tls c"
    using c1(4) by (simp_all add: same_side_def)
  moreover have "greeting sv c1 = greeting sv c" by (rule greeting_cong [OF same(2,3)])
  ultimately show ?thesis using greeted_startup_held [OF c1(3,2) assms(5-8), of es s] by simp
qed

lemma startup_after_silence:
  assumes "drained c" "s_conn s = later (Silence # es) c"
  shows "or_report (on_conn (on_reader NewStartupWithReader)) s =
    or_report (on_conn (on_reader NewStartupWithReader)) (s\<lparr>s_conn := later es c\<rparr>)"
proof -
  have "on_reader NewStartupWithReader (later (Silence # es) c) = on_reader NewStartupWithReader (later es c)"
    unfolding NewStartupWithReader_def ReadInt32_def on_reader_goseq goseq_assoc
    by (rule goseq_start, rule ReadBytes_silence [OF assms(1)], simp)
  then show ?thesis
    unfolding or_report_def
    by (intro goseq_start) (simp add: assms(2) gotry_def on_conn_def on_part_def split: prod.split)
qed

section \<open>Served in the clear\<close>

text \<open>
  a client that asks a server without certificates for TLS is told that there is none, by one byte, and
  is then served like a client that did not ask: startup, password, its whole conversation, its data.
\<close>

theorem ssl_declined_served:
  assumes "drained c" and "s_conn s = later (Arrive ssl_request # Silence # opening_events params pw (conversation_events bs final rest)) c"
    and "ps_TLSConfig p = Ok False"
    and "startup_ok params" and "length (enc_params params) + 9 < 2 ^ 31"
    and "map_of (rev params) StartUpUser = Some user" and "no_nul pw"
    and "\<And>c. ps_VerifyCredential p c user pw = Ok ok" and "ps_MessageHandler p = server_handler sv"
    and "server_semantics sv sem (database_of params) S"
    and "\<forall>b \<in> set bs. b \<noteq> [] \<and> list_all valid_client b" and "list_all valid_client final"
    and "conversation_meaning sv sem bs final (view_of s) = (out, r, v)"
  shows "\<exists>s'. receive (length (concat bs) + length final + 1) p s = Some (r, s') \<and> view_of s' = v \<and>
    sent (s_conn s') = sent c @ [SSLDisabled] # wire_of (authentication_answers ok) @ greeting sv c @ out"
proof -
  let ?conv = "conversation_events bs final rest"
  let ?open = "opening_events params pw ?conv" and ?no = "SSLResponseResponse (NewSSLResponseWith SSLDisabled)"
  obtain c1 where c1: "drained c1" "same_side c c1" "negotiateSSL p s = ssl_answer p (s\<lparr>s_conn := later (Silence # ?open) c1\<rparr>)"
    using ssl_asked [OF assms(1,2)] .
  have no: "all_sendable [?no]" "wire_of [?no] = [[SSLDisabled]]"
    by (simp_all add: all_sendable_def wire_of_def Response_Bytes_def SSLResponse_Bytes_def NewSSLResponseWith_def)
  let ?c2 = "put_out [SSLDisabled] c1" and ?s1 = "s\<lparr>s_conn := later (Silence # ?open) c1\<rparr>"
  let ?s2 = "s\<lparr>s_conn := later ?open ?c2\<rparr>"
  have "opened (s_conn ?s1)" using drained_opened [OF c1(1)] by simp
  from send_step [OF this no(1)] no(2) have "negotiateSSL p s = (Ok True, s\<lparr>s_conn := later (Silence # ?open) ?c2\<rparr>)"
    using c1(3) assms(3) by (simp add: ssl_answer_def or_report_def goseq_def gotry_def lift_res_def ret_def put_out_later)
  moreover have "or_report (on_conn (on_reader NewStartupWithReader)) (s\<lparr>s_conn := later (Silence # ?open) ?c2\<rparr>) =
      or_report (on_conn (on_reader NewStartupWithReader)) ?s2"
    using startup_after_silence [OF drained_put_out [OF c1(1)], of "s\<lparr>s_conn := later (Silence # ?open) ?c2\<rparr>"] by simp
  ultimately have start: "startup_phase p s = goseq (or_report (on_conn (on_reader NewStartupWithReader))) (greeted_startup p) ?s2"
    by (simp add: startup_phase_greeted goseq_def)
  have conn2: "s_conn ?s2 = later ?open ?c2" by simp
  from startup_after_ssl [OF drained_put_out [OF c1(1)] conn2 assms(4-9)] start obtain c3 where
    c3: "startup_phase p s = (Ok True, ?s2\<lparr>s_conn := later (Silence # ?conv) c3\<rparr>)" "drained c3"
      "sent c3 = sent ?c2 @ wire_of (authentication_answers ok) @ greeting sv ?c2" "Database c3 = database_of params"
      "c_txLocked c3 = c_txLocked ?c2" "c_uuid c3 = c_uuid ?c2" by auto
  let ?s3 = "s\<lparr>s_conn := later (Silence # ?conv) c3\<rparr>"
  have same: "c_txLocked ?c2 = c_txLocked c" "c_uuid ?c2 = c_uuid c" "sent ?c2 = sent c @ [[SSLDisabled]]"
    using c1(2) opened_writable [OF drained_opened [OF c1(1)]] by (simp_all add: same_side_def)
  have conn3: "s_conn ?s3 = later (Silence # ?conv) c3" by simp
  have "view_of ?s3 = view_of s" using assms(2) c3(5,6) same by (simp add: view_of_def)
  with assms(13) have "conversation_meaning sv sem bs final (view_of ?s3) = (out, r, v)" by simp
  from loop_served [OF c3(2) conn3 c3(4) assms(10-12) this] obtain s' where
    s': "receive_loop (length (concat bs) + length final + 1) (server_handler sv) ?s3 = Some (r, s')"
    "view_of s' = v" "sent (s_conn s') = sent c3 @ out" by blast
  then have "receive (length (concat bs) + length final + 1) p s = Some (r, close_session s')"
    unfolding receive_def using c3(1) assms(9) by (simp del: receive_loop.simps One_nat_def add_Suc_right)
  moreover have "greeting sv ?c2 = greeting sv c" by (rule greeting_cong [OF same(1,2)])
  ultimately show ?thesis using s'(2,3) c3(3) same(3) by (intro exI [of _ "close_session s'"]) simp
qed

section \<open>Served in a tunnel\<close>

text \<open>The connection inside, without and with the network below it\<close>

definition tunnel :: "'a protocol_server \<Rightarrow> conn" where
  "tunnel p = NewConnWith (new_net_conn []) (ps_tls_uuid p) []"

definition tunnel_over :: "'a protocol_server \<Rightarrow> io_source \<Rightarrow> conn" where
  "tunnel_over p below = NewConnWith (new_net_conn []) (ps_tls_uuid p) [WithConnTLSConn below]"

lemma tunnel_later:
  "NewConnWith (new_net_conn es) (ps_tls_uuid p) [WithConnTLSConn below] = later es (tunnel_over p below)"
  by (simp add: tunnel_over_def WithConnTLSConn_def new_conn_defs later_def reader_later_def src_later_def)

lemma tunnel_simps [simp]:
  "drained (tunnel_over p below)" "sent (tunnel_over p below) = []" "\<not> c_txLocked (tunnel_over p below)"
  "c_uuid (tunnel_over p below) = ps_tls_uuid p" "c_tls (tunnel_over p below) = Some below"
  by (simp_all add: tunnel_over_def WithConnTLSConn_def new_conn_defs drained_def fronted_def idle_def rwire_def wire_def
      whole_source_def sent_def)

lemma same_inside:
  "view_of (s\<lparr>s_conn := tunnel_over p below\<rparr>) = view_of (s\<lparr>s_conn := tunnel p\<rparr>)"
  "greeting sv (tunnel_over p below) = greeting sv (tunnel p)"
  by (simp_all add: view_of_def tunnel_def new_conn_defs greeting_cong)

text \<open>The answer is one byte in the clear; then the handshake, on the same connection.\<close>

lemma ssl_enabled:
  assumes "drained c" "s_conn s = later (Arrive ssl_request # es) c" "ps_TLSConfig p = Ok True"
    and "\<And>c'. sent c' = sent c @ [[SSLEnabled]] \<Longrightarrow> fst (ps_Handshake p c') = Ok tlsConn"
  obtains c1 where "sent c1 = sent c @ [[SSLEnabled]]" "writable c1"
    "negotiateSSL p s = (case ps_VerifyCertificate p tlsConn of
       (True, _) \<Rightarrow> (Ok True, s\<lparr>s_conn := NewConnWith tlsConn (ps_tls_uuid p)
           [WithConnTLSConn (rsrc (c_reader (snd (ps_Handshake p c1))))]\<rparr>)
     | (False, Some e) \<Rightarrow> or_report (fail e) (s\<lparr>s_conn := snd (ps_Handshake p c1)\<rparr>)
     | (False, None) \<Rightarrow> (Ok False, s\<lparr>s_conn := snd (ps_Handshake p c1)\<rparr>))"
proof -
  let ?yes = "SSLResponseResponse (NewSSLResponseWith SSLEnabled)"
  obtain c0 where c0: "drained c0" "same_side c c0" "negotiateSSL p s = ssl_answer p (s\<lparr>s_conn := later es c0\<rparr>)"
    using ssl_asked [OF assms(1,2)] .
  have yes: "all_sendable [?yes]" "wire_of [?yes] = [[SSLEnabled]]"
    by (simp_all add: all_sendable_def wire_of_def Response_Bytes_def SSLResponse_Bytes_def NewSSLResponseWith_def)
  let ?c1 = "later es (put_out [SSLEnabled] c0)"
  have "opened (s_conn (s\<lparr>s_conn := later es c0\<rparr>))" using drained_opened [OF c0(1)] by simp
  from send_step [OF this yes(1)] yes(2)
  have sent: "send ?yes (s\<lparr>s_conn := later es c0\<rparr>) = (Ok (), s\<lparr>s_conn := ?c1\<rparr>)" by (simp add: put_out_later)
  have c1: "sent ?c1 = sent c @ [[SSLEnabled]]" "writable ?c1"
    using c0(2) opened_writable [OF drained_opened [OF c0(1)]] by (simp_all add: same_side_def)
  have shake: "or_report (on_conn (ps_Handshake p)) (s\<lparr>s_conn := ?c1\<rparr>) = (Ok tlsConn, s\<lparr>s_conn := snd (ps_Handshake p ?c1)\<rparr>)"
    using assms(4) [OF c1(1)]
    by (cases "ps_Handshake p ?c1") (simp add: or_report_def goseq_def gotry_def on_conn_def on_part_def ret_def)
  have "negotiateSSL p s = (case ps_VerifyCertificate p tlsConn of
       (True, _) \<Rightarrow> (Ok True, s\<lparr>s_conn := NewConnWith tlsConn (ps_tls_uuid p)
           [WithConnTLSConn (rsrc (c_reader (snd (ps_Handshake p ?c1))))]\<rparr>)
     | (False, Some e) \<Rightarrow> or_report (fail e) (s\<lparr>s_conn := snd (ps_Handshake p ?c1)\<rparr>)
     | (False, None) \<Rightarrow> (Ok False, s\<lparr>s_conn := snd (ps_Handshake p ?c1)\<rparr>))"
  proof -
    have conf: "or_report (lift_res (ps_TLSConfig p)) x = (Ok True, x)" for x :: "'a session"
      by (simp add: assms(3) or_report_def goseq_def gotry_def lift_res_def ret_def)
    show ?thesis
      by (simp add: c0(3) ssl_answer_def goseq_def [of "or_report (lift_res (ps_TLSConfig p))"] conf
          goseq_def [of "send ?yes"] sent goseq_def [of "or_report (on_conn (ps_Handshake p))"] shake
          goseq_def [of "modify _"] modify_def ret_def split: prod.split bool.split option.split)
  qed
  with that [OF c1] show thesis by blast
qed

text \<open>
  C5: a client that asks for TLS and shakes hands is served inside the tunnel as another is in the clear: its
  startup message, its password, its whole conversation. On the network below the tunnel the server itself
  writes one byte before the handshake and nothing after it, to the end of the connection, which closes
  that network too; and the statements it prepares belong to the connection of the tunnel. The records in
  which the TLS package carries the tunnel over that network are not part of the model.
\<close>

theorem ssl_tunnel_served:
  assumes "drained c" and "s_conn s = later (Arrive ssl_request # es) c" and "ps_TLSConfig p = Ok True"
    and "\<And>c'. sent c' = sent c @ [[SSLEnabled]] \<Longrightarrow>
      fst (ps_Handshake p c') = Ok (new_net_conn (opening_events params pw (conversation_events bs final rest)))"
    and "\<And>c'. writable c' \<Longrightarrow> writable (snd (ps_Handshake p c')) \<and> sent (snd (ps_Handshake p c')) = sent c' @ handshake"
    and "ps_VerifyCertificate p (new_net_conn (opening_events params pw (conversation_events bs final rest))) = (True, e)"
    and "startup_ok params" and "length (enc_params params) + 9 < 2 ^ 31"
    and "map_of (rev params) StartUpUser = Some user" and "no_nul pw"
    and "\<And>c. ps_VerifyCredential p c user pw = Ok ok" and "ps_MessageHandler p = server_handler sv"
    and "server_semantics sv sem (database_of params) S"
    and "\<forall>b \<in> set bs. b \<noteq> [] \<and> list_all valid_client b" and "list_all valid_client final"
    and "conversation_meaning sv sem bs final (view_of (s\<lparr>s_conn := tunnel p\<rparr>)) = (out, r, v)"
  shows "\<exists>s'. receive (length (concat bs) + length final + 1) p s = Some (r, s') \<and> view_of s' = v \<and>
    sent (s_conn s') = wire_of (authentication_answers ok) @ greeting sv (tunnel p) @ out \<and>
    sent_below (s_conn s') = sent c @ [SSLEnabled] # handshake \<and> hung_up (s_conn s')"
proof -
  let ?conv = "conversation_events bs final rest"
  let ?open = "opening_events params pw ?conv"
  obtain c1 where c1: "sent c1 = sent c @ [[SSLEnabled]]" "writable c1"
    "negotiateSSL p s = (case ps_VerifyCertificate p (new_net_conn ?open) of
       (True, _) \<Rightarrow> (Ok True, s\<lparr>s_conn := NewConnWith (new_net_conn ?open) (ps_tls_uuid p)
           [WithConnTLSConn (rsrc (c_reader (snd (ps_Handshake p c1))))]\<rparr>)
     | (False, Some e) \<Rightarrow> or_report (fail e) (s\<lparr>s_conn := snd (ps_Handshake p c1)\<rparr>)
     | (False, None) \<Rightarrow> (Ok False, s\<lparr>s_conn := snd (ps_Handshake p c1)\<rparr>))"
    using ssl_enabled [OF assms(1-4)] by blast
  let ?below = "rsrc (c_reader (snd (ps_Handshake p c1)))"
  let ?t = "tunnel_over p ?below"
  have below: "source_sent ?below = sent c @ [SSLEnabled] # handshake"
    using assms(5) [OF c1(2)] c1(1) by (simp add: sent_source)
  have ssl: "negotiateSSL p s = (Ok True, s\<lparr>s_conn := later ?open ?t\<rparr>)"
    using c1(3) assms(6) by (simp add: tunnel_later)
  let ?s1 = "s\<lparr>s_conn := later ?open ?t\<rparr>"
  have conn1: "s_conn ?s1 = later ?open ?t" by simp
  have start: "startup_phase p s = goseq (or_report (on_conn (on_reader NewStartupWithReader))) (greeted_startup p) ?s1"
    using ssl by (simp add: startup_phase_greeted goseq_def)
  from startup_after_ssl [OF tunnel_simps(1) conn1 assms(7-12)] start obtain c3 where
    c3: "startup_phase p s = (Ok True, s\<lparr>s_conn := later (Silence # ?conv) c3\<rparr>)" "drained c3"
      "sent c3 = wire_of (authentication_answers ok) @ greeting sv (tunnel p)" "Database c3 = database_of params"
      "\<not> c_txLocked c3" "c_uuid c3 = ps_tls_uuid p" "c_tls c3 = Some ?below" by (auto simp: same_inside)
  let ?s3 = "s\<lparr>s_conn := later (Silence # ?conv) c3\<rparr>"
  have conn3: "s_conn ?s3 = later (Silence # ?conv) c3" by simp
  have "view_of ?s3 = view_of (s\<lparr>s_conn := ?t\<rparr>)" using c3(5,6) by (simp add: view_of_def)
  with assms(16) have "conversation_meaning sv sem bs final (view_of ?s3) = (out, r, v)" by (simp add: same_inside)
  from loop_served [OF c3(2) conn3 c3(4) assms(13-15) this] obtain s' where
    s': "receive_loop (length (concat bs) + length final + 1) (server_handler sv) ?s3 = Some (r, s')"
    "view_of s' = v" "sent (s_conn s') = sent c3 @ out" "c_tls (s_conn s') = Some ?below" unfolding c3(7) by blast
  then have "receive (length (concat bs) + length final + 1) p s = Some (r, close_session s')"
    unfolding receive_def using c3(1) assms(12) by (simp del: receive_loop.simps One_nat_def add_Suc_right)
  moreover have "sent_below (s_conn s') = sent c @ [SSLEnabled] # handshake" using s'(4) below by (simp add: sent_below_def)
  ultimately show ?thesis using s'(2,3) c3(3) by (intro exI [of _ "close_session s'"]) simp
qed

text \<open>A server that shakes hands on anything, and a client with a wrong password who inserts a row in the tunnel\<close>

definition tls_server :: "net_event list \<Rightarrow> nat protocol_server" where
  "tls_server es = (any_user_server (\<lambda>u pw. Ok False))\<lparr>ps_MessageHandler := server_handler inserting_server,
     ps_TLSConfig := Ok True, ps_Handshake := ret (new_net_conn es), ps_VerifyCertificate := \<lambda>_. (True, None)\<rparr>"

theorem ssl_tunnel_served_witness:
  "\<exists>s'. receive 5 (tls_server (opening_events [(''user'', ''u'')] ''wrong'' (conversation_events [prepared_insert] [] [])))
      (talking_session [] 0 [Arrive ssl_request]) = Some (Ok (), s') \<and>
    s_app s' = 1 \<and> last (sent (s_conn s')) = ready_bytes False \<and> sent_below (s_conn s') = [[SSLEnabled]]"
proof -
  let ?es = "opening_events [(''user'', ''u'')] ''wrong'' (conversation_events [prepared_insert] [] [])"
  let ?p = "tls_server ?es" and ?s = "talking_session [] (0 :: nat) [Arrive ssl_request]"
  have params: "startup_ok [(''user'', ''u'')]" "no_nul ''wrong''" "length (enc_params [(''user'', ''u'')]) + 9 < 2 ^ 31"
    "map_of (rev [(''user'', ''u'')]) StartUpUser = Some ''u''"
    by (simp_all add: startup_ok_def no_nul_def bytes_of_string_def byte_of_char_def enc_params_def StartUpUser_def)
  have server: "ps_TLSConfig ?p = Ok True" "fst (ps_Handshake ?p c) = Ok (new_net_conn ?es)"
    "ps_VerifyCertificate ?p tc = (True, None)" "ps_VerifyCredential ?p c ''u'' ''wrong'' = Ok False"
    "ps_MessageHandler ?p = server_handler inserting_server"
    "writable c \<Longrightarrow> writable (snd (ps_Handshake ?p c)) \<and> sent (snd (ps_Handshake ?p c)) = sent c @ []" for c tc
    by (simp_all add: tls_server_def any_user_server_def ret_def)
  have sem: "server_semantics inserting_server (observed inserting_server []) (database_of [(''user'', ''u'')]) no_copy"
    using inserting_semantics by (simp add: database_of_def StartUpDatabase_def)
  obtain b1 b2 b3 v where m: "conversation_meaning inserting_server (observed inserting_server []) [prepared_insert] [] (view_of ?s) =
      ([b1, b2, b3, ready_bytes False], Ok (), v)" "v_app v = 1"
    using prepared_insert_meaning by blast
  have "view_of (?s\<lparr>s_conn := tunnel ?p\<rparr>) = view_of ?s"
    by (simp add: view_of_def talking_session_def view_stmts_def view_portals_def NewPreparedManager_def
        PreparedStatement_def PreparedPortal_def tunnel_def new_conn_defs fun_eq_iff)
  with m(1) have m1: "conversation_meaning inserting_server (observed inserting_server []) [prepared_insert] []
      (view_of (?s\<lparr>s_conn := tunnel ?p\<rparr>)) = ([b1, b2, b3, ready_bytes False], Ok (), v)" by simp
  have valid: "\<forall>b \<in> set [prepared_insert]. b \<noteq> [] \<and> list_all valid_client b"
    by (simp add: prepared_insert_def no_nul_def bytes_of_string_def byte_of_char_def)
  have len: "length (concat [prepared_insert]) + length ([] :: client_msg list) + 1 = 5"
    by (simp add: prepared_insert_def)
  obtain s' where "receive 5 ?p ?s = Some (Ok (), s')" "view_of s' = v" "last (sent (s_conn s')) = ready_bytes False"
    "sent_below (s_conn s') = [[SSLEnabled]]"
    using ssl_tunnel_served [OF talking_session_simps(1) talking_session_later server(1,2,6,3) params(1,3,4,2) server(4,5) sem valid _ m1]
    unfolding len by auto
  with m(2) show ?thesis by (auto simp: view_of_def)
qed

text \<open>
  C23: a client whose certificate is refused is never served. The connection ends before any startup message is
  read, with the error of the verification if it gives one; without one the server ends it without
  telling the client anything.
\<close>

theorem certificate_refused:
  assumes "drained c" and "s_conn s = later (Arrive ssl_request # es) c" and "ps_TLSConfig p = Ok True"
    and "\<And>c'. sent c' = sent c @ [[SSLEnabled]] \<Longrightarrow> fst (ps_Handshake p c') = Ok tlsConn"
    and "\<And>c'. writable c' \<Longrightarrow> writable (snd (ps_Handshake p c')) \<and> sent (snd (ps_Handshake p c')) = sent c' @ handshake"
    and "ps_VerifyCertificate p tlsConn = (False, err)"
  shows "\<exists>s'. receive fuel p s = Some (case err of None \<Rightarrow> Ok () | Some e \<Rightarrow> Err e, s') \<and> s_app s' = s_app s \<and>
    s_prep s' = s_prep s \<and> sent (s_conn s') = sent c @ [SSLEnabled] # handshake @ error_frames err"
proof -
  obtain c1 where c1: "sent c1 = sent c @ [[SSLEnabled]]" "writable c1"
    "negotiateSSL p s = (case ps_VerifyCertificate p tlsConn of
       (True, _) \<Rightarrow> (Ok True, s\<lparr>s_conn := NewConnWith tlsConn (ps_tls_uuid p)
           [WithConnTLSConn (rsrc (c_reader (snd (ps_Handshake p c1))))]\<rparr>)
     | (False, Some e) \<Rightarrow> or_report (fail e) (s\<lparr>s_conn := snd (ps_Handshake p c1)\<rparr>)
     | (False, None) \<Rightarrow> (Ok False, s\<lparr>s_conn := snd (ps_Handshake p c1)\<rparr>))"
    using ssl_enabled [OF assms(1-4)] by blast
  let ?c2 = "snd (ps_Handshake p c1)"
  have c2: "writable ?c2" "sent ?c2 = sent c @ [SSLEnabled] # handshake" using assms(5) [OF c1(2)] c1(1) by simp_all
  show ?thesis
  proof (cases err)
    case None
    then have "receive fuel p s = Some (Ok (), close_session (s\<lparr>s_conn := ?c2\<rparr>))"
      using c1(3) assms(6) by (simp add: receive_def startup_phase_greeted goseq_def ret_def)
    with None c2 show ?thesis by (auto simp: error_frames_def)
  next
    case (Some e)
    let ?c3 = "fold put_out (error_frames (Some e)) ?c2"
    have "negotiateSSL p s = (Err e, s\<lparr>s_conn := ?c3\<rparr>)"
      using c1(3) assms(6) Some error_delivered [OF c2(1), of "Some e"]
      by (simp add: or_report_def goseq_def gotry_def fail_def on_conn_def on_part_def)
    then have "receive fuel p s = Some (Err e, close_session (s\<lparr>s_conn := ?c3\<rparr>))"
      by (simp add: receive_def startup_phase_greeted goseq_def)
    with Some c2 show ?thesis by auto
  qed
qed

theorem certificate_refused_witness:
  "\<exists>s'. receive 1 ((tls_server [])\<lparr>ps_VerifyCertificate := \<lambda>_. (False, Some EOF)\<rparr>) (talking_session [] 0 [Arrive ssl_request]) =
      Some (Err EOF, s') \<and> sent (s_conn s') = [SSLEnabled] # error_frames (Some EOF)"
proof -
  let ?p = "(tls_server [])\<lparr>ps_VerifyCertificate := \<lambda>_. (False, Some EOF)\<rparr>"
  have server: "ps_TLSConfig ?p = Ok True" "fst (ps_Handshake ?p c) = Ok (new_net_conn [])"
    "ps_VerifyCertificate ?p tc = (False, Some EOF)"
    "writable c \<Longrightarrow> writable (snd (ps_Handshake ?p c)) \<and> sent (snd (ps_Handshake ?p c)) = sent c @ []" for c tc
    by (simp_all add: tls_server_def ret_def)
  from certificate_refused [OF talking_session_simps(1) [where db = "[]" and a = "0 :: nat"]
      talking_session_later [where es = "[Arrive ssl_request]"] server(1,2,4,3), where fuel = 1] show ?thesis by auto
qed

end
