(* ===== verification/Listener_Steps.thy ===== *)
theory Listener_Steps
  imports Server_Lifecycle
begin

text \<open>
  The listening socket at the grain of the code (\<open>protocol/server_impl.go\<close>). The field \<open>tcpListener\<close> has no lock, and
  \<open>close\<close> runs in the callers of \<open>Stop\<close> and \<open>Restart\<close> and, deferred, in every goroutine of \<open>serve\<close>. So \<open>Start\<close>,
  \<open>Stop\<close>, \<open>Restart\<close>, \<open>close\<close> and \<open>serve\<close> are cut here where another goroutine can come between: one step reads the
  field, writes it, or calls the connection manager, the network or the socket once. Accesses of the
  field are taken one after the other.
\<close>

section \<open>Where a goroutine is\<close>

text \<open>What follows a \<open>close\<close>: the end of \<open>Stop\<close>, the start of a \<open>Restart\<close>, or the end of \<open>serve\<close>\<close>

datatype after_close = Returned | Restarts | Ends

text \<open>
  A caller between its calls, with the result of the last one; in \<open>Start\<close>: before the connection manager, before
  \<open>net.Listen\<close>, before \<open>go server.serve()\<close>; in \<open>Stop\<close>: before the connection manager; in \<open>close\<close>: before the test of the
  field, behind the test and before \<open>tcpListener.Close()\<close>, and before \<open>tcpListener = nil\<close>, with the socket it
  closed; in \<open>serve\<close>: before it reads the field, and at \<open>Accept\<close>.
\<close>

datatype pc =
    Idle "gerr option"
  | Start_Manager | Listens | Spawns
  | Stop_Manager after_close
  | Checks after_close | Closes after_close | Resets after_close "nat option"
  | Scheduled_Serve | Accepts nat
  | Finished

record 'c listening =
  ls_server :: "'c lifecycle"
  ls_threads :: "pc list"
  ls_crashed :: bool

fun returning :: "after_close \<Rightarrow> gerr option \<Rightarrow> pc" where
  "returning Returned err = Idle err"
| "returning Restarts err = (if err = None then Start_Manager else Idle err)"
| "returning Ends err = Finished"

section \<open>The steps\<close>

text \<open>
  The next step of a goroutine: where it is then, and the goroutines it has started. When \<open>Start\<close> fails, its
  result is that of \<open>Stop\<close>. \<open>Close\<close> on a field that has become nil since the test is a call on a nil
  interface. \<open>Accepts\<close> waits here; the end of the wait is below.
\<close>

fun advance :: "('c, 'x) net_env_scheme \<Rightarrow> 'tls config \<Rightarrow> pc \<Rightarrow> ('c, pc \<times> pc list) lm" where
  "advance E cfg Start_Manager = goseq (gotry (on_manager (cm_Start E))) (\<lambda>x. case x of
       Inl _ \<Rightarrow> ret (Stop_Manager Returned, [])
     | Inr _ \<Rightarrow> ret (Listens, []))"
| "advance E cfg Listens = goseq (gotry (protocol_open E cfg)) (\<lambda>x. case x of
       Inl _ \<Rightarrow> ret (Stop_Manager Returned, [])
     | Inr _ \<Rightarrow> ret (Spawns, []))"
| "advance E cfg Spawns = ret (Idle None, [Scheduled_Serve])"
| "advance E cfg (Stop_Manager a) = goseq (gotry (on_manager (cm_Stop E))) (\<lambda>x. case x of
       Inl err \<Rightarrow> ret (returning a (Some err), [])
     | Inr _ \<Rightarrow> ret (Checks a, []))"
| "advance E cfg (Checks a) = goseq (gets lc_tcpListener) (\<lambda>listener. case listener of
       None \<Rightarrow> ret (Resets a None, [])
     | Some _ \<Rightarrow> ret (Closes a, []))"
| "advance E cfg (Closes a) = goseq (gets lc_tcpListener) (\<lambda>listener. case listener of
       None \<Rightarrow> panic NilPointerDereference
     | Some l \<Rightarrow> goseq (gotry (socket_Close l)) (\<lambda>x. case x of
           Inl err \<Rightarrow> ret (returning a (Some err), [])
         | Inr _ \<Rightarrow> ret (Resets a (Some l), [])))"
| "advance E cfg (Resets a l) = goseq (modify (\<lambda>s. s\<lparr>lc_tcpListener := None\<rparr>)) (\<lambda>_. ret (returning a None, []))"
| "advance E cfg Scheduled_Serve = goseq (gets lc_tcpListener) (\<lambda>listener. case listener of
       None \<Rightarrow> ret (Checks Ends, [])
     | Some l \<Rightarrow> ret (Accepts l, []))"
| "advance E cfg (Idle err) = ret (Idle err, [])"
| "advance E cfg (Accepts l) = ret (Accepts l, [])"
| "advance E cfg Finished = ret (Finished, [])"

definition go_to :: "nat \<Rightarrow> pc \<Rightarrow> 'c listening \<Rightarrow> 'c listening" where
  "go_to n p s = s\<lparr>ls_threads := (ls_threads s)[n := p]\<rparr>"

definition turn_of :: "('c, 'x) net_env_scheme \<Rightarrow> 'tls config \<Rightarrow> nat \<Rightarrow> 'c listening \<Rightarrow> 'c listening" where
  "turn_of E cfg n s = (case advance E cfg (ls_threads s ! n) (ls_server s) of
       (Ok (p, started), sv) \<Rightarrow> s\<lparr>ls_server := sv, ls_threads := (ls_threads s)[n := p] @ started\<rparr>
     | (_, sv) \<Rightarrow> s\<lparr>ls_server := sv, ls_crashed := True\<rparr>)"

text \<open>
  Any goroutine can be the next: an idle caller calls \<open>Start\<close>, \<open>Stop\<close> or \<open>Restart\<close>, a goroutine goes one step on,
  or \<open>Accept\<close> fails, as it does on a closed socket and can for other reasons. A panic ends the process.
\<close>

inductive listener_step :: "('c, 'x) net_env_scheme \<Rightarrow> 'tls config \<Rightarrow> 'c listening \<Rightarrow> 'c listening \<Rightarrow> bool" for E cfg where
  calls: "\<not> ls_crashed s \<Longrightarrow> n < length (ls_threads s) \<Longrightarrow> ls_threads s ! n = Idle err \<Longrightarrow>
    p \<in> {Start_Manager, Stop_Manager Returned, Stop_Manager Restarts} \<Longrightarrow> listener_step E cfg s (go_to n p s)"
| goes_on: "\<not> ls_crashed s \<Longrightarrow> n < length (ls_threads s) \<Longrightarrow> listener_step E cfg s (turn_of E cfg n s)"
| accept_fails: "\<not> ls_crashed s \<Longrightarrow> n < length (ls_threads s) \<Longrightarrow> ls_threads s ! n = Accepts l \<Longrightarrow>
    listener_step E cfg s (go_to n (Checks Ends) s)"

inductive_cases listener_stepE: "listener_step E cfg s s'"

text \<open>A server nobody has started, and the goroutines that may call it\<close>

definition unstarted :: "'c \<Rightarrow> nat \<Rightarrow> 'c listening" where
  "unstarted c callers = \<lparr>ls_server = new_lifecycle c, ls_threads = replicate callers (Idle None), ls_crashed = False\<rparr>"

section \<open>The invariant\<close>

text \<open>
  If the socket the server holds is closed, then the goroutine that closed it has still to reset the field.
\<close>

definition reset_owed :: "'c listening \<Rightarrow> nat \<Rightarrow> bool" where
  "reset_owed s l \<longleftrightarrow> (\<exists>a. Resets a (Some l) \<in> set (ls_threads s))"

definition listener_ok :: "'c listening \<Rightarrow> bool" where
  "listener_ok s \<longleftrightarrow>
     (\<forall>l. lc_tcpListener (ls_server s) = Some l \<longrightarrow> l \<in> set (lc_open (ls_server s)) \<or> reset_owed s l) \<and>
     distinct (lc_open (ls_server s)) \<and> (\<forall>l \<in> set (lc_open (ls_server s)). l < lc_next (ls_server s))"

lemma resets_elsewhere:
  assumes "p' \<in> set ps" "p' \<noteq> ps ! n"
  shows "p' \<in> set (ps[n := p])"
proof -
  obtain m where m: "m < length ps" "ps ! m = p'" using assms(1) by (auto simp: in_set_conv_nth)
  then have "m \<noteq> n" using assms(2) by blast
  with m show ?thesis by (metis length_list_update nth_list_update_neq nth_mem)
qed

lemma reset_owed_later:
  assumes "reset_owed s l" "\<And>a. ls_threads s ! n \<noteq> Resets a (Some l)" "ls_threads s' = (ls_threads s)[n := p] @ started"
  shows "reset_owed s' l"
proof -
  obtain a where a: "Resets a (Some l) \<in> set (ls_threads s)" using assms(1) by (auto simp: reset_owed_def)
  have "Resets a (Some l) \<in> set ((ls_threads s)[n := p])" by (rule resets_elsewhere [OF a]) (metis assms(2))
  then show ?thesis using assms(3) by (auto simp: reset_owed_def)
qed

text \<open>What a step does to the field and to the sockets\<close>

lemma advance_cases:
  assumes "advance E cfg p sv = (x, sv')"
  obtains
    (same) "lc_tcpListener sv' = lc_tcpListener sv" "lc_open sv' = lc_open sv" "lc_next sv' = lc_next sv"
      "\<And>a l. p \<noteq> Resets a l"
  | (reset) "lc_tcpListener sv' = None" "lc_open sv' = lc_open sv" "lc_next sv' = lc_next sv"
  | (opened) "lc_tcpListener sv' = Some (lc_next sv)" "lc_open sv' = lc_next sv # lc_open sv"
      "lc_next sv' = Suc (lc_next sv)" "\<And>a l. p \<noteq> Resets a l"
  | (closed) a l where "lc_tcpListener sv' = Some l" "lc_open sv' = removeAll l (lc_open sv)"
      "lc_next sv' = lc_next sv" "x = Ok (Resets a (Some l), [])" "lc_tcpListener sv = Some l"
proof -
  note steps = goseq_def gotry_def ret_def gets_def modify_def panic_def
  consider (listens) "p = Listens" | (closes) c where "p = Closes c" | (resets) c l where "p = Resets c l"
    | (other) "p \<noteq> Listens" "\<And>c. p \<noteq> Closes c" "\<And>c l. p \<noteq> Resets c l" by metis
  then show thesis
  proof cases
    case listens
    show thesis
    proof (cases "net_Listen E (JoinHostPort (Address cfg) (show_int (Port cfg)))")
      case None
      with listens assms show thesis by (intro opened) (auto simp: steps protocol_open_def)
    next
      case (Some e)
      with listens assms show thesis by (intro reset) (auto simp: steps protocol_open_def)
    qed
  next
    case (closes c)
    show thesis
    proof (cases "lc_tcpListener sv")
      case None
      with closes assms show thesis by (intro same) (simp_all add: steps)
    next
      case (Some l)
      show thesis
      proof (cases "l \<in> set (lc_open sv)")
        case True
        with Some closes assms show thesis by (intro closed [of l c]) (auto simp: steps socket_Close_def)
      next
        case False
        with Some closes assms show thesis by (intro same) (auto simp: steps socket_Close_def)
      qed
    qed
  next
    case (resets c l)
    with assms show thesis by (intro reset) (auto simp: steps)
  next
    case other
    with assms have "lc_tcpListener sv' = lc_tcpListener sv \<and> lc_open sv' = lc_open sv \<and> lc_next sv' = lc_next sv"
      by (cases p)
        (auto simp: steps on_manager_def on_part_def split: prod.splits res.splits option.splits)
    with other same show thesis by blast
  qed
qed

lemma listener_ok_turn:
  assumes "listener_ok s" "n < length (ls_threads s)"
  shows "listener_ok (turn_of E cfg n s)"
proof -
  let ?p = "ls_threads s ! n" and ?sv = "ls_server s"
  obtain x sv' where adv: "advance E cfg ?p ?sv = (x, sv')" by fastforce
  have sv': "ls_server (turn_of E cfg n s) = sv'"
    using adv by (auto simp: turn_of_def split: res.split)
  have owed: "reset_owed (turn_of E cfg n s) l" if "reset_owed s l" "\<And>a. ?p \<noteq> Resets a (Some l)" for l
  proof (cases x)
    case (Ok y)
    with adv have "ls_threads (turn_of E cfg n s) = (ls_threads s)[n := fst y] @ snd y"
      by (cases y) (simp add: turn_of_def)
    then show ?thesis by (rule reset_owed_later [OF that])
  qed (use that adv in \<open>simp_all add: turn_of_def reset_owed_def\<close>)
  from adv show ?thesis
  proof (cases rule: advance_cases)
    case same
    have "reset_owed s l \<Longrightarrow> reset_owed (turn_of E cfg n s) l" for l by (rule owed) (simp_all add: same(4))
    with same(1-3) assms(1) show ?thesis unfolding listener_ok_def sv' by metis
  next
    case reset
    with assms(1) show ?thesis by (simp add: listener_ok_def sv')
  next
    case opened
    with assms(1) show ?thesis by (auto simp: listener_ok_def sv' intro: less_SucI)
  next
    case (closed a l)
    then have "Resets a (Some l) \<in> set (ls_threads (turn_of E cfg n s))"
      using adv assms(2) by (simp add: turn_of_def set_update_memI)
    then have "reset_owed (turn_of E cfg n s) l" by (auto simp: reset_owed_def)
    with closed(1-3) assms(1) show ?thesis by (simp add: listener_ok_def sv' distinct_removeAll)
  qed
qed

lemma listener_ok_go_to:
  assumes "listener_ok s" "\<And>a l. ls_threads s ! n \<noteq> Resets a l"
  shows "listener_ok (go_to n p s)"
proof -
  have "reset_owed (go_to n p s) l" if "reset_owed s l" for l
    using reset_owed_later [OF that, of n "go_to n p s" p "[]"] assms(2) by (simp add: go_to_def)
  with assms(1) show ?thesis by (auto simp: listener_ok_def go_to_def)
qed

lemma listener_ok_step: "listener_step E cfg s s' \<Longrightarrow> listener_ok s \<Longrightarrow> listener_ok s'"
  by (erule listener_stepE) (auto intro: listener_ok_turn listener_ok_go_to)

lemma listener_ok_reachable: "(listener_step E cfg)\<^sup>*\<^sup>* (unstarted c callers) s \<Longrightarrow> listener_ok s"
proof (induction rule: rtranclp_induct)
  case base
  show ?case by (simp add: listener_ok_def unstarted_def new_lifecycle_def)
next
  case (step s s')
  then show ?case by (blast intro: listener_ok_step)
qed

section \<open>Schedules\<close>

text \<open>The goroutines named take their turns; a goroutine at \<open>Accept\<close> has it fail.\<close>

definition pass :: "('c, 'x) net_env_scheme \<Rightarrow> 'tls config \<Rightarrow> nat \<Rightarrow> 'c listening \<Rightarrow> 'c listening" where
  "pass E cfg n s = (if ls_crashed s \<or> length (ls_threads s) \<le> n then s
     else case ls_threads s ! n of Accepts l \<Rightarrow> go_to n (Checks Ends) s | _ \<Rightarrow> turn_of E cfg n s)"

lemma pass_steps: "(listener_step E cfg)\<^sup>*\<^sup>* s (pass E cfg n s)"
  by (auto simp: pass_def split: pc.split intro!: r_into_rtranclp listener_step.goes_on listener_step.accept_fails)

lemma schedule_steps: "(listener_step E cfg)\<^sup>*\<^sup>* s (fold (pass E cfg) ns s)"
proof (induction ns arbitrary: s)
  case (Cons n ns)
  from rtranclp_trans [OF pass_steps Cons.IH] show ?case by simp
qed simp

lemma call_steps:
  assumes "\<not> ls_crashed s" "n < length (ls_threads s)" "ls_threads s ! n = Idle err"
    and "p \<in> {Start_Manager, Stop_Manager Returned, Stop_Manager Restarts}"
  shows "(listener_step E cfg)\<^sup>*\<^sup>* s (fold (pass E cfg) ns (go_to n p s))"
  by (rule converse_rtranclp_into_rtranclp [OF listener_step.calls [OF assms] schedule_steps])

text \<open>A goroutine that runs undisturbed\<close>

definition at :: "nat \<Rightarrow> 'c listening \<Rightarrow> pc \<Rightarrow> 'c lifecycle \<Rightarrow> 'c listening" where
  "at n s p sv = s\<lparr>ls_server := sv, ls_threads := (ls_threads s)[n := p]\<rparr>"

lemma pass_at:
  assumes "\<not> ls_crashed s" "n < length (ls_threads s)" "\<forall>l. p \<noteq> Accepts l" "advance E cfg p sv = (Ok (q, []), sv')"
  shows "pass E cfg n (at n s p sv) = at n s q sv'"
  using assms by (cases p) (simp_all add: pass_def turn_of_def at_def)

lemma close_alone:
  assumes "\<not> ls_crashed s" "n < length (ls_threads s)" "protocol_close sv = (x, sv')"
  shows "\<exists>k. (pass E cfg n ^^ k) (at n s (Checks a) sv) = at n s (returning a (case x of Err e \<Rightarrow> Some e | _ \<Rightarrow> None)) sv'"
proof -
  note step = goseq_def gotry_def ret_def gets_def modify_def
  note go = pass_at [OF assms(1,2)]
  have reset: "pass E cfg n (at n s (Resets a l) sv1) = at n s (returning a None) (sv1\<lparr>lc_tcpListener := None\<rparr>)" for l sv1
    by (rule go) (simp_all add: step)
  show ?thesis
  proof (cases "lc_tcpListener sv")
    case None
    have "pass E cfg n (at n s (Checks a) sv) = at n s (Resets a None) sv"
      by (rule go) (simp_all add: step None)
    with reset [of None sv] None assms(3) show ?thesis
      by (intro exI [of _ "Suc (Suc 0)"]) (auto simp: protocol_close_def step)
  next
    case (Some l)
    have check: "pass E cfg n (at n s (Checks a) sv) = at n s (Closes a) sv"
      by (rule go) (simp_all add: step Some)
    show ?thesis
    proof (cases "l \<in> set (lc_open sv)")
      case True
      have "pass E cfg n (at n s (Closes a) sv) = at n s (Resets a (Some l)) (sv\<lparr>lc_open := removeAll l (lc_open sv)\<rparr>)"
        by (rule go) (simp_all add: step Some True socket_Close_def)
      with check reset [of "Some l" "sv\<lparr>lc_open := removeAll l (lc_open sv)\<rparr>"] Some True assms(3) show ?thesis
        by (intro exI [of _ "Suc (Suc (Suc 0))"]) (auto simp: protocol_close_def socket_Close_def step)
    next
      case False
      have "pass E cfg n (at n s (Closes a) sv) = at n s (returning a (Some UseOfClosedConn)) sv"
        by (rule go) (simp_all add: step Some False socket_Close_def)
      with check Some False assms(3) show ?thesis
        by (intro exI [of _ "Suc (Suc 0)"]) (auto simp: protocol_close_def socket_Close_def step)
    qed
  qed
qed

text \<open>Undisturbed, the steps of \<open>Stop\<close> add up to the operation: it closes and resets, or fails where it fails.\<close>

theorem stop_alone:
  assumes "\<not> ls_crashed s" and "n < length (ls_threads s)" and "protocol_Stop E sv = (x, sv')" and "\<not> is_panic x"
  shows "\<exists>k. (pass E cfg n ^^ k) (at n s (Stop_Manager Returned) sv) = at n s (Idle (case x of Err e \<Rightarrow> Some e | _ \<Rightarrow> None)) sv'"
proof -
  note step = goseq_def gotry_def ret_def on_manager_def on_part_def
  obtain y c where cm: "cm_Stop E (lc_ConnManager sv) = (y, c)" by fastforce
  let ?sv = "sv\<lparr>lc_ConnManager := c\<rparr>"
  show ?thesis
  proof (cases y)
    case (Err e)
    have "pass E cfg n (at n s (Stop_Manager Returned) sv) = at n s (Idle (Some e)) ?sv"
      by (rule pass_at [OF assms(1,2)]) (simp_all add: step cm Err)
    with cm Err assms(3) show ?thesis by (intro exI [of _ "Suc 0"]) (auto simp: protocol_Stop_def step)
  next
    case (Panic p)
    with cm assms(3,4) show ?thesis by (auto simp: protocol_Stop_def step)
  next
    case (Ok u)
    have stop: "pass E cfg n (at n s (Stop_Manager Returned) sv) = at n s (Checks Returned) ?sv"
      by (rule pass_at [OF assms(1,2)]) (simp_all add: step cm Ok)
    have "protocol_close ?sv = (x, sv')" using assms(3) cm Ok by (simp add: protocol_Stop_def step)
    from close_alone [OF assms(1,2) this, of E cfg Returned] obtain k where
      "(pass E cfg n ^^ k) (at n s (Checks Returned) ?sv) = at n s (Idle (case x of Err e \<Rightarrow> Some e | _ \<Rightarrow> None)) sv'" by auto
    with stop have "(pass E cfg n ^^ Suc k) (at n s (Stop_Manager Returned) sv) =
        at n s (Idle (case x of Err e \<Rightarrow> Some e | _ \<Rightarrow> None)) sv'" by (simp only: funpow_Suc_right o_apply)
    then show ?thesis by blast
  qed
qed

section \<open>Properties\<close>

lemma close_when_open:
  "\<forall>l. lc_tcpListener sv = Some l \<longrightarrow> l \<in> set (lc_open sv) \<Longrightarrow> fst (protocol_close sv) = Ok ()"
  by (auto simp: protocol_close_def socket_Close_def goseq_def gets_def ret_def modify_def split: option.split)

text \<open>
  C16: the listening socket between the goroutines that use it. However the steps of any number of callers of
  \<open>Start\<close>, \<open>Stop\<close> and \<open>Restart\<close> and of the goroutines of \<open>serve\<close> fall between each other, the socket the server holds is
  open, or a goroutine has just closed it and has still to reset the field; so a \<open>close\<close> that begins when
  nobody is between these two steps, and is not disturbed, succeeds. No socket is opened twice, and a goroutine whose
  \<open>Close\<close> is about to fail shares the socket with another one that is about to reset the field.
\<close>

theorem listener_invariant:
  assumes "(listener_step E cfg)\<^sup>*\<^sup>* (unstarted c callers) s"
  shows "(\<forall>l. lc_tcpListener (ls_server s) = Some l \<longrightarrow>
      l \<in> set (lc_open (ls_server s)) \<or> (\<exists>a. Resets a (Some l) \<in> set (ls_threads s))) \<and>
    distinct (lc_open (ls_server s)) \<and>
    ((\<forall>a l. Resets a l \<notin> set (ls_threads s)) \<longrightarrow> fst (protocol_close (ls_server s)) = Ok ()) \<and>
    (\<forall>n a err. n < length (ls_threads s) \<and> ls_threads s ! n = Closes a \<and>
        ls_threads (turn_of E cfg n s) ! n = returning a (Some err) \<longrightarrow>
      (\<exists>m b l. m \<noteq> n \<and> m < length (ls_threads s) \<and> ls_threads s ! m = Resets b (Some l) \<and>
         lc_tcpListener (ls_server s) = Some l))"
proof -
  have ok: "listener_ok s" using assms by (rule listener_ok_reachable)
  then have held: "\<forall>l. lc_tcpListener (ls_server s) = Some l \<longrightarrow>
      l \<in> set (lc_open (ls_server s)) \<or> (\<exists>a. Resets a (Some l) \<in> set (ls_threads s))"
    by (simp add: listener_ok_def reset_owed_def)
  moreover have "distinct (lc_open (ls_server s))" using ok by (simp add: listener_ok_def)
  moreover have "fst (protocol_close (ls_server s)) = Ok ()" if "\<forall>a l. Resets a l \<notin> set (ls_threads s)"
    by (rule close_when_open) (use held that in blast)
  moreover have "\<exists>m b l. m \<noteq> n \<and> m < length (ls_threads s) \<and> ls_threads s ! m = Resets b (Some l) \<and>
      lc_tcpListener (ls_server s) = Some l"
    if n: "n < length (ls_threads s)" "ls_threads s ! n = Closes a" "ls_threads (turn_of E cfg n s) ! n = returning a (Some err)"
    for n a err
  proof -
    have other: "Closes a \<noteq> returning a (Some err)" "Resets a l \<noteq> returning a (Some err)" for l
      by (cases a; simp)+
    obtain l where l: "lc_tcpListener (ls_server s) = Some l" "l \<notin> set (lc_open (ls_server s))"
      using n other
      by (cases "lc_tcpListener (ls_server s)")
        (auto simp: turn_of_def goseq_def gets_def gotry_def ret_def panic_def socket_Close_def nth_append split: if_splits)
    with held obtain b m where "m < length (ls_threads s)" "ls_threads s ! m = Resets b (Some l)"
      by (auto simp: in_set_conv_nth)
    with n(2) l(1) show ?thesis by (intro exI [of _ m]) auto
  qed
  ultimately show ?thesis by blast
qed

text \<open>One caller; the server is started and its goroutine has its turn\<close>

theorem listener_invariant_witness:
  "\<exists>s. (listener_step (calm_env []) (NewDefaultConfig ()))\<^sup>*\<^sup>* (unstarted () 1) s \<and>
     ls_threads s = [Idle None, Accepts 0] \<and> lc_tcpListener (ls_server s) = Some 0 \<and> fst (protocol_close (ls_server s)) = Ok ()"
proof -
  let ?E = "calm_env []" and ?cfg = "NewDefaultConfig ()"
  let ?s = "fold (pass ?E ?cfg) [0, 0, 0, 1] (go_to 0 Start_Manager (unstarted () 1))"
  have run: "(listener_step ?E ?cfg)\<^sup>*\<^sup>* (unstarted () 1) ?s"
    by (rule call_steps) (simp_all add: unstarted_def)
  have s: "ls_threads ?s = [Idle None, Accepts 0]" "lc_tcpListener (ls_server ?s) = Some 0"
    by (simp_all add: unstarted_def go_to_def pass_def turn_of_def calm_env_def new_lifecycle_def protocol_open_def
        on_manager_def on_part_def goseq_def gotry_def ret_def gets_def)
  then have "\<forall>a l. Resets a l \<notin> set (ls_threads ?s)" by simp
  with listener_invariant [OF run] have "fst (protocol_close (ls_server ?s)) = Ok ()" by blast
  with run s show ?thesis by blast
qed



end
