(* ===== verification/Store_Races.thy ===== *)
theory Store_Races
  imports Store_Row_Proofs
begin

text \<open>
  UPDATE under concurrent use (\<open>store/table.go\<close>). \<open>Update\<close> takes the lock of the table twice: \<open>Select\<close> locks and
  unlocks, and then the loop over the selected rows locks again. Rows are maps, so the selected rows are
  the table's own, wherever they are by then. Here \<open>Update\<close> is cut into these two sections, for goroutines
  that update one table; rows are named by their places, which neither section changes.
\<close>

section \<open>Two sections\<close>

text \<open>A goroutine before \<open>Select\<close>, between the sections with the rows it selected, and behind with its answer\<close>

datatype updating = Before | Selected "nat list" | Answered nat

record shared_table =
  st_table :: table
  st_at :: "nat \<Rightarrow> updating"

definition selected_rows :: "'x store_env_scheme \<Rightarrow> condition \<Rightarrow> table \<Rightarrow> nat list" where
  "selected_rows E cond tbl = filter (\<lambda>i. IsMatched E (tb_Rows tbl ! i) cond) [0..<length (tb_Rows tbl)]"

definition change_rows :: "column list \<Rightarrow> nat list \<Rightarrow> table \<Rightarrow> table" where
  "change_rows cols ids tbl =
     tbl\<lparr>tb_Rows := fold (\<lambda>i rows. rows[i := snd (row_Update cols (rows ! i))]) ids (tb_Rows tbl)\<rparr>"

text \<open>A section of the goroutine \<open>i\<close>, whose statement sets \<open>cols i\<close> where \<open>cond i\<close> holds\<close>

inductive update_section ::
    "'x store_env_scheme \<Rightarrow> (nat \<Rightarrow> column list) \<Rightarrow> (nat \<Rightarrow> condition) \<Rightarrow> nat \<Rightarrow> shared_table \<Rightarrow> shared_table \<Rightarrow> bool"
  for E cols cond i where
  selects: "st_at s i = Before \<Longrightarrow>
    update_section E cols cond i s (s\<lparr>st_at := (st_at s)(i := Selected (selected_rows E (cond i) (st_table s)))\<rparr>)"
| changes: "st_at s i = Selected ids \<Longrightarrow>
    update_section E cols cond i s
      (s\<lparr>st_table := change_rows (cols i) ids (st_table s), st_at := (st_at s)(i := Answered (length ids))\<rparr>)"

section \<open>One after the other\<close>

lemma length_change [simp]: "length (tb_Rows (change_rows cols ids tbl)) = length (tb_Rows tbl)"
proof -
  have "length (fold (\<lambda>i rows. rows[i := snd (row_Update cols (rows ! i))]) ids rows) = length rows" for rows
    by (induction ids arbitrary: rows) simp_all
  then show ?thesis by (simp add: change_rows_def)
qed

lemma change_rows_nth:
  assumes "distinct ids" "\<forall>i \<in> set ids. i < length (tb_Rows tbl)" "k < length (tb_Rows tbl)"
  shows "tb_Rows (change_rows cols ids tbl) ! k =
    (if k \<in> set ids then snd (row_Update cols (tb_Rows tbl ! k)) else tb_Rows tbl ! k)"
proof -
  have "fold (\<lambda>i rows. rows[i := snd (row_Update cols (rows ! i))]) ids rows ! k =
      (if k \<in> set ids then snd (row_Update cols (rows ! k)) else rows ! k)"
    if "\<forall>i \<in> set ids. i < length rows" "k < length rows" for rows
    using assms(1) that by (induction ids arbitrary: rows) (auto simp: nth_list_update)
  with assms(2,3) show ?thesis by (simp add: change_rows_def)
qed

lemma selected_rows_ok:
  "distinct (selected_rows E cond tbl)" "\<forall>i \<in> set (selected_rows E cond tbl). i < length (tb_Rows tbl)"
  "k < length (tb_Rows tbl) \<Longrightarrow> k \<in> set (selected_rows E cond tbl) \<longleftrightarrow> IsMatched E (tb_Rows tbl ! k) cond"
  by (simp_all add: selected_rows_def)

lemma length_selected: "length (selected_rows E cond tbl) = length (filter (\<lambda>row. IsMatched E row cond) (tb_Rows tbl))"
proof -
  have "filter (\<lambda>row. IsMatched E row cond) (map ((!) (tb_Rows tbl)) [0..<length (tb_Rows tbl)]) =
      map ((!) (tb_Rows tbl)) (selected_rows E cond tbl)"
    by (simp add: filter_map selected_rows_def o_def)
  then show ?thesis by (simp add: map_nth)
qed

text \<open>The two sections with nothing between them are \<open>Update\<close>.\<close>

lemma sections_add_up:
  assumes "\<And>row. \<not> is_panic (fst (row_Update cols row))"
  shows "table_Update E cols cond tbl = (Ok (length (selected_rows E cond tbl)), change_rows cols (selected_rows E cond tbl) tbl)"
proof -
  let ?rows = "map (\<lambda>row. if IsMatched E row cond then snd (row_Update cols row) else row) (tb_Rows tbl)"
  have "tb_Rows (change_rows cols (selected_rows E cond tbl) tbl) = ?rows"
    by (rule nth_equalityI)
      (simp_all add: change_rows_nth [OF selected_rows_ok(1,2)] selected_rows_ok(3))
  then have "change_rows cols (selected_rows E cond tbl) tbl = tbl\<lparr>tb_Rows := ?rows\<rparr>"
    by (simp add: change_rows_def)
  then show ?thesis
    by (simp add: table_Update_def update_rows_shape [OF assms] table_Select_def length_selected IsMatched_def)
qed

section \<open>Interleaved\<close>

lemma change_again:
  assumes "\<And>row. IsMatched E row cond \<Longrightarrow> \<not> IsMatched E (snd (row_Update cols row)) cond"
  shows "selected_rows E cond (change_rows cols (selected_rows E cond tbl) tbl) = []"
proof -
  have "\<not> IsMatched E (tb_Rows (change_rows cols (selected_rows E cond tbl) tbl) ! k) cond"
    if "k < length (tb_Rows tbl)" for k
    using that assms by (simp add: change_rows_nth [OF selected_rows_ok(1,2)] selected_rows_ok(3))
  then show ?thesis by (simp add: selected_rows_def filter_empty_conv)
qed

text \<open>
  Two updates of the same rows are not serialised. When both statements change every row that matches so
  that it no longer does, then one after the other, in either order, the second finds no row; but when
  both select before either changes, both answer with the number of rows that matched.
\<close>

theorem updates_interleave:
  assumes "i \<noteq> j" and "st_at s i = Before" and "st_at s j = Before" and "cond i = cond j"
    and "\<And>k row. \<not> is_panic (fst (row_Update (cols k) row))"
    and "\<And>k row. IsMatched E row (cond k) \<Longrightarrow> \<not> IsMatched E (snd (row_Update (cols k) row)) (cond k)"
  shows "let n = length (filter (\<lambda>row. IsMatched E row (cond i)) (tb_Rows (st_table s))) in
    (\<exists>s1 s2 s3 s4. update_section E cols cond i s s1 \<and> update_section E cols cond j s1 s2 \<and>
       update_section E cols cond i s2 s3 \<and> update_section E cols cond j s3 s4 \<and>
       st_at s4 i = Answered n \<and> st_at s4 j = Answered n) \<and>
    fst (table_Update E (cols j) (cond j) (snd (table_Update E (cols i) (cond i) (st_table s)))) = Ok 0 \<and>
    fst (table_Update E (cols i) (cond i) (snd (table_Update E (cols j) (cond j) (st_table s)))) = Ok 0"
proof -
  let ?ids = "selected_rows E (cond i) (st_table s)"
  define s1 where "s1 = s\<lparr>st_at := (st_at s)(i := Selected ?ids)\<rparr>"
  define s2 where "s2 = s1\<lparr>st_at := (st_at s1)(j := Selected ?ids)\<rparr>"
  define s3 where "s3 = s2\<lparr>st_table := change_rows (cols i) ?ids (st_table s2), st_at := (st_at s2)(i := Answered (length ?ids))\<rparr>"
  define s4 where "s4 = s3\<lparr>st_table := change_rows (cols j) ?ids (st_table s3), st_at := (st_at s3)(j := Answered (length ?ids))\<rparr>"
  have "update_section E cols cond i s s1" unfolding s1_def by (rule update_section.selects) (rule assms(2))
  moreover have "update_section E cols cond j s1 s2"
    using update_section.selects [of s1 j E cols cond] assms(1,3,4) by (simp add: s1_def s2_def)
  moreover have "update_section E cols cond i s2 s3"
    unfolding s3_def by (rule update_section.changes) (simp add: s2_def s1_def assms(1))
  moreover have "update_section E cols cond j s3 s4"
    unfolding s4_def by (rule update_section.changes) (use assms(1) in \<open>simp add: s3_def s2_def\<close>)
  moreover have "st_at s4 i = Answered (length ?ids)" "st_at s4 j = Answered (length ?ids)"
    using assms(1) by (simp_all add: s4_def s3_def)
  moreover have "fst (table_Update E (cols k) (cond i) (snd (table_Update E (cols l) (cond i) (st_table s)))) = Ok 0"
    if "cond l = cond i" for k l
    using change_again [of E "cond i" "cols l"] assms(6) [of _ l] that
    by (simp add: sections_add_up [OF assms(5)])
  ultimately show ?thesis unfolding Let_def length_selected [symmetric] using assms(4) by metis
qed

theorem updates_interleave_witness:
  "\<exists>s1 s2 s3 s4. let E = plain_env;
      cols = \<lambda>k. [\<lparr>col_Name = ''a'', col_HasValue = True, col_Value = VString (if k = 0 then ''p'' else ''q''), col_Function = None\<rparr>];
      cond = \<lambda>k. CmpExpr ''a'' EQ (VString ''y''); s = \<lparr>st_table = abc_table, st_at = \<lambda>k. Before\<rparr> in
    update_section E cols cond 0 s s1 \<and> update_section E cols cond 1 s1 s2 \<and> update_section E cols cond 0 s2 s3 \<and>
    update_section E cols cond 1 s3 s4 \<and> st_at s4 0 = Answered 1 \<and> st_at s4 1 = Answered 1"
proof -
  let ?cols = "\<lambda>k :: nat. [\<lparr>col_Name = ''a'', col_HasValue = True, col_Value = VString (if k = 0 then ''p'' else ''q''),
    col_Function = None\<rparr>]"
  let ?cond = "\<lambda>k :: nat. CmpExpr ''a'' EQ (VString ''y'')" and ?s = "\<lparr>st_table = abc_table, st_at = \<lambda>k. Before\<rparr>"
  have calm: "\<not> is_panic (fst (row_Update (?cols k) row))" for k row by (simp add: row_Update_def)
  have changed: "\<not> IsMatched plain_env (snd (row_Update (?cols k) row)) (?cond k)" for k row
    by (auto simp: row_Update_def IsMatched_def row_eq_def plain_env_def update_conv)
  have n: "length (filter (\<lambda>row. IsMatched plain_env row (?cond 0)) (tb_Rows (st_table ?s))) = 1"
    by (simp add: abc_table_def IsMatched_def row_eq_def plain_env_def)
  from updates_interleave [where E = plain_env and cols = ?cols and cond = ?cond and s = ?s and i = 0 and j = 1,
      OF _ _ _ _ calm changed]
  show ?thesis unfolding Let_def n by simp
qed

end
