(* ===== verification/Spec2Isabelle.thy ===== *)
theory Spec2Isabelle
  imports System_Tables Interleaving Daemon Whole_Connections Copy_Store Capture_Dump Tracing Prepared_Races Test_Support Many_Clients Ssl_Connections Listener_Steps Store_Races
begin

text \<open>
  A verification development of go-postgresql, a framework for PostgreSQL-compatible servers in Go.
  Paths are relative to \<open>src/\<close>; \<open>protocol/\<close>, \<open>stmt/\<close>, \<open>query/\<close>, \<open>system/\<close>, \<open>encoding/\<close> and \<open>errors/\<close> are
  under \<open>postgresql/\<close>.

  \<^bold>\<open>The program.\<close> A connection is read through a buffered reader. The protocol server negotiates SSL,
  reads the startup message, asks for a password, and loops over request messages: it peeks the type,
  parses the message, calls the message handler, writes the responses and, when nothing further has
  arrived, a ready message. The handler keeps prepared statements and portals per connection, binds
  parameters, runs the statements of a query on executors, and streams COPY. The default executors
  turn statements into calls of an SQL executor and its results into rows. The example server puts
  an in-memory store behind them, and a process around it that answers signals. Beside the server stands
  a program that prints the messages in a packet capture.

  \<^bold>\<open>Values, errors, state.\<close> Integers have their width (\<open>64 word\<close>, \<open>32 word\<close>, ...), a float is its IEEE bit
  pattern, a Go string is a list of byte-sized characters. A Go function that can fail returns
  \<open>Ok\<close>, \<open>Err\<close> with the text and the wrapped sentinels of the error, or \<open>Panic\<close> with the kind of run-time
  panic. Stateful code is \<open>'s \<Rightarrow> ('e, 'a) res \<times> 's\<close> (type \<open>gom\<close>); the state survives errors and panics,
  as it does in Go. Loops recurse structurally or on a measure. Two take fuel: \<open>ReadAtLeast\<close> of the
  library, whose fuel is the number of bytes asked for, each round reading at least one; and
  \<open>receive_loop\<close>, for which the number of bytes the client still sends plus one is proved enough; a
  conversation needs one round for each message.

  \<^bold>\<open>Theories.\<close>
  \<^item> \<open>Prelude\<close>: results, state passing, operations that keep a predicate, numbers as text.
    \<open>Go_Errors\<close>: the errors (\<open>errors/\<close>, \<open>protocol/errors.go\<close>). \<open>Encoding\<close>: \<open>encoding/bytes\<close>.
  \<^item> \<open>Go_Io\<close>: connections and byte slices as sources that deliver a stream in segments, with the
    locale \<open>io_reader\<close> of what \<open>io.ReadAtLeast\<close> needs. \<open>Reader\<close>: \<open>protocol/reader.go\<close>,
    \<open>message_reader.go\<close>. \<open>Wire\<close>: parsers that consume exactly an encoding, in the locale \<open>reader_class\<close>,
    interpreted for readers of any segmentation, of one segment, and of a session.
  \<^item> \<open>Msg_Types\<close>, \<open>Messages\<close>, \<open>Requests\<close>, \<open>Startup\<close>, \<open>Copy_Stream\<close>: the request messages; \<open>Request_Proofs\<close>,
    \<open>Bind_Proofs\<close>: round trips on every segmentation, and what splits, negative counts and short
    values do.
  \<^item> \<open>Go_Values\<close>, \<open>System_Types\<close>, \<open>System_Tables\<close>: the values of columns and the tables of \<open>system/\<close>.
    \<open>Responses\<close>, \<open>Data_Rows\<close>, \<open>Response_Proofs\<close>: the responses and their bytes, decoded by a client
    written from the protocol documentation. \<open>Rows\<close>: \<open>query/\<close>, result sets and binding.
  \<^item> \<open>Conn\<close>: \<open>protocol/conn_impl.go\<close>, with the transaction lock as locale \<open>tx_lock\<close>. \<open>Prepared\<close>: \<open>stmt/\<close>,
    with the locale \<open>keyed_store\<close> of statements and portals. \<open>Executors\<close>: \<open>executor*.go\<close>.
    \<open>Query_Handler\<close>: \<open>server_query_handler.go\<close>. \<open>Progress\<close>: reading never lengthens the stream.
    \<open>Copy_Query\<close>: \<open>copy.go\<close>. \<open>Handler_Proofs\<close>: transactions, prepared execution, errors.
  \<^item> \<open>Server_Loop\<close>: \<open>protocol/server_impl.go\<close>, the life of one connection. \<open>Server_Proofs\<close>: the loop ends.
    \<open>Session_Proofs\<close>, \<open>Sessions\<close>, \<open>Dialogues\<close>, \<open>Startup_Proofs\<close>: what a client gets for what it sends, as a
    refinement of a specification over statements and responses that knows no readers.
    \<open>Interleaving\<close>: several connections taking turns, and what they cannot do to each other.
    \<open>Prepared_Races\<close>: the accesses of \<open>SetPreparedStatement\<close> to the map all connections share.
  \<^item> \<open>Client_Protocol\<close>: the protocol as a client knows it, messages, answers and their meaning for prepared
    statements, portals and the transaction, without readers and buffers. \<open>Arrivals\<close>: bytes that come
    later do not disturb a request that is complete. \<open>Conversations\<close>: the server refines \<open>Client_Protocol\<close>,
    message by message and batch by batch, for executors that keep a contract;
    \<open>Served_Conversations\<close>: the program's executors keep it, and a prepared INSERT from the bytes to the
    table. \<open>Whole_Connections\<close>: startup and password before, the end behind a conversation.
    \<open>Ssl_Connections\<close>: connections that ask for TLS first, declined, in a tunnel, and refused.
  \<^item> \<open>Fair_Serving\<close>: all connections of a server with their deferred calls and the registry, run by a
    schedule of whole startups and rounds; the turns of one of them add up to \<open>receive\<close>, and under a fair
    schedule all come to their end. \<open>Many_Clients\<close>: conversations whose rounds do not overlap refine a world of
    clients in which messages take effect one at a time, in the locale \<open>client_server\<close>, interpreted on the example server.
  \<^item> \<open>Tracing\<close>: the tracer context of a connection and the spans of the request loop, as events.
  \<^item> \<open>Server_Setup\<close>: the configuration and the setters of \<open>server_impl.go\<close>, as the executors that are in
    force after them. \<open>Server_Lifecycle\<close>: \<open>Start\<close>, \<open>Stop\<close>, \<open>Restart\<close> and the accepting goroutine as an
    inductive step relation over whole operations. \<open>Listener_Steps\<close>: the same, cut into the accesses of the
    unlocked field of the socket, each goroutine with its place in the code; the invariant that survives, the
    outcomes of a \<open>Stop\<close>, and the steps of an undisturbed \<open>Stop\<close> adding up to the operation.
  \<^item> \<open>Pgbench\<close>: \<open>pgbench.go\<close> and the parser error handler of the example. \<open>Store_Tables\<close>, \<open>Store\<close>: the store
    of the example (\<open>examples/go-postgresqld/server/store\<close>), rows as association lists, the slice that
    \<open>Delete\<close> shrinks while it ranges over it as an array with a length. \<open>Store_Table_Proofs\<close>,
    \<open>Store_Row_Proofs\<close>, \<open>Store_Proofs\<close>: what the statements do to the tables, with tables by name as the
    locale \<open>table_map\<close>. \<open>Store_Races\<close>: UPDATE cut at the lock it lets go of. \<open>Example_Server\<close>: the store as SQL executor, COPY, \<open>NewServer\<close>, and statements
    through the whole server. \<open>Copy_Store\<close>: COPY from the bytes of the query and its rows to the table, over
    the readers of the locale \<open>peeking\<close>. \<open>Daemon\<close>: \<open>examples/go-postgresqld/main.go\<close>, the process as a step
    relation of its main goroutine, its signal handler and the server's goroutines.
  \<^item> \<open>Capture_Dump\<close>: \<open>bin/pgpcapdump/main.go\<close>, with the buffers and slices it reads the payloads from.
    \<open>Test_Support\<close>: the benchmark runner and the credential store of \<open>postgresqltest/\<close>.

  \<^bold>\<open>What the properties show.\<close> The server refines the protocol of its clients: every conversation, simple
  and extended protocol alike, batches that wait for their answers or arrive together, is answered byte
  for byte as \<open>Client_Protocol\<close> says, from the startup message to the end of the connection, with or without TLS;
  the loop always ends; this holds of any number of clients whose rounds are taken one after the other, in any
  order, and when each gets its turns again and again every connection comes to its end and is closed; inside TLS the
  network below gets nothing from the server but the one byte of its answer; tracing changes nothing of this; connections are
  isolated from each other under every interleaving of their rounds; requests, rows and COPY data survive encoding and decoding on every
  segmentation, the parameters of a Bind message by the position of their format codes, and bound statements
  have them in their columns and rows; the store keeps its invariant, INSERT appends, SELECT returns what was inserted, DELETE
  with a condition removes exactly the matching rows, COPY inserts every row in order; the dump prints the
  messages of a client however they were cut into packets. Several properties state faults of the code
  as they are: a session without or with a refused password is opened, COMMIT without BEGIN and negative
  counts end the process, COPY without rows is refused, DELETE without a condition leaves rows, a
  short unparsable query ends the example server, a process that cannot listen runs on without a socket, a
  restart can lose its socket, a stop can end the process with a panic, the first prepared statement of a connection races with every other connection, spans
  of pipelined messages are not finished, a dump without responses crashes.

  \<^bold>\<open>Bounds.\<close> Round trips of messages hold for payloads whose length fits the 32-bit length field, and for
  strings without a NUL. Responses are decoded under the same bounds, stated in the theorems.

  \<^bold>\<open>Parameters.\<close> The SQL parser package (statements, schemas, result sets, aggregators, binding of
  literals), the casts of the safecast package, the authenticator, TLS, the registry of connections,
  the packets of a capture, the order in which a Go map is visited and the ids of connections are
  arguments of the definitions that use them. The tracing library and the registry in \<open>Fair_Serving\<close> are
  seen as the sequence of calls they get.

  \<^bold>\<open>Not modelled.\<close> Logging, time stamps and the text form of connections; the aliases in \<open>auth/\<close>, \<open>net/\<close>,
  \<open>query/alias.go\<close>, and constants nothing reads; the web server, one call of the HTTP package; the
  test helpers that only drive database clients and a benchmark library.

  \<^bold>\<open>What is one step.\<close> A round of a connection, a statement on the store and, in \<open>Server_Lifecycle\<close> and \<open>Daemon\<close>, an
  operation of the server are single steps where several goroutines are in play. The code does not make them so:
  the maps of prepared statements, databases and tables have no lock, \<open>Update\<close> and \<open>Delete\<close> of a table unlock it
  between the selection and the change, and the field of the listening socket has no lock. Whatever is said of
  all orders of such steps holds while they do not overlap, and the texts say so. Three theories cut them:
  \<open>Prepared_Races\<close> the one operation that writes the map of statements, \<open>Store_Races\<close> an UPDATE, and
  \<open>Listener_Steps\<close> starting, stopping and serving; what these say of the code does not rest on larger steps. What Go
  does after two goroutines have been at one map at once is undefined and not modelled.
\<close>

end
